(* ===== verification/Go_Prelude.thy ===== *)
theory Go_Prelude
  imports Main "HOL-Library.Word"
begin

unbundle bit_operations_syntax

text \<open>
  The vocabulary shared by all theories of the development: the fixed-width integers of Go,
  results that are either an error or a value, byte slices with big-endian reads and writes
  (package \<open>encoding/binary\<close>), and the generic lemmas about lists and words that the
  component proofs use.

  A byte slice \<open>[]byte\<close> is a list of 8-bit words. A Go function that returns
  \<open>(value, error)\<close> returns \<open>Inl e\<close> where the code returns a non-nil error and
  \<open>Inr v\<close> otherwise.
\<close>

section \<open>Types\<close>

type_synonym byte = "8 word"
type_synonym bytes = "8 word list"
type_synonym u16 = "16 word"
type_synonym u32 = "32 word"
type_synonym u64 = "64 word"

text \<open>Facts used to evaluate the models on concrete inputs.\<close>

named_theorems eval_defs

section \<open>Results\<close>

definition rbind :: "'e + 'a \<Rightarrow> ('a \<Rightarrow> 'e + 'b) \<Rightarrow> 'e + 'b" where
  "rbind m f = (case m of Inl e \<Rightarrow> Inl e | Inr x \<Rightarrow> f x)"

lemma rbind_simps [simp]: "rbind (Inl e) f = Inl e" "rbind (Inr x) f = f x"
  by (simp_all add: rbind_def)

lemma rbind_Inr_iff: "rbind m f = Inr y \<longleftrightarrow> (\<exists>x. m = Inr x \<and> f x = Inr y)"
  by (cases m) auto

lemma rbind_Inl_iff: "rbind m f = Inl e \<longleftrightarrow> m = Inl e \<or> (\<exists>x. m = Inr x \<and> f x = Inl e)"
  by (cases m) auto

lemma rbind_cong [fundef_cong]:
  "m = m' \<Longrightarrow> (\<And>x. m' = Inr x \<Longrightarrow> f x = f' x) \<Longrightarrow> rbind m f = rbind m' f'"
  by (cases m') auto

text \<open>A loop that collects the results of its steps and returns the first error.\<close>

fun collect :: "('a \<Rightarrow> 'e + 'b) \<Rightarrow> 'a list \<Rightarrow> 'e + 'b list" where
  "collect f [] = Inr []"
| "collect f (x # xs) = rbind (f x) (\<lambda>y. rbind (collect f xs) (\<lambda>ys. Inr (y # ys)))"

lemma collect_Inr_iff: "collect f xs = Inr ys \<longleftrightarrow> list_all2 (\<lambda>x y. f x = Inr y) xs ys"
  by (induction xs arbitrary: ys) (auto simp: rbind_Inr_iff list_all2_Cons1)

lemma collect_map: "(\<And>x. x \<in> set xs \<Longrightarrow> f x = Inr (g x)) \<Longrightarrow> collect f xs = Inr (map g xs)"
  by (induction xs) simp_all

lemma collect_comp: "collect f (map g xs) = collect (f \<circ> g) xs"
  by (induction xs) simp_all

lemma enumerate_map: "enumerate n (map f xs) = map (\<lambda>(i, x). (i, f x)) (enumerate n xs)"
  by (induction xs arbitrary: n) simp_all

section \<open>Slices\<close>

text \<open>\<open>slice i j xs\<close> is Go's \<open>xs[i:j]\<close> where \<open>i \<le> j \<le> len(xs)\<close>.\<close>

definition slice :: "nat \<Rightarrow> nat \<Rightarrow> 'a list \<Rightarrow> 'a list" where
  "slice i j xs = take (j - i) (drop i xs)"

lemma length_slice [simp]: "j \<le> length xs \<Longrightarrow> length (slice i j xs) = j - i"
  by (simp add: slice_def)

lemma nth_slice: "j \<le> length xs \<Longrightarrow> k < j - i \<Longrightarrow> slice i j xs ! k = xs ! (i + k)"
  by (simp add: slice_def)

lemma slice_append_left: "j \<le> length xs \<Longrightarrow> slice i j (xs @ ys) = slice i j xs"
proof (cases "i \<le> j")
  case True
  then show "j \<le> length xs \<Longrightarrow> slice i j (xs @ ys) = slice i j xs"
    by (simp add: slice_def)
qed (simp add: slice_def)

lemma slice_append_right:
  "length xs \<le> i \<Longrightarrow> slice i j (xs @ ys) = slice (i - length xs) (j - length xs) ys"
  by (cases "length xs \<le> j") (simp_all add: slice_def)

lemma slice_all [simp]: "slice 0 (length xs) xs = xs"
  by (simp add: slice_def)

lemma slice_0_take: "slice 0 j xs = take j xs"
  by (simp add: slice_def)

lemma slice_end: "slice i (length xs) xs = drop i xs"
  by (simp add: slice_def)

lemma take_slice_drop: "i \<le> j \<Longrightarrow> take i xs @ slice i j xs @ drop j xs = xs"
proof -
  assume "i \<le> j"
  then have "drop j xs = drop (j - i) (drop i xs)" by simp
  then show ?thesis
    unfolding slice_def by (metis append_take_drop_id)
qed

lemma list_eq_nthI:
  "length xs = length ys \<Longrightarrow> (\<And>i. i < length ys \<Longrightarrow> xs ! i = ys ! i) \<Longrightarrow> xs = ys"
  by (rule nth_equalityI) auto

lemma map_list_update_same: "f x = f (xs ! i) \<Longrightarrow> map f (xs[i := x]) = map f xs"
proof (cases "i < length xs")
  case True
  assume "f x = f (xs ! i)"
  with True have "f x = map f xs ! i" by simp
  then show ?thesis by (simp only: map_update list_update_id)
qed (simp add: list_update_beyond)

section \<open>Big-endian integers\<close>

definition be_u16 :: "byte \<Rightarrow> byte \<Rightarrow> u16" where
  "be_u16 a b = push_bit 8 (ucast a) OR ucast b"

definition be_u32 :: "byte \<Rightarrow> byte \<Rightarrow> byte \<Rightarrow> byte \<Rightarrow> u32" where
  "be_u32 a b c d =
     push_bit 24 (ucast a) OR push_bit 16 (ucast b) OR push_bit 8 (ucast c) OR ucast d"

text \<open>\<open>binary.BigEndian.Uint16(bs[i:i+2])\<close> and \<open>Uint32(bs[i:i+4])\<close>; every use below is
  guarded by the length check the code makes.\<close>

definition get_u16 :: "nat \<Rightarrow> bytes \<Rightarrow> u16" where
  "get_u16 i bs = be_u16 (bs ! i) (bs ! (i + 1))"

definition get_u32 :: "nat \<Rightarrow> bytes \<Rightarrow> u32" where
  "get_u32 i bs = be_u32 (bs ! i) (bs ! (i + 1)) (bs ! (i + 2)) (bs ! (i + 3))"

definition put_u16 :: "nat \<Rightarrow> u16 \<Rightarrow> bytes \<Rightarrow> bytes" where
  "put_u16 i v bs = bs[i := ucast (drop_bit 8 v), i + 1 := ucast v]"

definition put_u32 :: "nat \<Rightarrow> u32 \<Rightarrow> bytes \<Rightarrow> bytes" where
  "put_u32 i v bs = bs[i := ucast (drop_bit 24 v), i + 1 := ucast (drop_bit 16 v),
     i + 2 := ucast (drop_bit 8 v), i + 3 := ucast v]"

lemma be_u16_split: "be_u16 (ucast (drop_bit 8 v)) (ucast v) = v"
proof (rule bit_word_eqI)
  fix n assume "n < LENGTH(16)"
  then show "bit (be_u16 (ucast (drop_bit 8 v)) (ucast v)) n = bit v n"
    by (auto simp: be_u16_def bit_simps)
qed

lemma be_u32_split:
  "be_u32 (ucast (drop_bit 24 v)) (ucast (drop_bit 16 v)) (ucast (drop_bit 8 v)) (ucast v) = v"
proof (rule bit_word_eqI)
  fix n assume "n < LENGTH(32)"
  then have "n < 8 \<or> 8 \<le> n \<and> n < 16 \<or> 16 \<le> n \<and> n < 24 \<or> 24 \<le> n \<and> n < 32"
    by auto
  then show "bit (be_u32 (ucast (drop_bit 24 v)) (ucast (drop_bit 16 v))
      (ucast (drop_bit 8 v)) (ucast v)) n = bit v n"
    by (elim disjE) (auto simp: be_u32_def bit_simps)
qed

lemma length_put_u16 [simp]: "length (put_u16 i v bs) = length bs"
  by (simp add: put_u16_def)

lemma length_put_u32 [simp]: "length (put_u32 i v bs) = length bs"
  by (simp add: put_u32_def)

lemma get_put_u16 [simp]: "i + 1 < length bs \<Longrightarrow> get_u16 i (put_u16 i v bs) = v"
  using be_u16_split [of v] by (simp add: get_u16_def put_u16_def nth_list_update)

lemma get_put_u32 [simp]: "i + 3 < length bs \<Longrightarrow> get_u32 i (put_u32 i v bs) = v"
  using be_u32_split [of v] by (simp add: get_u32_def put_u32_def nth_list_update)

lemma nth_put_u16_neq [simp]: "j \<noteq> i \<Longrightarrow> j \<noteq> i + 1 \<Longrightarrow> put_u16 i v bs ! j = bs ! j"
  by (simp add: put_u16_def)

lemma nth_put_u32_neq [simp]: "j < i \<or> i + 4 \<le> j \<Longrightarrow> put_u32 i v bs ! j = bs ! j"
  by (auto simp: put_u32_def)

lemma be_u16_parts: "ucast (drop_bit 8 (be_u16 a b)) = a" "ucast (be_u16 a b) = b"
  by (rule bit_word_eqI, auto simp: be_u16_def bit_simps dest: bit_imp_le_length)+

lemma put_get_u16 [simp]: "put_u16 i (get_u16 i bs) bs = bs"
  by (simp add: put_u16_def get_u16_def be_u16_parts)

lemma put_u16_append:
  "i + 1 < length xs \<Longrightarrow> put_u16 i v (xs @ ys) = put_u16 i v xs @ ys"
  by (simp add: put_u16_def list_update_append)

lemma byte_less_256: "unat (b :: byte) < 256"
proof -
  have "unat b < 2 ^ LENGTH(8)" by (rule unsigned_less)
  then show ?thesis by simp
qed

lemma u16_less_65536: "unat (v :: u16) < 65536"
proof -
  have "unat v < 2 ^ LENGTH(16)" by (rule unsigned_less)
  then show ?thesis by simp
qed

lemma unat_ucast_byte16 [simp]: "unat (ucast (b :: byte) :: u16) = unat b"
  using byte_less_256 [of b]
  by (simp add: unsigned_ucast_eq take_bit_nat_eq_self_iff)

lemma unat_of_nat_byte: "n < 256 \<Longrightarrow> unat (of_nat n :: byte) = n"
  by (simp add: unat_of_nat take_bit_nat_eq_self_iff)

lemma take_bit_byte_self: "unat (x :: byte) < 2 ^ k \<Longrightarrow> take_bit k x = x"
  by (simp add: word_unat_eq_iff unsigned_take_bit_eq take_bit_nat_eq_self_iff)

lemma high_bits_clear: "unat (x :: byte) < 2 ^ k \<Longrightarrow> k \<le> n \<Longrightarrow> \<not> bit x n"
  by (metis bit_take_bit_iff not_le take_bit_byte_self)

lemma u32_less: "unat (v :: u32) < 4294967296"
proof -
  have "unat v < 2 ^ LENGTH(32)" by (rule unsigned_less)
  then show ?thesis by simp
qed

lemma unat_ucast_u16_u32 [simp]: "unat (ucast (v :: u16) :: u32) = unat v"
  using u16_less_65536 [of v] by (simp add: unsigned_ucast_eq take_bit_nat_eq_self_iff)

lemma unat_not16: "unat (NOT (v :: u16)) = 65535 - unat v"
proof -
  have "NOT v = - 1 - v" by (simp add: not_eq_complement)
  moreover have "unat (- 1 - v) = unat (- 1 :: u16) - unat v"
    by (rule unat_sub) simp
  ultimately show ?thesis by (simp add: unsigned_minus_1_eq_mask mask_eq_exp_minus_1)
qed

lemma unat_be_u16: "unat (be_u16 a b) = 256 * unat a + unat b"
proof -
  have "push_bit 8 (ucast a) AND (ucast b :: u16) = 0"
    by (rule bit_word_eqI) (auto simp: bit_simps dest: bit_imp_le_length)
  then have "be_u16 a b = push_bit 8 (ucast a) + ucast b"
    unfolding be_u16_def by (simp add: disjunctive_add_eq_or)
  moreover have "unat (push_bit 8 (ucast a :: u16)) = 256 * unat a"
    using byte_less_256 [of a] by (simp add: push_bit_eq_mult unat_word_ariths)
  moreover have "256 * unat a + unat b < 65536"
    using byte_less_256 [of a] byte_less_256 [of b] by linarith
  ultimately show ?thesis
    by (simp add: unat_word_ariths)
qed

lemma unat_get_u16: "unat (get_u16 i bs) = 256 * unat (bs ! i) + unat (bs ! (i + 1))"
  by (simp add: get_u16_def unat_be_u16)

end
