(* ===== verification/Go_Strings.thy ===== *)
theory Go_Strings
  imports Go_Prelude "HOL-Library.Char_ord"
begin

text \<open>The functions of Go's \<^verbatim>\<open>strings\<close> and \<^verbatim>\<open>strconv\<close> packages the modelled code calls.

  A Go string is a sequence of bytes; here it is a \<^typ>\<open>string\<close>, a list of \<^typ>\<open>char\<close>, each a
  byte.  \<^verbatim>\<open>TrimSpace\<close>, \<^verbatim>\<open>ToLower\<close>, \<^verbatim>\<open>ToUpper\<close> and \<^verbatim>\<open>EqualFold\<close> are modelled on the ASCII
  range: a byte from 128 on is neither a space nor a letter with another case.  The code applies them
  to SIP header tokens, algorithm names and numbers, which are ASCII.  \<^verbatim>\<open>int\<close> is the 64-bit integer
  of the platforms the program is built for.\<close>

section \<open>Characters\<close>

definition is_space :: "char \<Rightarrow> bool" where
  "is_space c \<longleftrightarrow> (let n = of_char c :: nat in n = 32 \<or> (9 \<le> n \<and> n \<le> 13))"

definition is_digit :: "char \<Rightarrow> bool" where
  "is_digit c \<longleftrightarrow> (let n = of_char c :: nat in 48 \<le> n \<and> n \<le> 57)"

definition lower_char :: "char \<Rightarrow> char" where
  "lower_char c = (let n = of_char c :: nat in if 65 \<le> n \<and> n \<le> 90 then char_of (n + 32) else c)"

definition upper_char :: "char \<Rightarrow> char" where
  "upper_char c = (let n = of_char c :: nat in if 97 \<le> n \<and> n \<le> 122 then char_of (n - 32) else c)"

lemma lower_char_idem [simp]: "lower_char (lower_char c) = lower_char c"
  by (simp add: lower_char_def Let_def)

lemma is_digit_not_space: "is_digit c \<Longrightarrow> \<not> is_space c"
  by (auto simp: is_digit_def is_space_def Let_def)

lemma is_space_lower [simp]: "is_space (lower_char c) = is_space c"
  by (auto simp: is_space_def lower_char_def Let_def)

section \<open>Trimming, case and searching\<close>

text \<open>\<^verbatim>\<open>strings.TrimFunc\<close>: the longest prefix and suffix satisfying the predicate are cut.\<close>

definition trim_by :: "(char \<Rightarrow> bool) \<Rightarrow> string \<Rightarrow> string" where
  "trim_by q s = rev (dropWhile q (rev (dropWhile q s)))"

definition TrimSpace :: "string \<Rightarrow> string" where
  "TrimSpace s = trim_by is_space s"

text \<open>\<^verbatim>\<open>strings.Trim(s, cutset)\<close>.\<close>

definition Trim :: "string \<Rightarrow> string \<Rightarrow> string" where
  "Trim s cutset = trim_by (\<lambda>c. c \<in> set cutset) s"

definition ToLower :: "string \<Rightarrow> string" where
  "ToLower s = map lower_char s"

definition ToUpper :: "string \<Rightarrow> string" where
  "ToUpper s = map upper_char s"

definition EqualFold :: "string \<Rightarrow> string \<Rightarrow> bool" where
  "EqualFold s t \<longleftrightarrow> ToLower s = ToLower t"

definition HasPrefix :: "string \<Rightarrow> string \<Rightarrow> bool" where
  "HasPrefix s pre \<longleftrightarrow> take (length pre) s = pre"

definition TrimPrefix :: "string \<Rightarrow> string \<Rightarrow> string" where
  "TrimPrefix s pre = (if HasPrefix s pre then drop (length pre) s else s)"

text \<open>\<^verbatim>\<open>strings.Cut\<close>, \<^verbatim>\<open>strings.Split\<close> and \<^verbatim>\<open>strings.ReplaceAll(s, c, "")\<close> for a separator of one
  character.\<close>

fun Cut :: "string \<Rightarrow> char \<Rightarrow> string \<times> string \<times> bool" where
  "Cut [] sep = ([], [], False)"
| "Cut (c # s) sep =
     (if c = sep then ([], s, True)
      else (let (before, after, found) = Cut s sep in (c # before, after, found)))"

fun Split :: "string \<Rightarrow> char \<Rightarrow> string list" where
  "Split [] sep = [[]]"
| "Split (c # s) sep =
     (if c = sep then [] # Split s sep
      else (case Split s sep of [] \<Rightarrow> [[c]] | part # rest \<Rightarrow> (c # part) # rest))"

definition RemoveAll :: "string \<Rightarrow> char \<Rightarrow> string" where
  "RemoveAll s sep = filter (\<lambda>c. c \<noteq> sep) s"

fun Join :: "string list \<Rightarrow> string \<Rightarrow> string" where
  "Join [] sep = []"
| "Join [s] sep = s"
| "Join (s # t # ss) sep = s @ sep @ Join (t # ss) sep"

lemma dropWhile_id: "(\<forall>c \<in> set s. \<not> q c) \<Longrightarrow> dropWhile q s = s"
  by (cases s) auto

lemma dropWhile_hd: "s \<noteq> [] \<Longrightarrow> \<not> q (hd s) \<Longrightarrow> dropWhile q s = s"
  by (cases s) auto

lemma trim_by_id: "s \<noteq> [] \<Longrightarrow> \<not> q (hd s) \<Longrightarrow> \<not> q (List.last s) \<Longrightarrow> trim_by q s = s"
  by (simp add: trim_by_def dropWhile_hd hd_rev)

lemma trim_by_none: "(\<forall>c \<in> set s. \<not> q c) \<Longrightarrow> trim_by q s = s"
  by (simp add: trim_by_def dropWhile_id)

lemma trim_by_Nil [simp]: "trim_by q [] = []"
  by (simp add: trim_by_def)

lemma trim_by_Cons: "q c \<Longrightarrow> trim_by q (c # s) = trim_by q s"
  by (simp add: trim_by_def)

lemma dropWhile_snoc: "\<not> q x \<Longrightarrow> dropWhile q (s @ [x]) = dropWhile q s @ [x]"
  by (induction s) auto

lemma trim_by_ends:
  assumes "trim_by q s \<noteq> []" shows "\<not> q (hd (trim_by q s))" "\<not> q (List.last (trim_by q s))"
proof -
  let ?a = "dropWhile q s"
  have ne: "dropWhile q (rev ?a) \<noteq> []" using assms by (simp add: trim_by_def)
  then show "\<not> q (List.last (trim_by q s))" by (simp add: trim_by_def last_rev hd_dropWhile)
  have ane: "?a \<noteq> []" using ne by (metis dropWhile.simps(1) rev.simps(1))
  then obtain x r where xr: "?a = x # r" by (cases ?a) auto
  then have nx: "\<not> q x" using hd_dropWhile [OF ane] by (simp only: list.sel not_False_eq_True)
  then have "dropWhile q (rev ?a) = dropWhile q (rev r) @ [x]"
    unfolding xr rev.simps by (rule dropWhile_snoc)
  then show "\<not> q (hd (trim_by q s))" using nx by (simp add: trim_by_def)
qed

lemma trim_by_idem [simp]: "trim_by q (trim_by q s) = trim_by q s"
  by (cases "trim_by q s = []") (simp_all add: trim_by_ends trim_by_id)

lemma set_trim_by: "set (trim_by q s) \<subseteq> set s"
  unfolding trim_by_def set_rev by (metis set_dropWhileD set_rev subsetI)

lemma TrimSpace_idem [simp]: "TrimSpace (TrimSpace s) = TrimSpace s"
  by (simp add: TrimSpace_def)

lemma ToLower_idem [simp]: "ToLower (ToLower s) = ToLower s"
  by (simp add: ToLower_def)

lemma Cut_found: "sep \<notin> set s \<Longrightarrow> Cut (s @ sep # t) sep = (s, t, True)"
  by (induction s) auto

lemma Cut_none: "sep \<notin> set s \<Longrightarrow> Cut s sep = (s, [], False)"
  by (induction s) auto

lemma Split_not_Nil [simp]: "Split s sep \<noteq> []"
  by (cases s) (auto split: list.splits)

lemma Split_none: "sep \<notin> set s \<Longrightarrow> Split s sep = [s]"
  by (induction s) auto

lemma Split_append: "sep \<notin> set s \<Longrightarrow> Split (s @ sep # t) sep = s # Split t sep"
  by (induction s) auto

section \<open>Numbers\<close>

function dec :: "nat \<Rightarrow> string" where
  "dec n = (if n < 10 then [char_of (48 + n)] else dec (n div 10) @ [char_of (48 + n mod 10)])"
  by auto
termination by (relation "measure id") auto

declare dec.simps [simp del]

text \<open>\<^verbatim>\<open>%d\<close> and \<^verbatim>\<open>strconv.Itoa\<close> of a signed integer.\<close>

definition Itoa :: "int \<Rightarrow> string" where
  "Itoa i = (if i < 0 then CHR ''-'' # dec (nat (- i)) else dec (nat i))"

definition digit_val :: "nat \<Rightarrow> char \<Rightarrow> nat option" where
  "digit_val base c =
     (let n = of_char c :: nat;
          d = (if 48 \<le> n \<and> n \<le> 57 then n - 48
               else if 97 \<le> n \<and> n \<le> 122 then n - 87
               else if 65 \<le> n \<and> n \<le> 90 then n - 55 else base)
      in if d < base then Some d else None)"

fun parse_digits :: "nat \<Rightarrow> nat \<Rightarrow> string \<Rightarrow> nat option" where
  "parse_digits base acc [] = Some acc"
| "parse_digits base acc (c # s) =
     (case digit_val base c of None \<Rightarrow> None | Some d \<Rightarrow> parse_digits base (acc * base + d) s)"

text \<open>\<^verbatim>\<open>strconv.ParseUint(s, base, bits)\<close> for an explicit base; \<^term>\<open>None\<close> stands for its syntax
  error and for its range error.\<close>

definition ParseUint :: "string \<Rightarrow> nat \<Rightarrow> nat \<Rightarrow> nat option" where
  "ParseUint s base bits =
     (if s = [] then None
      else case parse_digits base 0 s of
        None \<Rightarrow> None
      | Some n \<Rightarrow> if n < 2 ^ bits then Some n else None)"

text \<open>\<^verbatim>\<open>strconv.Atoi\<close>.\<close>

definition Atoi :: "string \<Rightarrow> int option" where
  "Atoi s =
     (let (neg, body) = (case s of
        [] \<Rightarrow> (False, [])
      | c # r \<Rightarrow> if c = CHR ''-'' then (True, r) else if c = CHR ''+'' then (False, r) else (False, s))
      in if body = [] then None
         else case parse_digits 10 0 body of
           None \<Rightarrow> None
         | Some n \<Rightarrow>
             if neg then (if n \<le> 2 ^ 63 then Some (- int n) else None)
             else (if n < 2 ^ 63 then Some (int n) else None))"

lemma digit_val_dec: "d < 10 \<Longrightarrow> digit_val 10 (char_of (48 + d)) = Some d"
  by (simp add: digit_val_def Let_def)

lemma parse_digits_append: "parse_digits b acc (s @ t) =
    (case parse_digits b acc s of None \<Rightarrow> None | Some n \<Rightarrow> parse_digits b n t)"
  by (induction s arbitrary: acc) (auto split: option.splits)

lemma parse_digits_dec: "\<exists>k. \<forall>acc. parse_digits 10 acc (dec n) = Some (acc * 10 ^ k + n)"
proof (induction n rule: dec.induct)
  case (1 n)
  show ?case
  proof (cases "n < 10")
    case True
    then show ?thesis by (intro exI [of _ 1]) (simp add: dec.simps digit_val_dec)
  next
    case False
    with 1 obtain k where "\<forall>acc. parse_digits 10 acc (dec (n div 10)) = Some (acc * 10 ^ k + n div 10)"
      by auto
    then show ?thesis using False
      by (intro exI [of _ "Suc k"]) (simp add: dec.simps [of n] parse_digits_append digit_val_dec algebra_simps)
  qed
qed

lemma parse_digits_dec_0 [simp]: "parse_digits 10 0 (dec n) = Some n"
  using parse_digits_dec [of n] by auto

lemma dec_not_Nil [simp]: "dec n \<noteq> []"
  by (simp add: dec.simps)

lemma dec_digits: "c \<in> set (dec n) \<Longrightarrow> is_digit c"
proof (induction n rule: dec.induct)
  case (1 n)
  then show ?case
    by (cases "n < 10") (auto simp: dec.simps [of n] is_digit_def Let_def)
qed

lemma ParseUint_dec [simp]: "n < 2 ^ bits \<Longrightarrow> ParseUint (dec n) 10 bits = Some n"
  by (simp add: ParseUint_def)

lemma Atoi_dec: "n < 2 ^ 63 \<Longrightarrow> Atoi (dec n) = Some (int n)"
proof -
  assume n: "n < 2 ^ 63"
  obtain c r where d: "dec n = c # r" by (cases "dec n") auto
  then have "is_digit c" using dec_digits [of c n] by simp
  then have "c \<noteq> CHR ''-''" "c \<noteq> CHR ''+''" by (auto simp: is_digit_def)
  then have "(case dec n of [] \<Rightarrow> (False, []) | c # r \<Rightarrow> if c = CHR ''-'' then (True, r)
      else if c = CHR ''+'' then (False, r) else (False, dec n)) = (False, dec n)" by (simp add: d)
  then show ?thesis using n by (simp only: Atoi_def Let_def prod.case dec_not_Nil if_False parse_digits_dec_0
    option.case if_True)
qed

lemma Atoi_Itoa: "- (2 ^ 63) \<le> i \<Longrightarrow> i < 2 ^ 63 \<Longrightarrow> Atoi (Itoa i) = Some i"
proof (cases "i < 0")
  case True
  assume "- (2 ^ 63) \<le> i"
  then have "nat (- i) \<le> 2 ^ 63" by (simp add: nat_le_iff)
  then show ?thesis using True by (simp add: Itoa_def Atoi_def)
next
  case False
  assume "i < 2 ^ 63"
  then have "nat i < 2 ^ 63" using False by (simp add: nat_less_iff)
  then show ?thesis using False by (simp add: Itoa_def Atoi_dec)
qed

lemma ParseUint_less: "ParseUint s b bits = Some n \<Longrightarrow> n < 2 ^ bits"
  by (auto simp: ParseUint_def split: if_splits option.splits)

end
