(* ===== verification/IP_Packet.thy ===== *)
theory IP_Packet
  imports Go_Prelude
begin

text \<open>
  IPv4 and IPv6 packets as the ESP transport reads and rebuilds them
  (\<open>parseIPPacket\<close>, \<open>replaceIPPayload\<close> and the IPv4 header checksum of
  \<open>mobilecore/internal/vowifi/ipsec3gpp/transport.go\<close>, address comparison of
  \<open>policy.go\<close>).
\<close>

section \<open>Data\<close>

datatype ip_error =
    IPPacketTooShort
  | UnsupportedIPVersion byte
  | IPv4PacketTooShort
  | InvalidIPv4HeaderLength
  | InvalidIPv4TotalLength
  | IPv6PacketTooShort
  | InvalidIPv6PayloadLength
  | TruncatedIPv6Extension
  | TruncatedIPv6ExtensionLength
  | MissingIPHeader
  | IPv4HeaderTooShort
  | IPv4PacketTooLarge
  | IPv6HeaderTooShort
  | IPv6PayloadTooLarge

record parsedIPPacket =
  ip_header :: bytes
  transportPayload :: bytes
  ip_src :: bytes
  ip_dst :: bytes
  srcPort :: nat
  dstPort :: nat
  nextHeader :: byte

abbreviation ipProtoTCP :: byte where "ipProtoTCP \<equiv> 6"
abbreviation ipProtoUDP :: byte where "ipProtoUDP \<equiv> 17"
abbreviation ipProtoESP :: byte where "ipProtoESP \<equiv> 50"

text \<open>The version nibble \<open>packet[0]>>4\<close>.\<close>

definition ip_version :: "bytes \<Rightarrow> byte" where
  "ip_version packet = drop_bit 4 (packet ! 0)"

section \<open>Parsing\<close>

definition isIPv6ExtensionHeader :: "byte \<Rightarrow> bool" where
  "isIPv6ExtensionHeader proto \<longleftrightarrow>
     proto = 0 \<or> proto = 43 \<or> proto = 44 \<or> proto = 60 \<or> proto = 135"

function parseIPv6ExtensionHeaders :: "bytes \<Rightarrow> byte \<Rightarrow> ip_error + byte \<times> bytes" where
  "parseIPv6ExtensionHeaders payload nh =
     (if isIPv6ExtensionHeader nh then
        if length payload < 2 then Inl TruncatedIPv6Extension
        else
          (let hdrLen = (unat (payload ! 1) + 1) * 8 in
           if length payload < hdrLen then Inl TruncatedIPv6ExtensionLength
           else parseIPv6ExtensionHeaders (drop hdrLen payload) (payload ! 0))
      else Inr (nh, payload))"
  by pat_completeness auto
termination
  by (relation "measure (\<lambda>(payload, nh). length payload)") (auto simp: Let_def)

declare parseIPv6ExtensionHeaders.simps [simp del]

definition transport_ports :: "byte \<Rightarrow> bytes \<Rightarrow> nat \<times> nat" where
  "transport_ports proto payload =
     (if (proto = ipProtoTCP \<or> proto = ipProtoUDP) \<and> length payload \<ge> 4
      then (unat (get_u16 0 payload), unat (get_u16 2 payload)) else (0, 0))"

definition parseIPv4Packet :: "bytes \<Rightarrow> ip_error + parsedIPPacket" where
  "parseIPv4Packet packet =
     (if length packet < 20 then Inl IPv4PacketTooShort
      else
        (let ihl = unat (packet ! 0 AND 0x0f) * 4 in
         if ihl < 20 \<or> length packet < ihl then Inl InvalidIPv4HeaderLength
         else
           (let totalLen = unat (get_u16 2 packet) in
            if totalLen < ihl \<or> totalLen > length packet then Inl InvalidIPv4TotalLength
            else
              (let packet = take totalLen packet;
                   proto = packet ! 9;
                   payload = drop ihl packet;
                   ports = transport_ports proto payload
               in Inr \<lparr>ip_header = take ihl packet, transportPayload = payload,
                       ip_src = slice 12 16 packet, ip_dst = slice 16 20 packet,
                       srcPort = fst ports, dstPort = snd ports, nextHeader = proto\<rparr>))))"

definition parseIPv6Packet :: "bytes \<Rightarrow> ip_error + parsedIPPacket" where
  "parseIPv6Packet packet =
     (if length packet < 40 then Inl IPv6PacketTooShort
      else
        (let payloadLen = unat (get_u16 4 packet) in
         if 40 + payloadLen > length packet then Inl InvalidIPv6PayloadLength
         else
           (let packet = take (40 + payloadLen) packet in
            rbind (parseIPv6ExtensionHeaders (drop 40 packet) (packet ! 6))
              (\<lambda>(proto, payload).
                 let ports = transport_ports proto payload in
                 Inr \<lparr>ip_header = take 40 packet, transportPayload = payload,
                      ip_src = slice 8 24 packet, ip_dst = slice 24 40 packet,
                      srcPort = fst ports, dstPort = snd ports, nextHeader = proto\<rparr>))))"

definition parseIPPacket :: "bytes \<Rightarrow> ip_error + parsedIPPacket" where
  "parseIPPacket packet =
     (if length packet < 1 then Inl IPPacketTooShort
      else if ip_version packet = 4 then parseIPv4Packet packet
      else if ip_version packet = 6 then parseIPv6Packet packet
      else Inl (UnsupportedIPVersion (ip_version packet)))"

section \<open>The IPv4 header checksum\<close>

fun sum_header_words :: "bytes \<Rightarrow> u32 \<Rightarrow> u32" where
  "sum_header_words (a # b # rest) acc = sum_header_words rest (acc + ucast (be_u16 a b))"
| "sum_header_words _ acc = acc"

lemma unat_low16: "unat ((acc :: u32) AND 0xffff) = unat acc mod 65536"
proof -
  have "acc AND 0xffff = take_bit 16 acc"
    by (simp add: take_bit_eq_mask mask_eq_exp_minus_1)
  then show ?thesis by (simp add: take_bit_eq_mod unat_mod)
qed

lemma unat_high16: "unat (drop_bit 16 (acc :: u32)) = unat acc div 65536"
  by (simp add: drop_bit_eq_div unat_div)

lemma unat_fold_step:
  "unat ((acc AND 0xffff) + drop_bit 16 acc) = unat (acc :: u32) mod 65536 + unat acc div 65536"
proof -
  have "unat acc div 65536 < 65536" using u32_less [of acc] by linarith
  then have "unat acc mod 65536 + unat acc div 65536 < 4294967296"
    using mod_less_divisor [of 65536 "unat acc"] by linarith
  then show ?thesis by (simp add: unat_word_ariths unat_low16 unat_high16)
qed

lemma fold_step_less:
  assumes "drop_bit 16 (acc :: u32) \<noteq> 0"
  shows "unat ((acc AND 0xffff) + drop_bit 16 acc) < unat acc"
proof -
  have "unat acc div 65536 \<noteq> 0"
    using assms unat_high16 [of acc] by (metis unat_eq_0)
  moreover have "unat acc = 65536 * (unat acc div 65536) + unat acc mod 65536" by simp
  ultimately show ?thesis unfolding unat_fold_step by linarith
qed

function fold_carry :: "u32 \<Rightarrow> u32" where
  "fold_carry acc =
     (if drop_bit 16 acc \<noteq> 0 then fold_carry ((acc AND 0xffff) + drop_bit 16 acc) else acc)"
  by pat_completeness auto
termination
  by (relation "measure unat") (auto intro: fold_step_less)

declare fold_carry.simps [simp del]

definition ipv4HeaderChecksum :: "bytes \<Rightarrow> u16" where
  "ipv4HeaderChecksum header = NOT (ucast (fold_carry (sum_header_words header 0)))"

definition updateIPv4HeaderChecksum :: "bytes \<Rightarrow> bytes" where
  "updateIPv4HeaderChecksum hdr =
     (if length hdr < 20 then hdr
      else
        (let hdr = hdr[10 := 0, 11 := 0];
             headerLength = unat (hdr ! 0 AND 15) * 4
         in if headerLength < 20 \<or> headerLength > length hdr then hdr
            else put_u16 10 (ipv4HeaderChecksum (take headerLength hdr)) hdr))"

section \<open>Rebuilding a packet around a new payload\<close>

definition replaceIPPayload :: "bytes \<Rightarrow> bytes \<Rightarrow> byte \<Rightarrow> ip_error + bytes" where
  "replaceIPPayload header payload nextProto =
     (if length header < 1 then Inl MissingIPHeader
      else if ip_version header = 4 then
        if length header < 20 then Inl IPv4HeaderTooShort
        else
          (let out = header @ payload; total = length out in
           if total > 0xffff then Inl IPv4PacketTooLarge
           else Inr (updateIPv4HeaderChecksum ((put_u16 2 (of_nat total) out)[9 := nextProto])))
      else if ip_version header = 6 then
        if length header < 40 then Inl IPv6HeaderTooShort
        else
          (let out = header @ payload in
           if length out - 40 > 0xffff then Inl IPv6PayloadTooLarge
           else Inr ((put_u16 4 (of_nat (length out - 40)) out)[6 := nextProto]))
      else Inl (UnsupportedIPVersion (ip_version header)))"

section \<open>Address comparison\<close>

text \<open>\<open>net.IP.Equal\<close>: an IPv4 address and its IPv4-mapped IPv6 form are the same address.\<close>

definition v4InV6Prefix :: bytes where
  "v4InV6Prefix = [0, 0, 0, 0, 0, 0, 0, 0, 0, 0, 0xff, 0xff]"

definition ipEqual :: "bytes \<Rightarrow> bytes \<Rightarrow> bool" where
  "ipEqual a b =
     (if length a = length b then a = b
      else if length a = 4 \<and> length b = 16 then take 12 b = v4InV6Prefix \<and> a = drop 12 b
      else if length a = 16 \<and> length b = 4 then take 12 a = v4InV6Prefix \<and> drop 12 a = b
      else False)"

lemma ipEqual_refl [simp]: "ipEqual a a"
  by (simp add: ipEqual_def)

lemma ipEqual_same_family: "length a = length b \<Longrightarrow> ipEqual a b \<longleftrightarrow> a = b"
  by (simp add: ipEqual_def)


section \<open>The checksum of a rewritten header verifies\<close>

lemma unat_fold_carry:
  "unat (fold_carry acc) = (if unat acc = 0 then 0 else (unat acc - 1) mod 65535 + 1)"
proof (induction acc rule: fold_carry.induct)
  case (1 acc)
  let ?n = "unat acc" and ?h = "unat acc div 65536" and ?l = "unat acc mod 65536"
  show ?case
  proof (cases "drop_bit 16 acc = 0")
    case True
    then have "?h = 0" using unat_high16 [of acc] by simp
    then have "?n < 65536" by (simp add: div_eq_0_iff)
    with True show ?thesis by (subst fold_carry.simps) auto
  next
    case False
    have h: "?h \<noteq> 0" using False unat_high16 [of acc] by (metis unat_eq_0)
    then have n: "?n \<noteq> 0" by auto
    have "?n = 65536 * ?h + ?l" by simp
    then have "?n - 1 = (?l + ?h - 1) + 65535 * ?h" using h by linarith
    then have "(?n - 1) mod 65535 = (?l + ?h - 1) mod 65535" by simp
    with h n False "1" show ?thesis
      by (subst fold_carry.simps) (simp add: unat_fold_step)
  qed
qed

fun wsum :: "bytes \<Rightarrow> nat" where
  "wsum (a # b # rest) = 256 * unat a + unat b + wsum rest"
| "wsum _ = 0"

lemma wsum_bound: "wsum bs \<le> 32768 * length bs"
proof (induction bs rule: wsum.induct)
  case (1 a b rest)
  then show ?case using byte_less_256 [of a] byte_less_256 [of b] by simp
qed auto

lemma unat_sum_header_words:
  "unat acc + wsum bs < 4294967296 \<Longrightarrow> unat (sum_header_words bs acc) = unat acc + wsum bs"
proof (induction bs acc rule: sum_header_words.induct)
  case (1 a b rest acc)
  then show ?case by (simp add: unat_word_ariths unat_be_u16)
qed auto

lemma wsum_append: "even (length xs) \<Longrightarrow> wsum (xs @ ys) = wsum xs + wsum ys"
  by (induction xs rule: wsum.induct) auto

lemma wsum_pos: "2 \<le> length xs \<Longrightarrow> xs ! 0 \<noteq> 0 \<Longrightarrow> 0 < wsum xs"
  by (cases xs rule: wsum.cases) (auto simp: unat_gt_0)

lemma unat_ucast_u32_u16: "unat v < 65536 \<Longrightarrow> unat (ucast (v :: u32) :: u16) = unat v"
  by (simp add: unsigned_ucast_eq take_bit_nat_eq_self_iff)

lemma unat_checksum:
  assumes "length h \<le> 60"
  shows "unat (ipv4HeaderChecksum h) = (if wsum h = 0 then 65535 else 65534 - (wsum h - 1) mod 65535)"
proof -
  have "wsum h < 4294967296" using wsum_bound [of h] assms by linarith
  then have s: "unat (sum_header_words h 0) = wsum h" by (simp add: unat_sum_header_words)
  have "unat (fold_carry (sum_header_words h 0)) < 65536"
    using mod_less_divisor [of 65535 "wsum h - 1"] unfolding unat_fold_carry s by auto
  then show ?thesis
    by (simp add: ipv4HeaderChecksum_def unat_not16 unat_ucast_u32_u16 unat_fold_carry s)
qed

lemma checksum_complements:
  assumes len: "length t1 = 10" "length t1 + length t2 \<le> 58" and pos: "0 < wsum t1"
    and c: "c = ipv4HeaderChecksum (t1 @ [0, 0] @ t2)"
  shows "ipv4HeaderChecksum (t1 @ [ucast (drop_bit 8 c), ucast c] @ t2) = 0"
proof -
  let ?S = "wsum t1 + wsum t2"
  have w: "wsum (t1 @ [0, 0] @ t2) = ?S"
    "wsum (t1 @ [ucast (drop_bit 8 c), ucast c] @ t2) = ?S + unat c"
    using len(1) arg_cong [OF be_u16_split [of c], of unat] by (simp_all add: wsum_append unat_be_u16)
  have "unat c = 65534 - (?S - 1) mod 65535"
    using unat_checksum [of "t1 @ [0, 0] @ t2"] len pos w(1) c by simp
  moreover have "?S = 65535 * ((?S - 1) div 65535) + (?S - 1) mod 65535 + 1"
    using pos by simp
  moreover have "(?S - 1) mod 65535 < 65535" by simp
  ultimately have "?S + unat c - 1 = 65535 * ((?S - 1) div 65535) + 65534" by linarith
  then have "(?S + unat c - 1) mod 65535 = 65534" by simp
  then have "unat (ipv4HeaderChecksum (t1 @ [ucast (drop_bit 8 c), ucast c] @ t2)) = 0"
    using unat_checksum [of "t1 @ [ucast (drop_bit 8 c), ucast c] @ t2"] len w(2) pos by simp
  then show ?thesis by (simp add: unat_eq_0)
qed

text \<open>A well-formed IPv4 header: the version nibble is 4 and the length nibble is the length.\<close>

definition ipv4_header_wf :: "bytes \<Rightarrow> bool" where
  "ipv4_header_wf h \<longleftrightarrow>
     20 \<le> length h \<and> length h = unat (h ! 0 AND 15) * 4 \<and> ip_version h = 4"

lemma nibble_le_15: "unat ((b :: byte) AND 15) \<le> 15"
proof -
  have "b AND 15 \<le> 15" by (rule word_and_le1)
  then show ?thesis by (simp add: word_le_nat_alt)
qed

lemma ipv4_header_le_60: "ipv4_header_wf h \<Longrightarrow> length h \<le> 60"
  using nibble_le_15 [of "h ! 0"] by (simp add: ipv4_header_wf_def)

lemma update_checksum_eq:
  assumes "ipv4_header_wf h"
  shows "updateIPv4HeaderChecksum h =
    put_u16 10 (ipv4HeaderChecksum (h[10 := 0, 11 := 0])) (h[10 := 0, 11 := 0])"
  using assms by (simp add: updateIPv4HeaderChecksum_def ipv4_header_wf_def Let_def)

lemma header_split:
  "20 \<le> length h \<Longrightarrow> h[10 := a, 11 := b] = take 10 h @ [a, b] @ drop 12 h"
  by (rule list_eq_nthI) (auto simp: nth_append nth_list_update nth_Cons' not_less)

lemma overwrite_10_11: "12 \<le> length h \<Longrightarrow> h[10 := a, 11 := b, 10 := x, 11 := y] = h[10 := x, 11 := y]"
  by (rule nth_equalityI) (simp_all add: nth_list_update)

lemma length_update_checksum [simp]: "length (updateIPv4HeaderChecksum h) = length h"
  by (simp add: updateIPv4HeaderChecksum_def Let_def)

lemma header_checksum_verifies:
  assumes wf: "ipv4_header_wf h"
  shows "ipv4HeaderChecksum (updateIPv4HeaderChecksum h) = 0"
proof -
  have len: "20 \<le> length h" "length h \<le> 60"
    using wf ipv4_header_le_60 by (auto simp: ipv4_header_wf_def)
  have nz: "h ! 0 \<noteq> 0" using wf by (auto simp: ipv4_header_wf_def ip_version_def)
  let ?c = "ipv4HeaderChecksum (h[10 := 0, 11 := 0])"
  have eq: "updateIPv4HeaderChecksum h = h[10 := ucast (drop_bit 8 ?c), 11 := ucast ?c]"
    using len by (simp add: update_checksum_eq [OF wf] put_u16_def overwrite_10_11)
  have c: "?c = ipv4HeaderChecksum (take 10 h @ [0, 0] @ drop 12 h)"
    by (simp only: header_split [OF len(1)])
  show ?thesis
    unfolding eq header_split [OF len(1), of "ucast (drop_bit 8 ?c)"]
    by (rule checksum_complements [OF _ _ _ c]) (use len nz in \<open>auto intro!: wsum_pos\<close>)
qed


section \<open>Rebuilding and parsing again\<close>

text \<open>The header \<open>replaceIPPayload\<close> writes: IPv4 sets the total length, the protocol and the
  checksum, IPv6 the payload length and the next header.\<close>

definition v4_rewrite :: "bytes \<Rightarrow> nat \<Rightarrow> byte \<Rightarrow> bytes" where
  "v4_rewrite h n proto = updateIPv4HeaderChecksum ((put_u16 2 (of_nat n) h)[9 := proto])"

definition v6_rewrite :: "bytes \<Rightarrow> nat \<Rightarrow> byte \<Rightarrow> bytes" where
  "v6_rewrite h n proto = (put_u16 4 (of_nat n) h)[6 := proto]"

definition ipv6_header_wf :: "bytes \<Rightarrow> bool" where
  "ipv6_header_wf h \<longleftrightarrow> length h = 40 \<and> ip_version h = 6"

lemma unat_of_nat_u16: "n \<le> 65535 \<Longrightarrow> unat (of_nat n :: u16) = n"
  by (simp add: unat_of_nat take_bit_nat_eq_self_iff)

lemma update_checksum_prefix:
  assumes "k = unat (hdr ! 0 AND 15) * 4" "20 \<le> k" "k \<le> length hdr"
  shows "updateIPv4HeaderChecksum hdr =
    put_u16 10 (ipv4HeaderChecksum (take k (hdr[10 := 0, 11 := 0]))) (hdr[10 := 0, 11 := 0])"
  using assms by (simp add: updateIPv4HeaderChecksum_def Let_def)

lemma update_checksum_append:
  assumes wf: "ipv4_header_wf h"
  shows "updateIPv4HeaderChecksum (h @ p) = updateIPv4HeaderChecksum h @ p"
proof -
  have len: "20 \<le> length h" and k: "length h = unat (h ! 0 AND 15) * 4"
    using wf by (auto simp: ipv4_header_wf_def)
  have "length h = unat ((h @ p) ! 0 AND 15) * 4"
    using len k by (metis less_le_trans nth_append zero_less_numeral)
  then have "updateIPv4HeaderChecksum (h @ p) =
      put_u16 10 (ipv4HeaderChecksum (take (length h) ((h @ p)[10 := 0, 11 := 0])))
        ((h @ p)[10 := 0, 11 := 0])"
    using len by (intro update_checksum_prefix) auto
  also have "(h @ p)[10 := 0, 11 := 0] = h[10 := 0, 11 := 0] @ p"
    using len by (simp add: list_update_append)
  finally show ?thesis
    using len by (simp add: update_checksum_eq [OF wf] put_u16_append)
qed

lemma wf_put [simp]:
  "ipv4_header_wf h \<Longrightarrow> ipv4_header_wf ((put_u16 2 v h)[9 := proto])"
  by (simp add: ipv4_header_wf_def ip_version_def)

lemma length_v4_rewrite [simp]: "length (v4_rewrite h n p) = length h"
  by (simp add: v4_rewrite_def)

lemma length_v6_rewrite [simp]: "length (v6_rewrite h n p) = length h"
  by (simp add: v6_rewrite_def)

lemma v4_rewrite_nth:
  assumes wf: "ipv4_header_wf h"
  shows "v4_rewrite h n proto ! 9 = proto"
    and "get_u16 2 (v4_rewrite h n proto) = of_nat n"
    and "j \<notin> {2, 3, 9, 10, 11} \<Longrightarrow> v4_rewrite h n proto ! j = h ! j"
proof -
  have len: "20 \<le> length h" using wf by (simp add: ipv4_header_wf_def)
  let ?h = "(put_u16 2 (of_nat n) h)[9 := proto]"
  have eq: "v4_rewrite h n proto =
      put_u16 10 (ipv4HeaderChecksum (?h[10 := 0, 11 := 0])) (?h[10 := 0, 11 := 0])"
    unfolding v4_rewrite_def by (rule update_checksum_eq) (simp add: wf)
  show "v4_rewrite h n proto ! 9 = proto"
    unfolding eq using len by simp
  show "j \<notin> {2, 3, 9, 10, 11} \<Longrightarrow> v4_rewrite h n proto ! j = h ! j"
    unfolding eq by simp
  show "get_u16 2 (v4_rewrite h n proto) = of_nat n"
    unfolding eq using len get_put_u16 [of 2 h "of_nat n"] by (simp add: get_u16_def)
qed

lemma v4_rewrite_wf [simp]: "ipv4_header_wf h \<Longrightarrow> ipv4_header_wf (v4_rewrite h n p)"
  using v4_rewrite_nth(3) [of h 0 n p] by (simp add: ipv4_header_wf_def ip_version_def)

lemma slice_eqI:
  "length xs = length ys \<Longrightarrow> (\<And>k. i \<le> k \<Longrightarrow> k < j \<Longrightarrow> xs ! k = ys ! k) \<Longrightarrow> slice i j xs = slice i j ys"
  by (rule nth_equalityI) (auto simp: slice_def)

lemma v4_rewrite_slice:
  "ipv4_header_wf h \<Longrightarrow> 12 \<le> i \<Longrightarrow> slice i j (v4_rewrite h n p) = slice i j h"
  by (rule slice_eqI) (auto simp: v4_rewrite_nth)

lemma v4_rewrite_twice:
  assumes wf: "ipv4_header_wf h"
  shows "v4_rewrite (v4_rewrite h n p) n' p' = v4_rewrite h n' p'"
proof -
  let ?f = "\<lambda>h. (put_u16 2 (of_nat n') h)[9 := p', 10 := 0, 11 := 0]"
  have len: "20 \<le> length h" using wf by (simp add: ipv4_header_wf_def)
  have "?f (v4_rewrite h n p) = ?f h"
    by (rule nth_equalityI) (use len in \<open>auto simp: nth_list_update put_u16_def v4_rewrite_nth [OF wf]\<close>)
  then show ?thesis
    by (simp add: v4_rewrite_def [of _ n'] update_checksum_eq wf)
qed

lemma v4_rewrite_checksum: "ipv4_header_wf h \<Longrightarrow> ipv4HeaderChecksum (v4_rewrite h n p) = 0"
  by (simp add: v4_rewrite_def header_checksum_verifies)

lemma replaceIPPayload_v4:
  assumes wf: "ipv4_header_wf h" and small: "length h + length p \<le> 65535"
  shows "replaceIPPayload h p proto = Inr (v4_rewrite h (length h + length p) proto @ p)"
proof -
  have len: "20 \<le> length h" and ver: "ip_version h = 4" using wf by (auto simp: ipv4_header_wf_def)
  then have "\<not> length h < 1" "\<not> length h < 20" by auto
  moreover have "(put_u16 2 v (h @ p))[9 := proto] = (put_u16 2 v h)[9 := proto] @ p" for v
    using len by (simp add: put_u16_append list_update_append)
  ultimately show ?thesis
    using small ver wf
    by (simp add: replaceIPPayload_def Let_def v4_rewrite_def update_checksum_append)
qed

lemma replaceIPPayload_v6:
  assumes wf: "ipv6_header_wf h" and small: "length p \<le> 65535"
  shows "replaceIPPayload h p proto = Inr (v6_rewrite h (length p) proto @ p)"
  using assms
  by (simp add: replaceIPPayload_def ipv6_header_wf_def Let_def v6_rewrite_def put_u16_append
      list_update_append)

lemma v6_rewrite_nth:
  assumes "ipv6_header_wf h"
  shows "v6_rewrite h n proto ! 6 = proto"
    and "get_u16 4 (v6_rewrite h n proto) = of_nat n"
    and "j \<notin> {4, 5, 6} \<Longrightarrow> v6_rewrite h n proto ! j = h ! j"
  using assms get_put_u16 [of 4 h "of_nat n"]
  by (auto simp: v6_rewrite_def ipv6_header_wf_def get_u16_def put_u16_def nth_list_update)

lemma v6_rewrite_wf [simp]: "ipv6_header_wf h \<Longrightarrow> ipv6_header_wf (v6_rewrite h n p)"
  using v6_rewrite_nth(3) [of h 0 n p] by (simp add: ipv6_header_wf_def ip_version_def)

lemma v6_rewrite_slice:
  "ipv6_header_wf h \<Longrightarrow> 7 \<le> i \<Longrightarrow> slice i j (v6_rewrite h n p) = slice i j h"
  by (rule slice_eqI) (auto simp: v6_rewrite_nth)

lemma v6_rewrite_twice: "ipv6_header_wf h \<Longrightarrow> v6_rewrite (v6_rewrite h n p) n' p' = v6_rewrite h n' p'"
  by (rule nth_equalityI)
    (auto simp: v6_rewrite_def ipv6_header_wf_def put_u16_def nth_list_update)

text \<open>Parsing a header with a payload of the length the header declares.\<close>

lemma parse_v4:
  assumes wf: "ipv4_header_wf h" and len: "unat (get_u16 2 h) = length h + length p"
  shows "parseIPPacket (h @ p) =
    (let ports = transport_ports (h ! 9) p in
     Inr \<lparr>ip_header = h, transportPayload = p, ip_src = slice 12 16 h, ip_dst = slice 16 20 h,
          srcPort = fst ports, dstPort = snd ports, nextHeader = h ! 9\<rparr>)"
proof -
  have l: "20 \<le> length h" "length h = unat (h ! 0 AND 15) * 4" "ip_version h = 4"
    using wf by (auto simp: ipv4_header_wf_def)
  have i: "ip_version (h @ p) = 4" "(h @ p) ! 0 = h ! 0" "(h @ p) ! 9 = h ! 9"
    "get_u16 2 (h @ p) = get_u16 2 h" "slice 12 16 (h @ p) = slice 12 16 h"
    "slice 16 20 (h @ p) = slice 16 20 h"
    using l by (auto simp: ip_version_def nth_append get_u16_def slice_append_left)
  have "\<not> length (h @ p) < 1" "\<not> length (h @ p) < 20" using l by auto
  then show ?thesis
    using l(1) by (simp add: parseIPPacket_def parseIPv4Packet_def i len Let_def flip: l(2))
qed

lemma parse_v6:
  assumes wf: "ipv6_header_wf h" and len: "unat (get_u16 4 h) = length p"
    and fin: "\<not> isIPv6ExtensionHeader (h ! 6)"
  shows "parseIPPacket (h @ p) =
    (let ports = transport_ports (h ! 6) p in
     Inr \<lparr>ip_header = h, transportPayload = p, ip_src = slice 8 24 h, ip_dst = slice 24 40 h,
          srcPort = fst ports, dstPort = snd ports, nextHeader = h ! 6\<rparr>)"
proof -
  have l: "length h = 40" "ip_version h = 6" using wf by (auto simp: ipv6_header_wf_def)
  have i: "ip_version (h @ p) = 6" "(h @ p) ! 6 = h ! 6" "get_u16 4 (h @ p) = get_u16 4 h"
    "slice 8 24 (h @ p) = slice 8 24 h" "slice 24 40 (h @ p) = slice 24 40 h"
    using l by (auto simp: ip_version_def nth_append get_u16_def slice_append_left)
  show ?thesis
    using l fin
    by (simp add: parseIPPacket_def parseIPv6Packet_def i len Let_def
        parseIPv6ExtensionHeaders.simps [of p "h ! 6"])
qed

section \<open>Properties\<close>

text \<open>The checksum written by \<^verbatim>\<open>updateIPv4HeaderChecksum\<close> verifies: the checksum of the updated
  header is 0.\<close>

theorem updated_checksum_verifies:
  "ipv4_header_wf h \<Longrightarrow> ipv4HeaderChecksum (updateIPv4HeaderChecksum h) = 0"
  by (rule header_checksum_verifies)

theorem updated_checksum_verifies_witness:
  "ipv4HeaderChecksum (updateIPv4HeaderChecksum (0x45 # replicate 19 1)) = 0"
  by (rule updated_checksum_verifies) (simp add: ipv4_header_wf_def ip_version_def)

end
