(* ===== verification/Go_Net.thy ===== *)
theory Go_Net
  imports Go_Strings IP_Packet
begin

text \<open>The methods of Go's \<^verbatim>\<open>net.IP\<close> that the modelled code calls.  An address is its byte slice; nil
  is \<^term>\<open>None\<close> where the code distinguishes it.\<close>

text \<open>\<^verbatim>\<open>net.IP.To4\<close> and \<^verbatim>\<open>To16\<close>; nil is \<^term>\<open>None\<close>.\<close>

definition To4 :: "bytes \<Rightarrow> bytes option" where
  "To4 ip = (if length ip = 4 then Some ip
     else if length ip = 16 \<and> take 12 ip = v4InV6Prefix then Some (slice 12 16 ip) else None)"

definition To16 :: "bytes \<Rightarrow> bytes option" where
  "To16 ip = (if length ip = 4 then Some (v4InV6Prefix @ ip)
     else if length ip = 16 then Some ip else None)"

text \<open>\<^verbatim>\<open>net.IP.String\<close>: dotted decimal for IPv4 (also when mapped into IPv6), RFC 5952 text for IPv6,
  where the first of the longest runs of at least two zero groups becomes \<^verbatim>\<open>::\<close>.\<close>

definition hex_digit :: "nat \<Rightarrow> char" where
  "hex_digit d = (if d < 10 then char_of (48 + d) else char_of (87 + d))"

function hex :: "nat \<Rightarrow> string" where
  "hex n = (if n < 16 then [hex_digit n] else hex (n div 16) @ [hex_digit (n mod 16)])"
  by auto
termination by (relation "measure id") auto

declare hex.simps [simp del]

definition ip4_string :: "bytes \<Rightarrow> string" where
  "ip4_string ip = Join (List.map (\<lambda>b. dec (unat b)) ip) ''.''"

definition ip6_groups :: "bytes \<Rightarrow> nat list" where
  "ip6_groups ip = List.map (\<lambda>i. unat (get_u16 (2 * i) ip)) [0..<8]"

definition zero_run :: "nat list \<Rightarrow> nat \<Rightarrow> nat" where
  "zero_run gs i = length (takeWhile (\<lambda>g. g = 0) (drop i gs))"

definition longest_zero_run :: "nat list \<Rightarrow> nat \<times> nat" where
  "longest_zero_run gs =
     foldl (\<lambda>(start, len) i.
       let l = zero_run gs i in if 2 \<le> l \<and> len < l then (i, l) else (start, len)) (0, 0) [0..<8]"

definition ip6_string :: "bytes \<Rightarrow> string" where
  "ip6_string ip =
     (let gs = ip6_groups ip; (start, len) = longest_zero_run gs;
          text_of = (\<lambda>xs. Join (List.map hex xs) '':'')
      in if len = 0 then text_of gs
         else text_of (take start gs) @ ''::'' @ text_of (drop (start + len) gs))"

definition hex_string :: "bytes \<Rightarrow> string" where
  "hex_string bs = concat (List.map (\<lambda>b. [hex_digit (unat b div 16), hex_digit (unat b mod 16)]) bs)"

definition ip_string :: "bytes \<Rightarrow> string" where
  "ip_string ip =
     (if ip = [] then ''<nil>''
      else if length ip \<noteq> 4 \<and> length ip \<noteq> 16 then CHR ''?'' # hex_string ip
      else case To4 ip of Some v4 \<Rightarrow> ip4_string v4 | None \<Rightarrow> ip6_string ip)"

end
