(* ===== verification/Go_Addr.thy ===== *)
theory Go_Addr
  imports Go_Net
begin

text \<open>
  The textual addresses of Go's \<^verbatim>\<open>net\<close> package: \<^verbatim>\<open>SplitHostPort\<close>, \<^verbatim>\<open>JoinHostPort\<close>,
  \<^verbatim>\<open>ParseIP\<close> and \<^verbatim>\<open>IP.Equal\<close>, and the searches of the \<^verbatim>\<open>strings\<close> package that the
  registration code calls.  The lemmas show that splitting inverts joining.
\<close>

section \<open>Searching\<close>

text \<open>\<^verbatim>\<open>strings.Index\<close>; \<^term>\<open>None\<close> is -1.\<close>

fun Index :: "string \<Rightarrow> string \<Rightarrow> nat option" where
  "Index [] sub = (if sub = [] then Some 0 else None)"
| "Index (c # s) sub = (if HasPrefix (c # s) sub then Some 0 else map_option Suc (Index s sub))"

definition Contains :: "string \<Rightarrow> string \<Rightarrow> bool" where
  "Contains s sub \<longleftrightarrow> Index s sub \<noteq> None"

fun IndexByte :: "string \<Rightarrow> char \<Rightarrow> nat option" where
  "IndexByte [] b = None"
| "IndexByte (c # s) b = (if c = b then Some 0 else map_option Suc (IndexByte s b))"

fun LastIndexByte :: "string \<Rightarrow> char \<Rightarrow> nat option" where
  "LastIndexByte [] b = None"
| "LastIndexByte (c # s) b =
     (case LastIndexByte s b of Some i \<Rightarrow> Some (Suc i) | None \<Rightarrow> if c = b then Some 0 else None)"

text \<open>\<^verbatim>\<open>strings.ReplaceAll\<close> for an old string of one character.\<close>

definition ReplaceChar :: "string \<Rightarrow> char \<Rightarrow> string \<Rightarrow> string" where
  "ReplaceChar s old new = concat (List.map (\<lambda>c. if c = old then new else [c]) s)"

lemma IndexByte_None: "IndexByte s b = None \<longleftrightarrow> b \<notin> set s"
  by (induction s) auto

lemma LastIndexByte_None: "LastIndexByte s b = None \<longleftrightarrow> b \<notin> set s"
  by (induction s) (auto split: option.splits)

lemma LastIndexByte_append: "b \<notin> set t \<Longrightarrow> LastIndexByte (s @ b # t) b = Some (length s)"
  by (induction s) (auto simp: LastIndexByte_None split: option.splits)

lemma IndexByte_append: "b \<notin> set s \<Longrightarrow> IndexByte (s @ b # t) b = Some (length s)"
  by (induction s) auto

section \<open>Host and port\<close>

definition has_byte :: "string \<Rightarrow> char \<Rightarrow> bool" where
  "has_byte s b \<longleftrightarrow> b \<in> set s"

text \<open>\<^verbatim>\<open>net.SplitHostPort\<close>; \<^term>\<open>None\<close> stands for its errors.\<close>

definition SplitHostPort :: "string \<Rightarrow> (string \<times> string) option" where
  "SplitHostPort hostport =
     (case LastIndexByte hostport CHR '':'' of
        None \<Rightarrow> None
      | Some i \<Rightarrow>
          if hd hostport = CHR ''['' then
            (case IndexByte hostport CHR '']'' of
               None \<Rightarrow> None
             | Some e \<Rightarrow>
                 if e + 1 = length hostport \<or> e + 1 \<noteq> i then None
                 else if has_byte (drop 1 hostport) CHR ''['' \<or> has_byte (drop (e + 1) hostport) CHR '']'' then None
                 else Some (slice 1 e hostport, drop (i + 1) hostport))
          else if has_byte (take i hostport) CHR '':'' \<or> has_byte hostport CHR ''['' \<or> has_byte hostport CHR '']''
          then None
          else Some (take i hostport, drop (i + 1) hostport))"

text \<open>\<^verbatim>\<open>net.JoinHostPort\<close>.\<close>

definition JoinHostPort :: "string \<Rightarrow> string \<Rightarrow> string" where
  "JoinHostPort host port =
     (if has_byte host CHR '':'' then ''['' @ host @ '']:'' @ port else host @ '':'' @ port)"

definition plain_host :: "string \<Rightarrow> bool" where
  "plain_host s \<longleftrightarrow> CHR ''['' \<notin> set s \<and> CHR '']'' \<notin> set s"

lemma split_join_host_port:
  assumes h: "plain_host host" and p: "plain_host port" "CHR '':'' \<notin> set port"
  shows "SplitHostPort (JoinHostPort host port) = Some (host, port)"
proof (cases "CHR '':'' \<in> set host")
  case True
  let ?s = "''['' @ host @ '']:'' @ port"
  have j: "JoinHostPort host port = ?s" using True by (simp add: JoinHostPort_def has_byte_def)
  have "LastIndexByte ((''['' @ host @ '']'') @ CHR '':'' # port) CHR '':'' = Some (length (''['' @ host @ '']''))"
    by (rule LastIndexByte_append) (use p in simp)
  then have i: "LastIndexByte ?s CHR '':'' = Some (length host + 2)" by simp
  have "IndexByte ((''['' @ host) @ CHR '']'' # '':'' @ port) CHR '']'' = Some (length (''['' @ host))"
    by (rule IndexByte_append) (use h in \<open>simp add: plain_host_def\<close>)
  then have e: "IndexByte ?s CHR '']'' = Some (length host + 1)" by simp
  have "drop (length host + 2) ?s = '':'' @ port" "slice 1 (length host + 1) ?s = host"
    "drop (length host + 2 + 1) ?s = port" "drop 1 ?s = host @ '']:'' @ port" "hd ?s = CHR ''[''"
    by (simp_all add: slice_def)
  note d = this
  show ?thesis
    unfolding j SplitHostPort_def i e option.case
    using d h p by (simp add: has_byte_def plain_host_def)
next
  case False
  let ?s = "host @ '':'' @ port"
  have j: "JoinHostPort host port = ?s" using False by (simp add: JoinHostPort_def has_byte_def)
  have i: "LastIndexByte ?s CHR '':'' = Some (length host)"
    using LastIndexByte_append [OF p(2), of host] by simp
  have "hd ?s \<noteq> CHR ''[''" using h by (cases host) (auto simp: plain_host_def)
  moreover have "take (length host) ?s = host" "drop (length host + 1) ?s = port" by simp_all
  ultimately show ?thesis
    unfolding j SplitHostPort_def i option.case
    using h p False by (simp add: has_byte_def plain_host_def)
qed

section \<open>IP addresses\<close>

text \<open>One field of a dotted address: digits without a leading zero, at most 255.\<close>

definition ip4_field :: "string \<Rightarrow> byte option" where
  "ip4_field s =
     (if s = [] \<or> (1 < length s \<and> hd s = CHR ''0'') then None
      else case parse_digits 10 0 s of
        None \<Rightarrow> None
      | Some n \<Rightarrow> if n \<le> 255 then Some (of_nat n) else None)"

definition parse_ip4 :: "string \<Rightarrow> bytes option" where
  "parse_ip4 s =
     (case List.map ip4_field (Split s CHR ''.'') of
        [Some a, Some b, Some c, Some d] \<Rightarrow> Some [a, b, c, d]
      | _ \<Rightarrow> None)"

definition is_hex :: "char \<Rightarrow> bool" where
  "is_hex c \<longleftrightarrow> digit_val 16 c \<noteq> None"

text \<open>The loop of \<^verbatim>\<open>netip.parseIPv6\<close>: the groups read so far, the position of the ellipsis and the
  rest of the text.\<close>

function ip6_loop :: "bytes \<Rightarrow> nat option \<Rightarrow> string \<Rightarrow> (bytes \<times> nat option) option" where
  "ip6_loop ip ellipsis s =
     (if 16 \<le> length ip then (if s = [] then Some (ip, ellipsis) else None)
      else let ds = takeWhile is_hex s; rest = drop (length ds) s
      in if ds = [] \<or> 4 < length ds then None
      else if rest \<noteq> [] \<and> hd rest = CHR ''.'' then
        (if (ellipsis = None \<and> length ip \<noteq> 12) \<or> 16 < length ip + 4 then None
         else map_option (\<lambda>f. (ip @ f, ellipsis)) (parse_ip4 s))
      else case parse_digits 16 0 ds of
        None \<Rightarrow> None
      | Some acc \<Rightarrow>
          let ip' = ip @ [of_nat (acc div 256), of_nat (acc mod 256)]
          in if rest = [] then Some (ip', ellipsis)
             else if hd rest \<noteq> CHR '':'' \<or> length rest = 1 then None
             else if rest ! 1 = CHR '':'' then
               (if ellipsis \<noteq> None then None
                else if length rest = 2 then Some (ip', Some (length ip'))
                else ip6_loop ip' (Some (length ip')) (drop 2 rest))
             else ip6_loop ip' ellipsis (drop 1 rest))"
  by pat_completeness auto
termination
  by (relation "measure (\<lambda>(ip, ellipsis, s). length s)") (auto simp: Let_def)

declare ip6_loop.simps [simp del]

definition parse_ip6 :: "string \<Rightarrow> bytes option" where
  "parse_ip6 s =
     (case (if HasPrefix s ''::'' then
              (if length s = 2 then Some ([], Some 0) else ip6_loop [] (Some 0) (drop 2 s))
            else ip6_loop [] None s) of
        None \<Rightarrow> None
      | Some (ip, ellipsis) \<Rightarrow>
          if length ip < 16 then
            (case ellipsis of
               None \<Rightarrow> None
             | Some e \<Rightarrow> Some (take e ip @ replicate (16 - length ip) 0 @ drop e ip))
          else if ellipsis \<noteq> None then None
          else Some ip)"

text \<open>\<^verbatim>\<open>net.ParseIP\<close>, always of 16 bytes; an address with a zone is refused.\<close>

definition ParseIP :: "string \<Rightarrow> bytes option" where
  "ParseIP s =
     (case dropWhile (\<lambda>c. c \<noteq> CHR ''.'' \<and> c \<noteq> CHR '':'' \<and> c \<noteq> CHR ''%'') s of
        [] \<Rightarrow> None
      | c # _ \<Rightarrow>
          if c = CHR ''.'' then map_option ((@) v4InV6Prefix) (parse_ip4 s)
          else if c = CHR '':'' then (if has_byte s CHR ''%'' then None else parse_ip6 s)
          else None)"

definition ip_equal :: "bytes \<Rightarrow> bytes \<Rightarrow> bool" where
  "ip_equal ip x \<longleftrightarrow>
     (if length ip = length x then ip = x
      else if length ip = 4 \<and> length x = 16 then x = v4InV6Prefix @ ip
      else if length ip = 16 \<and> length x = 4 then ip = v4InV6Prefix @ x
      else False)"

lemma ip_equal_refl [simp]: "ip_equal ip ip"
  by (simp add: ip_equal_def)

end
