(* ===== verification/Mechanism.thy ===== *)
theory Mechanism
  imports Go_Strings
begin

text \<open>Parsing and rendering of ipsec-3gpp offers, \<^verbatim>\<open>ipsec3gpp/mechanism.go\<close>: the values of the SIP
  headers Security-Client, Security-Server and Security-Verify.  The lemmas show that rendering an
  offer and parsing it back gives the offer with its algorithm names in canonical form, for one offer
  and for a comma separated list of them.\<close>

record security_mechanism =
  Alg :: string
  EAlg :: string
  Prot :: string
  Mode :: string
  SPIc :: u32
  SPIs :: u32
  PortC :: int
  PortS :: int
  Raw :: string

datatype mech_error =
  EmptyMechanism | UnsupportedMechanism string | InvalidSPIc | InvalidSPIs | InvalidPortC | InvalidPortS

definition no_mechanism :: security_mechanism where
  "no_mechanism = \<lparr>Alg = [], EAlg = [], Prot = [], Mode = [], SPIc = 0, SPIs = 0, PortC = 0, PortS = 0, Raw = []\<rparr>"

definition trimToken :: "string \<Rightarrow> string" where
  "trimToken s = Trim (TrimSpace s) [CHR 0x22]"

definition normalizeMechanismToken :: "string \<Rightarrow> string" where
  "normalizeMechanismToken token =
     ToLower (RemoveAll (RemoveAll (trimToken token) CHR ''-'') CHR ''_'')"

definition canonicalAuthAlg :: "string \<Rightarrow> string" where
  "canonicalAuthAlg alg =
     (let a = ToLower (trimToken alg)
      in if a \<in> set [''hmac-md5-96'', ''hmac_md5_96''] then ''hmac-md5-96''
         else if a \<in> set [''hmac-sha-1-96'', ''hmac_sha_1_96'', ''hmac-sha1-96''] then ''hmac-sha-1-96''
         else a)"

definition canonicalEncAlg :: "string \<Rightarrow> string" where
  "canonicalEncAlg ealg =
     (let a = ToLower (trimToken ealg)
      in if a \<in> set [''des-ede3-cbc'', ''3des'', ''des_ede3_cbc''] then ''des-ede3-cbc''
         else if a \<in> set [''aes-cbc'', ''aes_cbc''] then ''aes-cbc''
         else if a = ''null'' then ''null''
         else a)"

definition parseUint32Param :: "string \<Rightarrow> u32 option" where
  "parseUint32Param value =
     (let v = trimToken value
      in if HasPrefix v ''0x'' \<or> HasPrefix v ''0X''
         then map_option of_nat (ParseUint (drop 2 v) 16 32)
         else map_option of_nat (ParseUint v 10 32))"

text \<open>One parameter of an offer, the body of the loop of \<^verbatim>\<open>parseSecurityMechanism\<close>.\<close>

definition apply_param :: "security_mechanism \<Rightarrow> string \<Rightarrow> mech_error + security_mechanism" where
  "apply_param mech param =
     (let (k, v, ok) = Cut param CHR ''=''
      in if \<not> ok then Inr mech
         else let key = normalizeMechanismToken k; value = trimToken v
         in if key = ''alg'' then Inr (mech\<lparr>Alg := canonicalAuthAlg value\<rparr>)
            else if key = ''ealg'' then Inr (mech\<lparr>EAlg := canonicalEncAlg value\<rparr>)
            else if key = ''prot'' then Inr (mech\<lparr>Prot := value\<rparr>)
            else if key \<in> set [''mod'', ''mode''] then Inr (mech\<lparr>Mode := value\<rparr>)
            else if key \<in> set [''spi-c'', ''spi_c'', ''spic''] then
              (case parseUint32Param value of None \<Rightarrow> Inl InvalidSPIc | Some n \<Rightarrow> Inr (mech\<lparr>SPIc := n\<rparr>))
            else if key \<in> set [''spi-s'', ''spi_s'', ''spis''] then
              (case parseUint32Param value of None \<Rightarrow> Inl InvalidSPIs | Some n \<Rightarrow> Inr (mech\<lparr>SPIs := n\<rparr>))
            else if key \<in> set [''port-c'', ''port_c'', ''portc''] then
              (case Atoi value of None \<Rightarrow> Inl InvalidPortC | Some n \<Rightarrow> Inr (mech\<lparr>PortC := n\<rparr>))
            else if key \<in> set [''port-s'', ''port_s'', ''ports''] then
              (case Atoi value of None \<Rightarrow> Inl InvalidPortS | Some n \<Rightarrow> Inr (mech\<lparr>PortS := n\<rparr>))
            else Inr mech)"

fun apply_params :: "security_mechanism \<Rightarrow> string list \<Rightarrow> mech_error + security_mechanism" where
  "apply_params mech [] = Inr mech"
| "apply_params mech (param # params) =
     rbind (apply_param mech param) (\<lambda>mech'. apply_params mech' params)"

definition parseSecurityMechanism :: "string \<Rightarrow> mech_error + security_mechanism" where
  "parseSecurityMechanism s =
     (let raw = TrimSpace s
      in if raw = [] then Inl EmptyMechanism
         else let mech = no_mechanism\<lparr>Raw := raw\<rparr>;
                  (before, params, ok) = Cut raw CHR '';'';
                  scheme = trimToken (TrimPrefix (if ok then before else raw) '' '')
         in if \<not> EqualFold scheme ''ipsec-3gpp'' then Inl (UnsupportedMechanism scheme)
            else apply_params mech (Split params CHR '';''))"

definition ParseSecurityMechanism :: "string \<Rightarrow> mech_error + security_mechanism" where
  "ParseSecurityMechanism token = parseSecurityMechanism token"

text \<open>The loop of \<^verbatim>\<open>splitMechanisms\<close>: \<^term>\<open>b\<close> is the string builder, \<^term>\<open>quoted\<close> its \<^verbatim>\<open>depth\<close>.\<close>

definition flush_part :: "string \<Rightarrow> string list" where
  "flush_part b = (let part = TrimSpace b in if part = [] then [] else [part])"

fun split_loop :: "string \<Rightarrow> bool \<Rightarrow> string \<Rightarrow> string list" where
  "split_loop b quoted [] = flush_part b"
| "split_loop b quoted (r # rs) =
     (if r = CHR 0x22 then split_loop (b @ [r]) (\<not> quoted) rs
      else if r = CHR '','' then
        (if \<not> quoted then flush_part b @ split_loop [] quoted rs else split_loop (b @ [r]) quoted rs)
      else split_loop (b @ [r]) quoted rs)"

definition splitMechanisms :: "string \<Rightarrow> string list" where
  "splitMechanisms header = split_loop [] False header"

fun parse_parts :: "string list \<Rightarrow> mech_error + security_mechanism list" where
  "parse_parts [] = Inr []"
| "parse_parts (part # parts) =
     rbind (parseSecurityMechanism part) (\<lambda>mech. rbind (parse_parts parts) (\<lambda>out. Inr (mech # out)))"

definition ParseSecurityMechanisms :: "string \<Rightarrow> mech_error + security_mechanism list" where
  "ParseSecurityMechanisms header =
     (let h = TrimSpace header in if h = [] then Inr [] else parse_parts (splitMechanisms h))"

definition or_default :: "string \<Rightarrow> string \<Rightarrow> string" where
  "or_default s d = (if TrimSpace s = [] then d else TrimSpace s)"

definition FormatSecurityMechanism :: "security_mechanism \<Rightarrow> string" where
  "FormatSecurityMechanism m =
     ''ipsec-3gpp; alg='' @ canonicalAuthAlg (Alg m) @ ''; ealg='' @ canonicalEncAlg (EAlg m) @
     ''; prot='' @ or_default (Prot m) ''esp'' @ ''; mod='' @ or_default (Mode m) ''trans'' @
     ''; spi-c='' @ dec (unat (SPIc m)) @ ''; spi-s='' @ dec (unat (SPIs m)) @
     ''; port-c='' @ Itoa (PortC m) @ ''; port-s='' @ Itoa (PortS m)"

fun SelectSecurityMechanism :: "security_mechanism list \<Rightarrow> security_mechanism \<times> bool" where
  "SelectSecurityMechanism [] = (no_mechanism, False)"
| "SelectSecurityMechanism (mech # mechanisms) =
     (if SPIc mech \<noteq> 0 \<and> SPIs mech \<noteq> 0 \<and> PortC mech \<noteq> 0 \<and> PortS mech \<noteq> 0 then (mech, True)
      else SelectSecurityMechanism mechanisms)"

section \<open>Tokens\<close>

text \<open>What a rendered field may contain without being read as syntax: no separator and no quote.\<close>

definition plain_token :: "string \<Rightarrow> bool" where
  "plain_token s \<longleftrightarrow> (\<forall>c \<in> set s. c \<noteq> CHR '';'' \<and> c \<noteq> CHR '','' \<and> c \<noteq> CHR 0x22)"

definition ports_in_range :: "security_mechanism \<Rightarrow> bool" where
  "ports_in_range m \<longleftrightarrow> - (2 ^ 63) \<le> PortC m \<and> PortC m < 2 ^ 63 \<and> - (2 ^ 63) \<le> PortS m \<and> PortS m < 2 ^ 63"

definition renderable :: "security_mechanism \<Rightarrow> bool" where
  "renderable m \<longleftrightarrow> plain_token (Alg m) \<and> plain_token (EAlg m) \<and> plain_token (Prot m) \<and>
     plain_token (Mode m) \<and> ports_in_range m"

definition canonical_mechanism :: "security_mechanism \<Rightarrow> security_mechanism" where
  "canonical_mechanism m = m\<lparr>Alg := canonicalAuthAlg (Alg m), EAlg := canonicalEncAlg (EAlg m),
     Prot := or_default (Prot m) ''esp'', Mode := or_default (Mode m) ''trans'',
     Raw := FormatSecurityMechanism m\<rparr>"

lemma trimToken_plain: "plain_token s \<Longrightarrow> trimToken s = TrimSpace s"
  using set_trim_by [of is_space s]
  by (auto simp: trimToken_def Trim_def TrimSpace_def plain_token_def intro!: trim_by_none)

lemma plain_TrimSpace: "plain_token s \<Longrightarrow> plain_token (TrimSpace s)"
  using set_trim_by [of is_space s] by (auto simp: TrimSpace_def plain_token_def)

lemma lower_char_code: "of_char (lower_char c) =
    (let n = of_char c :: nat in if 65 \<le> n \<and> n \<le> 90 then n + 32 else n)"
  by (simp add: lower_char_def Let_def)

lemma lower_char_punct: "of_char d < (65 :: nat) \<Longrightarrow> lower_char c = d \<Longrightarrow> c = d"
  using lower_char_code [of c] by (auto simp: Let_def lower_char_def split: if_splits)

lemma plain_ToLower:
  assumes "plain_token s" shows "plain_token (ToLower s)"
proof -
  have "lower_char c \<noteq> d" if "c \<in> set s" "of_char d < (65 :: nat)" "d \<notin> set s" for c d
    using lower_char_punct [OF that(2), of c] that(1,3) by auto
  moreover have "CHR '';'' \<notin> set s" "CHR '','' \<notin> set s" "CHR 0x22 \<notin> set s"
    using assms by (auto simp: plain_token_def)
  ultimately show ?thesis by (simp add: plain_token_def ToLower_def)
qed

lemma dropWhile_map_conv: "dropWhile q (map f s) = map f (dropWhile (\<lambda>c. q (f c)) s)"
  by (induction s) auto

lemma trim_by_map: "trim_by q (map f s) = map f (trim_by (\<lambda>c. q (f c)) s)"
  by (simp add: trim_by_def dropWhile_map_conv rev_map)

lemma TrimSpace_ToLower: "TrimSpace (ToLower s) = ToLower (TrimSpace s)"
  by (simp add: TrimSpace_def ToLower_def trim_by_map)

lemma canonicalAuthAlg_plain: "plain_token a \<Longrightarrow> plain_token (canonicalAuthAlg a)"
  by (auto simp: canonicalAuthAlg_def Let_def trimToken_plain plain_ToLower plain_TrimSpace)
    (simp_all add: plain_token_def)

lemma canonicalEncAlg_plain: "plain_token a \<Longrightarrow> plain_token (canonicalEncAlg a)"
  by (auto simp: canonicalEncAlg_def Let_def trimToken_plain plain_ToLower plain_TrimSpace)
    (simp_all add: plain_token_def)

lemma or_default_plain: "plain_token s \<Longrightarrow> plain_token d \<Longrightarrow> plain_token (or_default s d)"
  by (simp add: or_default_def plain_TrimSpace)


section \<open>Rendering and parsing back\<close>

definition format_params :: "security_mechanism \<Rightarrow> string list" where
  "format_params m =
     ['' alg='' @ canonicalAuthAlg (Alg m), '' ealg='' @ canonicalEncAlg (EAlg m),
      '' prot='' @ or_default (Prot m) ''esp'', '' mod='' @ or_default (Mode m) ''trans'',
      '' spi-c='' @ dec (unat (SPIc m)), '' spi-s='' @ dec (unat (SPIs m)),
      '' port-c='' @ Itoa (PortC m), '' port-s='' @ Itoa (PortS m)]"

lemma Format_params: "FormatSecurityMechanism m = ''ipsec-3gpp'' @ CHR '';'' # Join (format_params m) '';''"
  by (simp add: FormatSecurityMechanism_def format_params_def)

lemma Split_Join: "ps \<noteq> [] \<Longrightarrow> \<forall>s \<in> set ps. sep \<notin> set s \<Longrightarrow> Split (Join ps [sep]) sep = ps"
  by (induction ps "[sep]" rule: Join.induct) (auto simp: Split_none Split_append)

lemma not_in_dec: "\<not> is_digit c \<Longrightarrow> c \<notin> set (dec n)"
  using dec_digits by blast

lemma plain_dec: "plain_token (dec n)"
proof -
  have "CHR '';'' \<notin> set (dec n)" "CHR '','' \<notin> set (dec n)" "CHR 0x22 \<notin> set (dec n)"
    by (rule not_in_dec, simp add: is_digit_def)+
  then show ?thesis by (auto simp: plain_token_def)
qed

lemma Itoa_chars: "c \<in> set (Itoa i) \<Longrightarrow> is_digit c \<or> c = CHR ''-''"
  by (auto simp: Itoa_def dest: dec_digits split: if_splits)

lemma plain_Itoa: "plain_token (Itoa i)"
  using plain_dec by (simp add: Itoa_def plain_token_def)

lemma trim_dec [simp]: "trimToken (dec n) = dec n"
  using dec_digits [of _ n] is_digit_not_space
  by (auto simp: trimToken_plain plain_dec TrimSpace_def intro!: trim_by_none)

lemma trim_Itoa [simp]: "trimToken (Itoa i) = Itoa i"
  using Itoa_chars [of _ i] is_digit_not_space
  by (fastforce simp: trimToken_plain plain_Itoa TrimSpace_def is_space_def intro!: trim_by_none)

lemma canonicalAuthAlg_idem: "plain_token a \<Longrightarrow>
    canonicalAuthAlg (trimToken (canonicalAuthAlg a)) = canonicalAuthAlg a"
proof -
  assume a: "plain_token a"
  let ?t = "ToLower (TrimSpace a)"
  have t: "plain_token ?t" "TrimSpace ?t = ?t"
    using a by (simp_all add: plain_ToLower plain_TrimSpace TrimSpace_ToLower)
  have lit: "canonicalAuthAlg (trimToken ''hmac-md5-96'') = ''hmac-md5-96''"
    "canonicalAuthAlg (trimToken ''hmac-sha-1-96'') = ''hmac-sha-1-96''" by code_simp+
  have d: "canonicalAuthAlg a = ?t \<or> canonicalAuthAlg a \<in> {''hmac-md5-96'', ''hmac-sha-1-96''}"
    using a by (simp add: canonicalAuthAlg_def Let_def trimToken_plain)
  have "canonicalAuthAlg (trimToken ?t) = canonicalAuthAlg a"
    using a t by (simp add: canonicalAuthAlg_def trimToken_plain)
  then show ?thesis using d lit by auto
qed

lemma canonicalEncAlg_idem: "plain_token a \<Longrightarrow>
    canonicalEncAlg (trimToken (canonicalEncAlg a)) = canonicalEncAlg a"
proof -
  assume a: "plain_token a"
  let ?t = "ToLower (TrimSpace a)"
  have t: "plain_token ?t" "TrimSpace ?t = ?t"
    using a by (simp_all add: plain_ToLower plain_TrimSpace TrimSpace_ToLower)
  have lit: "canonicalEncAlg (trimToken ''des-ede3-cbc'') = ''des-ede3-cbc''"
    "canonicalEncAlg (trimToken ''aes-cbc'') = ''aes-cbc''" "canonicalEncAlg (trimToken ''null'') = ''null''"
    by code_simp+
  have d: "canonicalEncAlg a = ?t \<or> canonicalEncAlg a \<in> {''des-ede3-cbc'', ''aes-cbc'', ''null''}"
    using a by (simp add: canonicalEncAlg_def Let_def trimToken_plain)
  have "canonicalEncAlg (trimToken ?t) = canonicalEncAlg a"
    using a t by (simp add: canonicalEncAlg_def trimToken_plain)
  then show ?thesis using d lit by auto
qed

lemma parseUint32Param_dec: "parseUint32Param (dec (unat n)) = Some n"
proof -
  have "CHR ''x'' \<notin> set (dec (unat n))" "CHR ''X'' \<notin> set (dec (unat n))"
    by (rule not_in_dec, simp add: is_digit_def)+
  then have "\<not> HasPrefix (dec (unat n)) ''0x''" "\<not> HasPrefix (dec (unat n)) ''0X''"
    using in_set_takeD [of _ 2 "dec (unat n)"] by (auto simp: HasPrefix_def numeral_2_eq_2)
  moreover have "ParseUint (dec (unat n)) 10 32 = Some (unat n)"
    using u32_less [of n] by (intro ParseUint_dec) simp
  ultimately show ?thesis by (simp add: parseUint32Param_def)
qed

lemma plain_defaults: "plain_token ''esp''" "plain_token ''trans''"
  by (simp_all add: plain_token_def)

lemma plain_append: "plain_token (s @ t) \<longleftrightarrow> plain_token s \<and> plain_token t"
  by (auto simp: plain_token_def)

lemma plain_keys: "plain_token '' alg=''" "plain_token '' ealg=''" "plain_token '' prot=''"
  "plain_token '' mod=''" "plain_token '' spi-c=''" "plain_token '' spi-s=''"
  "plain_token '' port-c=''" "plain_token '' port-s=''"
  by (simp_all add: plain_token_def)

lemma format_params_plain:
  assumes m: "renderable m" shows "list_all plain_token (format_params m)"
proof -
  have "plain_token (or_default (Prot m) ''esp'')" "plain_token (or_default (Mode m) ''trans'')"
    "plain_token (canonicalAuthAlg (Alg m))" "plain_token (canonicalEncAlg (EAlg m))"
    using m plain_defaults
    by (simp_all add: renderable_def or_default_plain canonicalAuthAlg_plain canonicalEncAlg_plain)
  with plain_dec plain_Itoa show ?thesis
    by (simp only: format_params_def list.pred_inject plain_append plain_keys simp_thms)
qed

lemma or_default_trim: "plain_token s \<Longrightarrow> plain_token d \<Longrightarrow> trimToken d = d \<Longrightarrow>
    trimToken (or_default s d) = or_default s d"
  by (simp add: or_default_def trimToken_plain plain_TrimSpace)

lemma param_keys:
  "normalizeMechanismToken '' alg'' = ''alg''" "normalizeMechanismToken '' ealg'' = ''ealg''"
  "normalizeMechanismToken '' prot'' = ''prot''" "normalizeMechanismToken '' mod'' = ''mod''"
  "normalizeMechanismToken '' spi-c'' = ''spic''" "normalizeMechanismToken '' spi-s'' = ''spis''"
  "normalizeMechanismToken '' port-c'' = ''portc''" "normalizeMechanismToken '' port-s'' = ''ports''"
  by code_simp+

lemma apply_format_params:
  assumes m: "renderable m"
  shows "apply_params mech (format_params m) = Inr (mech\<lparr>Alg := canonicalAuthAlg (Alg m),
    EAlg := canonicalEncAlg (EAlg m), Prot := or_default (Prot m) ''esp'',
    Mode := or_default (Mode m) ''trans'', SPIc := SPIc m, SPIs := SPIs m,
    PortC := PortC m, PortS := PortS m\<rparr>)"
proof -
  have r: "plain_token (Alg m)" "plain_token (EAlg m)" "plain_token (Prot m)" "plain_token (Mode m)"
    "Atoi (Itoa (PortC m)) = Some (PortC m)" "Atoi (Itoa (PortS m)) = Some (PortS m)"
    using m by (auto simp: renderable_def ports_in_range_def Atoi_Itoa)
  have lit: "trimToken ''esp'' = ''esp''" "trimToken ''trans'' = ''trans''" by code_simp+
  have od: "trimToken (or_default (Prot m) ''esp'') = or_default (Prot m) ''esp''"
    "trimToken (or_default (Mode m) ''trans'') = or_default (Mode m) ''trans''"
    using r lit plain_defaults by (simp_all add: or_default_trim)
  note r' = canonicalAuthAlg_idem [OF r(1)] canonicalEncAlg_idem [OF r(2)]
  have "apply_param x ('' alg='' @ canonicalAuthAlg (Alg m)) = Inr (x\<lparr>Alg := canonicalAuthAlg (Alg m)\<rparr>)"
    "apply_param x ('' ealg='' @ canonicalEncAlg (EAlg m)) = Inr (x\<lparr>EAlg := canonicalEncAlg (EAlg m)\<rparr>)"
    "apply_param x ('' prot='' @ or_default (Prot m) ''esp'') = Inr (x\<lparr>Prot := or_default (Prot m) ''esp''\<rparr>)"
    "apply_param x ('' mod='' @ or_default (Mode m) ''trans'') = Inr (x\<lparr>Mode := or_default (Mode m) ''trans''\<rparr>)"
    for x by (simp_all add: apply_param_def param_keys Let_def r' od)
  moreover have "apply_param x ('' spi-c='' @ dec (unat (SPIc m))) = Inr (x\<lparr>SPIc := SPIc m\<rparr>)"
    "apply_param x ('' spi-s='' @ dec (unat (SPIs m))) = Inr (x\<lparr>SPIs := SPIs m\<rparr>)"
    "apply_param x ('' port-c='' @ Itoa (PortC m)) = Inr (x\<lparr>PortC := PortC m\<rparr>)"
    "apply_param x ('' port-s='' @ Itoa (PortS m)) = Inr (x\<lparr>PortS := PortS m\<rparr>)"
    for x by (simp_all add: apply_param_def param_keys Let_def r parseUint32Param_dec)
  ultimately show ?thesis by (simp only: format_params_def apply_params.simps rbind_simps)
qed

lemma last_Itoa: "\<not> is_space (List.last (Itoa i))"
proof -
  have "List.last (Itoa i) \<in> set (Itoa i)" by (rule last_in_set) (simp add: Itoa_def)
  from Itoa_chars [OF this] show ?thesis by (auto simp: is_space_def is_digit_def Let_def)
qed

lemma Format_ends: "FormatSecurityMechanism m \<noteq> []" "TrimSpace (FormatSecurityMechanism m) = FormatSecurityMechanism m"
proof -
  have i: "Itoa i \<noteq> []" for i by (simp add: Itoa_def)
  have "List.last (FormatSecurityMechanism m) = List.last (Itoa (PortS m))"
    using i by (simp add: FormatSecurityMechanism_def)
  moreover have "hd (FormatSecurityMechanism m) = CHR ''i''" by (simp add: FormatSecurityMechanism_def)
  moreover show "FormatSecurityMechanism m \<noteq> []" by (simp add: FormatSecurityMechanism_def)
  ultimately show "TrimSpace (FormatSecurityMechanism m) = FormatSecurityMechanism m"
    using last_Itoa unfolding TrimSpace_def by (intro trim_by_id) (simp_all add: is_space_def)
qed

lemma parse_format: "renderable m \<Longrightarrow>
    parseSecurityMechanism (FormatSecurityMechanism m) = Inr (canonical_mechanism m)"
proof -
  assume m: "renderable m"
  have "Split (Join (format_params m) [CHR '';'']) CHR '';'' = format_params m"
    using format_params_plain [OF m]
    by (intro Split_Join) (simp add: format_params_def, auto simp: list_all_iff plain_token_def)
  moreover have "Cut (FormatSecurityMechanism m) CHR '';'' =
      (''ipsec-3gpp'', Join (format_params m) [CHR '';''], True)"
    unfolding Format_params by (rule Cut_found) simp
  moreover have "EqualFold (trimToken (TrimPrefix ''ipsec-3gpp'' '' '')) ''ipsec-3gpp''" by code_simp
  ultimately show ?thesis
    using Format_ends apply_format_params [OF m]
    by (simp add: parseSecurityMechanism_def Let_def canonical_mechanism_def no_mechanism_def)
qed

section \<open>Comma separated lists\<close>

lemma split_loop_plain: "plain_token s \<Longrightarrow> split_loop b False (s @ rest) = split_loop (b @ s) False rest"
  by (induction s arbitrary: b) (auto simp: plain_token_def)

lemma plain_Format: "renderable m \<Longrightarrow>
    CHR '','' \<notin> set (FormatSecurityMechanism m) \<and> CHR 0x22 \<notin> set (FormatSecurityMechanism m)"
proof -
  assume m: "renderable m"
  have "list_all (\<lambda>s. CHR '','' \<notin> set s \<and> CHR 0x22 \<notin> set s) ps \<Longrightarrow>
      CHR '','' \<notin> set (Join ps '';'') \<and> CHR 0x22 \<notin> set (Join ps '';'')" for ps
    by (induction ps "'';''" rule: Join.induct) auto
  moreover have "list_all (\<lambda>s. CHR '','' \<notin> set s \<and> CHR 0x22 \<notin> set s) (format_params m)"
    using format_params_plain [OF m] by (auto simp: list_all_iff plain_token_def)
  ultimately show ?thesis by (simp add: Format_params)
qed

lemma split_loop_no_comma: "CHR '','' \<notin> set s \<Longrightarrow> CHR 0x22 \<notin> set s \<Longrightarrow>
    split_loop b False (s @ rest) = split_loop (b @ s) False rest"
  by (induction s arbitrary: b) auto

lemma flush_Format: "flush_part (FormatSecurityMechanism m) = [FormatSecurityMechanism m]"
  "flush_part (CHR '' '' # FormatSecurityMechanism m) = [FormatSecurityMechanism m]"
proof -
  have "TrimSpace (CHR '' '' # FormatSecurityMechanism m) = TrimSpace (FormatSecurityMechanism m)"
    unfolding TrimSpace_def by (rule trim_by_Cons) (simp add: is_space_def)
  then show "flush_part (FormatSecurityMechanism m) = [FormatSecurityMechanism m]"
    "flush_part (CHR '' '' # FormatSecurityMechanism m) = [FormatSecurityMechanism m]"
    by (simp_all add: flush_part_def Format_ends)
qed

lemma split_join_formats: "b = [] \<or> b = '' '' \<Longrightarrow> ms \<noteq> [] \<Longrightarrow> list_all renderable ms \<Longrightarrow>
    split_loop b False (Join (map FormatSecurityMechanism ms) '', '') = map FormatSecurityMechanism ms"
proof (induction ms arbitrary: b rule: induct_list012)
  case (2 m)
  then show ?case
    using plain_Format [of m] split_loop_no_comma [of "FormatSecurityMechanism m" b "[]"]
    by (auto simp: flush_Format)
next
  case (3 m m' ms)
  have m: "CHR '','' \<notin> set (FormatSecurityMechanism m)" "CHR 0x22 \<notin> set (FormatSecurityMechanism m)"
    using plain_Format [of m] 3(5) by auto
  have "flush_part (b @ FormatSecurityMechanism m) = [FormatSecurityMechanism m]"
    using 3(3) by (auto simp: flush_Format)
  moreover have "split_loop '' '' False (Join (map FormatSecurityMechanism (m' # ms)) '', '') =
      map FormatSecurityMechanism (m' # ms)" using 3 by simp
  ultimately show ?case by (simp add: split_loop_no_comma [OF m])
qed simp

lemma parse_parts_formats: "list_all renderable ms \<Longrightarrow>
    parse_parts (map FormatSecurityMechanism ms) = Inr (map canonical_mechanism ms)"
  by (induction ms) (auto simp: parse_format)

lemma Join_formats_ends: "ms \<noteq> [] \<Longrightarrow>
    hd (Join (map FormatSecurityMechanism ms) '', '') = CHR ''i'' \<and>
    \<not> is_space (List.last (Join (map FormatSecurityMechanism ms) '', '')) \<and>
    Join (map FormatSecurityMechanism ms) '', '' \<noteq> []"
proof (induction ms rule: induct_list012)
  case (2 m)
  have i: "Itoa i \<noteq> []" for i by (simp add: Itoa_def)
  have "List.last (FormatSecurityMechanism m) = List.last (Itoa (PortS m))"
    using i by (simp add: FormatSecurityMechanism_def)
  then show ?case using last_Itoa by (simp add: Format_ends) (simp add: FormatSecurityMechanism_def)
next
  case (3 m m' ms)
  have "hd (FormatSecurityMechanism m @ s) = CHR ''i''" for s by (simp add: FormatSecurityMechanism_def)
  then show ?case using 3 by simp
qed simp

lemma parse_format_list:
  assumes "list_all renderable ms"
  shows "ParseSecurityMechanisms (Join (map FormatSecurityMechanism ms) '', '') =
    Inr (map canonical_mechanism ms)"
proof (cases "ms = []")
  case True
  then show ?thesis by (simp add: ParseSecurityMechanisms_def TrimSpace_def)
next
  case False
  have "TrimSpace (Join (map FormatSecurityMechanism ms) '', '') = Join (map FormatSecurityMechanism ms) '', ''"
    unfolding TrimSpace_def using Join_formats_ends [OF False]
    by (intro trim_by_id) (simp_all add: is_space_def)
  then show ?thesis
    using Join_formats_ends [OF False] assms False
    by (simp add: ParseSecurityMechanisms_def splitMechanisms_def split_join_formats parse_parts_formats)
qed

section \<open>Properties\<close>

text \<open>A Security-Client or Security-Verify value rendered from a list of offers is parsed back to
  those offers, with their algorithm names in canonical form and the defaults filled in.\<close>

theorem mechanisms_roundtrip:
  "list_all renderable ms \<Longrightarrow>
   ParseSecurityMechanisms (Join (map FormatSecurityMechanism ms) '', '') = Inr (map canonical_mechanism ms)"
  by (rule parse_format_list)

definition sample_mechanism :: security_mechanism where
  "sample_mechanism = \<lparr>Alg = ''HMAC_MD5_96'', EAlg = ''3des'', Prot = [], Mode = '' trans'', SPIc = 17,
     SPIs = 4294967295, PortC = 5062, PortS = 6000, Raw = []\<rparr>"

theorem mechanisms_roundtrip_witness:
  "ParseSecurityMechanisms (Join (map FormatSecurityMechanism [sample_mechanism, sample_mechanism]) '', '') =
   Inr (map canonical_mechanism [sample_mechanism, sample_mechanism])"
  by (rule mechanisms_roundtrip)
    (simp add: renderable_def sample_mechanism_def plain_token_def ports_in_range_def)

lemma Select_spec: "SelectSecurityMechanism ms = (m, b) \<Longrightarrow>
    (b \<longrightarrow> m \<in> set ms \<and> SPIc m \<noteq> 0 \<and> SPIs m \<noteq> 0 \<and> PortC m \<noteq> 0 \<and> PortS m \<noteq> 0) \<and>
    (\<not> b \<longrightarrow> (\<forall>x \<in> set ms. SPIc x = 0 \<or> SPIs x = 0 \<or> PortC x = 0 \<or> PortS x = 0))"
  by (induction ms) (auto split: if_splits)

end
