(* ===== verification/IMS_Policy.thy ===== *)
theory IMS_Policy
  imports Go_Addr Mechanism
begin

text \<open>
  The carrier policy of IMS registrations, package \<^verbatim>\<open>policy\<close>: the template of a REGISTER request
  (\<^verbatim>\<open>types.go\<close>), the reviewed templates of the carriers and how a carrier profile amends them
  (\<^verbatim>\<open>defaults.go\<close>), the Security-Client header (\<^verbatim>\<open>security_client.go\<close>) and the Contact header
  (\<^verbatim>\<open>contact.go\<close>).

  A slice the code compares with nil is an option; a slice only ranged over is a list.  The lemmas
  show that every profile keeps the baseline order of the Contact parameters.
\<close>

section \<open>Templates\<close>

record reregister_rule =
  RuleMethod :: string
  Statuses :: "string list"

record ipsec_mechanism =
  ClientAlg :: string
  ClientEAlg :: string
  ClientProt :: string
  ClientMode :: string

record register_policy =
  PolicyID :: string
  TemporaryStatusCodes :: "int list option"
  ForbiddenStatusCodes :: "int list option"
  InitialRejectFallbackStatusCodes :: "int list option"
  TemporaryRetrySeconds :: int

record ims_template =
  TemplateID :: string
  InitialAuthorization :: string
  UsePlainDigestPlaceholder :: bool
  TemplateExpires :: int
  ReRegisterOn :: "reregister_rule list"
  TemplateTransport :: string
  SMSReceiverTransport :: string
  ContactMode :: string
  FixedPANI :: string
  SupportedHeader :: string
  AllowHeader :: string
  AccessType :: string
  ICSIRef :: string
  ContactParamOrder :: "string list option"
  ContactFeatures :: string
  VoiceSupportedHeader :: string
  VoiceAllowHeader :: string
  VoiceAcceptContact :: string
  VoicePPreferredService :: string
  ForceHeaderPort5060 :: bool
  IncludePANI :: bool
  IncludePANIAuthenticated :: bool
  IncludePAccessNetworkInfo :: bool
  AllowPlainIMS :: bool
  SupportPEarlyMedia :: bool
  EarlyMediaNeedsHeader :: bool
  IncludeConnectionKeepaliveInAuth :: bool
  SecAgreeMode :: string
  SecurityClientIncludesServerParams :: bool
  SecurityClientMechanisms :: "ipsec_mechanism list option"
  StrictSecurityServerOffer :: bool
  EnableInitialRejectFallback :: bool
  FallbackIncludesServerParamsInSecCl :: bool
  RegisterPolicy :: register_policy

definition no_policy :: register_policy where
  "no_policy = \<lparr>PolicyID = [], TemporaryStatusCodes = None, ForbiddenStatusCodes = None,
     InitialRejectFallbackStatusCodes = None, TemporaryRetrySeconds = 0\<rparr>"

definition no_template :: ims_template where
  "no_template = \<lparr>TemplateID = [], InitialAuthorization = [], UsePlainDigestPlaceholder = False,
     TemplateExpires = 0, ReRegisterOn = [], TemplateTransport = [], SMSReceiverTransport = [],
     ContactMode = [], FixedPANI = [], SupportedHeader = [], AllowHeader = [], AccessType = [],
     ICSIRef = [], ContactParamOrder = None, ContactFeatures = [], VoiceSupportedHeader = [],
     VoiceAllowHeader = [], VoiceAcceptContact = [], VoicePPreferredService = [],
     ForceHeaderPort5060 = False, IncludePANI = False, IncludePANIAuthenticated = False,
     IncludePAccessNetworkInfo = False, AllowPlainIMS = False, SupportPEarlyMedia = False,
     EarlyMediaNeedsHeader = False, IncludeConnectionKeepaliveInAuth = False, SecAgreeMode = [],
     SecurityClientIncludesServerParams = False, SecurityClientMechanisms = None,
     StrictSecurityServerOffer = False, EnableInitialRejectFallback = False,
     FallbackIncludesServerParamsInSecCl = False, RegisterPolicy = no_policy\<rparr>"

definition DefaultRegisterExpires :: int where "DefaultRegisterExpires = 3600"

definition DefaultRegisterAllow :: string where
  "DefaultRegisterAllow = ''INVITE,ACK,CANCEL,BYE,UPDATE,PRACK,MESSAGE,REFER,NOTIFY,INFO,OPTIONS''"

definition DefaultRegisterSupport :: string where
  "DefaultRegisterSupport = ''path,sec-agree,gruu''"

definition IMSMmtelICSIRef :: string where
  "IMSMmtelICSIRef = ''urn:urn-7:3gpp-service.ims.icsi.mmtel''"

definition alg_pair :: "string \<Rightarrow> string \<Rightarrow> ipsec_mechanism" where
  "alg_pair alg ealg = \<lparr>ClientAlg = alg, ClientEAlg = ealg, ClientProt = [], ClientMode = []\<rparr>"

definition DefaultSecurityClientMechanisms :: "ipsec_mechanism list" where
  "DefaultSecurityClientMechanisms =
     [alg_pair ''hmac-md5-96'' ''des-ede3-cbc'', alg_pair ''hmac-md5-96'' ''aes-cbc'',
      alg_pair ''hmac-md5-96'' ''null'', alg_pair ''hmac-sha-1-96'' ''des-ede3-cbc'',
      alg_pair ''hmac-sha-1-96'' ''aes-cbc'', alg_pair ''hmac-sha-1-96'' ''null'']"

definition DefaultIMSRegisterTemplate :: ims_template where
  "DefaultIMSRegisterTemplate = no_template\<lparr>
     TemplateID := ''3gpp-default'', TemplateExpires := DefaultRegisterExpires,
     TemplateTransport := ''tcp'', ContactMode := ''android_default'',
     SupportedHeader := DefaultRegisterSupport, AllowHeader := DefaultRegisterAllow,
     AccessType := ''IEEE-802.11'', ICSIRef := IMSMmtelICSIRef, SecAgreeMode := ''auto'',
     IncludePANIAuthenticated := True, StrictSecurityServerOffer := True,
     EnableInitialRejectFallback := False,
     ContactParamOrder := Some [''access_type'', ''audio'', ''smsip'', ''icsi_ref'', ''sip_instance''],
     SecurityClientMechanisms := Some DefaultSecurityClientMechanisms\<rparr>"

definition DefaultGiffgaffTemplate :: ims_template where
  "DefaultGiffgaffTemplate = DefaultIMSRegisterTemplate\<lparr>
     TemplateID := ''giffgaff'', InitialAuthorization := ''aka_empty'', ContactMode := ''gsma'',
     SupportedHeader := ''path,gruu'',
     AllowHeader := ''REGISTER,INVITE,ACK,CANCEL,BYE,OPTIONS,MESSAGE,SUBSCRIBE,NOTIFY'',
     FixedPANI := ''IEEE-802.11;country=GB;i-wlan-node-id=000000000000'', AccessType := [],
     ContactParamOrder := Some [''icsi_ref'', ''mid_call'', ''smsip'', ''sip_instance'']\<rparr>"

definition OrangeUKTemplate :: ims_template where
  "OrangeUKTemplate = DefaultIMSRegisterTemplate\<lparr>
     TemplateID := ''apple_orange_uk'', InitialAuthorization := ''aka_empty'',
     ContactParamOrder := Some [''access_type'', ''audio'', ''smsip'', ''icsi_ref'', ''mid_call'',
       ''srvcc_alerting'', ''ps2cs_srvcc_orig_pre_alerting'', ''sip_instance'']\<rparr>"

definition TemplateForCarrier :: "string \<Rightarrow> ims_template" where
  "TemplateForCarrier carrierID =
     (if carrierID = ''apple_o2_giffgaff_uk'' then DefaultGiffgaffTemplate
      else if carrierID = ''apple_orange_uk'' then OrangeUKTemplate
      else DefaultIMSRegisterTemplate\<lparr>TemplateID := carrierID\<rparr>)"

section \<open>Carrier profiles\<close>

text \<open>The fields of \<^verbatim>\<open>carrier.Profile\<close> that the registration policy reads.\<close>

record carrier_profile =
  ProfileID :: string
  RegisterContactParams :: "string list"
  ProfileExpires :: int
  ProfileReRegisterOn :: "reregister_rule list"
  ProfilePEarlyMedia :: bool
  ProfileEarlyMediaHeader :: bool

definition contactParamName :: "string \<Rightarrow> string" where
  "contactParamName value =
     (let v = ToLower (TrimSpace value)
      in if v = ''+g.3gpp.mid-call'' then ''mid_call''
         else if v = ''+g.3gpp.srvcc-alerting'' then ''srvcc_alerting''
         else if v = ''+g.3gpp.ps2cs-srvcc-orig-pre-alerting'' then ''ps2cs_srvcc_orig_pre_alerting''
         else if v = ''+g.3gpp.smsip'' then ''smsip''
         else if v = ''audio'' then ''audio''
         else [])"

fun hasParam :: "string list \<Rightarrow> string \<Rightarrow> bool" where
  "hasParam [] target = False"
| "hasParam (v # vs) target = (v = target \<or> hasParam vs target)"

fun insertBeforeInstance :: "string list \<Rightarrow> string \<Rightarrow> string list" where
  "insertBeforeInstance [] value = [value]"
| "insertBeforeInstance (v # vs) value =
     (if v = ''sip_instance'' then value # v # vs else v # insertBeforeInstance vs value)"

definition CloneReRegisterRules :: "reregister_rule list \<Rightarrow> reregister_rule list" where
  "CloneReRegisterRules source = List.map (\<lambda>rule. rule\<lparr>Statuses := Statuses rule\<rparr>) source"

text \<open>The loop of \<^verbatim>\<open>TemplateForProfile\<close> over the parameters of the profile.\<close>

fun add_contact_params :: "string list \<Rightarrow> string list \<Rightarrow> string list" where
  "add_contact_params order [] = order"
| "add_contact_params order (raw # raws) =
     (let name = contactParamName raw
      in add_contact_params
           (if name \<noteq> [] \<and> \<not> hasParam order name then insertBeforeInstance order name else order) raws)"

definition order_of :: "ims_template \<Rightarrow> string list" where
  "order_of t = (case ContactParamOrder t of None \<Rightarrow> [] | Some order \<Rightarrow> order)"

definition TemplateForProfile :: "carrier_profile option \<Rightarrow> ims_template" where
  "TemplateForProfile profile =
     (case profile of
        None \<Rightarrow> DefaultIMSRegisterTemplate
      | Some p \<Rightarrow>
          let t = TemplateForCarrier (ProfileID p)
          in if ProfileID p = ''apple_o2_giffgaff_uk'' then t
             else let t1 = (if 0 < ProfileExpires p then t\<lparr>TemplateExpires := ProfileExpires p\<rparr> else t);
                      t2 = t1\<lparr>ReRegisterOn := CloneReRegisterRules (ProfileReRegisterOn p)\<rparr>;
                      t3 = t2\<lparr>ContactParamOrder := Some (add_contact_params (order_of t2) (RegisterContactParams p))\<rparr>
                  in if ProfilePEarlyMedia p
                     then t3\<lparr>SupportPEarlyMedia := True, EarlyMediaNeedsHeader := ProfileEarlyMediaHeader p\<rparr>
                     else t3)"

section \<open>The Security-Client header\<close>

definition normalizeEAlg :: "string \<Rightarrow> string" where
  "normalizeEAlg ealg = (let e = TrimSpace ealg in if e = [] then ''null'' else e)"

definition formatSecurityClientMechanism ::
  "ipsec_mechanism \<Rightarrow> u32 \<Rightarrow> u32 \<Rightarrow> int \<Rightarrow> int \<Rightarrow> string" where
  "formatSecurityClientMechanism mech spiC spiS portC portS =
     (let alg = TrimSpace (ClientAlg mech); ealg = normalizeEAlg (ClientEAlg mech);
          prot = TrimSpace (ClientProt mech);
          server = ''; spi-c='' @ dec (unat spiC) @ ''; spi-s='' @ dec (unat spiS) @
            ''; port-c='' @ Itoa portC @ ''; port-s='' @ Itoa portS
      in if prot \<noteq> [] then
           let mode = TrimSpace (ClientMode mech); mode' = (if mode = [] then ''trans'' else mode)
           in ''ipsec-3gpp; alg='' @ alg @ ''; ealg='' @ ealg @ ''; prot='' @ prot @ ''; mod='' @ mode' @ server
         else ''ipsec-3gpp; alg='' @ alg @ ''; ealg='' @ ealg @ server)"

definition BuildSecurityClientHeader :: "ims_template \<Rightarrow> u32 \<Rightarrow> u32 \<Rightarrow> int \<Rightarrow> int \<Rightarrow> string" where
  "BuildSecurityClientHeader template spiC spiS portC portS =
     (let mechanisms = (case SecurityClientMechanisms template of
            None \<Rightarrow> DefaultSecurityClientMechanisms | Some ms \<Rightarrow> ms)
      in Join (List.map (\<lambda>mech. formatSecurityClientMechanism mech spiC spiS portC portS) mechanisms) '','')"

section \<open>The Contact header\<close>

record contact_input =
  IMSI :: string
  PublicURI :: string
  ContactIP :: bytes
  ContactPort :: int
  SIPInstanceURN :: string
  RegisterExpirySecs :: int

definition quoted :: "string \<Rightarrow> string" where
  "quoted s = [CHR 0x22] @ s @ [CHR 0x22]"

definition appendContactParam :: "ims_template \<Rightarrow> string \<Rightarrow> contact_input \<Rightarrow> string" where
  "appendContactParam tmpl name input =
     (let n = ToLower (TrimSpace name)
      in if n = ''access_type'' then
           (let accessType = TrimSpace (AccessType tmpl)
            in '';+g.3gpp.accesstype='' @ quoted (if accessType = [] then ''IEEE-802.11'' else accessType))
         else if n = ''sip_instance'' then
           (let urn = TrimSpace (SIPInstanceURN input)
            in if urn \<noteq> [] then '';+sip.instance='' @ quoted (''<'' @ urn @ ''>'') else [])
         else if n = ''audio'' then '';audio''
         else if n = ''smsip'' then '';+g.3gpp.smsip''
         else if n = ''icsi_ref'' then
           (let ref = TrimSpace (ICSIRef tmpl); ref' = (if ref = [] then IMSMmtelICSIRef else ref)
            in '';+g.3gpp.icsi-ref='' @ quoted (ReplaceChar ref' CHR '':'' ''%3A''))
         else if n = ''mid_call'' then '';+g.3gpp.mid-call''
         else if n = ''srvcc_alerting'' then '';+g.3gpp.srvcc-alerting''
         else if n = ''ps2cs_srvcc_orig_pre_alerting'' then '';+g.3gpp.ps2cs-srvcc-orig-pre-alerting''
         else [])"

text \<open>The user of the Contact address: the one of the public URI where it names one.\<close>

definition contact_user :: "contact_input \<Rightarrow> string" where
  "contact_user input =
     (case IndexByte (PublicURI input) CHR '':'' of
        None \<Rightarrow> TrimSpace (IMSI input)
      | Some idx \<Rightarrow>
          let rest = drop (idx + 1) (PublicURI input)
          in case IndexByte rest CHR ''@'' of
               None \<Rightarrow> TrimSpace (IMSI input)
             | Some at \<Rightarrow> if 0 < at then take at rest else TrimSpace (IMSI input))"

definition contact_port :: "ims_template \<Rightarrow> contact_input \<Rightarrow> int" where
  "contact_port tmpl input =
     (if ForceHeaderPort5060 tmpl then 5060
      else if ContactPort input \<le> 0 then 5060 else ContactPort input)"

definition contact_uri :: "ims_template \<Rightarrow> contact_input \<Rightarrow> string" where
  "contact_uri tmpl input =
     (let hostport = JoinHostPort (ip_string (ContactIP input)) (Itoa (contact_port tmpl input));
          transport = ToLower (TrimSpace (TemplateTransport tmpl));
          transport' = (if transport = [] \<or> transport = ''auto'' then ''tcp'' else transport);
          mode = ToLower (TrimSpace (ContactMode tmpl));
          uri = (if mode = ''legacy'' then TrimSpace (PublicURI input)
                 else if mode = ''gsma'' then ''sip:'' @ hostport else [])
      in if uri = [] then ''sip:'' @ contact_user input @ ''@'' @ hostport @ '';transport='' @ transport'
         else uri)"

definition BuildIMSContactHeader :: "ims_template \<Rightarrow> contact_input \<Rightarrow> string" where
  "BuildIMSContactHeader tmpl input =
     (let order = (case ContactParamOrder tmpl of
            None \<Rightarrow> order_of DefaultIMSRegisterTemplate | Some order \<Rightarrow> order);
          expires = (if RegisterExpirySecs input \<le> 0 then TemplateExpires tmpl else RegisterExpirySecs input);
          expires' = (if expires \<le> 0 then DefaultRegisterExpires else expires)
      in ''<'' @ contact_uri tmpl input @ ''>'' @
         concat (List.map (\<lambda>param. appendContactParam tmpl param input) order) @
         (if ToLower (TrimSpace (ContactMode tmpl)) \<noteq> ''gsma'' then '';expires='' @ Itoa expires' else []))"

section \<open>The order of the Contact parameters\<close>

lemma hasParam_iff: "hasParam vs target \<longleftrightarrow> target \<in> set vs"
  by (induction vs) auto

lemma insertBeforeInstance_last:
  "''sip_instance'' \<notin> set xs \<Longrightarrow>
   insertBeforeInstance (xs @ [''sip_instance'']) v = xs @ [v, ''sip_instance'']"
  by (induction xs) auto

lemma contactParamName_not_instance: "contactParamName raw \<noteq> ''sip_instance''"
  by (simp add: contactParamName_def Let_def)

lemma add_contact_params_extends:
  "distinct (xs @ [''sip_instance'']) \<Longrightarrow>
   \<exists>ys. add_contact_params (xs @ [''sip_instance'']) raws = xs @ ys @ [''sip_instance''] \<and>
     distinct (xs @ ys @ [''sip_instance'']) \<and>
     set ys = contactParamName ` set raws - {[]} - set xs"
proof (induction raws arbitrary: xs)
  case Nil
  then show ?case by (intro exI [of _ "[]"]) simp
next
  case (Cons raw raws)
  let ?n = "contactParamName raw"
  show ?case
  proof (cases "?n \<noteq> [] \<and> \<not> hasParam (xs @ [''sip_instance'']) ?n")
    case True
    then have "distinct ((xs @ [?n]) @ [''sip_instance''])"
      using Cons.prems contactParamName_not_instance [of raw] by (auto simp: hasParam_iff)
    from Cons.IH [OF this] obtain ys where ys:
      "add_contact_params ((xs @ [?n]) @ [''sip_instance'']) raws = (xs @ [?n]) @ ys @ [''sip_instance'']"
      "distinct ((xs @ [?n]) @ ys @ [''sip_instance''])"
      "set ys = contactParamName ` set raws - {[]} - set (xs @ [?n])" by auto
    have "insertBeforeInstance (xs @ [''sip_instance'']) ?n = (xs @ [?n]) @ [''sip_instance'']"
      using Cons.prems insertBeforeInstance_last [of xs ?n] by simp
    moreover have "set (?n # ys) = contactParamName ` set (raw # raws) - {[]} - set xs"
      using True ys(3) by (auto simp: hasParam_iff)
    ultimately show ?thesis using True ys(1,2) by (intro exI [of _ "?n # ys"]) (simp add: Let_def)
  next
    case False
    then have "add_contact_params (xs @ [''sip_instance'']) (raw # raws) =
        add_contact_params (xs @ [''sip_instance'']) raws" by (auto simp: Let_def)
    moreover have "contactParamName ` set (raw # raws) - {[]} - set xs = contactParamName ` set raws - {[]} - set xs"
      using False contactParamName_not_instance [of raw] by (auto simp: hasParam_iff)
    ultimately show ?thesis using Cons by simp
  qed
qed

text \<open>The parameters a carrier starts from, without the instance that ends the order.\<close>

definition carrier_params :: "string \<Rightarrow> string list" where
  "carrier_params carrierID = butlast (order_of (TemplateForCarrier carrierID))"

lemmas template_defs = TemplateForCarrier_def DefaultGiffgaffTemplate_def OrangeUKTemplate_def
  DefaultIMSRegisterTemplate_def no_template_def

lemma carrier_order: "order_of (TemplateForCarrier c) = carrier_params c @ [''sip_instance'']"
  "distinct (carrier_params c @ [''sip_instance''])"
proof -
  have "order_of (TemplateForCarrier c) \<noteq> []" "List.last (order_of (TemplateForCarrier c)) = ''sip_instance''"
    "distinct (order_of (TemplateForCarrier c))"
    by (simp_all add: template_defs order_of_def)
  then show "order_of (TemplateForCarrier c) = carrier_params c @ [''sip_instance'']"
    "distinct (carrier_params c @ [''sip_instance''])"
    by (metis append_butlast_last_id carrier_params_def)+
qed

lemma TemplateForProfile_order:
  "order_of (TemplateForProfile (Some p)) =
     (if ProfileID p = ''apple_o2_giffgaff_uk'' then order_of (TemplateForCarrier (ProfileID p))
      else add_contact_params (order_of (TemplateForCarrier (ProfileID p))) (RegisterContactParams p))"
  by (simp add: TemplateForProfile_def Let_def order_of_def)

text \<open>The parameters a profile asks for that its carrier does not send anyway.\<close>

definition requested_params :: "carrier_profile \<Rightarrow> string set" where
  "requested_params p =
     (if ProfileID p = ''apple_o2_giffgaff_uk'' then {}
      else contactParamName ` set (RegisterContactParams p) - {[]} - set (carrier_params (ProfileID p)))"

lemma profile_order_extends:
  "\<exists>added. order_of (TemplateForProfile (Some p)) = carrier_params (ProfileID p) @ added @ [''sip_instance''] \<and>
     distinct (order_of (TemplateForProfile (Some p))) \<and> set added = requested_params p"
proof (cases "ProfileID p = ''apple_o2_giffgaff_uk''")
  case True
  then show ?thesis using carrier_order [of "ProfileID p"]
    by (intro exI [of _ "[]"]) (simp add: TemplateForProfile_order requested_params_def)
next
  case False
  then show ?thesis using add_contact_params_extends [OF carrier_order(2) [of "ProfileID p"], of "RegisterContactParams p"]
    by (auto simp: TemplateForProfile_order carrier_order(1) requested_params_def)
qed

lemma ReplaceChar_same: "old \<notin> set s \<Longrightarrow> ReplaceChar s old new = s"
  by (induction s) (auto simp: ReplaceChar_def)

section \<open>Property\<close>

text \<open>Whatever Contact parameters a carrier profile asks for, the order of the template is the order
  of the carrier followed by exactly the known parameters asked for that the carrier lacks, no parameter
  occurs twice and the instance identifier stays the last one; the reviewed giffgaff order is not changed.\<close>

theorem contact_order_kept:
  "\<exists>added. ContactParamOrder (TemplateForProfile (Some p)) =
       Some (carrier_params (ProfileID p) @ added @ [''sip_instance'']) \<and>
     distinct (carrier_params (ProfileID p) @ added @ [''sip_instance'']) \<and> set added = requested_params p"
proof -
  obtain added where a: "order_of (TemplateForProfile (Some p)) = carrier_params (ProfileID p) @ added @ [''sip_instance'']"
    "distinct (order_of (TemplateForProfile (Some p)))" "set added = requested_params p" using profile_order_extends by blast
  then have "ContactParamOrder (TemplateForProfile (Some p)) \<noteq> None"
    by (auto simp: order_of_def)
  then show ?thesis using a by (intro exI [of _ added]) (auto simp: order_of_def)
qed

end
