(* ===== verification/Sec_Headers.thy ===== *)
theory Sec_Headers
  imports IMS_Policy
begin

text \<open>
  The Security-Server and Security-Verify headers, \<^verbatim>\<open>imsheaders/security.go\<close>: parsing a header into
  offers, selecting the offer the security associations are built from, and rendering offers.

  The preference \<^verbatim>\<open>q\<close> of an offer is a \<^verbatim>\<open>float64\<close>.  The model is polymorphic in its type
  \<^typ>\<open>'q\<close>; parsing, comparing and formatting such values is the argument \<^verbatim>\<open>float_ops\<close> of the
  definitions.  The selection relies on two laws of the order of floating point numbers, which also hold
  in the presence of NaN: it is irreflexive and transitive (\<^verbatim>\<open>float_laws\<close>).
\<close>

section \<open>Offers\<close>

record 'q float_ops =
  ParseFloat :: "string \<Rightarrow> 'q option"
  float_greater :: "'q \<Rightarrow> 'q \<Rightarrow> bool"
  float_zero :: 'q
  float_minus_one :: 'q
  FormatFloat :: "'q \<Rightarrow> string"

record 'q security_offer =
  OfferMechanism :: string
  Q :: 'q
  OfferAlg :: string
  OfferEAlg :: string
  OfferProt :: string
  OfferMode :: string
  SPIC :: u32
  SPIS :: u32
  OfferPortC :: int
  OfferPortS :: int

datatype header_error =
  EmptySecurityHeader | NoSecurityOffers | NoMatchingSecurityOffer | IncompleteSecurityParams
| BadQ | BadSPIC | BadSPIS | BadPortC | BadPortS

record server_params =
  spic :: u32
  spis :: u32
  portC :: int
  portS :: int
  params_set :: bool

definition no_params :: server_params where
  "no_params = \<lparr>spic = 0, spis = 0, portC = 0, portS = 0, params_set = False\<rparr>"

definition no_offer :: "'q float_ops \<Rightarrow> 'q security_offer" where
  "no_offer f = \<lparr>OfferMechanism = [], Q = float_zero f, OfferAlg = [], OfferEAlg = [], OfferProt = [],
     OfferMode = [], SPIC = 0, SPIS = 0, OfferPortC = 0, OfferPortS = 0\<rparr>"

definition canonicalEAlg :: "string \<Rightarrow> string" where
  "canonicalEAlg ealg =
     (let e = TrimSpace (ToLower ealg) in if e = [] \<or> e = ''null'' then ''null'' else e)"

definition parseUint32 :: "string \<Rightarrow> u32 option" where
  "parseUint32 raw = map_option of_nat (ParseUint (TrimSpace raw) 10 32)"

definition offerHasServerParams :: "('q, 'more) security_offer_scheme \<Rightarrow> bool" where
  "offerHasServerParams offer \<longleftrightarrow>
     SPIC offer \<noteq> 0 \<and> SPIS offer \<noteq> 0 \<and> 0 < OfferPortC offer \<and> 0 < OfferPortS offer"

section \<open>Parsing\<close>

text \<open>The loop of \<^verbatim>\<open>splitSecurityOffers\<close>: the first argument is the text from \<^verbatim>\<open>start\<close> to the
  current byte.\<close>

fun split_offers :: "string \<Rightarrow> string \<Rightarrow> string list" where
  "split_offers b [] = [TrimSpace b]"
| "split_offers b (c # s) =
     (if c = CHR '','' \<and> HasPrefix s ''ipsec-3gpp'' then TrimSpace b # split_offers [] s
      else split_offers (b @ [c]) s)"

definition splitSecurityOffers :: "string \<Rightarrow> string list" where
  "splitSecurityOffers value = split_offers [] value"

text \<open>One parameter of an offer and one part, the body of the loop of
  \<^verbatim>\<open>parseSecurityOfferSegment\<close>.\<close>

definition offer_field ::
  "'q float_ops \<Rightarrow> string \<Rightarrow> string \<Rightarrow> 'q security_offer \<times> server_params \<Rightarrow>
   header_error + 'q security_offer \<times> server_params" where
  "offer_field f key val st =
     (let (offer, params) = st
      in if key = ''q'' then
           (case ParseFloat f val of None \<Rightarrow> Inl BadQ | Some q \<Rightarrow> Inr (offer\<lparr>Q := q\<rparr>, params))
         else if key = ''alg'' then Inr (offer\<lparr>OfferAlg := val\<rparr>, params)
         else if key = ''ealg'' then Inr (offer\<lparr>OfferEAlg := val\<rparr>, params)
         else if key = ''prot'' then Inr (offer\<lparr>OfferProt := val\<rparr>, params)
         else if key = ''mod'' then Inr (offer\<lparr>OfferMode := val\<rparr>, params)
         else if key = ''spi-c'' then
           (case parseUint32 val of None \<Rightarrow> Inl BadSPIC
            | Some n \<Rightarrow> Inr (offer\<lparr>SPIC := n\<rparr>, params\<lparr>spic := n, params_set := True\<rparr>))
         else if key = ''spi-s'' then
           (case parseUint32 val of None \<Rightarrow> Inl BadSPIS
            | Some n \<Rightarrow> Inr (offer\<lparr>SPIS := n\<rparr>, params\<lparr>spis := n, params_set := True\<rparr>))
         else if key = ''port-c'' then
           (case Atoi val of None \<Rightarrow> Inl BadPortC
            | Some n \<Rightarrow> Inr (offer\<lparr>OfferPortC := n\<rparr>, params\<lparr>portC := n, params_set := True\<rparr>))
         else if key = ''port-s'' then
           (case Atoi val of None \<Rightarrow> Inl BadPortS
            | Some n \<Rightarrow> Inr (offer\<lparr>OfferPortS := n\<rparr>, params\<lparr>portS := n, params_set := True\<rparr>))
         else Inr st)"

definition offer_part ::
  "'q float_ops \<Rightarrow> string \<Rightarrow> 'q security_offer \<times> server_params \<Rightarrow>
   header_error + 'q security_offer \<times> server_params" where
  "offer_part f raw st =
     (let part = TrimSpace raw
      in if part = [] then Inr st
         else if \<not> has_byte part CHR ''='' then Inr ((fst st)\<lparr>OfferMechanism := part\<rparr>, snd st)
         else let (key, val, ok) = Cut part CHR ''=''
         in offer_field f (TrimSpace (ToLower key)) (TrimSpace val) st)"

fun offer_parts ::
  "'q float_ops \<Rightarrow> string list \<Rightarrow> 'q security_offer \<times> server_params \<Rightarrow>
   header_error + 'q security_offer \<times> server_params" where
  "offer_parts f [] st = Inr st"
| "offer_parts f (part # parts) st = rbind (offer_part f part st) (offer_parts f parts)"

definition offer_defaults :: "'q security_offer \<Rightarrow> 'q security_offer" where
  "offer_defaults offer = offer\<lparr>
     OfferMechanism := (if OfferMechanism offer = [] then ''ipsec-3gpp'' else OfferMechanism offer),
     OfferMode := (if OfferMode offer = [] then ''trans'' else OfferMode offer),
     OfferEAlg := canonicalEAlg (OfferEAlg offer)\<rparr>"

definition parseSecurityOfferSegment ::
  "'q float_ops \<Rightarrow> string \<Rightarrow> header_error + 'q security_offer \<times> server_params" where
  "parseSecurityOfferSegment f segment =
     (let s = TrimSpace segment
      in if s = [] then Inl NoSecurityOffers
         else rbind (offer_parts f (Split s CHR '';'') (no_offer f, no_params))
           (\<lambda>(offer, params). Inr (offer_defaults offer, params)))"

text \<open>The parameters that hold for all offers: those of the last segment that has any.\<close>

fun shared_params :: "server_params \<Rightarrow> ('q security_offer \<times> server_params) list \<Rightarrow> server_params" where
  "shared_params shared [] = shared"
| "shared_params shared ((offer, params) # rest) =
     shared_params (if params_set params then params else shared) rest"

definition with_params :: "server_params \<Rightarrow> 'q security_offer \<Rightarrow> 'q security_offer" where
  "with_params shared offer = offer\<lparr>SPIC := spic shared, SPIS := spis shared,
     OfferPortC := portC shared, OfferPortS := portS shared\<rparr>"

definition ParseSecurityServer :: "'q float_ops \<Rightarrow> string \<Rightarrow> header_error + 'q security_offer list" where
  "ParseSecurityServer f header =
     (let v = TrimSpace header
      in if v = [] then Inl EmptySecurityHeader
         else let segments = splitSecurityOffers v
         in if segments = [] then Inl NoSecurityOffers
         else rbind (collect (parseSecurityOfferSegment f) segments)
           (\<lambda>parsed. let shared = shared_params no_params parsed; offers = List.map fst parsed
              in Inr (if params_set shared then List.map (with_params shared) offers else offers)))"

section \<open>Selection\<close>

text \<open>The comparison of the trimmed names in lower case; an empty protocol or mode of the client matches
  any.\<close>

definition mechanism_matches :: "('q, 'more) security_offer_scheme \<Rightarrow> ipsec_mechanism \<Rightarrow> bool" where
  "mechanism_matches server client \<longleftrightarrow>
     (let low = \<lambda>s. ToLower (TrimSpace s)
      in low (ClientAlg client) = low (OfferAlg server) \<and>
         canonicalEAlg (ClientEAlg client) = canonicalEAlg (OfferEAlg server) \<and>
         (low (ClientProt client) = [] \<or> low (ClientProt client) = low (OfferProt server)) \<and>
         (low (ClientMode client) = [] \<or> low (ClientMode client) = low (OfferMode server)))"

definition mechanismMatchesClient ::
  "('q, 'more) security_offer_scheme \<Rightarrow> ipsec_mechanism list option \<Rightarrow> bool" where
  "mechanismMatchesClient server clientMechanisms =
     list_ex (mechanism_matches server)
       (case clientMechanisms of None \<Rightarrow> DefaultSecurityClientMechanisms | Some ms \<Rightarrow> ms)"

text \<open>A best offer so far with its q, and one round of the loop of \<^verbatim>\<open>SelectSecurityServerOffer\<close>.\<close>

type_synonym 'q best = "'q security_offer option \<times> 'q"

definition better :: "'q float_ops \<Rightarrow> 'q security_offer \<Rightarrow> 'q best \<Rightarrow> 'q best" where
  "better f offer best = (if float_greater f (Q offer) (snd best) then (Some offer, Q offer) else best)"

fun select_loop ::
  "'q float_ops \<Rightarrow> ipsec_mechanism list option \<Rightarrow> 'q security_offer list \<Rightarrow> 'q best \<Rightarrow> 'q best \<Rightarrow>
   'q best \<times> 'q best" where
  "select_loop f clients [] bestMatch bestAny = (bestMatch, bestAny)"
| "select_loop f clients (offer # offers) bestMatch bestAny =
     select_loop f clients offers
       (if mechanismMatchesClient offer clients then better f offer bestMatch else bestMatch)
       (if offerHasServerParams offer then better f offer bestAny else bestAny)"

definition SelectSecurityServerOffer ::
  "'q float_ops \<Rightarrow> 'q security_offer list \<Rightarrow> ipsec_mechanism list option \<Rightarrow> bool \<Rightarrow>
   header_error + 'q security_offer" where
  "SelectSecurityServerOffer f offers clientMechanisms strict =
     (if offers = [] then Inl NoSecurityOffers
      else let start = (None, float_minus_one f);
               (bestMatch, bestAny) = select_loop f clientMechanisms offers start start
      in case fst bestMatch of
           Some offer \<Rightarrow> if \<not> offerHasServerParams offer then Inl IncompleteSecurityParams else Inr offer
         | None \<Rightarrow>
             if strict then Inl NoMatchingSecurityOffer
             else case fst bestAny of None \<Rightarrow> Inl IncompleteSecurityParams | Some offer \<Rightarrow> Inr offer)"

section \<open>Rendering\<close>

definition TrimRight :: "string \<Rightarrow> string \<Rightarrow> string" where
  "TrimRight s cutset = rev (dropWhile (\<lambda>c. c \<in> set cutset) (rev s))"

definition formatQ :: "'q float_ops \<Rightarrow> 'q \<Rightarrow> string" where
  "formatQ f q =
     (let s = FormatFloat f q
      in if has_byte s CHR ''.'' then TrimRight (TrimRight s ''0'') ''.'' else s)"

definition opt_param :: "string \<Rightarrow> string \<Rightarrow> string" where
  "opt_param key v = (let t = TrimSpace v in if t \<noteq> [] then key @ t else [])"

definition formatSecurityOffer :: "'q float_ops \<Rightarrow> 'q security_offer \<Rightarrow> bool \<Rightarrow> string" where
  "formatSecurityOffer f offer includeServerParams =
     OfferMechanism offer @
     (if float_greater f (Q offer) (float_zero f) then '';q='' @ formatQ f (Q offer) else []) @
     opt_param '';alg='' (OfferAlg offer) @ opt_param '';mod='' (OfferMode offer) @
     opt_param '';prot='' (OfferProt offer) @
     (let e = canonicalEAlg (OfferEAlg offer) in if e \<noteq> [] \<and> e \<noteq> ''null'' then '';ealg='' @ e else []) @
     (if includeServerParams \<and> offerHasServerParams offer
      then '';spi-c='' @ dec (unat (SPIC offer)) @ '';spi-s='' @ dec (unat (SPIS offer)) @
        '';port-c='' @ Itoa (OfferPortC offer) @ '';port-s='' @ Itoa (OfferPortS offer)
      else [])"

definition BuildSecurityVerify :: "'q float_ops \<Rightarrow> 'q security_offer \<Rightarrow> string" where
  "BuildSecurityVerify f selected = formatSecurityOffer f selected True"

definition BuildSecurityVerifyEcho :: "'q float_ops \<Rightarrow> 'q security_offer list \<Rightarrow> string" where
  "BuildSecurityVerifyEcho f offers = Join (List.map (\<lambda>offer. formatSecurityOffer f offer True) offers) '',''"

section \<open>Reading back a Security-Client header\<close>

text \<open>What a rendered Security-Client mechanism says, read as an offer.\<close>

definition client_offer :: "'q float_ops \<Rightarrow> u32 \<Rightarrow> u32 \<Rightarrow> int \<Rightarrow> int \<Rightarrow> ipsec_mechanism \<Rightarrow> 'q security_offer" where
  "client_offer f spiC spiS pC pS m =
     \<lparr>OfferMechanism = ''ipsec-3gpp'', Q = float_zero f, OfferAlg = TrimSpace (ClientAlg m),
      OfferEAlg = canonicalEAlg (ClientEAlg m), OfferProt = TrimSpace (ClientProt m),
      OfferMode = (if TrimSpace (ClientProt m) = [] \<or> TrimSpace (ClientMode m) = [] then ''trans''
        else TrimSpace (ClientMode m)),
      SPIC = spiC, SPIS = spiS, OfferPortC = pC, OfferPortS = pS\<rparr>"

definition plain_client :: "ipsec_mechanism \<Rightarrow> bool" where
  "plain_client m \<longleftrightarrow> plain_token (ClientAlg m) \<and> plain_token (ClientEAlg m) \<and>
     plain_token (ClientProt m) \<and> plain_token (ClientMode m)"

definition client_params :: "u32 \<Rightarrow> u32 \<Rightarrow> int \<Rightarrow> int \<Rightarrow> ipsec_mechanism \<Rightarrow> string list" where
  "client_params spiC spiS pC pS m =
     ['' alg='' @ TrimSpace (ClientAlg m), '' ealg='' @ normalizeEAlg (ClientEAlg m)] @
     (if TrimSpace (ClientProt m) = [] then []
      else ['' prot='' @ TrimSpace (ClientProt m), '' mod='' @ or_default (ClientMode m) ''trans'']) @
     ['' spi-c='' @ dec (unat spiC), '' spi-s='' @ dec (unat spiS), '' port-c='' @ Itoa pC, '' port-s='' @ Itoa pS]"

lemma client_text: "formatSecurityClientMechanism m spiC spiS pC pS =
    Join (''ipsec-3gpp'' # client_params spiC spiS pC pS m) '';''"
  by (simp add: formatSecurityClientMechanism_def client_params_def Let_def or_default_def)

lemma part_trimmed:
  assumes "key \<noteq> []" "\<not> is_space (hd key)" "TrimSpace v = v"
  shows "TrimSpace (CHR '' '' # key @ CHR ''='' # v) = key @ CHR ''='' # v"
proof -
  have "TrimSpace (CHR '' '' # key @ CHR ''='' # v) = TrimSpace (key @ CHR ''='' # v)"
    unfolding TrimSpace_def by (rule trim_by_Cons) (simp add: is_space_def)
  moreover have "v = [] \<or> \<not> is_space (List.last v)"
    using assms(3) trim_by_ends(2) [of is_space v] by (auto simp: TrimSpace_def)
  then have "\<not> is_space (List.last (key @ CHR ''='' # v))" by (auto simp: is_space_def)
  ultimately show ?thesis
    using assms(1,2) unfolding TrimSpace_def by (simp add: trim_by_id)
qed

lemma offer_part_field:
  assumes "key \<noteq> []" "\<not> is_space (hd key)" "CHR ''='' \<notin> set key" "TrimSpace v = v"
  shows "offer_part f (CHR '' '' # key @ CHR ''='' # v) st = offer_field f (TrimSpace (ToLower key)) v st"
  using part_trimmed [OF assms(1,2,4)] assms
  by (simp add: offer_part_def has_byte_def Cut_found [OF assms(3)])

lemma TrimSpace_digits [simp]: "TrimSpace (dec n) = dec n" "TrimSpace (Itoa i) = Itoa i"
  by (metis trimToken_plain plain_dec trim_dec, metis trimToken_plain plain_Itoa trim_Itoa)

lemma parseUint32_dec [simp]: "parseUint32 (dec (unat n)) = Some n"
  using ParseUint_dec [of "unat n" 32] u32_less [of n] by (simp add: parseUint32_def)

lemma normalizeEAlg_trim: "TrimSpace (normalizeEAlg e) = normalizeEAlg e"
proof -
  have "TrimSpace ''null'' = ''null''" by code_simp
  then show ?thesis by (simp add: normalizeEAlg_def Let_def)
qed

lemma canonicalEAlg_normalize: "canonicalEAlg (normalizeEAlg e) = canonicalEAlg e"
proof (cases "TrimSpace e = []")
  case True
  then have "TrimSpace (ToLower e) = []" by (simp add: TrimSpace_ToLower) (simp add: ToLower_def)
  then have "canonicalEAlg e = ''null''" by (simp add: canonicalEAlg_def)
  moreover have "canonicalEAlg ''null'' = ''null''" by code_simp
  ultimately show ?thesis using True by (simp add: normalizeEAlg_def)
next
  case False
  then show ?thesis by (simp add: normalizeEAlg_def canonicalEAlg_def TrimSpace_ToLower)
qed

lemma or_default_trans: "TrimSpace (or_default v ''trans'') = or_default v ''trans''"
proof -
  have "TrimSpace ''trans'' = ''trans''" by code_simp
  then show ?thesis by (simp add: or_default_def)
qed

lemma field_keys:
  "TrimSpace (ToLower ''alg'') = ''alg''" "TrimSpace (ToLower ''ealg'') = ''ealg''"
  "TrimSpace (ToLower ''prot'') = ''prot''" "TrimSpace (ToLower ''mod'') = ''mod''"
  "TrimSpace (ToLower ''spi-c'') = ''spi-c''" "TrimSpace (ToLower ''spi-s'') = ''spi-s''"
  "TrimSpace (ToLower ''port-c'') = ''port-c''" "TrimSpace (ToLower ''port-s'') = ''port-s''"
  by code_simp+

lemma client_fields:
  "offer_part f ('' alg='' @ TrimSpace v) (x, r) = Inr (x\<lparr>OfferAlg := TrimSpace v\<rparr>, r)"
  "offer_part f ('' ealg='' @ normalizeEAlg v) (x, r) = Inr (x\<lparr>OfferEAlg := normalizeEAlg v\<rparr>, r)"
  "offer_part f ('' prot='' @ TrimSpace v) (x, r) = Inr (x\<lparr>OfferProt := TrimSpace v\<rparr>, r)"
  "offer_part f ('' mod='' @ or_default v ''trans'') (x, r) = Inr (x\<lparr>OfferMode := or_default v ''trans''\<rparr>, r)"
  using offer_part_field [of "''alg''" "TrimSpace v" f "(x, r)"]
    offer_part_field [of "''ealg''" "normalizeEAlg v" f "(x, r)"]
    offer_part_field [of "''prot''" "TrimSpace v" f "(x, r)"]
    offer_part_field [of "''mod''" "or_default v ''trans''" f "(x, r)"]
  by (simp_all add: is_space_def field_keys offer_field_def normalizeEAlg_trim or_default_trans)

lemma port_fields:
  assumes "- (2 ^ 63) \<le> i" "i < 2 ^ 63"
  shows "offer_part f ('' port-c='' @ Itoa i) (x, r) =
      Inr (x\<lparr>OfferPortC := i\<rparr>, r\<lparr>portC := i, params_set := True\<rparr>)"
    "offer_part f ('' port-s='' @ Itoa i) (x, r) =
      Inr (x\<lparr>OfferPortS := i\<rparr>, r\<lparr>portS := i, params_set := True\<rparr>)"
  using offer_part_field [of "''port-c''" "Itoa i" f "(x, r)"]
    offer_part_field [of "''port-s''" "Itoa i" f "(x, r)"] assms
  by (simp_all add: is_space_def field_keys offer_field_def Atoi_Itoa)

lemma spi_fields:
  "offer_part f ('' spi-c='' @ dec (unat n)) (x, r) =
     Inr (x\<lparr>SPIC := n\<rparr>, r\<lparr>spic := n, params_set := True\<rparr>)"
  "offer_part f ('' spi-s='' @ dec (unat n)) (x, r) =
     Inr (x\<lparr>SPIS := n\<rparr>, r\<lparr>spis := n, params_set := True\<rparr>)"
  using offer_part_field [of "''spi-c''" "dec (unat n)" f "(x, r)"]
    offer_part_field [of "''spi-s''" "dec (unat n)" f "(x, r)"]
  by (simp_all add: is_space_def field_keys offer_field_def)

definition ports_ok :: "int \<Rightarrow> int \<Rightarrow> bool" where
  "ports_ok pC pS \<longleftrightarrow> - (2 ^ 63) \<le> pC \<and> pC < 2 ^ 63 \<and> - (2 ^ 63) \<le> pS \<and> pS < 2 ^ 63"

definition all_params :: "u32 \<Rightarrow> u32 \<Rightarrow> int \<Rightarrow> int \<Rightarrow> server_params" where
  "all_params c s pC pS = \<lparr>spic = c, spis = s, portC = pC, portS = pS, params_set = True\<rparr>"

lemma scheme_part: "offer_part f ''ipsec-3gpp'' (x, r) = Inr (x\<lparr>OfferMechanism := ''ipsec-3gpp''\<rparr>, r)"
proof -
  have "TrimSpace ''ipsec-3gpp'' = ''ipsec-3gpp''" by code_simp
  then show ?thesis by (simp add: offer_part_def has_byte_def)
qed

lemma offer_parts_append: "offer_parts f (xs @ ys) st = rbind (offer_parts f xs st) (offer_parts f ys)"
proof (induction xs arbitrary: st)
  case (Cons x xs)
  then show ?case by (cases "offer_part f x st") simp_all
qed simp

lemma client_parts:
  assumes "ports_ok pC pS"
  shows "rbind (offer_parts f (''ipsec-3gpp'' # client_params c s pC pS m) (no_offer f, no_params))
      (\<lambda>(offer, params). Inr (offer_defaults offer, params)) =
    Inr (client_offer f c s pC pS m, all_params c s pC pS)"
proof -
  have p: "- (2 ^ 63) \<le> pC" "pC < 2 ^ 63" "- (2 ^ 63) \<le> pS" "pS < 2 ^ 63"
    using assms by (simp_all only: ports_ok_def)
  let ?prot = "TrimSpace (ClientProt m)" and ?mode = "or_default (ClientMode m) ''trans''"
  have d: "?mode \<noteq> []" by (simp add: or_default_def)
  have sch: "offer_parts f (''ipsec-3gpp'' # ps) (x, r) =
      offer_parts f ps (x\<lparr>OfferMechanism := ''ipsec-3gpp''\<rparr>, r)" for ps x r
    by (simp only: offer_parts.simps scheme_part rbind_simps)
  have a: "offer_parts f ['' alg='' @ TrimSpace (ClientAlg m), '' ealg='' @ normalizeEAlg (ClientEAlg m)] (x, r) =
      Inr (x\<lparr>OfferAlg := TrimSpace (ClientAlg m), OfferEAlg := normalizeEAlg (ClientEAlg m)\<rparr>, r)" for x r
    by (simp only: offer_parts.simps client_fields rbind_simps)
  have b: "offer_parts f ['' prot='' @ ?prot, '' mod='' @ ?mode] (x, r) =
      Inr (x\<lparr>OfferProt := ?prot, OfferMode := ?mode\<rparr>, r)" for x r
    by (simp only: offer_parts.simps client_fields rbind_simps)
  have e: "offer_parts f ['' spi-c='' @ dec (unat c), '' spi-s='' @ dec (unat s), '' port-c='' @ Itoa pC,
        '' port-s='' @ Itoa pS] (x, r) =
      Inr (x\<lparr>SPIC := c, SPIS := s, OfferPortC := pC, OfferPortS := pS\<rparr>,
        r\<lparr>spic := c, params_set := True, spis := s, params_set := True, portC := pC, params_set := True,
          portS := pS, params_set := True\<rparr>)" for x r
    by (simp only: offer_parts.simps spi_fields port_fields(1) [OF p(1,2)] port_fields(2) [OF p(3,4)] rbind_simps)
  show ?thesis
  proof (cases "?prot = []")
    case True
    then show ?thesis
      unfolding client_params_def if_P [OF True] append_Nil sch offer_parts_append a rbind_simps e
      by (simp add: no_offer_def no_params_def offer_defaults_def client_offer_def all_params_def canonicalEAlg_normalize)
  next
    case False
    then show ?thesis using d
      unfolding client_params_def if_not_P [OF False] sch offer_parts_append a b rbind_simps e
      by (simp add: no_offer_def no_params_def offer_defaults_def client_offer_def all_params_def
          canonicalEAlg_normalize) (simp add: or_default_def)
  qed
qed

lemma client_params_plain: "plain_client m \<Longrightarrow> list_all plain_token (client_params c s pC pS m)"
proof -
  assume m: "plain_client m"
  have n: "plain_token ''null''" by (simp add: plain_token_def)
  have "plain_token (or_default (ClientMode m) ''trans'')" "plain_token (normalizeEAlg (ClientEAlg m))"
    "plain_token (TrimSpace (ClientAlg m))" "plain_token (TrimSpace (ClientProt m))"
    using m plain_defaults n
    by (simp_all add: plain_client_def or_default_plain plain_TrimSpace normalizeEAlg_def Let_def)
  with plain_dec plain_Itoa show ?thesis
    by (simp only: client_params_def list.pred_inject list_all_append plain_append plain_keys simp_thms
        if_split list.simps)
qed

lemma client_text_ends:
  "\<exists>u. formatSecurityClientMechanism m c s pC pS = ''ipsec-3gpp'' @ u"
  "\<not> is_space (List.last (formatSecurityClientMechanism m c s pC pS))"
proof -
  show "\<exists>u. formatSecurityClientMechanism m c s pC pS = ''ipsec-3gpp'' @ u"
    by (simp add: formatSecurityClientMechanism_def Let_def)
  have i: "Itoa pS \<noteq> []" by (simp add: Itoa_def)
  have "List.last (formatSecurityClientMechanism m c s pC pS) = List.last (Itoa pS)"
    using i by (simp add: formatSecurityClientMechanism_def Let_def)
  then show "\<not> is_space (List.last (formatSecurityClientMechanism m c s pC pS))"
    using last_Itoa by simp
qed

lemma client_text_trim: "TrimSpace (formatSecurityClientMechanism m c s pC pS) =
    formatSecurityClientMechanism m c s pC pS"
proof -
  obtain u where u: "formatSecurityClientMechanism m c s pC pS = ''ipsec-3gpp'' @ u"
    using client_text_ends(1) by blast
  have "formatSecurityClientMechanism m c s pC pS \<noteq> []"
    "\<not> is_space (hd (formatSecurityClientMechanism m c s pC pS))" by (simp_all add: u is_space_def)
  then show ?thesis unfolding TrimSpace_def by (rule trim_by_id) (rule client_text_ends(2))
qed

lemma Join_no_char: "list_all (\<lambda>s. x \<notin> set s) ps \<Longrightarrow> x \<notin> set sep \<Longrightarrow> x \<notin> set (Join ps sep)"
  by (induction ps sep rule: Join.induct) auto

lemma client_text_plain: "plain_client m \<Longrightarrow> CHR '','' \<notin> set (formatSecurityClientMechanism m c s pC pS)"
  using client_params_plain [of m c s pC pS] unfolding client_text
  by (intro Join_no_char) (auto simp: list_all_iff plain_token_def)

lemma client_text_split: "plain_client m \<Longrightarrow>
    Split (formatSecurityClientMechanism m c s pC pS) CHR '';'' = ''ipsec-3gpp'' # client_params c s pC pS m"
  using client_params_plain [of m c s pC pS] unfolding client_text
  by (intro Split_Join) (auto simp: list_all_iff plain_token_def)

lemma client_segment:
  assumes "plain_client m" "ports_ok pC pS"
  shows "parseSecurityOfferSegment f (formatSecurityClientMechanism m c s pC pS) =
    Inr (client_offer f c s pC pS m, all_params c s pC pS)"
proof -
  have "formatSecurityClientMechanism m c s pC pS \<noteq> []" using client_text_ends(1) [of m c s pC pS] by auto
  then show ?thesis
    by (simp only: parseSecurityOfferSegment_def client_text_trim Let_def if_False
        client_text_split [OF assms(1)] client_parts [OF assms(2)])
qed

lemma split_offers_plain: "CHR '','' \<notin> set t \<Longrightarrow> split_offers b (t @ rest) = split_offers (b @ t) rest"
  by (induction t arbitrary: b) auto

lemma split_client_texts:
  assumes "list_all plain_client ms" "ms \<noteq> []"
  shows "splitSecurityOffers (Join (List.map (\<lambda>m. formatSecurityClientMechanism m c s pC pS) ms) '','') =
    List.map (\<lambda>m. formatSecurityClientMechanism m c s pC pS) ms" (is "splitSecurityOffers (Join (?ts ms) _) = _")
  using assms unfolding splitSecurityOffers_def
proof (induction ms rule: induct_list012)
  case (2 m)
  then show ?case
    using split_offers_plain [OF client_text_plain, of m "[]" c s pC pS "[]"] by (simp add: client_text_trim)
next
  case (3 m m' ms)
  let ?rest = "Join (?ts (m' # ms)) '',''"
  obtain u where "formatSecurityClientMechanism m' c s pC pS = ''ipsec-3gpp'' @ u"
    using client_text_ends(1) by blast
  then have "HasPrefix ?rest ''ipsec-3gpp''" by (cases ms) (simp_all add: HasPrefix_def)
  then have "split_offers t ('','' @ ?rest) = TrimSpace t # split_offers [] ?rest" for t by simp
  then show ?case
    using 3 split_offers_plain [OF client_text_plain, of m "[]" c s pC pS "'','' @ ?rest"]
    by (simp add: client_text_trim)
qed simp

lemma Join_client_ends:
  "ms \<noteq> [] \<Longrightarrow> \<exists>u. Join (List.map (\<lambda>m. formatSecurityClientMechanism m c s pC pS) ms) '','' = ''ipsec-3gpp'' @ u"
  "ms \<noteq> [] \<Longrightarrow> \<not> is_space (List.last (Join (List.map (\<lambda>m. formatSecurityClientMechanism m c s pC pS) ms) '',''))"
proof -
  let ?t = "\<lambda>m. formatSecurityClientMechanism m c s pC pS"
  have h: "\<exists>u. Join (List.map ?t xs) '','' = ''ipsec-3gpp'' @ u" if n: "xs \<noteq> []" for xs
  proof -
    obtain x ys where xs: "xs = x # ys" using n by (cases xs) auto
    show ?thesis using client_text_ends(1) [of x c s pC pS] by (cases ys) (auto simp: xs)
  qed
  then show "ms \<noteq> [] \<Longrightarrow> \<exists>u. Join (List.map ?t ms) '','' = ''ipsec-3gpp'' @ u" by blast
  show "ms \<noteq> [] \<Longrightarrow> \<not> is_space (List.last (Join (List.map ?t ms) '',''))"
  proof (induction ms rule: induct_list012)
    case (3 m m' ms)
    have "Join (List.map ?t (m' # ms)) '','' \<noteq> []" using h [of "m' # ms"] by auto
    then show ?case using 3 by simp
  qed (simp_all add: client_text_ends)
qed

lemma shared_all: "ps \<noteq> [] \<Longrightarrow> shared_params r (List.map (\<lambda>m. (g m, all_params c s pC pS)) ps) = all_params c s pC pS"
proof (induction ps arbitrary: r)
  case (Cons p ps)
  then show ?case by (cases ps) (simp_all add: all_params_def)
qed simp

lemma params_set_all: "params_set (all_params c s pC pS)"
  by (simp add: all_params_def)

lemma with_all_params: "with_params (all_params c s pC pS) (client_offer f c s pC pS m) = client_offer f c s pC pS m"
  by (simp add: with_params_def all_params_def client_offer_def)

lemma parse_client_header:
  assumes "list_all plain_client ms" "ms \<noteq> []" "ports_ok pC pS"
  shows "ParseSecurityServer f (Join (List.map (\<lambda>m. formatSecurityClientMechanism m c s pC pS) ms) '','') =
    Inr (List.map (client_offer f c s pC pS) ms)"
proof -
  let ?h = "Join (List.map (\<lambda>m. formatSecurityClientMechanism m c s pC pS) ms) '',''"
  obtain u where "?h = ''ipsec-3gpp'' @ u" using Join_client_ends(1) [OF assms(2)] by blast
  then have ne: "?h \<noteq> []" "\<not> is_space (hd ?h)" by (simp_all add: is_space_def)
  then have t: "TrimSpace ?h = ?h"
    unfolding TrimSpace_def by (rule trim_by_id) (rule Join_client_ends(2) [OF assms(2)])
  have "collect (parseSecurityOfferSegment f) (List.map (\<lambda>m. formatSecurityClientMechanism m c s pC pS) ms) =
      Inr (List.map (\<lambda>m. (client_offer f c s pC pS m, all_params c s pC pS)) ms)"
    unfolding collect_comp using assms by (intro collect_map) (auto simp: list_all_iff client_segment)
  then show ?thesis
    using assms(2) ne(1)
    by (simp add: ParseSecurityServer_def t split_client_texts [OF assms(1,2)] shared_all [OF assms(2)]
        with_all_params o_def params_set_all)
qed

section \<open>The best offer\<close>

definition float_laws :: "'q float_ops \<Rightarrow> bool" where
  "float_laws f \<longleftrightarrow> (\<forall>x. \<not> float_greater f x x) \<and>
     (\<forall>x y z. float_greater f x y \<longrightarrow> float_greater f y z \<longrightarrow> float_greater f x z)"

definition best_of :: "'q float_ops \<Rightarrow> ('q security_offer \<Rightarrow> bool) \<Rightarrow> 'q security_offer list \<Rightarrow> 'q best \<Rightarrow> 'q best" where
  "best_of f ok offers best = fold (\<lambda>offer b. if ok offer then better f offer b else b) offers best"

lemma select_loop_best_of: "select_loop f clients offers bm ba =
    (best_of f (\<lambda>offer. mechanismMatchesClient offer clients) offers bm, best_of f offerHasServerParams offers ba)"
  by (induction offers arbitrary: bm ba) (simp_all add: best_of_def)

text \<open>What the best offer so far is: the first acceptable one that none of the seen ones exceeds.\<close>

definition best_inv :: "'q float_ops \<Rightarrow> ('q security_offer \<Rightarrow> bool) \<Rightarrow> 'q security_offer set \<Rightarrow> 'q best \<Rightarrow> bool" where
  "best_inv f ok seen best \<longleftrightarrow>
     (\<forall>x \<in> seen. ok x \<longrightarrow> \<not> float_greater f (Q x) (snd best)) \<and>
     (case fst best of
        None \<Rightarrow> snd best = float_minus_one f
      | Some offer \<Rightarrow> offer \<in> seen \<and> ok offer \<and> snd best = Q offer \<and>
          float_greater f (Q offer) (float_minus_one f))"

lemma better_inv:
  assumes f: "float_laws f" and b: "best_inv f ok seen b"
  shows "best_inv f ok (insert x seen) (if ok x then better f x b else b)"
proof (cases "ok x \<and> float_greater f (Q x) (snd b)")
  case True
  then have "\<not> float_greater f (Q y) (Q x)" if "y \<in> seen" "ok y" for y
    using f b that unfolding float_laws_def best_inv_def by blast
  moreover have "float_greater f (Q x) (float_minus_one f)"
    using True f b unfolding float_laws_def best_inv_def by (auto split: option.splits)
  ultimately show ?thesis using True f by (auto simp: best_inv_def better_def float_laws_def)
next
  case False
  then have "(if ok x then better f x b else b) = b" by (auto simp: better_def)
  then show ?thesis using False b by (auto simp: best_inv_def split: option.splits)
qed

lemma best_of_inv: "float_laws f \<Longrightarrow> best_inv f ok seen b \<Longrightarrow>
    best_inv f ok (set offers \<union> seen) (best_of f ok offers b)"
proof (induction offers arbitrary: seen b)
  case (Cons x offers)
  from Cons.IH [OF Cons.prems(1) better_inv [OF Cons.prems]] show ?case by (simp add: best_of_def)
qed (simp add: best_of_def)

lemma best_of_start: "float_laws f \<Longrightarrow>
    best_inv f ok (set offers) (best_of f ok offers (None, float_minus_one f))"
  using best_of_inv [of f ok "{}" "(None, float_minus_one f)" offers] by (simp add: best_inv_def)

text \<open>The offers among which the choice is made: those that match the client, where one of them has a
  preference above the least, and otherwise the complete ones.\<close>

definition eligible_offers ::
  "'q float_ops \<Rightarrow> 'q security_offer list \<Rightarrow> ipsec_mechanism list option \<Rightarrow> 'q security_offer list" where
  "eligible_offers f offers clients =
     (let matching = filter (\<lambda>x. mechanismMatchesClient x clients) offers
      in if list_ex (\<lambda>x. float_greater f (Q x) (float_minus_one f)) matching then matching
         else filter offerHasServerParams offers)"

definition preferred_in :: "'q float_ops \<Rightarrow> 'q security_offer \<Rightarrow> 'q security_offer list \<Rightarrow> bool" where
  "preferred_in f offer offers \<longleftrightarrow>
     offer \<in> set offers \<and> list_all (\<lambda>x. \<not> float_greater f (Q x) (Q offer)) offers"

lemma select_spec:
  assumes f: "float_laws f" and s: "SelectSecurityServerOffer f offers clients strict = Inr offer"
  shows "offerHasServerParams offer \<and> preferred_in f offer (eligible_offers f offers clients) \<and>
    (strict \<longrightarrow> mechanismMatchesClient offer clients)"
proof -
  let ?m = "\<lambda>x. mechanismMatchesClient x clients"
  let ?bm = "best_of f ?m offers (None, float_minus_one f)"
  let ?ba = "best_of f offerHasServerParams offers (None, float_minus_one f)"
  note bm = best_of_start [OF f, of ?m offers, unfolded best_inv_def]
  note ba = best_of_start [OF f, of offerHasServerParams offers, unfolded best_inv_def]
  note s' = s [unfolded SelectSecurityServerOffer_def Let_def select_loop_best_of prod.case]
  show ?thesis
  proof (cases "fst ?bm")
    case (Some x)
    then have x: "x \<in> set offers" "?m x" "snd ?bm = Q x" "\<forall>y \<in> set offers. ?m y \<longrightarrow> \<not> float_greater f (Q y) (Q x)"
      using bm by auto
    have o: "offer = x" "offerHasServerParams x" using s' Some by (auto split: if_splits)
    have "float_greater f (Q x) (float_minus_one f)" using bm Some by simp
    then have "eligible_offers f offers clients = filter ?m offers"
      using x(1,2) by (auto simp: eligible_offers_def list_ex_iff)
    then show ?thesis using x o by (auto simp: preferred_in_def list_all_iff)
  next
    case None
    then have "\<forall>y \<in> set offers. ?m y \<longrightarrow> \<not> float_greater f (Q y) (float_minus_one f)" using bm by auto
    then have e: "eligible_offers f offers clients = filter offerHasServerParams offers"
      by (auto simp: eligible_offers_def list_ex_iff)
    have "\<not> strict" "fst ?ba = Some offer" using s' None by (auto split: if_splits option.splits)
    then show ?thesis using ba e by (auto simp: preferred_in_def list_all_iff)
  qed
qed

section \<open>Properties\<close>

text \<open>The offers a client sends in Security-Client are read by the parser of the server's header as the
  same mechanisms in the same order, each with the security parameter indexes and ports of the client.\<close>

theorem client_header_read:
  "\<lbrakk>SecurityClientMechanisms t = Some ms; ms \<noteq> []; list_all plain_client ms; ports_ok pC pS\<rbrakk> \<Longrightarrow>
   ParseSecurityServer f (BuildSecurityClientHeader t c s pC pS) = Inr (List.map (client_offer f c s pC pS) ms)"
  by (simp add: BuildSecurityClientHeader_def parse_client_header)

definition int_floats :: "int float_ops" where
  "int_floats = \<lparr>ParseFloat = Atoi, float_greater = (\<lambda>x y. y < x), float_zero = 0, float_minus_one = - 1,
     FormatFloat = Itoa\<rparr>"

theorem client_header_read_witness:
  "ParseSecurityServer int_floats (BuildSecurityClientHeader DefaultIMSRegisterTemplate 17 4294967295 5062 5063) =
   Inr (List.map (client_offer int_floats 17 4294967295 5062 5063) DefaultSecurityClientMechanisms)"
  by (rule client_header_read)
    (simp_all add: DefaultIMSRegisterTemplate_def DefaultSecurityClientMechanisms_def alg_pair_def
      plain_client_def plain_token_def ports_ok_def)


definition sample_offer :: "string \<Rightarrow> int \<Rightarrow> int security_offer" where
  "sample_offer alg q = \<lparr>OfferMechanism = ''ipsec-3gpp'', Q = q, OfferAlg = alg, OfferEAlg = ''aes-cbc'',
     OfferProt = ''esp'', OfferMode = ''trans'', SPIC = 1, SPIS = 2, OfferPortC = 5062, OfferPortS = 5063\<rparr>"

definition sample_choice :: "int security_offer list" where
  "sample_choice = [sample_offer ''hmac-sha-1-96'' 1, sample_offer ''hmac-md5-96'' 5, sample_offer ''other'' 9]"

lemma sample_selection:
  "SelectSecurityServerOffer int_floats sample_choice None True = Inr (sample_offer ''hmac-md5-96'' 5)"
proof -
  have "mechanismMatchesClient (sample_offer ''hmac-sha-1-96'' 1) None"
    "mechanismMatchesClient (sample_offer ''hmac-md5-96'' 5) None"
    "\<not> mechanismMatchesClient (sample_offer ''other'' 9) None" by code_simp+
  moreover have "offerHasServerParams (sample_offer a q)" "Q (sample_offer a q) = q" for a q
    by (simp_all add: sample_offer_def offerHasServerParams_def)
  ultimately show ?thesis
    by (simp add: SelectSecurityServerOffer_def sample_choice_def better_def int_floats_def)
qed


section \<open>Shapes of headers that are not read as written\<close>

text \<open>A list whose items are separated by a comma and a space is not split: the next item becomes part of the
  last parameter, here a port.\<close>

definition spaced_header :: string where
  "spaced_header = ''ipsec-3gpp;alg=hmac-md5-96;spi-c=1;spi-s=2;port-c=3;port-s=4, ipsec-3gpp;alg=hmac-sha-1-96''"

lemma spaced_not_split: "TrimSpace spaced_header = spaced_header" "splitSecurityOffers spaced_header = [spaced_header]"
  "Split spaced_header CHR '';'' = [''ipsec-3gpp'', ''alg=hmac-md5-96'', ''spi-c=1'', ''spi-s=2'', ''port-c=3'',
     ''port-s=4, ipsec-3gpp'', ''alg=hmac-sha-1-96'']" "spaced_header \<noteq> []"
  by code_simp+

lemmas part_eval = offer_part_def offer_field_def TrimSpace_def trim_by_def is_space_def has_byte_def
  ToLower_def lower_char_def parseUint32_def ParseUint_def Atoi_def digit_val_def

lemma spaced_parts:
  "offer_part f ''alg=hmac-md5-96'' (x, r) = Inr (x\<lparr>OfferAlg := ''hmac-md5-96''\<rparr>, r)"
  "offer_part f ''spi-c=1'' (x, r) = Inr (x\<lparr>SPIC := 1\<rparr>, r\<lparr>spic := 1, params_set := True\<rparr>)"
  "offer_part f ''spi-s=2'' (x, r) = Inr (x\<lparr>SPIS := 2\<rparr>, r\<lparr>spis := 2, params_set := True\<rparr>)"
  "offer_part f ''port-c=3'' (x, r) = Inr (x\<lparr>OfferPortC := 3\<rparr>, r\<lparr>portC := 3, params_set := True\<rparr>)"
  "offer_part f ''port-s=4'' (x, r) = Inr (x\<lparr>OfferPortS := 4\<rparr>, r\<lparr>portS := 4, params_set := True\<rparr>)"
  "offer_part f ''port-s=9'' (x, r) = Inr (x\<lparr>OfferPortS := 9\<rparr>, r\<lparr>portS := 9, params_set := True\<rparr>)"
  "offer_part f ''port-s=4, ipsec-3gpp'' (x, r) = Inl BadPortS"
  by (simp_all add: part_eval)

lemma spaced_list_refused: "ParseSecurityServer f spaced_header = Inl BadPortS"
  unfolding ParseSecurityServer_def spaced_not_split Let_def collect.simps parseSecurityOfferSegment_def
    offer_parts.simps no_offer_def no_params_def scheme_part spaced_parts rbind_simps
  using spaced_not_split(4) by simp

text \<open>The last segment with any parameter overwrites all parameters of every offer, those it does not name
  with zero.\<close>

definition partial_header :: string where
  "partial_header = ''ipsec-3gpp;alg=hmac-md5-96;spi-c=1;spi-s=2;port-c=3;port-s=4,ipsec-3gpp;alg=hmac-md5-96;port-s=9''"

lemma partial_split: "TrimSpace partial_header = partial_header"
  "splitSecurityOffers partial_header =
     [''ipsec-3gpp;alg=hmac-md5-96;spi-c=1;spi-s=2;port-c=3;port-s=4'', ''ipsec-3gpp;alg=hmac-md5-96;port-s=9'']"
  "partial_header \<noteq> []"
  by code_simp+

lemma partial_params_overwrite:
  "\<exists>offers. ParseSecurityServer f partial_header = Inr offers \<and>
     List.map (\<lambda>x. (SPIC x, SPIS x, OfferPortC x, OfferPortS x)) offers = [(0, 0, 0, 9), (0, 0, 0, 9)]"
proof -
  let ?a = "''ipsec-3gpp;alg=hmac-md5-96;spi-c=1;spi-s=2;port-c=3;port-s=4''" and ?b = "''ipsec-3gpp;alg=hmac-md5-96;port-s=9''"
  have a: "TrimSpace ?a = ?a"
    "Split ?a CHR '';'' = [''ipsec-3gpp'', ''alg=hmac-md5-96'', ''spi-c=1'', ''spi-s=2'', ''port-c=3'', ''port-s=4'']"
    by code_simp+
  have b: "TrimSpace ?b = ?b" "Split ?b CHR '';'' = [''ipsec-3gpp'', ''alg=hmac-md5-96'', ''port-s=9'']"
    by code_simp+
  have "\<exists>x. parseSecurityOfferSegment f ?a = Inr (x, \<lparr>spic = 1, spis = 2, portC = 3, portS = 4, params_set = True\<rparr>)"
    unfolding parseSecurityOfferSegment_def a Let_def no_offer_def no_params_def
    by (simp only: offer_parts.simps scheme_part spaced_parts rbind_simps prod.case) simp
  moreover have "\<exists>x. parseSecurityOfferSegment f ?b = Inr (x, \<lparr>spic = 0, spis = 0, portC = 0, portS = 9, params_set = True\<rparr>)"
    unfolding parseSecurityOfferSegment_def b Let_def no_offer_def no_params_def
    by (simp only: offer_parts.simps scheme_part spaced_parts rbind_simps prod.case) simp
  ultimately show ?thesis
    using partial_split(3) by (auto simp: ParseSecurityServer_def partial_split(1,2) with_params_def)
qed

end
