(* ===== verification/Register_Params.thy ===== *)
theory Register_Params
  imports Sec_Headers
begin

text \<open>
  The parts of a REGISTER exchange that are computed from the configuration and from header values,
  \<^verbatim>\<open>imscore/register.go\<close>, \<^verbatim>\<open>register_builder.go\<close> and \<^verbatim>\<open>subscriber/msisdn.go\<close>: header defaults,
  the authorization of the first request, its variants, the lifetime the registrar grants and the
  subscriber number it associates.

  A response is what the code reads of it: the status, the reason and the values of the headers of a
  name, in order (\<^verbatim>\<open>GetHeaders\<close> of the SIP library; \<^verbatim>\<open>GetHeader\<close> is the first of them).
\<close>

section \<open>Configuration and responses\<close>

text \<open>The fields of \<^verbatim>\<open>imscore.Config\<close> that the registration code reads.  A nil address is the empty
  slice.\<close>

record ims_config =
  CfgLocalIP :: bytes
  PCSCFAddr :: string
  TransportPCSCFAddr :: string
  RegistrarCandidates :: "string list"
  Realm :: string
  PrivateID :: string
  CfgPublicURI :: string
  HomeDomain :: string
  CfgIMSI :: string
  Template :: ims_template
  MCC :: string
  MNC :: string
  CellID :: string
  CfgTransport :: string
  CfgLocalPort :: int
  CfgSIPInstanceURN :: string
  UserAgent :: string
  SecurityVerify :: string
  RegisterExpirySeconds :: int

record sip_response =
  StatusCode :: int
  Reason :: string
  GetHeaders :: "string \<Rightarrow> string list"

definition GetHeader :: "sip_response \<Rightarrow> string \<Rightarrow> string option" where
  "GetHeader res name = (case GetHeaders res name of [] \<Rightarrow> None | v # _ \<Rightarrow> Some v)"

definition responseHeaderStrings :: "sip_response option \<Rightarrow> string \<Rightarrow> string list" where
  "responseHeaderStrings res name =
     (case res of None \<Rightarrow> [] | Some r \<Rightarrow> filter (\<lambda>v. v \<noteq> []) (List.map TrimSpace (GetHeaders r name)))"

definition responseHeaderValues :: "sip_response option \<Rightarrow> string \<Rightarrow> string" where
  "responseHeaderValues res name =
     (case res of None \<Rightarrow> [] | Some r \<Rightarrow>
        Join (filter (\<lambda>v. v \<noteq> []) (List.map TrimSpace (GetHeaders r name))) '','')"

definition authenticatedRegisterFailureDetail :: "sip_response option \<Rightarrow> string" where
  "authenticatedRegisterFailureDetail res =
     (case res of None \<Rightarrow> [] | Some r \<Rightarrow>
        if list_ex (\<lambda>v. Contains (ToLower v) ''no matched security item'') (GetHeaders r ''P-Debug-Info'')
        then ''; carrier detail: no matched IMS security item'' else [])"

section \<open>Defaults\<close>

definition effectiveRegisterExpiry :: "ims_config \<Rightarrow> int" where
  "effectiveRegisterExpiry cfg =
     (if 0 < RegisterExpirySeconds cfg then RegisterExpirySeconds cfg
      else if 0 < TemplateExpires (Template cfg) then TemplateExpires (Template cfg)
      else DefaultRegisterExpires)"

definition effectiveSupportedHeader :: "ims_template \<Rightarrow> string" where
  "effectiveSupportedHeader template =
     (let value = TrimSpace (SupportedHeader template) in if value \<noteq> [] then value else DefaultRegisterSupport)"

definition effectiveAllowHeader :: "ims_template \<Rightarrow> string" where
  "effectiveAllowHeader template =
     (let value = TrimSpace (AllowHeader template) in if value \<noteq> [] then value else DefaultRegisterAllow)"

definition effectivePANI :: "ims_template \<Rightarrow> string" where
  "effectivePANI template =
     (let value = TrimSpace (FixedPANI template)
      in if value \<noteq> [] then value
         else if EqualFold (TrimSpace (TemplateID template)) ''apple_orange_uk'' then ''IEEE-802.11;country=GB''
         else ''IEEE-802.11;i-wlan-node-id=000000000000;network-provided'')"

definition templateIncludesPANI :: "ims_template \<Rightarrow> bool" where
  "templateIncludesPANI template \<longleftrightarrow> IncludePANI template \<or> IncludePANIAuthenticated template"

definition templateIncludesCallPANI :: "ims_template \<Rightarrow> bool" where
  "templateIncludesCallPANI template \<longleftrightarrow> IncludePAccessNetworkInfo template \<or> IncludePANIAuthenticated template"

definition encodedICSIRef :: "ims_template \<Rightarrow> string" where
  "encodedICSIRef template =
     (let value = TrimSpace (ICSIRef template)
      in ReplaceChar (if value = [] then IMSMmtelICSIRef else value) CHR '':'' ''%3A'')"

text \<open>The first of the attempt, the configuration and the template that names a transport.\<close>

definition registerTransportName :: "ims_config \<Rightarrow> string \<Rightarrow> string" where
  "registerTransportName cfg attempt =
     (let names = List.map (\<lambda>v. ToLower (TrimSpace v)) [attempt, CfgTransport cfg, TemplateTransport (Template cfg)]
      in case filter (\<lambda>v. v \<noteq> [] \<and> v \<noteq> ''auto'') names of [] \<Rightarrow> ''tcp'' | v # _ \<Rightarrow> v)"

definition TrimLeft :: "string \<Rightarrow> string \<Rightarrow> string" where
  "TrimLeft s cutset = dropWhile (\<lambda>c. c \<in> set cutset) s"

definition buildCellularNetworkInfo :: "ims_config \<Rightarrow> string" where
  "buildCellularNetworkInfo cfg =
     (let plmn = TrimSpace (MCC cfg) @ TrimLeft (TrimSpace (MNC cfg)) ''0'';
          plmn' = (if plmn = [] then ''00000'' else plmn);
          cell = TrimSpace (CellID cfg);
          cell' = (if cell = [] then ''0000000'' else cell)
      in ''3GPP-E-UTRAN-FDD;utran-cell-id-3gpp='' @ plmn' @ cell' @ '';cell-info-age=0'')"

section \<open>Security agreement\<close>

definition supportedSecurityClientMechanisms :: "ims_template \<Rightarrow> ipsec_mechanism list" where
  "supportedSecurityClientMechanisms template =
     (case SecurityClientMechanisms template of Some ms \<Rightarrow> ms | None \<Rightarrow> DefaultSecurityClientMechanisms)"

definition with_default_modes :: "ipsec_mechanism \<Rightarrow> ipsec_mechanism" where
  "with_default_modes m = m\<lparr>
     ClientProt := (if TrimSpace (ClientProt m) = [] then ''esp'' else ClientProt m),
     ClientMode := (if TrimSpace (ClientMode m) = [] then ''trans'' else ClientMode m)\<rparr>"

definition normalizedSecurityClientMechanisms :: "ims_template \<Rightarrow> ipsec_mechanism list" where
  "normalizedSecurityClientMechanisms template =
     List.map with_default_modes (supportedSecurityClientMechanisms template)"

definition buildTemplateSecurityClient :: "ims_template \<Rightarrow> u32 \<Rightarrow> u32 \<Rightarrow> int \<Rightarrow> int \<Rightarrow> string" where
  "buildTemplateSecurityClient template spiC spiS pC pS =
     BuildSecurityClientHeader
       (template\<lparr>SecurityClientMechanisms := Some (normalizedSecurityClientMechanisms template)\<rparr>) spiC spiS pC pS"

definition securityClientMechanismCount :: "ims_template \<Rightarrow> nat" where
  "securityClientMechanismCount template = length (supportedSecurityClientMechanisms template)"

definition canonicalTemplateEAlg :: "string \<Rightarrow> string" where
  "canonicalTemplateEAlg ealg =
     (let e = TrimSpace (ToLower ealg) in if e = [] \<or> e = ''null'' then ''null'' else e)"

definition preferredSecurityClientMechanism :: "ims_template \<Rightarrow> ipsec_mechanism" where
  "preferredSecurityClientMechanism template =
     (let ms = supportedSecurityClientMechanisms template;
          preferred = filter (\<lambda>m. EqualFold (TrimSpace (ClientAlg m)) ''hmac-sha-1-96'' \<and>
            EqualFold (canonicalTemplateEAlg (ClientEAlg m)) ''aes-cbc'') (rev ms)
      in case preferred of
           m # _ \<Rightarrow> \<lparr>ClientAlg = ClientAlg m, ClientEAlg = ClientEAlg m, ClientProt = ''esp'', ClientMode = ''trans''\<rparr>
         | [] \<Rightarrow> if ms \<noteq> [] then with_default_modes (List.last ms)
                 else \<lparr>ClientAlg = ''hmac-sha-1-96'', ClientEAlg = ''aes-cbc'', ClientProt = ''esp'', ClientMode = ''trans''\<rparr>)"

definition normalizedSecAgreeMode :: "ims_template \<Rightarrow> string" where
  "normalizedSecAgreeMode template =
     (let m = ToLower (TrimSpace (SecAgreeMode template))
      in if m \<in> set [''disabled'', ''off'', ''false'', ''none''] then ''disabled''
         else if m \<in> set [''required'', ''on'', ''true''] then ''required''
         else ''auto'')"

definition secAgreeEnabled :: "ims_template \<Rightarrow> bool" where
  "secAgreeEnabled template \<longleftrightarrow> normalizedSecAgreeMode template \<noteq> ''disabled''"

definition secAgreeRequired :: "ims_template \<Rightarrow> bool" where
  "secAgreeRequired template \<longleftrightarrow> normalizedSecAgreeMode template = ''required''"

section \<open>The first authorization\<close>

definition quoteSipParam :: "string \<Rightarrow> string" where
  "quoteSipParam value =
     concat (List.map (\<lambda>c. if c = CHR 0x5C then [CHR 0x5C, CHR 0x5C]
       else if c = CHR 0x22 then [CHR 0x5C, CHR 0x22] else [c]) value)"

text \<open>The private identity of \<^verbatim>\<open>voiceclient.BuildIMSIdentity\<close> in the shape the code asks for.\<close>

definition home_private_identity :: "string \<Rightarrow> string \<Rightarrow> string \<Rightarrow> string" where
  "home_private_identity imsi realm domain =
     (let i = TrimSpace imsi; r = TrimSpace realm; d = TrimSpace domain
      in if i = [] \<or> r = [] \<or> d = [] then [] else i @ ''@'' @ r)"

definition authorizationUsername :: "ims_config \<Rightarrow> string" where
  "authorizationUsername cfg =
     (let v = TrimSpace (PrivateID cfg)
      in if v \<noteq> [] then v
         else let imsi = TrimSpace (CfgIMSI cfg); realm = TrimSpace (Realm cfg)
         in if imsi \<noteq> [] \<and> realm \<noteq> [] then home_private_identity imsi realm (TrimSpace (HomeDomain cfg)) else [])"

definition quoted_param :: "string \<Rightarrow> string \<Rightarrow> string" where
  "quoted_param name value = name @ ''='' @ quoted value"

definition initial_auth_mode :: "ims_config \<Rightarrow> string \<Rightarrow> string" where
  "initial_auth_mode cfg mode =
     (let m = ToLower (TrimSpace mode)
      in if m \<noteq> [] then m
         else if EqualFold (TrimSpace (SecAgreeMode (Template cfg))) ''auto'' then ''aka_empty_uri_first''
         else if \<not> UsePlainDigestPlaceholder (Template cfg) then ''none''
         else ''aka_empty_uri_first'')"

definition buildInitialAuthorization :: "ims_config \<Rightarrow> string \<Rightarrow> string" where
  "buildInitialAuthorization cfg mode =
     (let authMode = initial_auth_mode cfg mode;
          uri = quoted_param ''uri'' (quoteSipParam (''sip:'' @ TrimSpace (HomeDomain cfg)));
          username = quoted_param ''username'' (quoteSipParam (authorizationUsername cfg));
          realm = quoted_param ''realm'' (quoteSipParam (TrimSpace (Realm cfg)));
          nonce = quoted_param ''nonce'' []; response = quoted_param ''response'' [];
          aka = ''algorithm=AKAv1-MD5'';
          zero = quoted_param ''response'' ''00000000000000000000000000000000'';
          digest = (\<lambda>params. ''Digest '' @ Join params '','')
      in if authMode = ''none'' then []
         else if authMode = ''digest_empty'' then digest [uri, username, response, realm, nonce]
         else if authMode = ''aka_empty'' then digest [username, realm, nonce, uri, response, aka]
         else if authMode = ''aka_zero_response_uri_first'' then digest [uri, username, aka, zero, realm, nonce]
         else digest [uri, username, aka, response, realm, nonce])"

record register_variant =
  initialAuth :: string
  includePANI :: bool
  includeCellular :: bool

text \<open>The environment variable that enables the fallback is the argument \<^verbatim>\<open>env\<close>.\<close>

definition initialRejectFallbackEnabled :: "string \<Rightarrow> ims_config \<Rightarrow> bool" where
  "initialRejectFallbackEnabled env cfg \<longleftrightarrow>
     EnableInitialRejectFallback (Template cfg) \<or> TrimSpace env = ''1''"

definition initialRegisterVariants :: "string \<Rightarrow> ims_config \<Rightarrow> register_variant list" where
  "initialRegisterVariants env cfg =
     (let base = \<lparr>initialAuth = TrimSpace (InitialAuthorization (Template cfg)),
            includePANI = templateIncludesPANI (Template cfg),
            includeCellular = (\<not> EqualFold (TrimSpace (TemplateID (Template cfg))) ''apple_orange_uk'')\<rparr>
      in if \<not> initialRejectFallbackEnabled env cfg then [base]
         else [base,
           \<lparr>initialAuth = ''aka_empty_uri_first'', includePANI = True, includeCellular = True\<rparr>,
           \<lparr>initialAuth = ''aka_empty'', includePANI = True, includeCellular = True\<rparr>,
           \<lparr>initialAuth = ''aka_zero_response_uri_first'', includePANI = True, includeCellular = True\<rparr>,
           \<lparr>initialAuth = ''none'', includePANI = False, includeCellular = False\<rparr>])"

section \<open>The lifetime granted\<close>

lemma Index_bound: "sub \<noteq> [] \<Longrightarrow> Index s sub = Some i \<Longrightarrow> i < length s"
  by (induction s arbitrary: i) (auto split: if_splits)

text \<open>The loop of \<^verbatim>\<open>contactGrantedExpiry\<close> over one value, from the current offset.\<close>

definition shorter_expiry :: "int \<Rightarrow> string \<Rightarrow> int" where
  "shorter_expiry granted ds =
     (case Atoi ds of
        Some seconds \<Rightarrow> if 0 < seconds \<and> (granted = 0 \<or> seconds < granted) then seconds else granted
      | None \<Rightarrow> granted)"

function scan_expiry :: "int \<Rightarrow> string \<Rightarrow> int" where
  "scan_expiry granted lower =
     (case Index lower ''expires='' of
        None \<Rightarrow> granted
      | Some index \<Rightarrow>
          let rest = drop (index + 8) lower; ds = takeWhile is_digit rest
          in scan_expiry (if ds \<noteq> [] then shorter_expiry granted ds else granted)
               (drop (max (length ds) 1) rest))"
  by pat_completeness auto
termination
  by (relation "measure (\<lambda>(granted, lower). length lower)") (auto dest!: Index_bound [rotated] simp: Let_def)

declare scan_expiry.simps [simp del]

definition contactGrantedExpiry :: "string list \<Rightarrow> int" where
  "contactGrantedExpiry values = foldl (\<lambda>granted value. scan_expiry granted (ToLower value)) 0 values"

text \<open>The lifetime of \<^verbatim>\<open>finalizeRegisterSuccess\<close>.\<close>

definition registered_lifetime :: "ims_config \<Rightarrow> sip_response \<Rightarrow> int" where
  "registered_lifetime cfg res =
     (let expires = (case GetHeader res ''Expires'' of
            None \<Rightarrow> effectiveRegisterExpiry cfg
          | Some h \<Rightarrow> (case Atoi (TrimSpace h) of
                Some v \<Rightarrow> if 0 < v then v else effectiveRegisterExpiry cfg
              | None \<Rightarrow> effectiveRegisterExpiry cfg));
          granted = contactGrantedExpiry (responseHeaderStrings (Some res) ''Contact'')
      in if 0 < granted \<and> granted < expires then granted else expires)"

section \<open>The associated number\<close>

text \<open>The loop of \<^verbatim>\<open>splitAssociatedHeaderValues\<close>: the first argument is the text from \<^verbatim>\<open>start\<close>.\<close>

fun split_associated :: "string \<Rightarrow> nat \<Rightarrow> bool \<Rightarrow> string \<Rightarrow> string list" where
  "split_associated b angle quote [] = [TrimSpace b]"
| "split_associated b angle quote (c # s) =
     (if c = CHR 0x22 then split_associated (b @ [c]) angle (\<not> quote) s
      else if c = CHR ''<'' then split_associated (b @ [c]) (if quote then angle else angle + 1) quote s
      else if c = CHR ''>'' then
        split_associated (b @ [c]) (if \<not> quote \<and> 0 < angle then angle - 1 else angle) quote s
      else if c = CHR '','' \<and> \<not> quote \<and> angle = 0 then TrimSpace b # split_associated [] angle quote s
      else split_associated (b @ [c]) angle quote s)"

definition splitAssociatedHeaderValues :: "string \<Rightarrow> string list" where
  "splitAssociatedHeaderValues value = split_associated [] 0 False value"

text \<open>The loop of \<^verbatim>\<open>NormalizeMSISDN\<close> over the characters; \<^term>\<open>None\<close> is its return of the empty
  string.\<close>

fun msisdn_chars :: "string \<Rightarrow> string \<Rightarrow> string option" where
  "msisdn_chars acc [] = Some acc"
| "msisdn_chars acc (c # s) =
     (if c = CHR ''+'' \<and> acc = [] then msisdn_chars (acc @ [c]) s
      else if is_digit c then msisdn_chars (acc @ [c]) s
      else if is_space c \<or> c \<in> set ''-.()'' then msisdn_chars acc s
      else None)"

definition NormalizeMSISDN :: "string \<Rightarrow> string \<Rightarrow> bool \<Rightarrow> string" where
  "NormalizeMSISDN raw imsi allowNational =
     (case msisdn_chars [] (TrimSpace raw) of
        None \<Rightarrow> []
      | Some number \<Rightarrow>
          let international = HasPrefix number ''+''; digits = TrimPrefix number ''+'';
              i = TrimSpace imsi
          in if length digits < 5 \<or> 15 < length digits \<or> (\<not> international \<and> \<not> allowNational) then []
             else if international \<and> hd digits = CHR ''0'' then []
             else if i \<noteq> [] \<and> (digits = i \<or> digits = CHR ''0'' # i) then []
             else if Trim digits (take 1 digits) = [] then []
             else number)"

text \<open>\<^verbatim>\<open>url.PathUnescape\<close>.\<close>

fun PathUnescape :: "string \<Rightarrow> string option" where
  "PathUnescape [] = Some []"
| "PathUnescape (c # s) =
     (if c = CHR ''%'' then
        (case s of
           a # b # r \<Rightarrow> (case (digit_val 16 a, digit_val 16 b) of
               (Some x, Some y) \<Rightarrow> map_option ((#) (char_of (16 * x + y))) (PathUnescape r)
             | _ \<Rightarrow> None)
         | _ \<Rightarrow> None)
      else map_option ((#) c) (PathUnescape s))"

definition identity_value :: "string \<Rightarrow> string option" where
  "identity_value raw =
     (let v = TrimSpace raw
      in case IndexByte v CHR ''<'' of
           None \<Rightarrow> Some (Trim v [CHR ''<'', CHR ''>'', CHR 0x22, CHR 0x27])
         | Some left \<Rightarrow>
             (case IndexByte (drop (left + 1) v) CHR ''>'' of
                None \<Rightarrow> None
              | Some right \<Rightarrow> Some (TrimSpace (take right (drop (left + 1) v)))))"

text \<open>The user part of a SIP address, with its conditions.\<close>

definition sip_user :: "string \<Rightarrow> string option" where
  "sip_user v =
     (case IndexByte v CHR ''@'' of
        None \<Rightarrow> None
      | Some at \<Rightarrow>
          if at = 0 \<or> at + 1 = length v \<or> has_byte (drop (at + 1) v) CHR ''@'' then None
          else if TrimSpace (takeWhile (\<lambda>c. c \<noteq> CHR '';'') (drop (at + 1) v)) = [] then None
          else Some (take at v))"

definition identity_user :: "string \<Rightarrow> string option" where
  "identity_user v =
     (let lower = ToLower v
      in if HasPrefix lower ''tel:'' then Some (drop 4 v)
         else if HasPrefix lower ''sip:'' then sip_user (drop 4 v)
         else if HasPrefix lower ''sips:'' then sip_user (drop 5 v)
         else None)"

definition normalizeAssociatedIdentity :: "string \<Rightarrow> string \<Rightarrow> string \<times> bool" where
  "normalizeAssociatedIdentity raw imsi =
     (case Option.bind (identity_value raw) identity_user of
        None \<Rightarrow> ([], False)
      | Some u \<Rightarrow>
          (case PathUnescape (takeWhile (\<lambda>c. c \<noteq> CHR '';'' \<and> c \<noteq> CHR ''?'') u) of
             None \<Rightarrow> ([], False)
           | Some decoded \<Rightarrow> let number = NormalizeMSISDN decoded imsi False in (number, number \<noteq> [])))"

fun first_number :: "string \<Rightarrow> string list \<Rightarrow> string" where
  "first_number imsi [] = []"
| "first_number imsi (identity # rest) =
     (let (number, ok) = normalizeAssociatedIdentity identity imsi in if ok then number else first_number imsi rest)"

definition extractAssociatedMSISDN :: "sip_response option \<Rightarrow> string \<Rightarrow> string" where
  "extractAssociatedMSISDN res imsi =
     (case res of None \<Rightarrow> [] | Some r \<Rightarrow>
        first_number imsi (concat (List.map splitAssociatedHeaderValues (GetHeaders r ''P-Associated-URI''))))"

section \<open>The shortest lifetime\<close>

definition shorter :: "int \<Rightarrow> int \<Rightarrow> int" where
  "shorter granted n = (if 0 < n \<and> (granted = 0 \<or> n < granted) then n else granted)"

text \<open>The numbers that follow the occurrences of \<^verbatim>\<open>expires=\<close> in a value.\<close>

function expiry_values :: "string \<Rightarrow> int list" where
  "expiry_values lower =
     (case Index lower ''expires='' of
        None \<Rightarrow> []
      | Some index \<Rightarrow>
          let rest = drop (index + 8) lower; ds = takeWhile is_digit rest
          in (case Atoi ds of Some n \<Rightarrow> [n] | None \<Rightarrow> []) @ expiry_values (drop (max (length ds) 1) rest))"
  by pat_completeness auto
termination
  by (relation "measure length") (auto dest!: Index_bound [rotated] simp: Let_def)

declare expiry_values.simps [simp del]

definition contact_lifetimes :: "string list \<Rightarrow> int list" where
  "contact_lifetimes values = concat (List.map (\<lambda>v. expiry_values (ToLower v)) values)"

lemma shorter_expiry_Atoi: "(if ds \<noteq> [] then shorter_expiry granted ds else granted) =
    foldl shorter granted (case Atoi ds of Some n \<Rightarrow> [n] | None \<Rightarrow> [])"
proof -
  have "Atoi [] = None" by (simp add: Atoi_def)
  then show ?thesis by (auto simp: shorter_expiry_def shorter_def split: option.splits)
qed

lemma scan_expiry_values: "scan_expiry granted lower = foldl shorter granted (expiry_values lower)"
proof (induction granted lower rule: scan_expiry.induct)
  case (1 granted lower)
  show ?case
  proof (cases "Index lower ''expires=''")
    case None
    then show ?thesis by (simp add: scan_expiry.simps [of granted] expiry_values.simps [of lower])
  next
    case (Some i)
    note IH = 1 [OF Some refl refl]
    show ?thesis
      unfolding scan_expiry.simps [of granted] expiry_values.simps [of lower] Some option.case Let_def foldl_append IH
      by (simp only: shorter_expiry_Atoi)
  qed
qed

lemma contactGrantedExpiry_values: "contactGrantedExpiry vs = foldl shorter 0 (contact_lifetimes vs)"
proof -
  have "foldl (\<lambda>granted v. scan_expiry granted (ToLower v)) g vs = foldl shorter g (contact_lifetimes vs)" for g
    by (induction vs arbitrary: g) (simp_all add: contact_lifetimes_def scan_expiry_values)
  then show ?thesis by (simp add: contactGrantedExpiry_def)
qed

lemma foldl_shorter: "0 \<le> g \<Longrightarrow> 0 \<le> foldl shorter g ns \<and>
    (0 < g \<longrightarrow> 0 < foldl shorter g ns \<and> foldl shorter g ns \<le> g) \<and>
    (\<forall>n \<in> set ns. 0 < n \<longrightarrow> 0 < foldl shorter g ns \<and> foldl shorter g ns \<le> n)"
proof (induction ns arbitrary: g)
  case (Cons n ns)
  have "0 \<le> shorter g n" using Cons.prems by (auto simp: shorter_def)
  from Cons.IH [OF this] show ?case using Cons.prems by (auto simp: shorter_def split: if_splits)
qed simp

lemma effectiveRegisterExpiry_pos: "0 < effectiveRegisterExpiry cfg"
  by (simp add: effectiveRegisterExpiry_def DefaultRegisterExpires_def)


section \<open>The number associated\<close>

definition international_number :: "string \<Rightarrow> string \<Rightarrow> bool" where
  "international_number imsi number \<longleftrightarrow>
     (let digits = drop 1 number
      in take 1 number = ''+'' \<and> list_all is_digit digits \<and> 5 \<le> length digits \<and> length digits \<le> 15 \<and>
         hd digits \<noteq> CHR ''0'' \<and> digits \<noteq> TrimSpace imsi)"

lemma msisdn_chars_digits:
  "msisdn_chars acc s = Some n \<Longrightarrow> list_all is_digit (TrimPrefix acc ''+'') \<Longrightarrow>
   list_all is_digit (TrimPrefix n ''+'')"
proof (induction acc s rule: msisdn_chars.induct)
  case (2 acc c s)
  have p: "\<not> is_digit CHR ''+''" by (simp add: is_digit_def)
  show ?case
  proof (cases "c = CHR ''+'' \<and> acc = []")
    case True
    then show ?thesis using 2 by (simp add: TrimPrefix_def HasPrefix_def)
  next
    case f1: False
    show ?thesis
    proof (cases "is_digit c")
      case True
      have "list_all is_digit (TrimPrefix (acc @ [c]) ''+'')"
        using 2(5) True p by (cases acc) (auto simp: TrimPrefix_def HasPrefix_def split: if_splits)
      then show ?thesis using 2(2) [OF f1 True] 2(4) f1 True by simp
    next
      case False
      then show ?thesis using 2 f1 by (auto split: if_splits)
    qed
  qed
qed simp

lemma NormalizeMSISDN_international: "NormalizeMSISDN raw imsi False = number \<Longrightarrow>
    number = [] \<or> international_number imsi number"
proof -
  assume n: "NormalizeMSISDN raw imsi False = number"
  show ?thesis
  proof (cases "number = []")
    case False
    then obtain m where m: "msisdn_chars [] (TrimSpace raw) = Some m"
      using n by (auto simp: NormalizeMSISDN_def split: option.splits)
    have d: "list_all is_digit (TrimPrefix m ''+'')"
      by (rule msisdn_chars_digits [OF m]) (simp add: TrimPrefix_def HasPrefix_def)
    have c: "number = m" "HasPrefix m ''+''" "5 \<le> length (TrimPrefix m ''+'')" "length (TrimPrefix m ''+'') \<le> 15"
      "hd (TrimPrefix m ''+'') \<noteq> CHR ''0''" "TrimSpace imsi = [] \<or> TrimPrefix m ''+'' \<noteq> TrimSpace imsi"
      using n False m by (auto simp: NormalizeMSISDN_def Let_def split: if_splits)
    then have "TrimPrefix m ''+'' = drop 1 m" "take 1 m = ''+''" by (simp_all add: TrimPrefix_def HasPrefix_def)
    then show ?thesis using c d by (auto simp: international_number_def Let_def)
  qed simp
qed

lemma first_number_international: "first_number imsi ids = [] \<or> international_number imsi (first_number imsi ids)"
proof (induction ids)
  case (Cons i ids)
  have "snd (normalizeAssociatedIdentity i imsi) \<Longrightarrow>
      \<exists>d. fst (normalizeAssociatedIdentity i imsi) = NormalizeMSISDN d imsi False \<and> NormalizeMSISDN d imsi False \<noteq> []"
    by (auto simp: normalizeAssociatedIdentity_def Let_def split: option.splits)
  then have "snd (normalizeAssociatedIdentity i imsi) \<Longrightarrow>
      international_number imsi (fst (normalizeAssociatedIdentity i imsi))"
    using NormalizeMSISDN_international [OF refl, of _ imsi] by metis
  then show ?case using Cons by (auto split: prod.splits)
qed simp

text \<open>The subscriber number taken from the identities a registrar associates is empty or an international
  number of 5 to 15 digits that does not begin with zero and is not the IMSI of the card.\<close>

theorem associated_number_international:
  "extractAssociatedMSISDN res imsi = [] \<or> international_number imsi (extractAssociatedMSISDN res imsi)"
  by (cases res) (simp_all add: extractAssociatedMSISDN_def first_number_international)

end
