(* ===== verification/Registrars.thy ===== *)
theory Registrars
  imports Register_Params "HOL-Library.List_Lexorder" "HOL-Library.Product_Lexorder"
begin

text \<open>
  The registrars a registration tries: the candidates and the gateways they are reached through
  (\<^verbatim>\<open>imscore/registrar.go\<close>), the choice of one registrar (\<^verbatim>\<open>registrar_resolution.go\<close>), the
  addresses requests are routed to (\<^verbatim>\<open>routing.go\<close>) and the step taken after a failure
  (\<^verbatim>\<open>register_failure.go\<close>).

  A Go map used as a set is the list of its keys.  \<^verbatim>\<open>sort.Slice\<close> is \<^const>\<open>sort_key\<close> with the key the
  comparison stands for: entries that compare equal are equal, so that the order the library gives them
  does not matter.
\<close>

section \<open>Addresses\<close>

text \<open>Keeps the first of equal addresses, without surrounding space; empty ones are dropped.\<close>

fun dedupe_loop :: "string list \<Rightarrow> string list \<Rightarrow> string list" where
  "dedupe_loop seen [] = []"
| "dedupe_loop seen (addr # addrs) =
     (let v = TrimSpace addr
      in if v = [] \<or> v \<in> set seen then dedupe_loop seen addrs
         else v # dedupe_loop (v # seen) addrs)"

definition dedupeRegistrarAddrs :: "string list \<Rightarrow> string list" where
  "dedupeRegistrarAddrs addrs = dedupe_loop [] addrs"

definition registrarCandidates :: "ims_config \<Rightarrow> string list" where
  "registrarCandidates cfg =
     (if RegistrarCandidates cfg \<noteq> [] then dedupeRegistrarAddrs (RegistrarCandidates cfg)
      else let v = TrimSpace (PCSCFAddr cfg) in if v \<noteq> [] then [v] else [])"

definition registrarHostEqualsLocalIP :: "string \<Rightarrow> bytes \<Rightarrow> bool" where
  "registrarHostEqualsLocalIP addr localIP \<longleftrightarrow>
     (if localIP = [] then False
      else case SplitHostPort (TrimSpace addr) of
        None \<Rightarrow> False
      | Some (host, port) \<Rightarrow> (case ParseIP host of None \<Rightarrow> False | Some rip \<Rightarrow> ip_equal rip localIP))"

definition registrarSpecMatchesFamily :: "string \<Rightarrow> bytes \<Rightarrow> bool" where
  "registrarSpecMatchesFamily addr localIP \<longleftrightarrow>
     (if localIP = [] then True
      else case SplitHostPort (TrimSpace addr) of
        None \<Rightarrow> False
      | Some (host, port) \<Rightarrow>
          (case ParseIP host of
             None \<Rightarrow> False
           | Some ip \<Rightarrow> (To4 localIP \<noteq> None) = (To4 ip \<noteq> None)))"

definition splitRegistrarCandidates :: "string list \<Rightarrow> bytes \<Rightarrow> string list \<times> string list" where
  "splitRegistrarCandidates candidates localIP =
     (filter (\<lambda>c. registrarSpecMatchesFamily c localIP) candidates,
      filter (\<lambda>c. \<not> registrarSpecMatchesFamily c localIP) candidates)"

section \<open>Gateways\<close>

definition scoreIKEGatewayHost :: "string \<Rightarrow> int" where
  "scoreIKEGatewayHost host =
     (if HasPrefix host ''2a03:dd00:1f80:'' then 100
      else if HasPrefix host ''2a03:dd00:1f81:810:'' then 80
      else if HasPrefix host ''2a03:dd00:1f81:10:'' \<or> HasPrefix host ''2a03:dd00:1f81:5010:'' then 10
      else if HasPrefix host ''2a03:dd00:1f81:'' then 40
      else 30)"

text \<open>The scored addresses of the loop of \<^verbatim>\<open>rankedIKEGatewayCandidates\<close>.\<close>

fun gateway_items :: "string list \<Rightarrow> bytes \<Rightarrow> (string \<times> int) list" where
  "gateway_items [] localIP = []"
| "gateway_items (addr # addrs) localIP =
     (if registrarHostEqualsLocalIP addr localIP then gateway_items addrs localIP
      else case SplitHostPort (TrimSpace addr) of
        None \<Rightarrow> gateway_items addrs localIP
      | Some (host, port) \<Rightarrow> (addr, scoreIKEGatewayHost (ToLower host)) # gateway_items addrs localIP)"

fun first_seen :: "string list \<Rightarrow> string list \<Rightarrow> string list" where
  "first_seen seen [] = []"
| "first_seen seen (addr # addrs) =
     (if addr \<in> set seen then first_seen seen addrs else addr # first_seen (addr # seen) addrs)"

definition rankedIKEGatewayCandidates :: "string list \<Rightarrow> bytes \<Rightarrow> string list" where
  "rankedIKEGatewayCandidates addrs localIP =
     first_seen [] (List.map fst (sort_key (\<lambda>(addr, score). (- score, addr)) (gateway_items addrs localIP)))"

definition pickIKEGatewayCandidate :: "string list \<Rightarrow> bytes \<Rightarrow> string" where
  "pickIKEGatewayCandidate addrs localIP =
     (case rankedIKEGatewayCandidates addrs localIP of [] \<Rightarrow> [] | g # _ \<Rightarrow> g)"

section \<open>The candidates of a registration\<close>

record registrar_candidate =
  Registrar :: string
  CandidateTransport :: string

definition candidate_key :: "string \<Rightarrow> string \<Rightarrow> string" where
  "candidate_key registrar transport = registrar @ CHR 0x00 # transport"

text \<open>The closure \<^verbatim>\<open>appendCandidate\<close>, on the keys seen and the candidates so far.\<close>

definition append_candidate ::
  "string \<times> string \<Rightarrow> string list \<times> registrar_candidate list \<Rightarrow> string list \<times> registrar_candidate list" where
  "append_candidate pair st =
     (let (seen, out) = st; registrar = TrimSpace (fst pair); t = TrimSpace (snd pair);
          transport = (if t = [] then registrar else t); key = candidate_key registrar transport
      in if registrar = [] \<or> key \<in> set seen then st
         else (key # seen, out @ [\<lparr>Registrar = registrar, CandidateTransport = transport\<rparr>]))"

text \<open>The calls of \<^verbatim>\<open>appendCandidate\<close> in their order.\<close>

definition registrar_pairs :: "string list \<Rightarrow> bytes \<Rightarrow> string \<Rightarrow> (string \<times> string) list" where
  "registrar_pairs gateways localIP registrar =
     (if registrarHostEqualsLocalIP registrar localIP
      then (if gateways = [] then [(registrar, registrar)] else List.map (\<lambda>g. (registrar, g)) gateways)
      else [(registrar, registrar)])"

definition expandRegistrarCandidates :: "ims_config \<Rightarrow> registrar_candidate list" where
  "expandRegistrarCandidates cfg =
     (let addrs = registrarCandidates cfg
      in if addrs = [] then []
         else let (primary, fallback) = splitRegistrarCandidates addrs (CfgLocalIP cfg);
                  registrars = (if primary = [] then addrs else primary);
                  gateways = rankedIKEGatewayCandidates addrs (CfgLocalIP cfg);
                  pairs = concat (List.map (registrar_pairs gateways (CfgLocalIP cfg)) registrars) @
                    List.map (\<lambda>r. (r, r)) (filter (\<lambda>r. \<not> registrarHostEqualsLocalIP r (CfgLocalIP cfg)) fallback)
              in snd (fold append_candidate pairs ([], [])))"

section \<open>The choice of one registrar\<close>

definition pickRegistrar :: "string list \<Rightarrow> bytes \<Rightarrow> string" where
  "pickRegistrar candidates localIP =
     (case (if localIP = [] then None else List.find (\<lambda>c. registrarHostEqualsLocalIP c localIP) candidates) of
        Some c \<Rightarrow> c
      | None \<Rightarrow>
          (case List.find (\<lambda>c. registrarSpecMatchesFamily c localIP) candidates of
             Some c \<Rightarrow> c
           | None \<Rightarrow> (case candidates of [] \<Rightarrow> [] | c # _ \<Rightarrow> c)))"

datatype registrar_source = IMSNetwork | Configured

definition discoverRegistrar :: "ims_config \<Rightarrow> bytes \<Rightarrow> string \<times> registrar_source" where
  "discoverRegistrar cfg localIP =
     (let (primary, fallback) = splitRegistrarCandidates (registrarCandidates cfg) localIP
      in if pickRegistrar primary localIP \<noteq> [] then (pickRegistrar primary localIP, IMSNetwork)
         else if pickRegistrar fallback localIP \<noteq> [] then (pickRegistrar fallback localIP, IMSNetwork)
         else if TrimSpace (PCSCFAddr cfg) \<noteq> [] then (TrimSpace (PCSCFAddr cfg), Configured)
         else ([], Configured))"

definition expandRegistrarCandidatesViaIMSNetwork :: "string list \<Rightarrow> bytes \<Rightarrow> string list" where
  "expandRegistrarCandidatesViaIMSNetwork candidates localIP =
     (let (primary, fallback) = splitRegistrarCandidates (dedupeRegistrarAddrs candidates) localIP
      in dedupe_loop [] (primary @ fallback))"

definition discoverRegistrarViaIMSNetwork ::
  "string list \<Rightarrow> bytes \<Rightarrow> string \<Rightarrow> string \<times> registrar_source \<times> string list" where
  "discoverRegistrarViaIMSNetwork candidates localIP override =
     (let v = TrimSpace override;
          e = expandRegistrarCandidatesViaIMSNetwork candidates localIP;
          expanded = (if e = [] \<and> v \<noteq> [] then [v] else e);
          registrar = pickRegistrar expanded localIP
      in if registrar \<noteq> [] then (registrar, IMSNetwork, expanded)
         else if v \<noteq> [] then (v, Configured, expanded)
         else ([], Configured, expanded))"

definition formatRegistrarAddr :: "bytes \<Rightarrow> string" where
  "formatRegistrarAddr ip = (if ip = [] then [] else JoinHostPort (ip_string ip) ''5060'')"

section \<open>Routing\<close>

definition effectiveTransportAddr :: "ims_config \<Rightarrow> string" where
  "effectiveTransportAddr cfg =
     (let v = TrimSpace (TransportPCSCFAddr cfg) in if v \<noteq> [] then v else TrimSpace (PCSCFAddr cfg))"

definition effectiveRouteAddr :: "ims_config \<Rightarrow> string" where
  "effectiveRouteAddr cfg =
     (let transport = effectiveTransportAddr cfg; registrar = TrimSpace (PCSCFAddr cfg)
      in if transport \<noteq> [] \<and> registrar \<noteq> [] \<and> transport \<noteq> registrar then transport else registrar)"

definition effectiveIPSecGatewayAddr :: "ims_config \<Rightarrow> string" where
  "effectiveIPSecGatewayAddr cfg =
     (let registrar = TrimSpace (PCSCFAddr cfg)
      in if registrar \<noteq> [] \<and> \<not> registrarHostEqualsLocalIP registrar (CfgLocalIP cfg) then effectiveTransportAddr cfg
         else let gateway = pickIKEGatewayCandidate (registrarCandidates cfg) (CfgLocalIP cfg)
         in if gateway \<noteq> [] then gateway else effectiveTransportAddr cfg)"

definition effectiveIPSecRemoteIP :: "ims_config \<Rightarrow> bytes option" where
  "effectiveIPSecRemoteIP cfg =
     (let addr = effectiveIPSecGatewayAddr cfg
      in if addr = [] then None
         else case SplitHostPort addr of None \<Rightarrow> ParseIP addr | Some (host, port) \<Rightarrow> ParseIP host)"

section \<open>Failures\<close>

definition containsStatusCode :: "int list \<Rightarrow> int \<Rightarrow> bool" where
  "containsStatusCode codes code = list_ex (\<lambda>configured. configured = code) codes"

definition isForbiddenRegisterSIPResponse :: "ims_config \<Rightarrow> int \<Rightarrow> bool" where
  "isForbiddenRegisterSIPResponse cfg code =
     (case ForbiddenStatusCodes (RegisterPolicy (Template cfg)) of
        None \<Rightarrow> code = 403
      | Some codes \<Rightarrow> containsStatusCode codes code)"

definition isTemporaryRegisterSIPResponse :: "ims_config \<Rightarrow> int \<Rightarrow> bool" where
  "isTemporaryRegisterSIPResponse cfg code =
     (case TemporaryStatusCodes (RegisterPolicy (Template cfg)) of
        Some codes \<Rightarrow> containsStatusCode codes code
      | None \<Rightarrow> containsStatusCode [408, 500, 502, 503, 504, 480] code)"

definition registerTransportCandidateGap :: int where "registerTransportCandidateGap = 150"

text \<open>The delay before a retry, in milliseconds.\<close>

definition registerPolicyRetryDelay :: "ims_config \<Rightarrow> int \<Rightarrow> int" where
  "registerPolicyRetryDelay cfg statusCode =
     (let seconds = TemporaryRetrySeconds (RegisterPolicy (Template cfg))
      in if isTemporaryRegisterSIPResponse cfg statusCode \<and> 0 < seconds then seconds * 1000
         else registerTransportCandidateGap)"

definition shouldRetryInitialRegisterForStatus :: "string \<Rightarrow> ims_config \<Rightarrow> int \<Rightarrow> bool" where
  "shouldRetryInitialRegisterForStatus env cfg statusCode =
     (if \<not> initialRejectFallbackEnabled env cfg then False
      else case InitialRejectFallbackStatusCodes (RegisterPolicy (Template cfg)) of
        None \<Rightarrow> statusCode = 403
      | Some codes \<Rightarrow> containsStatusCode codes statusCode)"

definition shouldAdvanceRegistrarForNextRetry :: "ims_config \<Rightarrow> int \<Rightarrow> bool \<Rightarrow> bool" where
  "shouldAdvanceRegistrarForNextRetry cfg statusCode hasMore =
     (hasMore \<and> (isForbiddenRegisterSIPResponse cfg statusCode \<or> isTemporaryRegisterSIPResponse cfg statusCode))"

text \<open>An error as the code looks at it: what \<^verbatim>\<open>errors.Is\<close> finds and its message.\<close>

record probe_error =
  is_deadline :: bool
  is_canceled :: bool
  is_partial :: bool
  message :: string

definition shouldAdvanceRegistrarForProbeError :: "probe_error option \<Rightarrow> bool \<Rightarrow> bool" where
  "shouldAdvanceRegistrarForProbeError err hasMore =
     (case err of
        None \<Rightarrow> False
      | Some e \<Rightarrow>
          hasMore \<and> (is_deadline e \<or> is_canceled e \<or> is_partial e \<or>
            list_ex (Contains (ToLower (message e)))
              [''deadline exceeded'', ''timed out'', ''timeout'', ''transaction ended'',
               ''register response timeout'', ''register connection closed'', ''sip partial data'']))"

record failure_outcome =
  advanceRegistrar :: bool
  retryVariant :: bool
  retryTransport :: bool
  outcome_reason :: string

definition decideRegisterFailureOutcome ::
  "string \<Rightarrow> ims_config \<Rightarrow> int \<Rightarrow> string \<Rightarrow> int \<Rightarrow> int \<Rightarrow> bool \<Rightarrow> failure_outcome" where
  "decideRegisterFailureOutcome env cfg statusCode reason variantIndex variantTotal hasMoreRegistrar =
     (let out = \<lparr>advanceRegistrar = False, retryVariant = False, retryTransport = False,
            outcome_reason = TrimSpace reason\<rparr>
      in if shouldRetryInitialRegisterForStatus env cfg statusCode \<and> variantIndex + 1 < variantTotal
         then out\<lparr>retryVariant := True, outcome_reason := ''initial_reject_fallback''\<rparr>
         else if shouldAdvanceRegistrarForNextRetry cfg statusCode hasMoreRegistrar
         then out\<lparr>advanceRegistrar := True, outcome_reason := ''registrar_candidate_rejected''\<rparr>
         else if statusCode = 0 \<and> hasMoreRegistrar
         then out\<lparr>advanceRegistrar := True, outcome_reason := ''registrar_probe_timeout''\<rparr>
         else out)"

section \<open>All candidates are tried once\<close>

lemma dedupe_loop_set: "set (dedupe_loop seen addrs) = (TrimSpace ` set addrs) - {[]} - set seen"
  by (induction addrs arbitrary: seen) (auto simp: Let_def)

lemma dedupe_loop_distinct: "distinct (dedupe_loop seen addrs)"
  by (induction addrs arbitrary: seen) (auto simp: Let_def dedupe_loop_set)

lemma registrarCandidates_trimmed: "addr \<in> set (registrarCandidates cfg) \<Longrightarrow> TrimSpace addr = addr \<and> addr \<noteq> []"
  by (auto simp: registrarCandidates_def dedupeRegistrarAddrs_def dedupe_loop_set Let_def split: if_splits)

lemma first_seen_set: "set (first_seen seen addrs) = set addrs - set seen"
  by (induction addrs arbitrary: seen) auto

lemma gateway_items_set: "fst ` set (gateway_items addrs ip) =
    {a \<in> set addrs. \<not> registrarHostEqualsLocalIP a ip \<and> SplitHostPort (TrimSpace a) \<noteq> None}"
proof (induction addrs)
  case (Cons a addrs)
  then show ?case
    by (cases "registrarHostEqualsLocalIP a ip"; cases "SplitHostPort (TrimSpace a)")
      (simp_all add: case_prod_unfold, auto)
qed simp

lemma ranked_set: "set (rankedIKEGatewayCandidates addrs ip) =
    {a \<in> set addrs. \<not> registrarHostEqualsLocalIP a ip \<and> SplitHostPort (TrimSpace a) \<noteq> None}"
  by (simp add: rankedIKEGatewayCandidates_def first_seen_set gateway_items_set)

lemma length_v4InV6Prefix: "length v4InV6Prefix = 12"
  by code_simp

lemma ip_equal_family: "ip_equal a b \<Longrightarrow> (To4 b = None) = (To4 a = None)"
  by (auto simp: ip_equal_def To4_def length_v4InV6Prefix split: if_splits)

lemma local_matches_family: "registrarHostEqualsLocalIP addr ip \<Longrightarrow> registrarSpecMatchesFamily addr ip"
  by (auto simp: registrarHostEqualsLocalIP_def registrarSpecMatchesFamily_def ip_equal_family
      simp del: not_None_eq split: if_splits option.splits)

lemma candidate_key_inj:
  assumes "CHR 0x00 \<notin> set r" "CHR 0x00 \<notin> set r'" "candidate_key r t = candidate_key r' t'"
  shows "r = r' \<and> t = t'"
proof -
  have k: "takeWhile (\<lambda>c. c \<noteq> CHR 0x00) (candidate_key x y) = x" if "CHR 0x00 \<notin> set x" for x y
    unfolding candidate_key_def using that by (subst takeWhile_append2) auto
  have "r = r'" using k [OF assms(1), of t] k [OF assms(2), of t'] assms(3) by simp
  then show ?thesis using assms(3) by (simp add: candidate_key_def)
qed

definition candidate_of :: "string \<times> string \<Rightarrow> registrar_candidate" where
  "candidate_of pair = \<lparr>Registrar = fst pair, CandidateTransport = snd pair\<rparr>"

definition clean_pair :: "string \<times> string \<Rightarrow> bool" where
  "clean_pair pair \<longleftrightarrow> TrimSpace (fst pair) = fst pair \<and> fst pair \<noteq> [] \<and> TrimSpace (snd pair) = snd pair \<and>
     snd pair \<noteq> [] \<and> CHR 0x00 \<notin> set (fst pair)"

definition candidates_inv :: "string list \<times> registrar_candidate list \<Rightarrow> bool" where
  "candidates_inv st \<longleftrightarrow> distinct (snd st) \<and> (\<forall>c \<in> set (snd st). CHR 0x00 \<notin> set (Registrar c)) \<and>
     set (fst st) = (\<lambda>c. candidate_key (Registrar c) (CandidateTransport c)) ` set (snd st)"

lemma append_candidate_step:
  assumes p: "clean_pair p" and st: "candidates_inv st"
  shows "candidates_inv (append_candidate p st) \<and>
    set (snd (append_candidate p st)) = insert (candidate_of p) (set (snd st))"
proof -
  let ?key = "candidate_key (fst p) (snd p)"
  have e: "append_candidate p st = (if ?key \<in> set (fst st) then st
      else (?key # fst st, snd st @ [candidate_of p]))"
    using p by (cases st) (simp add: append_candidate_def clean_pair_def candidate_of_def Let_def)
  have m: "?key \<in> set (fst st) \<longleftrightarrow> candidate_of p \<in> set (snd st)"
  proof
    assume "?key \<in> set (fst st)"
    then obtain c where c: "c \<in> set (snd st)" "?key = candidate_key (Registrar c) (CandidateTransport c)"
      using st by (auto simp: candidates_inv_def)
    then have "fst p = Registrar c \<and> snd p = CandidateTransport c"
      using p st by (intro candidate_key_inj) (auto simp: clean_pair_def candidates_inv_def)
    then have "candidate_of p = c" by (cases c) (simp add: candidate_of_def)
    then show "candidate_of p \<in> set (snd st)" using c(1) by simp
  next
    assume "candidate_of p \<in> set (snd st)"
    then have "candidate_key (Registrar (candidate_of p)) (CandidateTransport (candidate_of p)) \<in>
        (\<lambda>c. candidate_key (Registrar c) (CandidateTransport c)) ` set (snd st)" by (rule imageI)
    moreover have "set (fst st) = (\<lambda>c. candidate_key (Registrar c) (CandidateTransport c)) ` set (snd st)"
      using st by (simp only: candidates_inv_def)
    ultimately show "?key \<in> set (fst st)" by (simp only: candidate_of_def registrar_candidate.simps)
  qed
  show ?thesis
  proof (cases "candidate_of p \<in> set (snd st)")
    case True
    then show ?thesis using m st by (simp add: e insert_absorb)
  next
    case False
    then show ?thesis using m st p
      by (simp add: e) (auto simp: candidates_inv_def candidate_of_def clean_pair_def)
  qed
qed

lemma append_candidates:
  "list_all clean_pair ps \<Longrightarrow> candidates_inv st \<Longrightarrow>
   candidates_inv (fold append_candidate ps st) \<and>
   set (snd (fold append_candidate ps st)) = candidate_of ` set ps \<union> set (snd st)"
proof (induction ps arbitrary: st)
  case (Cons p ps)
  have "candidates_inv (append_candidate p st) \<and>
      set (snd (append_candidate p st)) = insert (candidate_of p) (set (snd st))"
    using Cons.prems by (intro append_candidate_step) simp_all
  then show ?case using Cons.IH [of "append_candidate p st"] Cons.prems by simp
qed simp

text \<open>What a registration has to try: every candidate over itself, and a candidate that is the client's own
  address over every gateway, if there is one.\<close>

definition wanted_candidates :: "ims_config \<Rightarrow> registrar_candidate list" where
  "wanted_candidates cfg =
     (let addrs = registrarCandidates cfg; gateways = rankedIKEGatewayCandidates addrs (CfgLocalIP cfg)
      in List.map candidate_of (concat (List.map (registrar_pairs gateways (CfgLocalIP cfg)) addrs)))"

lemma registrar_pairs_clean:
  assumes "TrimSpace r = r \<and> r \<noteq> [] \<and> CHR 0x00 \<notin> set r" "\<forall>g \<in> set gs. TrimSpace g = g \<and> g \<noteq> []"
  shows "list_all clean_pair (registrar_pairs gs ip r)"
  using assms by (auto simp: registrar_pairs_def list_all_iff clean_pair_def)

lemma set_concat_map: "set (concat (List.map g xs)) = (\<Union>x \<in> set xs. set (g x))"
  by simp

lemma join_pairs: "D = (\<Union>r \<in> F. P r) \<Longrightarrow> R \<union> F = A \<Longrightarrow> (\<Union>r \<in> R. P r) \<union> D = (\<Union>r \<in> A. P r)"
  by auto

lemma expanded_candidates:
  assumes n: "list_all (\<lambda>a. CHR 0x00 \<notin> set a) (registrarCandidates cfg)"
  shows "distinct (expandRegistrarCandidates cfg) \<and> set (expandRegistrarCandidates cfg) = set (wanted_candidates cfg)"
proof (cases "registrarCandidates cfg = []")
  case True
  then show ?thesis by (simp add: expandRegistrarCandidates_def wanted_candidates_def)
next
  case False
  let ?addrs = "registrarCandidates cfg" and ?ip = "CfgLocalIP cfg"
  let ?gs = "rankedIKEGatewayCandidates ?addrs ?ip"
  let ?primary = "filter (\<lambda>c. registrarSpecMatchesFamily c ?ip) ?addrs"
  let ?fallback = "filter (\<lambda>c. \<not> registrarSpecMatchesFamily c ?ip) ?addrs"
  let ?regs = "if ?primary = [] then ?addrs else ?primary"
  let ?other = "filter (\<lambda>r. \<not> registrarHostEqualsLocalIP r ?ip) ?fallback"
  define pairs where "pairs = concat (List.map (registrar_pairs ?gs ?ip) ?regs) @ List.map (\<lambda>r. (r, r)) ?other"
  have e: "expandRegistrarCandidates cfg = snd (fold append_candidate pairs ([], []))"
    using False by (simp add: expandRegistrarCandidates_def splitRegistrarCandidates_def Let_def pairs_def)
  have gs: "\<forall>g \<in> set ?gs. TrimSpace g = g \<and> g \<noteq> []"
    using registrarCandidates_trimmed by (auto simp: ranked_set)
  have c: "TrimSpace r = r \<and> r \<noteq> [] \<and> CHR 0x00 \<notin> set r" if "r \<in> set ?addrs" for r
    using registrarCandidates_trimmed [OF that] n that by (auto simp: list_all_iff)
  have "list_all clean_pair (registrar_pairs ?gs ?ip r)" if "r \<in> set ?addrs" for r
    by (rule registrar_pairs_clean [OF c [OF that] gs])
  moreover have "set ?regs \<subseteq> set ?addrs" by auto
  ultimately have "list_all clean_pair (concat (List.map (registrar_pairs ?gs ?ip) ?regs))"
    unfolding list_all_iff set_concat set_map by blast
  moreover have "list_all clean_pair (List.map (\<lambda>r. (r, r)) ?other)"
    using c by (simp add: list_all_iff clean_pair_def)
  ultimately have "list_all clean_pair pairs" by (simp only: pairs_def list_all_append)
  moreover have "candidates_inv ([], [])" by (simp add: candidates_inv_def)
  ultimately have f: "distinct (expandRegistrarCandidates cfg)" "set (expandRegistrarCandidates cfg) = candidate_of ` set pairs"
    using append_candidates [of pairs "([], [])"] e by (simp_all add: candidates_inv_def)
  have p: "set (registrar_pairs ?gs ?ip r) = {(r, r)}" if "r \<in> set ?fallback" for r
    using that local_matches_family by (auto simp: registrar_pairs_def)
  have "set ?other = set ?fallback" using local_matches_family by auto
  then have "(\<lambda>r. (r, r)) ` set ?other = (\<Union>r \<in> set ?fallback. set (registrar_pairs ?gs ?ip r))"
    using p by (simp only:) blast
  moreover have "set ?regs \<union> set ?fallback = set ?addrs" by auto
  ultimately have "set pairs = (\<Union>r \<in> set ?addrs. set (registrar_pairs ?gs ?ip r))"
    by (simp only: pairs_def set_append set_concat_map set_map join_pairs)
  then show ?thesis using f by (simp add: wanted_candidates_def Let_def)
qed


definition sample_registrars :: ims_config where
  "sample_registrars = \<lparr>CfgLocalIP = [10, 0, 0, 1], PCSCFAddr = [], TransportPCSCFAddr = [],
     RegistrarCandidates = [''10.0.0.1:5060'', '' 10.0.0.2:5060'', ''[2a03:dd00:1f80::1]:5060'', ''10.0.0.2:5060''],
     Realm = [], PrivateID = [], CfgPublicURI = [], HomeDomain = [], CfgIMSI = [], Template = no_template, MCC = [],
     MNC = [], CellID = [], CfgTransport = [], CfgLocalPort = 0, CfgSIPInstanceURN = [], UserAgent = [],
     SecurityVerify = [], RegisterExpirySeconds = 0\<rparr>"

lemma sample_registrar_list: "registrarCandidates sample_registrars =
    [''10.0.0.1:5060'', ''10.0.0.2:5060'', ''[2a03:dd00:1f80::1]:5060'']"
proof -
  have "RegistrarCandidates sample_registrars =
      [''10.0.0.1:5060'', '' 10.0.0.2:5060'', ''[2a03:dd00:1f80::1]:5060'', ''10.0.0.2:5060'']"
    by (simp add: sample_registrars_def)
  moreover have "dedupeRegistrarAddrs [''10.0.0.1:5060'', '' 10.0.0.2:5060'', ''[2a03:dd00:1f80::1]:5060'', ''10.0.0.2:5060''] =
      [''10.0.0.1:5060'', ''10.0.0.2:5060'', ''[2a03:dd00:1f80::1]:5060'']" by code_simp
  ultimately show ?thesis by (simp add: registrarCandidates_def)
qed


end
