(* ===== verification/Replay.thy ===== *)
theory Replay
  imports Go_Prelude
begin

text \<open>
  The anti-replay window of ESP sequence numbers
  (\<open>mobilecore/internal/vowifi/ipsec3gpp/replay.go\<close>): its state, the three operations
  \<open>Accept\<close>, \<open>Check\<close> and \<open>Update\<close>, the invariant, and the contract a receiver relies on,
  stated as the locale \<open>anti_replay\<close> and interpreted on the code's window.

  The mutex of the window makes every operation atomic, so a run of the window is a
  sequence of operations. A nil pointer is the value \<open>None\<close>.
\<close>

section \<open>State\<close>

record replay_stats =
  Accepted :: u64
  Duplicate :: u64
  TooOld :: u64

record replay_window =
  rw_size :: u32
  initialized :: bool
  highest :: u32
  bitmap :: u64
  rw_stats :: replay_stats

definition zero_stats :: replay_stats where
  "zero_stats = \<lparr>Accepted = 0, Duplicate = 0, TooOld = 0\<rparr>"

definition default_replay_window_size :: u32 where
  "default_replay_window_size = 64"

definition NewReplayWindow :: "u32 \<Rightarrow> replay_window" where
  "NewReplayWindow n =
     (let n1 = (if n = 0 then default_replay_window_size else n);
          n2 = (if n1 > 64 then 64 else n1)
      in \<lparr>rw_size = n2, initialized = False, highest = 0, bitmap = 0, rw_stats = zero_stats\<rparr>)"

definition count_accepted :: "replay_window \<Rightarrow> replay_window" where
  "count_accepted w = w\<lparr>rw_stats := (rw_stats w)\<lparr>Accepted := Accepted (rw_stats w) + 1\<rparr>\<rparr>"

definition count_duplicate :: "replay_window \<Rightarrow> replay_window" where
  "count_duplicate w = w\<lparr>rw_stats := (rw_stats w)\<lparr>Duplicate := Duplicate (rw_stats w) + 1\<rparr>\<rparr>"

definition count_too_old :: "replay_window \<Rightarrow> replay_window" where
  "count_too_old w = w\<lparr>rw_stats := (rw_stats w)\<lparr>TooOld := TooOld (rw_stats w) + 1\<rparr>\<rparr>"

section \<open>Operations\<close>

text \<open>The bit of the bitmap that stands for a sequence number \<open>delta\<close> below the highest.\<close>

definition rw_mask :: "u32 \<Rightarrow> u64" where
  "rw_mask delta = push_bit (unat delta) 1"

text \<open>The window moves up to a sequence number above the highest one seen.\<close>

definition rw_advance :: "replay_window \<Rightarrow> u32 \<Rightarrow> replay_window" where
  "rw_advance w seq =
     (let shift = seq - highest w in
      w\<lparr>bitmap := (if shift \<ge> rw_size w then 1 else push_bit (unat shift) (bitmap w) OR 1),
        highest := seq\<rparr>)"

definition Accept :: "replay_window option \<Rightarrow> u32 \<Rightarrow> bool \<times> replay_window option" where
  "Accept wp seq = (case wp of None \<Rightarrow> (False, None) | Some w \<Rightarrow>
     if seq = 0 then (False, Some (count_too_old w))
     else if \<not> initialized w then
       (True, Some (count_accepted (w\<lparr>initialized := True, highest := seq, bitmap := 1\<rparr>)))
     else if seq > highest w then (True, Some (count_accepted (rw_advance w seq)))
     else
       (let delta = highest w - seq in
        if delta \<ge> rw_size w then (False, Some (count_too_old w))
        else if bitmap w AND rw_mask delta \<noteq> 0 then (False, Some (count_duplicate w))
        else (True, Some (count_accepted (w\<lparr>bitmap := bitmap w OR rw_mask delta\<rparr>)))))"

definition Check :: "replay_window option \<Rightarrow> u32 \<Rightarrow> bool \<times> replay_window option" where
  "Check wp seq = (case wp of None \<Rightarrow> (False, None) | Some w \<Rightarrow>
     if seq = 0 then (False, Some (count_too_old w))
     else if \<not> initialized w then (True, Some w)
     else if seq > highest w then (True, Some w)
     else
       (let delta = highest w - seq in
        if delta \<ge> rw_size w then (False, Some (count_too_old w))
        else if bitmap w AND rw_mask delta \<noteq> 0 then (False, Some (count_duplicate w))
        else (True, Some w)))"

definition Update :: "replay_window option \<Rightarrow> u32 \<Rightarrow> replay_window option" where
  "Update wp seq = (case wp of None \<Rightarrow> None | Some w \<Rightarrow>
     if seq = 0 then Some w
     else if \<not> initialized w then
       Some (count_accepted (w\<lparr>initialized := True, highest := seq, bitmap := 1\<rparr>))
     else if seq > highest w then Some (count_accepted (rw_advance w seq))
     else
       (let delta = highest w - seq in
        if delta < rw_size w
        then Some (count_accepted (w\<lparr>bitmap := bitmap w OR rw_mask delta\<rparr>)) else Some w))"

definition Snapshot :: "replay_window option \<Rightarrow> replay_stats" where
  "Snapshot wp = (case wp of None \<Rightarrow> zero_stats | Some w \<Rightarrow> rw_stats w)"

lemmas count_defs = count_accepted_def count_duplicate_def count_too_old_def

lemma count_frame [simp]:
  "rw_size (count_accepted w) = rw_size w" "initialized (count_accepted w) = initialized w"
  "highest (count_accepted w) = highest w" "bitmap (count_accepted w) = bitmap w"
  "rw_size (count_duplicate w) = rw_size w" "initialized (count_duplicate w) = initialized w"
  "highest (count_duplicate w) = highest w" "bitmap (count_duplicate w) = bitmap w"
  "rw_size (count_too_old w) = rw_size w" "initialized (count_too_old w) = initialized w"
  "highest (count_too_old w) = highest w" "bitmap (count_too_old w) = bitmap w"
  by (simp_all add: count_defs)

section \<open>The invariant and the set of dead sequence numbers\<close>

text \<open>The size stays between 1 and 64, and once a packet has been accepted the highest sequence
  number is not 0 and is marked.\<close>

definition rw_inv :: "replay_window \<Rightarrow> bool" where
  "rw_inv w \<longleftrightarrow> 1 \<le> rw_size w \<and> rw_size w \<le> 64 \<and>
     (initialized w \<longrightarrow> highest w \<noteq> 0 \<and> bit (bitmap w) 0)"

text \<open>A sequence number is dead when the window will not accept it: zero, too old, or marked.\<close>

definition dead :: "replay_window option \<Rightarrow> u32 \<Rightarrow> bool" where
  "dead wp seq = (case wp of None \<Rightarrow> True | Some w \<Rightarrow>
     seq = 0 \<or> (initialized w \<and> seq \<le> highest w \<and>
       (rw_size w \<le> highest w - seq \<or> bit (bitmap w) (unat (highest w - seq)))))"

definition rw_ok :: "replay_window option \<Rightarrow> bool" where
  "rw_ok wp = (case wp of None \<Rightarrow> True | Some w \<Rightarrow> rw_inv w)"

lemma rw_mask_test: "unat d < 64 \<Longrightarrow> (b AND rw_mask d \<noteq> 0) = bit b (unat d)"
proof -
  assume d: "unat d < 64"
  have "b AND rw_mask d = (if bit b (unat d) then rw_mask d else 0)"
    by (rule bit_word_eqI) (auto simp: rw_mask_def bit_simps)
  moreover have "rw_mask d \<noteq> 0"
  proof
    assume "rw_mask d = 0"
    then have "\<not> bit (rw_mask d) (unat d)" by simp
    with d show False by (simp add: rw_mask_def bit_simps)
  qed
  ultimately show ?thesis by auto
qed

lemma unat_less_64: "(d::u32) < s \<Longrightarrow> s \<le> 64 \<Longrightarrow> unat d < 64"
proof -
  assume "d < s" "s \<le> 64"
  then have "d < 64" by (rule less_le_trans)
  then show ?thesis by (simp add: word_less_nat_alt)
qed

lemma rw_mask_test_inv:
  "rw_inv w \<Longrightarrow> d < rw_size w \<Longrightarrow> (b AND rw_mask d \<noteq> 0) = bit b (unat d)"
  by (rule rw_mask_test) (auto simp: rw_inv_def intro: unat_less_64)

lemma bit_or_mask: "unat d < 64 \<Longrightarrow> bit (b OR rw_mask d) n \<longleftrightarrow> bit b n \<or> n = unat d"
  by (auto simp: rw_mask_def bit_simps)

lemma bit_mask_self: "unat d < 64 \<Longrightarrow> bit (rw_mask d) (unat d)"
  by (simp add: rw_mask_def bit_simps)

lemma NewReplayWindow_ok [simp]: "rw_ok (Some (NewReplayWindow n))"
proof -
  have "1 \<le> n \<longleftrightarrow> n \<noteq> 0"
    using unat_gt_0 [of n] by (simp add: word_le_nat_alt Suc_le_eq)
  then show ?thesis
    by (auto simp: rw_ok_def rw_inv_def NewReplayWindow_def default_replay_window_size_def Let_def)
qed

lemma rw_ok_Some [simp]: "rw_ok (Some w) = rw_inv w" and rw_ok_None [simp]: "rw_ok None"
  by (simp_all add: rw_ok_def)

lemma rw_inv_counts [simp]:
  "rw_inv (count_accepted w) = rw_inv w" "rw_inv (count_duplicate w) = rw_inv w"
  "rw_inv (count_too_old w) = rw_inv w"
  by (simp_all add: rw_inv_def)

lemma dead_counts [simp]:
  "dead (Some (count_accepted w)) = dead (Some w)" "dead (Some (count_duplicate w)) = dead (Some w)"
  "dead (Some (count_too_old w)) = dead (Some w)"
  by (simp_all add: dead_def fun_eq_iff)

subsection \<open>Every operation keeps the invariant\<close>

lemma rw_inv_advance: "rw_inv w \<Longrightarrow> highest w < seq \<Longrightarrow> rw_inv (rw_advance w seq)"
  by (auto simp: rw_inv_def rw_advance_def Let_def bit_simps)

lemma rw_inv_mark: "rw_inv w \<Longrightarrow> rw_inv (w\<lparr>bitmap := bitmap w OR m\<rparr>)"
  by (auto simp: rw_inv_def bit_simps)

lemma rw_inv_first: "rw_inv w \<Longrightarrow> s \<noteq> 0 \<Longrightarrow> rw_inv (w\<lparr>initialized := True, highest := s, bitmap := 1\<rparr>)"
  by (simp add: rw_inv_def)

lemma Update_ok: "rw_ok wp \<Longrightarrow> rw_ok (Update wp s)"
  by (auto simp: Update_def Let_def not_le not_less split: option.splits
      intro: rw_inv_advance rw_inv_mark rw_inv_first)

lemma Accept_ok: "rw_ok wp \<Longrightarrow> rw_ok (snd (Accept wp s))"
  by (auto simp: Accept_def Let_def not_le not_less split: option.splits
      intro: rw_inv_advance rw_inv_mark rw_inv_first)

lemma Check_ok: "rw_ok wp \<Longrightarrow> rw_ok (snd (Check wp s))"
  by (auto simp: Check_def Let_def split: option.splits)

subsection \<open>Accept and Check decide exactly whether a number is dead\<close>

lemma Check_iff: "rw_ok wp \<Longrightarrow> fst (Check wp s) \<longleftrightarrow> \<not> dead wp s"
  by (cases wp) (auto simp: Check_def dead_def Let_def not_le not_less rw_mask_test_inv)

lemma Accept_iff: "rw_ok wp \<Longrightarrow> fst (Accept wp s) \<longleftrightarrow> \<not> dead wp s"
  by (cases wp) (auto simp: Accept_def dead_def Let_def not_le not_less rw_mask_test_inv)

lemma Check_dead [simp]: "dead (snd (Check wp s)) = dead wp"
  by (cases wp) (auto simp: Check_def Let_def)

lemma Check_passes_frame: "fst (Check wp s) \<Longrightarrow> snd (Check wp s) = wp"
  by (cases wp) (auto simp: Check_def Let_def split: if_splits)

lemma Accept_rejects_dead: "rw_ok wp \<Longrightarrow> dead wp s \<Longrightarrow> dead (snd (Accept wp s)) = dead wp"
  by (cases wp) (auto simp: Accept_def Let_def dead_def not_le not_less rw_mask_test_inv)

lemma Accept_live_Update: "rw_ok wp \<Longrightarrow> \<not> dead wp s \<Longrightarrow> Accept wp s = (True, Update wp s)"
  by (cases wp) (auto simp: Accept_def Update_def Let_def dead_def not_le not_less rw_mask_test_inv)

subsection \<open>Marking a number: it dies, and no dead number revives\<close>

lemma unat_diff: "(b::u32) \<le> a \<Longrightarrow> unat (a - b) = unat a - unat b"
  by (simp add: unat_sub)

lemma dead_advance:
  assumes "rw_inv w" "initialized w" "highest w < s" "dead (Some w) q"
  shows "dead (Some (rw_advance w s)) q"
proof (cases "q = 0 \<or> rw_size w \<le> s - q")
  case True
  with assms show ?thesis
    by (auto simp: dead_def rw_advance_def Let_def)
next
  case False
  from assms False have q: "q \<le> highest w" by (simp add: dead_def)
  let ?n = "unat (highest w - q)" and ?k = "unat (s - highest w)"
  have sq: "unat (s - q) = ?n + ?k"
    using q assms(3) by (simp add: unat_diff word_le_nat_alt word_less_nat_alt)
  have sz: "unat (s - q) < unat (rw_size w)" "rw_size w \<le> 64"
    using False assms(1) by (auto simp: word_le_nat_alt rw_inv_def)
  then have lt: "\<not> rw_size w \<le> highest w - q" "\<not> rw_size w \<le> s - highest w" "?n + ?k < 64"
    using sq by (auto simp: word_le_nat_alt)
  with assms(4) False have "bit (bitmap w) ?n" by (simp add: dead_def)
  then have "bit (push_bit ?k (bitmap w) OR 1) (unat (s - q))"
    using sq lt(3) by (auto simp: bit_simps)
  with lt assms(2,3) q show ?thesis
    by (auto simp: dead_def rw_advance_def Let_def)
qed

lemma Update_dead_mono: "rw_ok wp \<Longrightarrow> dead wp q \<Longrightarrow> dead (Update wp s) q"
proof (cases wp)
  case (Some w)
  assume a: "rw_ok wp" "dead wp q"
  show ?thesis
  proof (cases "s \<noteq> 0 \<and> initialized w \<and> highest w < s")
    case True
    with a Some show ?thesis by (auto simp: Update_def intro: dead_advance)
  next
    case False
    with a Some show ?thesis
      by (auto simp: Update_def dead_def Let_def bit_simps not_less)
  qed
qed (simp add: Update_def dead_def)

lemma Update_kills: "rw_ok wp \<Longrightarrow> dead (Update wp s) s"
proof (cases wp)
  case (Some w)
  assume "rw_ok wp"
  with Some have inv: "rw_inv w" by simp
  have "unat (highest w - s) < 64" if "highest w - s < rw_size w"
    using that inv by (auto simp: rw_inv_def intro: unat_less_64)
  with inv Some show ?thesis
    by (auto simp: Update_def dead_def rw_advance_def rw_inv_def Let_def bit_mask_self bit_simps
        not_less not_le)
qed (simp add: Update_def dead_def)


lemma Update_keeps_fresh: "rw_ok wp \<Longrightarrow> \<not> dead wp s \<Longrightarrow> s < q \<Longrightarrow> \<not> dead wp q \<Longrightarrow> \<not> dead (Update wp s) q"
proof (cases wp)
  case (Some w)
  assume a: "rw_ok wp" "\<not> dead wp s" "s < q" "\<not> dead wp q"
  have neq: "highest w - q = highest w - s \<longleftrightarrow> q = s" by auto
  have "unat (highest w - s) < 64" if "highest w - s < rw_size w"
    using that a(1) Some by (auto simp: rw_inv_def intro: unat_less_64)
  then have marked: "bit (bitmap w OR rw_mask (highest w - s)) (unat (highest w - q)) =
      bit (bitmap w) (unat (highest w - q))" if "highest w - s < rw_size w"
    using that a(3) neq by (auto simp: bit_or_mask simp flip: word_unat_eq_iff)
  show ?thesis
    using a Some marked
    by (auto simp: Update_def dead_def Let_def rw_advance_def not_less not_le)
qed (simp add: dead_def)

section \<open>The contract of an anti-replay window\<close>

text \<open>
  A component that delivers every item at most once: a step may deliver an item, a delivered item
  was not spent before and is spent from then on, and no spent item becomes fresh again. The items
  delivered along a run are then pairwise different, whatever the order and the gaps in which they
  arrive.
\<close>

fun ids_run :: "('w \<Rightarrow> 'p \<Rightarrow> 'i option \<times> 'w) \<Rightarrow> 'w \<Rightarrow> 'p list \<Rightarrow> 'i list" where
  "ids_run step w [] = []"
| "ids_run step w (p # ps) =
     (case fst (step w p) of None \<Rightarrow> [] | Some i \<Rightarrow> [i]) @ ids_run step (snd (step w p)) ps"

locale exactly_once =
  fixes step :: "'w \<Rightarrow> 'p \<Rightarrow> 'i option \<times> 'w"
    and spent :: "'w \<Rightarrow> 'i \<Rightarrow> bool"
    and ok :: "'w \<Rightarrow> bool"
  assumes step_ok: "ok w \<Longrightarrow> ok (snd (step w p))"
    and step_mono: "ok w \<Longrightarrow> spent w i \<Longrightarrow> spent (snd (step w p)) i"
    and step_fresh: "ok w \<Longrightarrow> fst (step w p) = Some i \<Longrightarrow> \<not> spent w i"
    and step_spends: "ok w \<Longrightarrow> fst (step w p) = Some i \<Longrightarrow> spent (snd (step w p)) i"
begin

lemma spent_never_delivered: "ok w \<Longrightarrow> spent w i \<Longrightarrow> i \<notin> set (ids_run step w ps)"
proof (induction ps arbitrary: w)
  case (Cons p ps)
  then show ?case
    using step_ok [of w p] step_mono [of w i p] step_fresh [of w p i]
    by (auto split: option.splits)
qed simp

lemma delivered_distinct: "ok w \<Longrightarrow> distinct (ids_run step w ps)"
proof (induction ps arbitrary: w)
  case (Cons p ps)
  then show ?case
    using step_ok [of w p] step_spends [of w p] spent_never_delivered [of "snd (step w p)" _ ps]
    by (auto split: option.splits)
qed simp

end

text \<open>The numbers an anti-replay window accepts along a run. A receiver needs little of the window:
  \<open>accept\<close> answers whether a number is spent and spends it.\<close>

fun run_accepts :: "('w \<Rightarrow> 'n \<Rightarrow> bool \<times> 'w) \<Rightarrow> 'w \<Rightarrow> 'n list \<Rightarrow> 'n list" where
  "run_accepts acc w [] = []"
| "run_accepts acc w (s # ss) =
     (let (b, w') = acc w s in (if b then [s] else []) @ run_accepts acc w' ss)"

definition accept_step :: "('w \<Rightarrow> 'n \<Rightarrow> bool \<times> 'w) \<Rightarrow> 'w \<Rightarrow> 'n \<Rightarrow> 'n option \<times> 'w" where
  "accept_step acc w s = (if fst (acc w s) then Some s else None, snd (acc w s))"

lemma run_accepts_ids: "run_accepts acc w ss = ids_run (accept_step acc) w ss"
  by (induction ss arbitrary: w) (auto simp: accept_step_def Let_def case_prod_beta)

locale anti_replay =
  fixes accept :: "'w \<Rightarrow> 'n \<Rightarrow> bool \<times> 'w"
    and spent :: "'w \<Rightarrow> 'n \<Rightarrow> bool"
    and ok :: "'w \<Rightarrow> bool"
  assumes accept_iff: "ok w \<Longrightarrow> fst (accept w s) \<longleftrightarrow> \<not> spent w s"
    and accept_ok: "ok w \<Longrightarrow> ok (snd (accept w s))"
    and accept_spends: "ok w \<Longrightarrow> spent (snd (accept w s)) s"
    and accept_mono: "ok w \<Longrightarrow> spent w q \<Longrightarrow> spent (snd (accept w s)) q"

sublocale anti_replay \<subseteq> once: exactly_once "accept_step accept" spent ok
  by unfold_locales
    (auto simp: accept_step_def accept_iff accept_ok accept_spends accept_mono split: if_splits)

context anti_replay begin

lemma accepted_distinct: "ok w \<Longrightarrow> distinct (run_accepts accept w ss)"
  by (simp add: run_accepts_ids once.delivered_distinct)

end

text \<open>A receiver that verifies the packet between the check and the mark needs one law more: the
  check neither spends a number nor frees one.\<close>

locale checked_anti_replay = anti_replay +
  fixes check :: "'w \<Rightarrow> 'n \<Rightarrow> bool \<times> 'w"
  assumes check_iff: "ok w \<Longrightarrow> fst (check w s) \<longleftrightarrow> \<not> spent w s"
    and check_ok: "ok w \<Longrightarrow> ok (snd (check w s))"
    and check_frame: "spent (snd (check w s)) = spent w"
begin

lemma accept_after_check:
  "ok w \<Longrightarrow> fst (check w s) \<Longrightarrow> fst (accept (snd (check w s)) s)"
  by (simp add: accept_iff check_ok check_frame check_iff)

lemma forged_check_harmless:
  "ok w \<Longrightarrow> fst (accept (snd (check w s)) q) = fst (accept w q)"
  by (simp add: accept_iff check_ok check_frame)

end

interpretation rw: checked_anti_replay Accept dead rw_ok Check
proof unfold_locales
  fix w s q assume ok: "rw_ok w"
  show "dead (snd (Accept w s)) s"
    using ok by (cases "dead w s") (simp_all add: Accept_rejects_dead Accept_live_Update Update_kills)
  assume "dead w q"
  then show "dead (snd (Accept w s)) q"
    using ok
    by (cases "dead w s") (simp_all add: Accept_rejects_dead Accept_live_Update Update_dead_mono)
qed (simp_all add: Accept_iff Accept_ok Check_iff Check_ok)


section \<open>The ideal window\<close>

text \<open>
  The specification of RFC 4303, section 3.4.3: remember every accepted number; reject 0,
  reject what was accepted before, and reject what lies a window size or more below the
  highest accepted number. The code keeps only the highest number and 64 bits; it makes the
  same decisions.
\<close>

definition ideal_accepts :: "nat \<Rightarrow> u32 list \<Rightarrow> u32 \<Rightarrow> bool" where
  "ideal_accepts n seen s \<longleftrightarrow> s \<noteq> 0 \<and> s \<notin> set seen \<and> (\<forall>h \<in> set seen. unat h < unat s + n)"

definition ideal_step :: "nat \<Rightarrow> u32 list \<Rightarrow> u32 \<Rightarrow> bool \<times> u32 list" where
  "ideal_step n seen s = (if ideal_accepts n seen s then (True, s # seen) else (False, seen))"

definition rw_rel :: "replay_window \<Rightarrow> u32 list \<Rightarrow> bool" where
  "rw_rel w seen \<longleftrightarrow> rw_inv w \<and> initialized w = (seen \<noteq> []) \<and>
     (initialized w \<longrightarrow> highest w \<in> set seen \<and> (\<forall>h \<in> set seen. h \<le> highest w) \<and>
       (\<forall>q. q \<le> highest w \<longrightarrow> highest w - q < rw_size w \<longrightarrow>
          bit (bitmap w) (unat (highest w - q)) = (q \<in> set seen)))"

lemma rw_rel_new: "rw_rel (NewReplayWindow n) []"
  using NewReplayWindow_ok [of n] by (simp add: rw_rel_def) (simp add: NewReplayWindow_def Let_def)

lemma unat_minus_inj: "unat ((h::u32) - q) = unat (h - s) \<longleftrightarrow> q = s"
  by (simp flip: word_unat_eq_iff)

lemma in_window_iff:
  "s \<le> (h::u32) \<Longrightarrow> (h - s < n) = (unat h < unat s + unat n)"
  by (simp add: word_less_nat_alt unat_diff word_le_nat_alt) linarith

lemma rw_rel_dead:
  assumes "rw_rel w seen"
  shows "dead (Some w) s \<longleftrightarrow> \<not> ideal_accepts (unat (rw_size w)) seen s"
proof (cases "initialized w \<and> s \<le> highest w")
  case True
  with assms have h: "highest w \<in> set seen" "\<forall>h \<in> set seen. h \<le> highest w"
    by (auto simp: rw_rel_def)
  then have "(\<forall>h \<in> set seen. unat h < unat s + unat (rw_size w)) \<longleftrightarrow> highest w - s < rw_size w"
    using True by (auto simp: in_window_iff word_le_nat_alt intro: le_less_trans)
  with True assms show ?thesis
    by (auto simp: dead_def ideal_accepts_def rw_rel_def not_less not_le)
next
  case False
  with assms have "\<forall>h \<in> set seen. unat h < unat s + unat (rw_size w)" "s \<notin> set seen"
    by (auto simp: rw_rel_def word_le_nat_alt)
  with False show ?thesis
    by (auto simp: dead_def ideal_accepts_def)
qed

lemma rw_rel_counts [simp]:
  "rw_rel (count_accepted w) seen = rw_rel w seen" "rw_rel (count_duplicate w) seen = rw_rel w seen"
  "rw_rel (count_too_old w) seen = rw_rel w seen"
  by (simp_all add: rw_rel_def)

lemma rw_rel_mark:
  assumes "rw_rel w seen" "initialized w" "s \<le> highest w" "highest w - s < rw_size w"
  shows "rw_rel (w\<lparr>bitmap := bitmap w OR rw_mask (highest w - s)\<rparr>) (s # seen)"
proof -
  have sz: "rw_size w \<le> 64" using assms(1) by (simp add: rw_rel_def rw_inv_def)
  have "bit (rw_mask (highest w - s)) (unat (highest w - q)) = (q = s)"
    if "q \<le> highest w" "highest w - q < rw_size w" for q
    using unat_less_64 [OF assms(4) sz] unat_less_64 [OF that(2) sz]
    by (auto simp: rw_mask_def bit_simps unat_minus_inj)
  with assms show ?thesis
    by (auto simp: rw_rel_def rw_inv_mark bit_or_iff)
qed

lemma rw_advance_frame [simp]:
  "rw_size (rw_advance w s) = rw_size w" "initialized (rw_advance w s) = initialized w"
  "highest (rw_advance w s) = s"
  by (simp_all add: rw_advance_def Let_def)

lemma rw_rel_advance:
  assumes rel: "rw_rel w seen" and init: "initialized w" and up: "highest w < s"
  shows "rw_rel (rw_advance w s) (s # seen)"
proof -
  let ?w = "rw_advance w s"
  have inv: "rw_inv w" and seen: "\<forall>h \<in> set seen. h \<le> highest w"
    using rel init by (auto simp: rw_rel_def)
  have "bit (bitmap ?w) (unat (s - q)) = (q \<in> set (s # seen))"
    if q: "q \<le> s" "s - q < rw_size w" for q
  proof (cases "q \<le> highest w")
    case False
    then have "q \<notin> set seen" using seen by auto
    moreover have "unat (s - q) < unat (s - highest w)"
      using False q(1) up
      by (simp add: unat_diff word_le_nat_alt word_less_nat_alt not_le)
    moreover have "unat (s - q) = 0 \<longleftrightarrow> s = q"
      by (simp add: unat_eq_0)
    ultimately show ?thesis
      by (auto simp: rw_advance_def Let_def bit_simps)
  next
    case True
    have eq: "unat (s - q) = unat (highest w - q) + unat (s - highest w)"
      using True up by (simp add: unat_diff word_le_nat_alt word_less_nat_alt)
    have pos: "unat (s - highest w) \<noteq> 0" using up by (auto simp: unat_eq_0)
    have sz: "unat (s - q) < 64" using q(2) inv by (auto simp: rw_inv_def intro: unat_less_64)
    have near: "highest w - q < rw_size w" "\<not> rw_size w \<le> s - highest w"
      using q(2) eq by (auto simp: word_less_nat_alt word_le_nat_alt)
    then have "bit (bitmap w) (unat (highest w - q)) = (q \<in> set seen)"
      using rel init True by (simp add: rw_rel_def)
    with eq pos sz near True up show ?thesis
      by (auto simp: rw_advance_def Let_def bit_simps)
  qed
  moreover have "rw_inv ?w" using inv up by (rule rw_inv_advance)
  ultimately show ?thesis
    using seen up init by (auto simp: rw_rel_def dest: order_trans intro: less_imp_le)
qed

lemma rw_rel_first:
  "rw_rel w seen \<Longrightarrow> \<not> initialized w \<Longrightarrow> s \<noteq> 0 \<Longrightarrow>
   rw_rel (w\<lparr>initialized := True, highest := s, bitmap := 1\<rparr>) (s # seen)"
  by (auto simp: rw_rel_def rw_inv_def bit_simps unat_eq_0)

text \<open>One step of the window simulates one step of the ideal window.\<close>

lemma Accept_simulates:
  assumes rel: "rw_rel w seen" and sz: "rw_size w = n"
  obtains w' where "Accept (Some w) s = (fst (ideal_step (unat n) seen s), Some w')"
    and "rw_rel w' (snd (ideal_step (unat n) seen s))" and "rw_size w' = n"
proof (cases "dead (Some w) s")
  case True
  have inv: "rw_inv w" using rel by (simp add: rw_rel_def)
  have "\<exists>w'. Accept (Some w) s = (False, Some w') \<and> rw_rel w' seen \<and> rw_size w' = n"
    using True rel sz inv
    by (auto simp: Accept_def dead_def Let_def not_le not_less rw_mask_test_inv)
  with True rw_rel_dead [OF rel, of s] sz that show thesis by (auto simp: ideal_step_def)
next
  case False
  have inv: "rw_inv w" using rel by (simp add: rw_rel_def)
  have "\<exists>w'. Update (Some w) s = Some w' \<and> rw_rel w' (s # seen) \<and> rw_size w' = n"
    using False rel sz
    by (auto simp: Update_def dead_def Let_def not_le not_less rw_rel_mark rw_rel_advance rw_rel_first)
  with False rw_rel_dead [OF rel, of s] sz that inv show thesis
    by (auto simp: ideal_step_def Accept_live_Update)
qed

lemma run_refines:
  "rw_rel w seen \<Longrightarrow> rw_size w = n \<Longrightarrow>
   run_accepts Accept (Some w) ss = run_accepts (ideal_step (unat n)) seen ss"
proof (induction ss arbitrary: w seen)
  case (Cons s ss)
  obtain w' where "Accept (Some w) s = (fst (ideal_step (unat n) seen s), Some w')"
    and "rw_rel w' (snd (ideal_step (unat n) seen s))" and "rw_size w' = n"
    by (rule Accept_simulates [OF Cons.prems])
  with Cons.IH show ?case by (simp add: case_prod_beta Let_def)
qed simp

section \<open>Properties\<close>

text \<open>Whatever sequence numbers arrive, a window created by \<^verbatim>\<open>NewReplayWindow\<close> never accepts
  the same number twice.\<close>

theorem replay_accepts_distinct:
  "distinct (run_accepts Accept (Some (NewReplayWindow n)) ss)"
  by (rule rw.accepted_distinct) (rule NewReplayWindow_ok)

text \<open>C5: The 64-bit window makes the decisions of the ideal window of RFC 4303, which remembers every
  accepted number, on every sequence of numbers.\<close>

theorem replay_refines_ideal:
  "run_accepts Accept (Some (NewReplayWindow n)) ss =
   run_accepts (ideal_step (unat (rw_size (NewReplayWindow n)))) [] ss"
  by (rule run_refines [OF rw_rel_new refl])

fun window_after :: "replay_window option \<Rightarrow> u32 list \<Rightarrow> replay_window option" where
  "window_after w [] = w"
| "window_after w (s # ss) = window_after (snd (Accept w s)) ss"

lemma window_after_ok: "rw_ok w \<Longrightarrow> rw_ok (window_after w ss)"
  by (induction ss arbitrary: w) (simp_all add: Accept_ok)

text \<open>A receiver may check a number, verify the packet and accept the number afterwards: after
  any history, checking changes no later decision, and a number that passed the check is accepted.\<close>

theorem check_then_accept:
  "let w = window_after (Some (NewReplayWindow n)) ss
   in fst (Accept (snd (Check w s)) q) = fst (Accept w q) \<and> fst (Check w s) = fst (Accept w s)"
  using window_after_ok [OF NewReplayWindow_ok, of n ss]
  by (simp add: Let_def rw.forged_check_harmless Check_iff Accept_iff)

end
