(* ===== verification/Fragments.thy ===== *)
theory Fragments
  imports IP_Packet "HOL-Library.AList"
begin

text \<open>
  Fragmentation of protected packets and reassembly before ESP
  (\<open>mobilecore/internal/vowifi/ipsec3gpp/fragments.go\<close>).

  The reassembler keeps at most 64 sets, one per datagram, as an association list from keys
  to sets. The two 65535-byte arrays of a set are functions from indices; every index the code
  uses is below 65535. Time is a number of nanoseconds given to each call.
\<close>

section \<open>Fragmenting the encrypted packet\<close>

definition fragment_mtu :: nat where
  "fragment_mtu = 1280"

text \<open>One fragment of an IPv4 packet, and of an IPv6 packet, for the payload bytes from
  \<open>offset\<close> to \<open>stop\<close>.\<close>

definition fragment_v4 :: "u32 \<Rightarrow> bytes \<Rightarrow> bytes \<Rightarrow> nat \<Rightarrow> nat \<Rightarrow> bytes" where
  "fragment_v4 ident header payload offset stop =
     (let more = (stop < length payload);
          flags = (of_nat (offset div 8) :: u16);
          flags = (if more then flags OR 0x2000 else flags);
          header = put_u16 4 (ucast ident) header;
          header = put_u16 6 flags header;
          header = put_u16 2 (of_nat (length header + stop - offset)) header;
          header = updateIPv4HeaderChecksum header
      in header @ slice offset stop payload)"

definition fragment_v6 :: "u32 \<Rightarrow> bytes \<Rightarrow> bytes \<Rightarrow> nat \<Rightarrow> nat \<Rightarrow> bytes" where
  "fragment_v6 ident header payload offset stop =
     (let more = (stop < length payload);
          header = header[6 := 44];
          header = put_u16 4 (of_nat (8 + stop - offset)) header;
          fragment = (replicate 8 0)[0 := ipProtoESP];
          flags = (of_nat offset :: u16);
          flags = (if more then flags OR 1 else flags);
          fragment = put_u16 2 flags fragment;
          fragment = put_u32 4 ident fragment
      in (header @ fragment) @ slice offset stop payload)"

text \<open>The loop over the offsets. The chunk is never 0 for the headers the parser lets through
  (\<open>fragment_chunk_pos\<close> in \<open>Reassembly\<close>); with a chunk of 0 the Go loop would not end.\<close>

function fragment_loop :: "(nat \<Rightarrow> nat \<Rightarrow> bytes) \<Rightarrow> nat \<Rightarrow> nat \<Rightarrow> nat \<Rightarrow> bytes list" where
  "fragment_loop build chunk len offset =
     (if offset < len \<and> 0 < chunk
      then build offset (min (offset + chunk) len) # fragment_loop build chunk len (offset + chunk)
      else [])"
  by pat_completeness auto
termination
  by (relation "measure (\<lambda>(build, chunk, len, offset). len - offset)") auto

declare fragment_loop.simps [simp del]

definition fragment_chunk :: "nat \<Rightarrow> nat \<Rightarrow> nat" where
  "fragment_chunk headerLen fragmentHeader = (fragment_mtu - headerLen - fragmentHeader) div 8 * 8"

text \<open>\<open>counter\<close> is the global \<open>nextESPFragmentID\<close>, returned updated.\<close>

definition fragmentProtectedPacket :: "u32 \<Rightarrow> bytes \<Rightarrow> (ip_error + bytes list) \<times> u32" where
  "fragmentProtectedPacket counter packet =
     (if length packet \<le> fragment_mtu then (Inr [packet], counter)
      else (case parseIPPacket packet of
        Inl e \<Rightarrow> (Inl e, counter)
      | Inr parsed \<Rightarrow>
          if nextHeader parsed \<noteq> ipProtoESP then (Inr [packet], counter)
          else
            (let ident = counter + 1;
                 headerLen = length (ip_header parsed);
                 fragmentHeader = (if ip_version packet = 6 then 8 else 0);
                 chunk = fragment_chunk headerLen fragmentHeader;
                 build = (if ip_version packet = 4
                          then fragment_v4 ident (ip_header parsed) (transportPayload parsed)
                          else fragment_v6 ident (ip_header parsed) (transportPayload parsed))
             in (Inr (fragment_loop build chunk (length (transportPayload parsed)) 0), ident))))"

section \<open>Reassembly: classifying a packet\<close>

datatype frag_error =
    EmptyIPPacket
  | TruncatedIPv4Fragment
  | InvalidIPv4FragmentLength
  | TruncatedIPv6Fragment
  | InvalidIPv6FragmentLength
  | TruncatedIPv6FragExtension
  | InvalidIPv6FragExtensionLength
  | TruncatedIPv6FragmentHeader
  | InvalidIPFragmentVersion
  | InvalidIPFragmentBounds
  | FragmentReassemblyLimit
  | ConflictingFragmentMetadata
  | FinalFragmentTruncates
  | ConflictingFinalFragment
  | OverlappingFragments
  | ReassembledTooLong
  | NestedIPv6FragmentHeader
  | TruncatedReassembledExtension
  | InvalidReassembledExtensionLength

text \<open>The map key: the code formats version, addresses, protocol (IPv4 only) and identification
  into a string of fixed-width fields, which is injective in them.\<close>

datatype fragment_key =
    Key4 (key_src: bytes) (key_dst: bytes) (key_proto: byte) (key_id4: u16)
  | Key6 (key_src: bytes) (key_dst: bytes) (key_id6: u32)

record fragment =
  fr_key :: fragment_key
  fr_header :: bytes
  fr_payload :: bytes
  fr_offset :: nat
  fr_more :: bool
  fr_metadata :: bytes

definition fr_end :: "fragment \<Rightarrow> nat" where
  "fr_end f = fr_offset f + length (fr_payload f)"

text \<open>The walk over IPv6 extension headers to the fragment header: \<open>None\<close> when there is none.\<close>

function find_fragment_header ::
  "bytes \<Rightarrow> nat \<Rightarrow> byte \<Rightarrow> nat \<Rightarrow> nat \<Rightarrow> frag_error + (nat \<times> nat) option" where
  "find_fragment_header packet totalLen nh position previous =
     (if nh = 44 then Inr (Some (position, previous))
      else if \<not> isIPv6ExtensionHeader nh then Inr None
      else if position + 2 > totalLen then Inl TruncatedIPv6FragExtension
      else
        (let len = (unat (packet ! (position + 1)) + 1) * 8 in
         if position + len > totalLen then Inl InvalidIPv6FragExtensionLength
         else find_fragment_header packet totalLen (packet ! position) (position + len) position))"
  by pat_completeness auto
termination
  by (relation "measure (\<lambda>(packet, totalLen, nh, position, previous). totalLen - position)")
    (auto simp: Let_def)

declare find_fragment_header.simps [simp del]

text \<open>\<open>Inr None\<close> is a packet that is not a fragment and passes unchanged.\<close>

definition classify_v4 :: "bytes \<Rightarrow> frag_error + fragment option" where
  "classify_v4 packet =
     (if length packet < 20 then Inl TruncatedIPv4Fragment
      else
        (let flags = get_u16 6 packet in
         if flags AND 0x3fff = 0 then Inr None
         else
           (let hlen = unat (packet ! 0 AND 15) * 4;
                totalLen = unat (get_u16 2 packet)
            in if hlen < 20 \<or> totalLen < hlen \<or> totalLen > length packet
               then Inl InvalidIPv4FragmentLength
               else Inr (Some
                 \<lparr>fr_key = Key4 (slice 12 16 packet) (slice 16 20 packet) (packet ! 9) (get_u16 4 packet),
                  fr_header = put_u16 6 0 (take hlen packet),
                  fr_payload = slice hlen totalLen packet,
                  fr_offset = unat (flags AND 0x1fff) * 8,
                  fr_more = (flags AND 0x2000 \<noteq> 0),
                  fr_metadata = []\<rparr>))))"

definition fragment_metadata_v6 :: "bytes \<Rightarrow> bytes" where
  "fragment_metadata_v6 header =
     (let m = header[4 := 0, 5 := 0, 7 := 0] in m[1 := m ! 1 AND NOT 0x30])"

definition classify_v6 :: "bytes \<Rightarrow> frag_error + fragment option" where
  "classify_v6 packet =
     (if length packet < 40 then Inl TruncatedIPv6Fragment
      else
        (let totalLen = 40 + unat (get_u16 4 packet) in
         if totalLen > length packet then Inl InvalidIPv6FragmentLength
         else rbind (find_fragment_header packet totalLen (packet ! 6) 40 6) (\<lambda>found.
           case found of
             None \<Rightarrow> Inr None
           | Some (position, previous) \<Rightarrow>
               if position + 8 > totalLen then Inl TruncatedIPv6FragmentHeader
               else
                 (let flags = get_u16 (position + 2) packet;
                      header = (take position packet)[previous := packet ! position]
                  in Inr (Some
                    \<lparr>fr_key = Key6 (slice 8 24 packet) (slice 24 40 packet) (get_u32 (position + 4) packet),
                     fr_header = header,
                     fr_payload = slice (position + 8) totalLen packet,
                     fr_offset = unat (flags AND 0xfff8),
                     fr_more = (flags AND 1 \<noteq> 0),
                     fr_metadata = fragment_metadata_v6 header\<rparr>)))))"

definition fragment_bounds_bad :: "fragment \<Rightarrow> bool" where
  "fragment_bounds_bad f \<longleftrightarrow>
     fr_payload f = [] \<or> fr_end f + length (fr_header f) > 65535 \<or>
     (fr_more f \<and> length (fr_payload f) mod 8 \<noteq> 0)"

section \<open>Reassembly: state\<close>

record fragment_set =
  fs_header :: "bytes option"
  fs_payload :: "nat \<Rightarrow> byte"
  fs_covered :: "nat \<Rightarrow> bool"
  fs_total :: int
  fs_count :: nat
  fs_created :: int
  fs_maxEnd :: nat
  fs_metadata :: bytes

type_synonym reassembler = "(fragment_key \<times> fragment_set) list"

definition fragment_lifetime :: int where
  "fragment_lifetime = 30 * 1000000000"

definition max_fragment_sets :: nat where
  "max_fragment_sets = 64"

definition expire_sets :: "int \<Rightarrow> reassembler \<Rightarrow> reassembler" where
  "expire_sets now r = filter (\<lambda>(k, s). \<not> now - fs_created s > fragment_lifetime) r"

definition new_fragment_set :: "int \<Rightarrow> bytes \<Rightarrow> fragment_set" where
  "new_fragment_set now metadata =
     \<lparr>fs_header = None, fs_payload = (\<lambda>_. 0), fs_covered = (\<lambda>_. False), fs_total = -1,
      fs_count = 0, fs_created = now, fs_maxEnd = 0, fs_metadata = metadata\<rparr>"

definition range_covered :: "fragment_set \<Rightarrow> nat \<Rightarrow> nat \<Rightarrow> bool" where
  "range_covered s a b = list_ex (fs_covered s) [a..<b]"

text \<open>The set after the bytes of a fragment have been copied in.\<close>

definition store_fragment :: "fragment \<Rightarrow> fragment_set \<Rightarrow> fragment_set" where
  "store_fragment f s =
     (let a = fr_offset f; b = fr_end f in
      s\<lparr>fs_header := (if a = 0 then Some (fr_header f) else fs_header s),
        fs_payload := (\<lambda>i. if a \<le> i \<and> i < b then fr_payload f ! (i - a) else fs_payload s i),
        fs_covered := (\<lambda>i. if a \<le> i \<and> i < b then True else fs_covered s i),
        fs_count := fs_count s + length (fr_payload f),
        fs_maxEnd := max (fs_maxEnd s) b,
        fs_total := (if \<not> fr_more f then int b else fs_total s)\<rparr>)"

text \<open>Why a fragment is refused by the set of its datagram; each refusal drops the set.\<close>

definition set_conflict :: "fragment \<Rightarrow> fragment_set \<Rightarrow> frag_error option" where
  "set_conflict f s =
     (if fs_metadata s \<noteq> fr_metadata f then Some ConflictingFragmentMetadata
      else if \<not> fr_more f \<and> fr_end f < fs_maxEnd s then Some FinalFragmentTruncates
      else if fs_total s \<ge> 0 \<and>
          (int (fr_end f) > fs_total s \<or> (\<not> fr_more f \<and> int (fr_end f) \<noteq> fs_total s))
        then Some ConflictingFinalFragment
      else if range_covered s (fr_offset f) (fr_end f) then Some OverlappingFragments
      else None)"

function validateReassembledExtensions :: "byte \<Rightarrow> bytes \<Rightarrow> frag_error option" where
  "validateReassembledExtensions nh remaining =
     (if isIPv6ExtensionHeader nh then
        if nh = 44 then Some NestedIPv6FragmentHeader
        else if length remaining < 2 then Some TruncatedReassembledExtension
        else
          (let size = (unat (remaining ! 1) + 1) * 8 in
           if size > length remaining then Some InvalidReassembledExtensionLength
           else validateReassembledExtensions (remaining ! 0) (drop size remaining))
      else None)"
  by pat_completeness auto
termination
  by (relation "measure (\<lambda>(nh, remaining). length remaining)") (auto simp: Let_def)

declare validateReassembledExtensions.simps [simp del]

definition validateReassembledIPv6 :: "bytes \<Rightarrow> frag_error option" where
  "validateReassembledIPv6 packet = validateReassembledExtensions (packet ! 6) (drop 40 packet)"

definition checked_v6 :: "bytes \<Rightarrow> frag_error + bytes option" where
  "checked_v6 out = (case validateReassembledIPv6 out of Some e \<Rightarrow> Inl e | None \<Rightarrow> Inr (Some out))"

text \<open>The packet built from a complete set.\<close>

definition reassembled_packet :: "bytes \<Rightarrow> bytes \<Rightarrow> frag_error + bytes option" where
  "reassembled_packet header payload =
     (let out = header @ payload in
      if ip_version out = 4 then
        (let out = put_u16 2 (of_nat (length out)) out in
         Inr (Some (updateIPv4HeaderChecksum (take (length header) out) @ drop (length header) out)))
      else checked_v6 (put_u16 4 (of_nat (length out - 40)) out))"

text \<open>The stateful half of \<open>process\<close>: what happens to the sets once the packet is known to be a
  fragment of a datagram. \<open>Inr None\<close> means that the datagram is not complete yet.\<close>

definition absorb ::
  "int \<Rightarrow> reassembler \<Rightarrow> fragment \<Rightarrow> (frag_error + bytes option) \<times> reassembler" where
  "absorb now r f =
     (let r = expire_sets now r; key = fr_key f; found = map_of r key in
      if found = None \<and> length r \<ge> max_fragment_sets then (Inl FragmentReassemblyLimit, r)
      else
        (let s = (case found of Some s \<Rightarrow> s | None \<Rightarrow> new_fragment_set now (fr_metadata f)) in
         case set_conflict f s of
           Some e \<Rightarrow> (Inl e, AList.delete key r)
         | None \<Rightarrow>
             (let s = store_fragment f s in
              case fs_header s of
                None \<Rightarrow> (Inr None, AList.update key s r)
              | Some header \<Rightarrow>
                  if fs_total s < 0 \<or> int (fs_count s) \<noteq> fs_total s
                  then (Inr None, AList.update key s r)
                  else if int (length header) + fs_total s > 65535
                  then (Inl ReassembledTooLong, AList.delete key r)
                  else if \<not> list_all (fs_covered s) [0..<nat (fs_total s)]
                  then (Inr None, AList.update key s r)
                  else (reassembled_packet header (map (fs_payload s) [0..<nat (fs_total s)]),
                        AList.delete key r))))"

text \<open>\<open>fragmentReassembler.process\<close>.\<close>

definition classify :: "bytes \<Rightarrow> frag_error + fragment option" where
  "classify packet =
     (if packet = [] then Inl EmptyIPPacket
      else if ip_version packet = 4 then classify_v4 packet
      else if ip_version packet = 6 then classify_v6 packet
      else Inl InvalidIPFragmentVersion)"

definition process ::
  "int \<Rightarrow> reassembler \<Rightarrow> bytes \<Rightarrow> (frag_error + bytes option) \<times> reassembler" where
  "process now r packet =
     (case classify packet of
        Inl e \<Rightarrow> (Inl e, r)
      | Inr None \<Rightarrow> (Inr (Some packet), r)
      | Inr (Some f) \<Rightarrow>
          if fragment_bounds_bad f then (Inl InvalidIPFragmentBounds, r)
          else if ip_version packet = 6 \<and> fr_offset f = 0 \<and> \<not> fr_more f then
            (let out = fr_header f @ fr_payload f in
             (checked_v6 (put_u16 4 (of_nat (length out - 40)) out), r))
          else absorb now r f)"


section \<open>Invariant\<close>

text \<open>A set counts its covered bytes, all of them below \<open>maxEnd\<close>; once the final fragment has been
  seen, the total is \<open>maxEnd\<close>. The header kept for a datagram has its fragment fields cleared.\<close>

definition set_inv :: "fragment_key \<Rightarrow> fragment_set \<Rightarrow> bool" where
  "set_inv k s \<longleftrightarrow>
     (\<forall>i. fs_covered s i \<longrightarrow> i < fs_maxEnd s) \<and>
     fs_count s = card {i. fs_covered s i} \<and>
     fs_maxEnd s \<le> 65535 \<and>
     (fs_total s = -1 \<or> fs_total s = int (fs_maxEnd s)) \<and>
     (\<forall>h. fs_header s = Some h \<longrightarrow>
        (case k of Key4 _ _ _ _ \<Rightarrow> 20 \<le> length h \<and> ip_version h = 4 \<and> get_u16 6 h = 0
         | Key6 _ _ _ \<Rightarrow> 40 \<le> length h \<and> ip_version h = 6))"

definition frag_inv :: "reassembler \<Rightarrow> bool" where
  "frag_inv r \<longleftrightarrow> length r \<le> max_fragment_sets \<and> distinct (map fst r) \<and>
     (\<forall>(k, s) \<in> set r. set_inv k s)"

definition fragment_ok :: "fragment \<Rightarrow> bool" where
  "fragment_ok f \<longleftrightarrow>
     (case fr_key f of Key4 _ _ _ _ \<Rightarrow> 20 \<le> length (fr_header f) \<and> ip_version (fr_header f) = 4 \<and>
        get_u16 6 (fr_header f) = 0
      | Key6 _ _ _ \<Rightarrow> 40 \<le> length (fr_header f) \<and> ip_version (fr_header f) = 6)"

lemma frag_inv_empty [simp]: "frag_inv []"
  by (simp add: frag_inv_def)

lemma frag_invD: "frag_inv r \<Longrightarrow> map_of r k = Some s \<Longrightarrow> set_inv k s"
  by (auto simp: frag_inv_def dest: map_of_SomeD)

lemma set_inv_new [simp]: "set_inv k (new_fragment_set now m)"
  by (simp add: set_inv_def new_fragment_set_def)

lemma frag_inv_expire [simp]: "frag_inv r \<Longrightarrow> frag_inv (expire_sets now r)"
  by (auto simp: frag_inv_def expire_sets_def distinct_map_filter intro: order_trans [OF length_filter_le])

lemma frag_inv_delete [simp]: "frag_inv r \<Longrightarrow> frag_inv (AList.delete k r)"
  unfolding frag_inv_def AList.delete_eq
  by (auto simp: distinct_map_filter intro: order_trans [OF length_filter_le])

lemma length_alist_update:
  "length (AList.update k v r) = (if map_of r k = None then Suc (length r) else length r)"
  by (induction r) auto

lemma set_alist_update: "distinct (map fst r) \<Longrightarrow>
    x \<in> set (AList.update k v r) \<Longrightarrow> x = (k, v) \<or> x \<in> set r \<and> fst x \<noteq> k"
  by (induction r) (auto split: if_splits simp: image_iff)

lemma frag_inv_update:
  assumes "frag_inv r" "set_inv k s" "map_of r k \<noteq> None \<or> length r < max_fragment_sets"
  shows "frag_inv (AList.update k s r)"
proof -
  have "set_inv k' s'" if "(k', s') \<in> set (AList.update k s r)" for k' s'
    using assms(1,2) set_alist_update [of r "(k', s')" k s] that by (auto simp: frag_inv_def)
  with assms show ?thesis
    by (auto simp: frag_inv_def length_alist_update distinct_update split: if_splits)
qed

lemma set_inv_store:
  assumes inv: "set_inv (fr_key f) s" and ok: "fragment_ok f" "\<not> fragment_bounds_bad f"
    and free: "set_conflict f s = None"
  shows "set_inv (fr_key f) (store_fragment f s)"
proof -
  let ?R = "{fr_offset f..<fr_end f}" and ?C = "{i. fs_covered s i}"
  have fin: "finite ?C" and sub: "?C \<subseteq> {..<fs_maxEnd s}"
    using inv finite_subset [of ?C "{..<fs_maxEnd s}"] by (auto simp: set_inv_def)
  have disj: "?R \<inter> ?C = {}"
    using free by (auto simp: set_conflict_def range_covered_def list_ex_iff split: if_splits)
  have eq: "{i. fs_covered (store_fragment f s) i} = ?R \<union> ?C"
    by (auto simp: store_fragment_def Let_def)
  have "card (?R \<union> ?C) = length (fr_payload f) + card ?C"
    using disj fin by (simp add: card_Un_disjoint fr_end_def)
  moreover have "fr_end f \<le> 65535" using ok(2) by (simp add: fragment_bounds_bad_def)
  ultimately show ?thesis
    using inv ok(1) free sub unfolding set_inv_def eq
    by (auto simp: store_fragment_def Let_def fragment_ok_def set_conflict_def not_less
        split: if_splits fragment_key.splits)
qed

lemma absorb_inv:
  assumes inv: "frag_inv r" and ok: "fragment_ok f" "\<not> fragment_bounds_bad f"
  shows "frag_inv (snd (absorb now r f))"
proof -
  let ?r = "expire_sets now r" and ?k = "fr_key f"
  let ?s = "case map_of ?r ?k of Some s \<Rightarrow> s | None \<Rightarrow> new_fragment_set now (fr_metadata f)"
  have r: "frag_inv ?r" using inv by simp
  then have s: "set_inv ?k ?s"
    by (auto split: option.splits dest: frag_invD)
  have upd: "frag_inv (AList.update ?k (store_fragment f ?s) ?r)"
    if "set_conflict f ?s = None" "map_of ?r ?k \<noteq> None \<or> length ?r < max_fragment_sets"
    using r that set_inv_store [OF s ok] by (intro frag_inv_update) auto
  show ?thesis
    using r upd by (auto simp: absorb_def Let_def not_le split: option.splits)
qed

lemma find_fragment_header_bounds:
  "find_fragment_header packet totalLen nh position previous = Inr (Some (p, q)) \<Longrightarrow>
   previous < position \<Longrightarrow> 0 < previous \<Longrightarrow> position \<le> p \<and> q < p \<and> 0 < q"
proof (induction packet totalLen nh position previous rule: find_fragment_header.induct)
  case (1 packet totalLen nh position previous)
  from "1.prems" show ?case
    by (subst (asm) find_fragment_header.simps)
      (auto simp: Let_def split: if_splits dest: "1.IH")
qed

lemma classify_v4_ok: "classify_v4 packet = Inr (Some f) \<Longrightarrow> ip_version packet = 4 \<Longrightarrow> fragment_ok f"
  by (auto simp: classify_v4_def Let_def fragment_ok_def ip_version_def split: if_splits)

lemma classify_v6_E:
  assumes "classify_v6 packet = Inr (Some f)"
  obtains p q where
    "find_fragment_header packet (40 + unat (get_u16 4 packet)) (packet ! 6) 40 6 = Inr (Some (p, q))"
    "p + 8 \<le> 40 + unat (get_u16 4 packet)" "40 + unat (get_u16 4 packet) \<le> length packet"
    "fr_header f = (take p packet)[q := packet ! p]"
    "fr_key f = Key6 (slice 8 24 packet) (slice 24 40 packet) (get_u32 (p + 4) packet)"
proof -
  from assms obtain found where
    F: "find_fragment_header packet (40 + unat (get_u16 4 packet)) (packet ! 6) 40 6 = Inr found"
    and L: "40 + unat (get_u16 4 packet) \<le> length packet"
    by (auto simp: classify_v6_def rbind_Inr_iff Let_def split: if_splits)
  then obtain p q where found: "found = Some (p, q)"
    using assms by (cases found) (auto simp: classify_v6_def Let_def split: if_splits)
  show thesis
    by (rule that [of p q])
      (use assms F L in \<open>auto simp: found classify_v6_def Let_def split: if_splits\<close>)
qed

lemma classify_v6_ok:
  assumes "classify_v6 packet = Inr (Some f)" "ip_version packet = 6"
  shows "fragment_ok f"
proof -
  obtain p q where found: "find_fragment_header packet (40 + unat (get_u16 4 packet)) (packet ! 6) 40 6
      = Inr (Some (p, q))" and len: "p + 8 \<le> 40 + unat (get_u16 4 packet)"
      "40 + unat (get_u16 4 packet) \<le> length packet"
    and f: "fr_header f = (take p packet)[q := packet ! p]" "\<exists>a b c. fr_key f = Key6 a b c"
    by (rule classify_v6_E [OF assms(1)]) auto
  have "40 \<le> p" "q < p" "0 < q"
    using find_fragment_header_bounds [OF found] by auto
  with len f assms(2) show ?thesis
    by (auto simp: fragment_ok_def ip_version_def)
qed

lemma classify_ok: "classify packet = Inr (Some f) \<Longrightarrow> fragment_ok f"
  by (auto simp: classify_def split: if_splits intro: classify_v4_ok classify_v6_ok)

lemma process_inv: "frag_inv r \<Longrightarrow> frag_inv (snd (process now r packet))"
  by (auto simp: process_def split: sum.splits option.splits intro: absorb_inv classify_ok)

fun process_run :: "reassembler \<Rightarrow> (int \<times> bytes) list \<Rightarrow> (frag_error + bytes option) list \<times> reassembler" where
  "process_run r [] = ([], r)"
| "process_run r ((now, packet) # rest) =
     (let (out, r') = process now r packet; (outs, r'') = process_run r' rest in (out # outs, r''))"

lemma process_run_inv: "frag_inv r \<Longrightarrow> frag_inv (snd (process_run r ps))"
proof (induction r ps rule: process_run.induct)
  case (2 r now packet rest)
  then show ?case
    using process_inv [of r now packet] by (auto simp: Let_def split: prod.splits)
qed simp

section \<open>No fragment passes the reassembler\<close>

lemma validate_find:
  "validateReassembledExtensions nh (drop position out) = None \<Longrightarrow> position \<le> length out \<Longrightarrow>
   find_fragment_header out (length out) nh position previous = Inr None"
proof (induction out "length out" nh position previous rule: find_fragment_header.induct)
  case (1 packet nh position previous)
  let ?d = "drop position packet"
  show ?case
  proof (cases "isIPv6ExtensionHeader nh")
    case False
    then show ?thesis
      by (subst find_fragment_header.simps) (auto simp: isIPv6ExtensionHeader_def)
  next
    case True
    note v = "1.prems"(1) [unfolded validateReassembledExtensions.simps [of nh ?d]]
    let ?n = "(unat (packet ! (position + 1)) + 1) * 8"
    from v True have n: "nh \<noteq> 44" "position + 2 \<le> length packet" "position + ?n \<le> length packet"
      and rest: "validateReassembledExtensions (packet ! position) (drop (position + ?n) packet) = None"
      by (auto simp: Let_def add.commute split: if_splits)
    then show ?thesis
      using True "1.hyps" [of ?n] by (subst find_fragment_header.simps) (simp add: Let_def)
  qed
qed

lemma checked_v6_not_fragment:
  assumes "checked_v6 out = Inr (Some out')" "40 \<le> length out" "ip_version out = 6"
    and "40 + unat (get_u16 4 out) = length out"
  shows "classify out' = Inr None"
proof -
  have eq: "out' = out" and val: "validateReassembledExtensions (out ! 6) (drop 40 out) = None"
    using assms(1) by (auto simp: checked_v6_def validateReassembledIPv6_def split: option.splits)
  have "find_fragment_header out (length out) (out ! 6) 40 6 = Inr None"
    by (rule validate_find) (use val assms(2) in auto)
  then show ?thesis
    using assms by (auto simp: eq classify_def classify_v6_def Let_def)
qed

lemma update_checksum_nth: "j \<noteq> 10 \<Longrightarrow> j \<noteq> 11 \<Longrightarrow> updateIPv4HeaderChecksum h ! j = h ! j"
  by (simp add: updateIPv4HeaderChecksum_def Let_def put_u16_def)

lemma reassembled_v4:
  assumes "20 \<le> length h" "ip_version h = 4"
  shows "reassembled_packet h p =
    Inr (Some (updateIPv4HeaderChecksum (put_u16 2 (of_nat (length h + length p)) h) @ p))"
proof -
  have "ip_version (h @ p) = 4" using assms by (auto simp: ip_version_def nth_append)
  with assms show ?thesis
    by (simp add: reassembled_packet_def Let_def put_u16_append)
qed

lemma reassembled_v6:
  assumes "40 \<le> length h" "ip_version h = 6"
  shows "reassembled_packet h p =
    checked_v6 (put_u16 4 (of_nat (length h + length p - 40)) (h @ p))"
proof -
  have "ip_version (h @ p) = 6" using assms by (auto simp: ip_version_def nth_append)
  then show ?thesis by (simp add: reassembled_packet_def Let_def)
qed

lemma put_length_v6:
  assumes "40 \<le> length h" "ip_version h = 6" "length h + length p \<le> 65535"
  shows "ip_version (put_u16 4 (of_nat (length h + length p - 40)) (h @ p)) = 6"
    and "40 + unat (get_u16 4 (put_u16 4 (of_nat (length h + length p - 40)) (h @ p))) = length (h @ p)"
proof -
  have "h \<noteq> []" using assms(1) by auto
  with assms(2) show "ip_version (put_u16 4 (of_nat (length h + length p - 40)) (h @ p)) = 6"
    by (simp add: ip_version_def nth_append)
  have "unat (of_nat (length h + length p - 40) :: u16) = length h + length p - 40"
    using assms(3) by (intro unat_of_nat_u16) simp
  with assms(1) show "40 + unat (get_u16 4 (put_u16 4 (of_nat (length h + length p - 40)) (h @ p)))
      = length (h @ p)"
    by (simp del: of_nat_add of_nat_diff)
qed

lemma v6_output_not_fragment:
  assumes "40 \<le> length h" "ip_version h = 6" "length h + length p \<le> 65535"
    and "checked_v6 (put_u16 4 (of_nat (length h + length p - 40)) (h @ p)) = Inr (Some out)"
  shows "classify out = Inr None"
  by (rule checked_v6_not_fragment [OF assms(4)])
    (use assms(1) put_length_v6 [OF assms(1-3)] in simp_all)

lemma v4_output_not_fragment:
  assumes "20 \<le> length h" "ip_version h = 4" "get_u16 6 h = 0"
  shows "classify (updateIPv4HeaderChecksum (put_u16 2 v h) @ p) = Inr None"
proof -
  let ?h = "updateIPv4HeaderChecksum (put_u16 2 v h)"
  have "?h ! 0 = h ! 0" "?h ! 6 = h ! 6" "?h ! 7 = h ! 7"
    by (simp_all add: update_checksum_nth)
  with assms have "ip_version (?h @ p) = 4" "get_u16 6 (?h @ p) = 0"
    by (auto simp: ip_version_def get_u16_def nth_append)
  moreover have "20 \<le> length (?h @ p)" using assms(1) by simp
  moreover from this have "?h @ p \<noteq> []" by (metis list.size(3) not_numeral_le_zero)
  ultimately show ?thesis by (simp add: classify_def classify_v4_def)
qed

lemma absorb_Some_E:
  assumes "absorb now r f = (Inr (Some out), r')" "frag_inv r" "fragment_ok f" "\<not> fragment_bounds_bad f"
  obtains h p s where "set_inv (fr_key f) s" "fs_header s = Some h"
    "length h + length p \<le> 65535" "reassembled_packet h p = Inr (Some out)"
proof -
  let ?r = "expire_sets now r" and ?k = "fr_key f"
  let ?old = "case map_of ?r ?k of Some s \<Rightarrow> s | None \<Rightarrow> new_fragment_set now (fr_metadata f)"
  let ?new = "store_fragment f ?old"
  have s0: "set_inv ?k ?old"
    using assms(2) frag_invD [OF frag_inv_expire] by (auto split: option.splits)
  have free: "set_conflict f ?old = None"
    using assms(1) by (cases "set_conflict f ?old") (auto simp: absorb_def Let_def split: if_splits)
  obtain h where h: "fs_header ?new = Some h"
    using assms(1) free
    by (cases "fs_header ?new") (auto simp: absorb_def Let_def split: if_splits)
  have "length h + length (map (fs_payload ?new) [0..<nat (fs_total ?new)]) \<le> 65535"
    and "reassembled_packet h (map (fs_payload ?new) [0..<nat (fs_total ?new)]) = Inr (Some out)"
    using assms(1) free h by (auto simp: absorb_def Let_def split: if_splits)
  with set_inv_store [OF s0 assms(3,4) free] h show thesis by (rule that)
qed

lemma process_not_fragment:
  assumes "process now r packet = (Inr (Some out), r')" "frag_inv r"
  shows "classify out = Inr None"
proof (cases "classify packet")
  case (Inr c)
  show ?thesis
  proof (cases c)
    case None
    with Inr assms(1) show ?thesis by (simp add: process_def)
  next
    case (Some f)
    have c: "classify packet = Inr (Some f)" using Inr Some by simp
    have ok: "fragment_ok f" using c by (rule classify_ok)
    have good: "\<not> fragment_bounds_bad f" using assms(1) c by (auto simp: process_def)
    show ?thesis
    proof (cases "ip_version packet = 6 \<and> fr_offset f = 0 \<and> \<not> fr_more f")
      case True
      then have "classify_v6 packet = Inr (Some f)" using c by (auto simp: classify_def split: if_splits)
      then obtain a b d where "fr_key f = Key6 a b d" by (rule classify_v6_E)
      then have "40 \<le> length (fr_header f)" "ip_version (fr_header f) = 6"
        using ok by (auto simp: fragment_ok_def)
      then show ?thesis
        by (rule v6_output_not_fragment [where p = "fr_payload f"])
          (use True assms(1) c good in \<open>auto simp: process_def Let_def fragment_bounds_bad_def fr_end_def\<close>)
    next
      case False
      with assms(1) c good have "absorb now r f = (Inr (Some out), r')" by (auto simp: process_def)
      then obtain h p s where s: "set_inv (fr_key f) s" "fs_header s = Some h"
        "length h + length p \<le> 65535" "reassembled_packet h p = Inr (Some out)"
        using assms(2) ok good by (rule absorb_Some_E)
      show ?thesis
      proof (cases "fr_key f")
        case (Key4 a b c d)
        with s(1,2) have h: "20 \<le> length h" "ip_version h = 4" "get_u16 6 h = 0"
          by (auto simp: set_inv_def)
        with s(4) v4_output_not_fragment [OF h] show ?thesis
          by (auto simp: reassembled_v4 simp del: of_nat_add)
      next
        case (Key6 a b c)
        with s(1,2) have h: "40 \<le> length h" "ip_version h = 6" by (auto simp: set_inv_def)
        with s(3,4) v6_output_not_fragment [OF h] show ?thesis
          by (simp add: reassembled_v6 del: of_nat_add of_nat_diff)
      qed
    qed
  qed
qed (use assms(1) in \<open>simp add: process_def\<close>)

section \<open>Properties\<close>

text \<open>C11: The reassembler holds at most 64 sets, with different keys and consistent counters, whatever
  packets it is given.\<close>

theorem reassembler_bounded:
  "frag_inv (snd (process_run [] ps)) \<and> length (snd (process_run [] ps)) \<le> 64"
  using process_run_inv [OF frag_inv_empty, of ps] by (simp add: frag_inv_def max_fragment_sets_def)

text \<open>What leaves the reassembler is never a fragment itself: neither an incomplete packet nor a
  packet with a nested fragment header reaches the port selection.\<close>

theorem reassembled_not_fragment:
  "process now (snd (process_run [] ps)) packet = (Inr (Some out), r) \<Longrightarrow> classify out = Inr None"
  using process_not_fragment process_run_inv [OF frag_inv_empty] by blast

theorem reassembled_not_fragment_witness:
  "classify (0x45 # 0 # 0 # 20 # replicate 16 0) = Inr None"
  by (rule reassembled_not_fragment [of 0 "[]" "0x45 # 0 # 0 # 20 # replicate 16 0" _ "[]"])
    (simp add: process_def classify_def classify_v4_def ip_version_def get_u16_def be_u16_def)

end
