(* ===== verification/Keys_Policy.thy ===== *)
theory Keys_Policy
  imports Mechanism Go_Net
begin

text \<open>
  Keys and policies of the ipsec-3gpp security associations: \<^verbatim>\<open>ipsec3gpp/keys.go\<close> (the ESP keys
  derived from the AKA keys CK and IK, 3GPP TS 33.203) and \<^verbatim>\<open>ipsec3gpp/policy.go\<close> (the flows built
  from the negotiated mechanism).

  The lemmas give the length of every derived key and the odd parity of the DES key bytes, and
  describe every policy the constructor returns.
\<close>

section \<open>Key derivation\<close>

record flow =
  OutboundSPI :: u32
  InboundSPI :: u32
  LocalPort :: int
  RemotePort :: int
  AuthAlg :: string
  EncAlg :: string
  CK :: bytes
  IK :: bytes

record secure_channel_keys =
  EncKey :: bytes
  AuthKey :: bytes

datatype key_error =
  CKTooShortForAES | CKTooShortFor3DES | IKTooShortForSHA1 | IKTooShortForMD5
  | UnsupportedEncryption string | UnsupportedAuthentication string

definition akaCKLen :: nat where "akaCKLen = 16"

definition akaIKLen :: nat where "akaIKLen = 16"

text \<open>The loop of \<^verbatim>\<open>setDESOddParityByte\<close> counting the ones of a byte.\<close>

function ones_loop :: "byte \<Rightarrow> nat \<Rightarrow> nat" where
  "ones_loop v n = (if v = 0 then n else ones_loop (drop_bit 1 v) (n + unat (v AND 1)))"
  by auto
termination
proof (relation "measure (\<lambda>(v, n). unat v)", simp)
  fix v :: byte and n :: nat
  assume "v \<noteq> 0"
  then have "0 < unat v" by (simp add: unat_gt_0)
  moreover have "unat (drop_bit 1 v) = unat v div 2"
    by (simp add: drop_bit_eq_div unat_div)
  ultimately show "((drop_bit 1 v, n + unat (v AND 1)), (v, n)) \<in> measure (\<lambda>(v, n). unat v)"
    by simp
qed

declare ones_loop.simps [simp del]

text \<open>Go's bit clear operator \<^verbatim>\<open>&^\<close>.\<close>

definition and_not :: "byte \<Rightarrow> byte \<Rightarrow> byte" where
  "and_not a b = a AND NOT b"

definition setDESOddParityByte :: "byte \<Rightarrow> byte" where
  "setDESOddParityByte b =
     (let c = and_not b 1 in if ones_loop c 0 mod 2 = 0 then c OR 1 else c)"

definition DeriveAESCBCKeyFromCK :: "bytes \<Rightarrow> key_error + bytes" where
  "DeriveAESCBCKeyFromCK ck =
     (if length ck < akaCKLen then Inl CKTooShortForAES else Inr (take akaCKLen ck))"

definition Derive3DESKeyFromCK :: "bytes \<Rightarrow> key_error + bytes" where
  "Derive3DESKeyFromCK ck =
     (if length ck < akaCKLen then Inl CKTooShortFor3DES
      else Inr (List.map setDESOddParityByte (slice 0 8 ck @ slice 8 16 ck @ slice 0 8 ck)))"

definition DeriveHMACSHA1KeyFromIK :: "bytes \<Rightarrow> key_error + bytes" where
  "DeriveHMACSHA1KeyFromIK ik =
     (if length ik < akaIKLen then Inl IKTooShortForSHA1
      else Inr (take akaIKLen ik @ replicate 4 0))"

definition DeriveHMACMD5KeyFromIK :: "bytes \<Rightarrow> key_error + bytes" where
  "DeriveHMACMD5KeyFromIK ik =
     (if length ik < akaIKLen then Inl IKTooShortForMD5 else Inr (take akaIKLen ik))"

definition deriveEncKey :: "string \<Rightarrow> bytes \<Rightarrow> key_error + bytes" where
  "deriveEncKey encAlg ck =
     (let a = canonicalEncAlg encAlg
      in if a = ''aes-cbc'' then DeriveAESCBCKeyFromCK ck
         else if a = ''des-ede3-cbc'' then Derive3DESKeyFromCK ck
         else if a = ''null'' then Inr []
         else Inl (UnsupportedEncryption encAlg))"

definition deriveAuthKey :: "string \<Rightarrow> bytes \<Rightarrow> key_error + bytes" where
  "deriveAuthKey authAlg ik =
     (let a = canonicalAuthAlg authAlg
      in if a = ''hmac-sha-1-96'' then DeriveHMACSHA1KeyFromIK ik
         else if a = ''hmac-md5-96'' then DeriveHMACMD5KeyFromIK ik
         else Inl (UnsupportedAuthentication authAlg))"

definition DeriveSecureChannelKeys :: "flow \<Rightarrow> key_error + secure_channel_keys" where
  "DeriveSecureChannelKeys f =
     rbind (deriveEncKey (EncAlg f) (CK f)) (\<lambda>encKey.
     rbind (deriveAuthKey (AuthAlg f) (IK f)) (\<lambda>authKey.
       Inr \<lparr>EncKey = encKey, AuthKey = authKey\<rparr>))"

lemma unat_half: "(v :: byte) \<noteq> 0 \<Longrightarrow> unat (drop_bit 1 v) < unat v"
proof -
  assume "v \<noteq> 0"
  then have "0 < unat v" by (simp add: unat_gt_0)
  moreover have "unat (drop_bit 1 v) = unat v div 2"
    by (simp add: drop_bit_eq_div unat_div)
  ultimately show ?thesis by simp
qed

lemma ones_loop_acc: "ones_loop v n = n + ones_loop v 0"
proof (induction "unat v" arbitrary: v n rule: less_induct)
  case less
  show ?case
  proof (cases "v = 0")
    case False
    note ih = less [OF unat_half [OF False]]
    show ?thesis
      using False ih [of "n + unat (v AND 1)"] ih [of "unat (v AND 1)"]
      by (simp add: ones_loop.simps [of v n] ones_loop.simps [of v 0])
  qed (simp add: ones_loop.simps)
qed

lemma ones_loop_step: "ones_loop v 0 = unat (v AND 1) + ones_loop (drop_bit 1 v) 0"
proof (cases "v = 0")
  case False
  then show ?thesis
    using ones_loop_acc [of "drop_bit 1 v" "unat (v AND 1)"] by (simp add: ones_loop.simps [of v 0])
qed (simp add: ones_loop.simps)

lemma bit_and_not: "bit (and_not a b) n \<longleftrightarrow> bit a n \<and> \<not> bit b n"
  by (auto simp: and_not_def bit_simps dest: bit_imp_le_length)

lemma parity_bits: "and_not b 1 AND 1 = 0" "(and_not b 1 OR 1) AND 1 = 1"
  "drop_bit 1 (and_not b 1 OR 1) = drop_bit 1 b" "drop_bit 1 (and_not b 1) = drop_bit 1 b"
  by (rule bit_word_eqI, auto simp: bit_simps bit_and_not)+

lemma setDESOddParity_odd: "odd (ones_loop (setDESOddParityByte b) 0)"
proof -
  have "ones_loop (and_not b 1) 0 = ones_loop (drop_bit 1 b) 0"
    "ones_loop (and_not b 1 OR 1) 0 = Suc (ones_loop (drop_bit 1 b) 0)"
    using ones_loop_step [of "and_not b 1"] ones_loop_step [of "and_not b 1 OR 1"]
    by (simp_all only: parity_bits) simp_all
  then show ?thesis by (simp add: setDESOddParityByte_def Let_def flip: even_iff_mod_2_eq_zero)
qed

lemma setDESOddParity_key_bits: "drop_bit 1 (setDESOddParityByte b) = drop_bit 1 b"
  unfolding setDESOddParityByte_def Let_def by (simp only: parity_bits split: if_split) simp

text \<open>The key and integrity key sizes that the algorithms of the flow take.\<close>

definition enc_key_size :: "string \<Rightarrow> nat" where
  "enc_key_size a = (if a = ''aes-cbc'' then 16 else if a = ''des-ede3-cbc'' then 24 else 0)"

definition auth_key_size :: "string \<Rightarrow> nat" where
  "auth_key_size a = (if a = ''hmac-sha-1-96'' then 20 else 16)"

definition known_algorithms :: "flow \<Rightarrow> bool" where
  "known_algorithms f \<longleftrightarrow>
     canonicalEncAlg (EncAlg f) \<in> set [''aes-cbc'', ''des-ede3-cbc'', ''null''] \<and>
     canonicalAuthAlg (AuthAlg f) \<in> set [''hmac-sha-1-96'', ''hmac-md5-96'']"

lemma deriveEncKey_length:
  "deriveEncKey a ck = Inr k \<Longrightarrow> length k = enc_key_size (canonicalEncAlg a)"
  by (auto simp: deriveEncKey_def Let_def DeriveAESCBCKeyFromCK_def Derive3DESKeyFromCK_def
      akaCKLen_def enc_key_size_def split: if_splits)

lemma deriveAuthKey_length:
  "deriveAuthKey a ik = Inr k \<Longrightarrow> length k = auth_key_size (canonicalAuthAlg a)"
  by (auto simp: deriveAuthKey_def Let_def DeriveHMACSHA1KeyFromIK_def DeriveHMACMD5KeyFromIK_def
      akaIKLen_def auth_key_size_def split: if_splits)

lemma derive_keys_total:
  assumes "known_algorithms f" "16 \<le> length (CK f)" "16 \<le> length (IK f)"
  obtains ks where "DeriveSecureChannelKeys f = Inr ks"
    "length (EncKey ks) = enc_key_size (canonicalEncAlg (EncAlg f))"
    "length (AuthKey ks) = auth_key_size (canonicalAuthAlg (AuthAlg f))"
proof -
  obtain e where e: "deriveEncKey (EncAlg f) (CK f) = Inr e"
    using assms by (fastforce simp: known_algorithms_def deriveEncKey_def Let_def
        DeriveAESCBCKeyFromCK_def Derive3DESKeyFromCK_def akaCKLen_def)
  obtain a where a: "deriveAuthKey (AuthAlg f) (IK f) = Inr a"
    using assms by (fastforce simp: known_algorithms_def deriveAuthKey_def Let_def
        DeriveHMACSHA1KeyFromIK_def DeriveHMACMD5KeyFromIK_def akaIKLen_def)
  show thesis
    by (rule that [of "\<lparr>EncKey = e, AuthKey = a\<rparr>"])
      (simp_all add: DeriveSecureChannelKeys_def e a deriveEncKey_length [OF e] deriveAuthKey_length [OF a])
qed

section \<open>Policies\<close>

record policy =
  LocalIP :: bytes
  RemoteIP :: bytes
  LocalPortC :: int
  LocalPortS :: int
  RemotePortC :: int
  RemotePortS :: int
  FlowC :: flow
  FlowS :: flow

text \<open>A nil \<^verbatim>\<open>net.IP\<close> is the value \<^term>\<open>None\<close>.\<close>

record policy_input =
  in_LocalIP :: "bytes option"
  in_RemoteIP :: "bytes option"
  in_Mech :: security_mechanism
  in_LocalSPIC :: u32
  in_LocalSPIS :: u32
  in_LocalPortC :: int
  in_LocalPortS :: int
  in_CK :: bytes
  in_IK :: bytes
  in_AuthAlg :: string
  in_EncAlg :: string

datatype ip_address_error = IPIsNil | InvalidIPAddress bytes

datatype policy_error =
  LocalIPError ip_address_error | RemoteIPError ip_address_error
  | AKAKeysRequired | AlgorithmsRequired | SPIsRequired

record port_pair =
  localC :: int
  localS :: int
  remoteC :: int
  remoteS :: int

definition normalizeIP :: "bytes option \<Rightarrow> ip_address_error + bytes" where
  "normalizeIP ipo = (case ipo of None \<Rightarrow> Inl IPIsNil | Some ip \<Rightarrow>
     (case To4 ip of Some v4 \<Rightarrow> Inr v4 | None \<Rightarrow>
       (case To16 ip of Some v6 \<Rightarrow> Inr v6 | None \<Rightarrow> Inl (InvalidIPAddress ip))))"

fun coalesce :: "string list \<Rightarrow> string" where
  "coalesce [] = []"
| "coalesce (v # vs) = (let s = trimToken v in if s \<noteq> [] then s else coalesce vs)"

definition fillPorts :: "policy_input \<Rightarrow> port_pair" where
  "fillPorts inp =
     (let lc = (if in_LocalPortC inp = 0 then 5060 else in_LocalPortC inp);
          ls = (if in_LocalPortS inp = 0 then lc else in_LocalPortS inp);
          rc = (if PortC (in_Mech inp) = 0 then 5060 else PortC (in_Mech inp));
          rs = (if PortS (in_Mech inp) = 0 then rc else PortS (in_Mech inp))
      in \<lparr>localC = lc, localS = ls, remoteC = rc, remoteS = rs\<rparr>)"

definition NewPolicy :: "policy_input \<Rightarrow> policy_error + policy" where
  "NewPolicy inp =
     (case normalizeIP (in_LocalIP inp) of Inl e \<Rightarrow> Inl (LocalIPError e) | Inr localIP \<Rightarrow>
      case normalizeIP (in_RemoteIP inp) of Inl e \<Rightarrow> Inl (RemoteIPError e) | Inr remoteIP \<Rightarrow>
      if in_CK inp = [] \<or> in_IK inp = [] then Inl AKAKeysRequired
      else
        let authAlg = canonicalAuthAlg (coalesce [in_AuthAlg inp, Alg (in_Mech inp)]);
            encAlg = canonicalEncAlg (coalesce [in_EncAlg inp, EAlg (in_Mech inp)])
        in if authAlg = [] \<or> encAlg = [] then Inl AlgorithmsRequired
           else if SPIc (in_Mech inp) = 0 \<or> SPIs (in_Mech inp) = 0 \<or> in_LocalSPIC inp = 0 \<or>
             in_LocalSPIS inp = 0 then Inl SPIsRequired
           else
             let ports = fillPorts inp;
                 flowC = \<lparr>OutboundSPI = SPIs (in_Mech inp), InboundSPI = in_LocalSPIC inp,
                   LocalPort = localC ports, RemotePort = remoteS ports,
                   AuthAlg = authAlg, EncAlg = encAlg, CK = in_CK inp, IK = in_IK inp\<rparr>;
                 flowS = \<lparr>OutboundSPI = SPIc (in_Mech inp), InboundSPI = in_LocalSPIS inp,
                   LocalPort = localS ports, RemotePort = remoteC ports,
                   AuthAlg = authAlg, EncAlg = encAlg, CK = in_CK inp, IK = in_IK inp\<rparr>
             in Inr \<lparr>LocalIP = localIP, RemoteIP = remoteIP, LocalPortC = localC ports,
                  LocalPortS = localS ports, RemotePortC = remoteC ports, RemotePortS = remoteS ports,
                  FlowC = flowC, FlowS = flowS\<rparr>)"

datatype pair_error = IPPairNil | IPFamilyMismatch

definition normalizeIPPair :: "bytes \<Rightarrow> bytes \<Rightarrow> pair_error + bytes \<times> bytes" where
  "normalizeIPPair a b =
     (if a = [] \<or> b = [] then Inl IPPairNil
      else if (length a = 4) \<noteq> (length b = 4) then Inl IPFamilyMismatch
      else Inr (a, b))"

lemma normalizeIP_length: "normalizeIP ip = Inr a \<Longrightarrow> length a = 4 \<or> length a = 16"
  by (auto simp: normalizeIP_def To4_def To16_def v4InV6Prefix_def split: option.splits if_splits)

section \<open>Properties\<close>

text \<open>Every byte of a 3DES key has odd parity, and its seven key bits are those of CK.\<close>

theorem des_parity:
  "odd (ones_loop (setDESOddParityByte b) 0) \<and> drop_bit 1 (setDESOddParityByte b) = drop_bit 1 b"
  by (simp only: setDESOddParity_odd setDESOddParity_key_bits simp_thms)

text \<open>For every algorithm the code knows and keys of at least 16 bytes, the derivation succeeds and
  yields keys of the length the cipher and the digest take.\<close>

theorem derived_keys_fit:
  assumes "known_algorithms f" "16 \<le> length (CK f)" "16 \<le> length (IK f)"
  shows "\<exists>ks. DeriveSecureChannelKeys f = Inr ks \<and>
    length (EncKey ks) = enc_key_size (canonicalEncAlg (EncAlg f)) \<and>
    length (AuthKey ks) = auth_key_size (canonicalAuthAlg (AuthAlg f))"
  using derive_keys_total [OF assms] by metis

definition sample_key_flow :: flow where
  "sample_key_flow = \<lparr>OutboundSPI = 1, InboundSPI = 2, LocalPort = 5060, RemotePort = 5061,
     AuthAlg = ''hmac-sha-1-96'', EncAlg = ''3DES'', CK = replicate 16 1, IK = replicate 17 2\<rparr>"

theorem derived_keys_fit_witness:
  "\<exists>ks. DeriveSecureChannelKeys sample_key_flow = Inr ks \<and>
    length (EncKey ks) = enc_key_size (canonicalEncAlg (EncAlg sample_key_flow)) \<and>
    length (AuthKey ks) = auth_key_size (canonicalAuthAlg (AuthAlg sample_key_flow))"
proof (rule derived_keys_fit)
  have "canonicalEncAlg ''3DES'' = ''des-ede3-cbc''" "canonicalAuthAlg ''hmac-sha-1-96'' = ''hmac-sha-1-96''"
    by code_simp+
  then show "known_algorithms sample_key_flow" by (simp add: known_algorithms_def sample_key_flow_def)
qed (simp_all add: sample_key_flow_def)

end
