(* ===== verification/ESP.thy ===== *)
theory ESP
  imports Keys_Policy
begin

text \<open>
  ESP in transport mode: the algorithms of \<^verbatim>\<open>ipsec3gpp/algorithms.go\<close> and of the
  \<^verbatim>\<open>crypto\<close> package it uses, the security association of \<^verbatim>\<open>ipsec3gpp/sa.go\<close>, and
  \<^verbatim>\<open>encapsulateTransport\<close> / \<^verbatim>\<open>decapsulateTransport\<close> of
  \<^verbatim>\<open>ipsec3gpp/transport.go\<close>.

  The AES and DES block functions and the HMAC digests are the record \<open>crypto\<close>, an argument of the
  definitions; \<open>crypto_ok\<close> states what the lemmas use of them: a block is decrypted to what
  was encrypted, and every result has the length its standard gives.  Cipher block chaining is
  modelled.  The random bytes of an initialisation vector are an argument too.
\<close>

section \<open>Block ciphers and cipher block chaining\<close>

record crypto =
  aes_encrypt :: "bytes \<Rightarrow> bytes \<Rightarrow> bytes"
  aes_decrypt :: "bytes \<Rightarrow> bytes \<Rightarrow> bytes"
  des3_encrypt :: "bytes \<Rightarrow> bytes \<Rightarrow> bytes"
  des3_decrypt :: "bytes \<Rightarrow> bytes \<Rightarrow> bytes"
  hmac_sha1 :: "bytes \<Rightarrow> bytes \<Rightarrow> bytes"
  hmac_md5 :: "bytes \<Rightarrow> bytes \<Rightarrow> bytes"

text \<open>The keys \<^verbatim>\<open>aes.NewCipher\<close> and \<^verbatim>\<open>des.NewTripleDESCipher\<close> accept.\<close>

definition aes_key_ok :: "bytes \<Rightarrow> bool" where
  "aes_key_ok key \<longleftrightarrow> length key \<in> set [16, 24, 32]"

definition des3_key_ok :: "bytes \<Rightarrow> bool" where
  "des3_key_ok key \<longleftrightarrow> length key = 24"

definition crypto_ok :: "crypto \<Rightarrow> bool" where
  "crypto_ok cr \<longleftrightarrow>
     (\<forall>key block. aes_key_ok key \<longrightarrow> length block = 16 \<longrightarrow>
        length (aes_encrypt cr key block) = 16 \<and> aes_decrypt cr key (aes_encrypt cr key block) = block) \<and>
     (\<forall>key block. des3_key_ok key \<longrightarrow> length block = 8 \<longrightarrow>
        length (des3_encrypt cr key block) = 8 \<and> des3_decrypt cr key (des3_encrypt cr key block) = block) \<and>
     (\<forall>key data. length (hmac_sha1 cr key data) = 20 \<and> length (hmac_md5 cr key data) = 16)"

definition xor_bytes :: "bytes \<Rightarrow> bytes \<Rightarrow> bytes" where
  "xor_bytes a b = map2 (XOR) a b"

function cbc_encrypt :: "(bytes \<Rightarrow> bytes) \<Rightarrow> nat \<Rightarrow> bytes \<Rightarrow> bytes \<Rightarrow> bytes" where
  "cbc_encrypt E n iv pt =
     (if n = 0 \<or> length pt < n then []
      else let c = E (xor_bytes (take n pt) iv) in c @ cbc_encrypt E n c (drop n pt))"
  by auto
termination by (relation "measure (\<lambda>(E, n, iv, pt). length pt)") auto

function cbc_decrypt :: "(bytes \<Rightarrow> bytes) \<Rightarrow> nat \<Rightarrow> bytes \<Rightarrow> bytes \<Rightarrow> bytes" where
  "cbc_decrypt D n iv ct =
     (if n = 0 \<or> length ct < n then []
      else let c = take n ct in xor_bytes (D c) iv @ cbc_decrypt D n c (drop n ct))"
  by auto
termination by (relation "measure (\<lambda>(D, n, iv, ct). length ct)") auto

declare cbc_encrypt.simps [simp del] cbc_decrypt.simps [simp del]

lemma length_xor_bytes [simp]: "length (xor_bytes a b) = min (length a) (length b)"
  by (simp add: xor_bytes_def)

lemma xor_bytes_cancel: "length a = length b \<Longrightarrow> xor_bytes (xor_bytes a b) b = a"
  by (rule list_eq_nthI) (simp_all add: xor_bytes_def xor.assoc)

definition block_inverse :: "(bytes \<Rightarrow> bytes) \<Rightarrow> (bytes \<Rightarrow> bytes) \<Rightarrow> nat \<Rightarrow> bool" where
  "block_inverse E D n \<longleftrightarrow> (\<forall>block. length block = n \<longrightarrow> length (E block) = n \<and> D (E block) = block)"

lemma length_cbc_encrypt:
  assumes "block_inverse E D n" "n dvd length pt" "length iv = n"
  shows "length (cbc_encrypt E n iv pt) = length pt"
  using assms
proof (induction E n iv pt rule: cbc_encrypt.induct)
  case (1 E n iv pt)
  show ?case
  proof (cases "n = 0 \<or> length pt < n")
    case True
    then have "length pt = 0" using 1(3) by (auto dest: dvd_imp_le)
    then show ?thesis using True by (simp add: cbc_encrypt.simps)
  next
    case False
    let ?c = "E (xor_bytes (take n pt) iv)"
    have c: "length ?c = n" using 1 False by (simp add: block_inverse_def)
    have "length (cbc_encrypt E n ?c (drop n pt)) = length (drop n pt)"
      using 1(1) [OF False refl 1(2)] 1(3) c False by (simp add: dvd_minus_self)
    then show ?thesis using False c by (simp add: cbc_encrypt.simps [of E n iv pt] Let_def)
  qed
qed

lemma cbc_roundtrip:
  assumes "block_inverse E D n" "n dvd length pt" "length iv = n"
  shows "cbc_decrypt D n iv (cbc_encrypt E n iv pt) = pt"
  using assms
proof (induction E n iv pt rule: cbc_encrypt.induct)
  case (1 E n iv pt)
  show ?case
  proof (cases "n = 0 \<or> length pt < n")
    case True
    then have "length pt = 0" using 1(3) by (auto dest: dvd_imp_le)
    then show ?thesis using True by (simp add: cbc_encrypt.simps cbc_decrypt.simps)
  next
    case False
    let ?x = "xor_bytes (take n pt) iv"
    have x: "length ?x = n" using 1(4) False by simp
    then have c: "length (E ?x) = n" "D (E ?x) = ?x" using 1(2) by (auto simp: block_inverse_def)
    have "cbc_decrypt D n (E ?x) (cbc_encrypt E n (E ?x) (drop n pt)) = drop n pt"
      using 1(1) [OF False refl 1(2)] 1(3) c False by (simp add: dvd_minus_self)
    moreover have "xor_bytes ?x iv = take n pt" using 1(4) False by (simp add: xor_bytes_cancel)
    ultimately show ?thesis
      using False c by (simp add: cbc_encrypt.simps [of E n iv pt]
          cbc_decrypt.simps [of D n iv "E ?x @ _"] Let_def)
  qed
qed

section \<open>Algorithms\<close>

text \<open>The implementations of \<^verbatim>\<open>crypto.Encrypter\<close> and \<^verbatim>\<open>crypto.IntegrityAlgorithm\<close> a flow can use.\<close>

datatype encrypter = AESCBC nat | TripleDESCBC | NullEncrypter

datatype integrity = HMACSHA1_96 | HMACMD5_96

text \<open>\<open>CBCIVLength\<close> is the panic of \<^verbatim>\<open>cipher.NewCBCEncrypter\<close> for an IV of another length than
  the block.\<close>

datatype cipher_error =
  InvalidKeyOrIVLength | InvalidKeySize | NotBlockAligned | IVTooShort | CBCIVLength

fun IVSize :: "encrypter \<Rightarrow> nat" where
  "IVSize (AESCBC _) = 16" | "IVSize TripleDESCBC = 8" | "IVSize NullEncrypter = 0"

fun BlockSize :: "encrypter \<Rightarrow> nat" where
  "BlockSize (AESCBC _) = 16" | "BlockSize TripleDESCBC = 8" | "BlockSize NullEncrypter = 1"

fun KeySize :: "encrypter \<Rightarrow> nat" where
  "KeySize (AESCBC n) = n" | "KeySize TripleDESCBC = 24" | "KeySize NullEncrypter = 0"

fun Encrypt :: "crypto \<Rightarrow> encrypter \<Rightarrow> bytes \<Rightarrow> bytes \<Rightarrow> bytes \<Rightarrow> cipher_error + bytes" where
  "Encrypt cr (AESCBC keySize) plaintext key iv =
     (if length iv \<noteq> 16 \<or> length key \<noteq> keySize then Inl InvalidKeyOrIVLength
      else if \<not> aes_key_ok key then Inl InvalidKeySize
      else if length plaintext mod 16 \<noteq> 0 then Inl NotBlockAligned
      else Inr (cbc_encrypt (aes_encrypt cr key) 16 iv plaintext))"
| "Encrypt cr TripleDESCBC plaintext key iv =
     (if length iv < 8 then Inl IVTooShort
      else if length plaintext mod 8 \<noteq> 0 then Inl NotBlockAligned
      else if \<not> des3_key_ok key then Inl InvalidKeySize
      else if length iv \<noteq> 8 then Inl CBCIVLength
      else Inr (cbc_encrypt (des3_encrypt cr key) 8 iv plaintext))"
| "Encrypt cr NullEncrypter plaintext key iv = Inr plaintext"

fun Decrypt :: "crypto \<Rightarrow> encrypter \<Rightarrow> bytes \<Rightarrow> bytes \<Rightarrow> bytes \<Rightarrow> cipher_error + bytes" where
  "Decrypt cr (AESCBC keySize) ciphertext key iv =
     (if length iv \<noteq> 16 \<or> length key \<noteq> keySize then Inl InvalidKeyOrIVLength
      else if \<not> aes_key_ok key then Inl InvalidKeySize
      else if length ciphertext mod 16 \<noteq> 0 then Inl NotBlockAligned
      else Inr (cbc_decrypt (aes_decrypt cr key) 16 iv ciphertext))"
| "Decrypt cr TripleDESCBC ciphertext key iv =
     (if length iv < 8 then Inl IVTooShort
      else if length ciphertext mod 8 \<noteq> 0 then Inl NotBlockAligned
      else if \<not> des3_key_ok key then Inl InvalidKeySize
      else if length iv \<noteq> 8 then Inl CBCIVLength
      else Inr (cbc_decrypt (des3_decrypt cr key) 8 iv ciphertext))"
| "Decrypt cr NullEncrypter ciphertext key iv = Inr ciphertext"

fun Compute :: "crypto \<Rightarrow> integrity \<Rightarrow> bytes \<Rightarrow> bytes \<Rightarrow> bytes" where
  "Compute cr HMACSHA1_96 key data = take 12 (hmac_sha1 cr key data)"
| "Compute cr HMACMD5_96 key data = take 12 (hmac_md5 cr key data)"

definition Verify :: "crypto \<Rightarrow> integrity \<Rightarrow> bytes \<Rightarrow> bytes \<Rightarrow> bytes \<Rightarrow> bool" where
  "Verify cr alg key data expectedMAC \<longleftrightarrow> Compute cr alg key data = expectedMAC"

fun OutputSize :: "integrity \<Rightarrow> nat" where
  "OutputSize HMACSHA1_96 = 12" | "OutputSize HMACMD5_96 = 12"

definition cipher_key_ok :: "encrypter \<Rightarrow> bytes \<Rightarrow> bool" where
  "cipher_key_ok enc key \<longleftrightarrow> (case enc of
     AESCBC n \<Rightarrow> length key = n \<and> aes_key_ok key | TripleDESCBC \<Rightarrow> des3_key_ok key | NullEncrypter \<Rightarrow> True)"

lemma Encrypt_roundtrip:
  assumes cr: "crypto_ok cr" and key: "cipher_key_ok enc key"
    and pt: "BlockSize enc dvd length pt" and iv: "length iv = IVSize enc"
  obtains ct where "Encrypt cr enc pt key iv = Inr ct" "Decrypt cr enc ct key iv = Inr pt"
    "length ct = length pt"
proof (cases enc)
  case (AESCBC n)
  have inv: "block_inverse (aes_encrypt cr key) (aes_decrypt cr key) 16"
    using cr key AESCBC by (simp add: crypto_ok_def block_inverse_def cipher_key_ok_def)
  show thesis
    using that [of "cbc_encrypt (aes_encrypt cr key) 16 iv pt"] key pt iv AESCBC
      length_cbc_encrypt [OF inv, of pt iv] cbc_roundtrip [OF inv, of pt iv]
    by (simp add: cipher_key_ok_def mod_eq_0_iff_dvd)
next
  case TripleDESCBC
  have inv: "block_inverse (des3_encrypt cr key) (des3_decrypt cr key) 8"
    using cr key TripleDESCBC by (simp add: crypto_ok_def block_inverse_def cipher_key_ok_def)
  show thesis
    using that [of "cbc_encrypt (des3_encrypt cr key) 8 iv pt"] key pt iv TripleDESCBC
      length_cbc_encrypt [OF inv, of pt iv] cbc_roundtrip [OF inv, of pt iv]
    by (simp add: cipher_key_ok_def mod_eq_0_iff_dvd)
next
  case NullEncrypter
  then show thesis using that [of pt] by simp
qed

lemma length_Compute: "crypto_ok cr \<Longrightarrow> length (Compute cr alg key data) = OutputSize alg"
  by (cases alg) (simp_all add: crypto_ok_def)

section \<open>Security associations\<close>

text \<open>The field \<^verbatim>\<open>IntegrityAlg\<close> (the old interface) is never set and never read; it is left out.
  An interface value that may be nil is an option.\<close>

record security_association =
  SPI :: u32
  RemoteSPI :: u32
  EncryptionAlg :: "encrypter option"
  EncryptionKey :: bytes
  IntegritySalt :: bytes
  IntegrityAlg2 :: "integrity option"
  IntegrityKey :: bytes
  IsAEAD :: bool
  SequenceNumber :: u64
  sa_ReplayWindow :: u64

definition NewSecurityAssociation :: "u32 \<Rightarrow> encrypter option \<Rightarrow> bytes \<Rightarrow> bytes \<Rightarrow> security_association" where
  "NewSecurityAssociation spi enc encKey integKey =
     \<lparr>SPI = spi, RemoteSPI = 0, EncryptionAlg = enc, EncryptionKey = encKey, IntegritySalt = [],
      IntegrityAlg2 = None, IntegrityKey = integKey, IsAEAD = True, SequenceNumber = 0,
      sa_ReplayWindow = 0\<rparr>"

definition NewSecurityAssociationCBC ::
    "u32 \<Rightarrow> encrypter option \<Rightarrow> bytes \<Rightarrow> integrity option \<Rightarrow> bytes \<Rightarrow> security_association" where
  "NewSecurityAssociationCBC spi enc encKey integAlg integKey =
     \<lparr>SPI = spi, RemoteSPI = 0, EncryptionAlg = enc, EncryptionKey = encKey, IntegritySalt = [],
      IntegrityAlg2 = integAlg, IntegrityKey = integKey, IsAEAD = False, SequenceNumber = 0,
      sa_ReplayWindow = 0\<rparr>"

datatype esp_error =
  MissingSA | MissingEncryptionAlg | SequenceOverflow | RandomFailed | CipherError cipher_error
  | ESPPacketTooShort | ESPTooShortForIV | ESPTooShortForICV | ESPIntegrityFailed
  | DecryptedTooShort | InvalidPaddingLength | InvalidPaddingBytes

text \<open>The counter is incremented before the test and stays incremented when the test fails.\<close>

definition NextSequenceNumber :: "security_association \<Rightarrow> (esp_error + u32) \<times> security_association" where
  "NextSequenceNumber sa =
     (let nxt = SequenceNumber sa + 1; sa' = sa\<lparr>SequenceNumber := nxt\<rparr>
      in if nxt > 0xFFFFFFFF then (Inl SequenceOverflow, sa') else (Inr (ucast nxt), sa'))"

definition cloneSAForInbound :: "security_association option \<Rightarrow> u32 \<Rightarrow> security_association option" where
  "cloneSAForInbound template spi = map_option (\<lambda>sa. sa\<lparr>SPI := spi\<rparr>) template"

section \<open>Encapsulation\<close>

definition esp_header :: "u32 \<Rightarrow> u32 \<Rightarrow> bytes" where
  "esp_header spi seq = put_u32 4 seq (put_u32 0 spi (replicate 8 0))"

definition pad_length :: "nat \<Rightarrow> nat \<Rightarrow> nat" where
  "pad_length blockSize len =
     (let neededLen = len + 2
      in if neededLen mod blockSize \<noteq> 0 then blockSize - neededLen mod blockSize else 0)"

definition pad_bytes :: "nat \<Rightarrow> bytes" where
  "pad_bytes padLen = List.map (\<lambda>i. of_nat (i + 1)) [0..<padLen]"

definition esp_payload :: "nat \<Rightarrow> bytes \<Rightarrow> byte \<Rightarrow> bytes" where
  "esp_payload blockSize plaintext nh =
     (let padLen = pad_length blockSize (length plaintext)
      in plaintext @ pad_bytes padLen @ [of_nat padLen, nh])"

text \<open>\<^term>\<open>rnd n\<close> is what \<^verbatim>\<open>crypto.RandomBytes(n)\<close> returns, \<^term>\<open>None\<close> for its error.\<close>

definition encapsulateTransport ::
    "crypto \<Rightarrow> (nat \<Rightarrow> bytes option) \<Rightarrow> bytes \<Rightarrow> security_association option \<Rightarrow> byte \<Rightarrow>
     (esp_error + bytes) \<times> security_association option" where
  "encapsulateTransport cr rnd plaintext sap nh =
     (case sap of None \<Rightarrow> (Inl MissingSA, None) | Some sa \<Rightarrow>
      case EncryptionAlg sa of None \<Rightarrow> (Inl MissingEncryptionAlg, Some sa) | Some enc \<Rightarrow>
      (case NextSequenceNumber sa of (r, sa') \<Rightarrow>
        (rbind r (\<lambda>seq.
           let header = esp_header (SPI sa) seq in
           case rnd (IVSize enc) of None \<Rightarrow> Inl RandomFailed | Some iv \<Rightarrow>
           (case Encrypt cr enc (esp_payload (BlockSize enc) plaintext nh) (EncryptionKey sa) iv of
              Inl e \<Rightarrow> Inl (CipherError e)
            | Inr ciphertext \<Rightarrow>
                let out = header @ iv @ ciphertext in
                (case IntegrityAlg2 sa of
                   Some alg \<Rightarrow> if \<not> IsAEAD sa then Inr (out @ Compute cr alg (IntegrityKey sa) out)
                               else Inr out
                 | None \<Rightarrow> Inr out))),
         Some sa')))"

text \<open>The trailer of a decrypted payload: the padding is checked and removed.\<close>

definition strip_padding :: "bytes \<Rightarrow> esp_error + bytes \<times> byte" where
  "strip_padding plaintext =
     (let n = length plaintext in
      if n < 2 then Inl DecryptedTooShort
      else let padLen = unat (plaintext ! (n - 2)) in
        if n < 2 + padLen then Inl InvalidPaddingLength
        else if \<not> list_all (\<lambda>i. plaintext ! (n - 2 - padLen + i) = of_nat (i + 1)) [0..<padLen]
        then Inl InvalidPaddingBytes
        else Inr (take (n - 2 - padLen) plaintext, plaintext ! (n - 1)))"

definition decapsulateTransport ::
    "crypto \<Rightarrow> bytes \<Rightarrow> security_association option \<Rightarrow> esp_error + bytes \<times> byte" where
  "decapsulateTransport cr packet sap =
     (case sap of None \<Rightarrow> Inl MissingSA | Some sa \<Rightarrow>
      if length packet < 8 then Inl ESPPacketTooShort
      else case EncryptionAlg sa of None \<Rightarrow> Inl MissingEncryptionAlg | Some enc \<Rightarrow>
      let ivSize = IVSize enc in
      if length packet < 8 + ivSize then Inl ESPTooShortForIV
      else
        let icv = (case IntegrityAlg2 sa of
              Some alg \<Rightarrow> if \<not> IsAEAD sa then Some alg else None | None \<Rightarrow> None);
            ciphertext = (case icv of
              Some alg \<Rightarrow>
                let icvSize = OutputSize alg in
                if length packet < 8 + ivSize + icvSize then Inl ESPTooShortForICV
                else if \<not> Verify cr alg (IntegrityKey sa) (take (length packet - icvSize) packet)
                      (drop (length packet - icvSize) packet)
                then Inl ESPIntegrityFailed
                else Inr (slice (8 + ivSize) (length packet - icvSize) packet)
            | None \<Rightarrow> Inr (drop (8 + ivSize) packet))
        in rbind ciphertext (\<lambda>ct.
           case Decrypt cr enc ct (EncryptionKey sa) (slice 8 (8 + ivSize) packet) of
             Inl e \<Rightarrow> Inl (CipherError e)
           | Inr plaintext \<Rightarrow> strip_padding plaintext))"

datatype spi_error = ESPPayloadTooShort

definition parseESPSPISeq :: "bytes \<Rightarrow> spi_error + u32 \<times> u32" where
  "parseESPSPISeq esp =
     (if length esp < 8 then Inl ESPPayloadTooShort else Inr (get_u32 0 esp, get_u32 4 esp))"

section \<open>Padding\<close>

lemma BlockSize_pos: "0 < BlockSize enc" "BlockSize enc \<le> 16"
  by (cases enc; simp)+

lemma pad_length_less: "0 < n \<Longrightarrow> pad_length n len < n"
  by (auto simp: pad_length_def Let_def)

lemma pad_length_dvd:
  assumes "0 < n" shows "n dvd len + pad_length n len + 2"
proof (cases "(len + 2) mod n = 0")
  case False
  define r q where "r = (len + 2) mod n" and "q = (len + 2) div n"
  have "len + 2 = q * n + r" "r < n" using assms by (simp_all add: r_def q_def)
  moreover have "pad_length n len = n - r" using False by (simp add: pad_length_def r_def)
  ultimately have "len + pad_length n len + 2 = (q + 1) * n" by simp
  then show ?thesis by simp
qed (simp add: pad_length_def Let_def mod_eq_0_iff_dvd)

lemma length_esp_payload:
  "length (esp_payload n pt nh) = length pt + pad_length n (length pt) + 2"
  by (simp add: esp_payload_def Let_def pad_bytes_def)

lemma strip_padding_payload:
  assumes "0 < n" "n \<le> 256"
  shows "strip_padding (esp_payload n pt nh) = Inr (pt, nh)"
proof -
  let ?k = "pad_length n (length pt)" and ?p = "esp_payload n pt nh"
  have k: "unat (of_nat ?k :: byte) = ?k"
    using pad_length_less [OF assms(1), of "length pt"] assms(2)
    by (simp add: unat_of_nat)
  have p: "?p = (pt @ pad_bytes ?k) @ [of_nat ?k, nh]" by (simp add: esp_payload_def Let_def)
  have l: "length (pt @ pad_bytes ?k) = length pt + ?k" by (simp add: pad_bytes_def)
  have n2: "?p ! (length ?p - 2) = of_nat ?k" "?p ! (length ?p - 1) = nh"
    using l by (simp_all add: p length_esp_payload nth_append)
  have pads: "list_all (\<lambda>i. ?p ! (length ?p - 2 - ?k + i) = of_nat (i + 1)) [0..<?k]"
    using l by (auto simp: list_all_iff length_esp_payload p nth_append pad_bytes_def simp del: of_nat_Suc)
  have "take (length ?p - 2 - ?k) ?p = pt"
    by (simp add: length_esp_payload p pad_bytes_def)
  then show ?thesis
    using n2 pads by (simp add: strip_padding_def Let_def k length_esp_payload)
qed

section \<open>What is sent is received\<close>

definition sa_ok :: "security_association \<Rightarrow> bool" where
  "sa_ok sa \<longleftrightarrow> IntegrityAlg2 sa \<noteq> None \<and> \<not> IsAEAD sa \<and>
     (\<exists>enc. EncryptionAlg sa = Some enc \<and> cipher_key_ok enc (EncryptionKey sa))"

definition rnd_ok :: "(nat \<Rightarrow> bytes option) \<Rightarrow> bool" where
  "rnd_ok rnd \<longleftrightarrow> (\<forall>n. \<exists>bs. rnd n = Some bs \<and> length bs = n)"

text \<open>Two associations a packet can pass between: the same algorithms and keys.\<close>

definition sa_match :: "security_association \<Rightarrow> security_association \<Rightarrow> bool" where
  "sa_match sa peer \<longleftrightarrow> EncryptionAlg peer = EncryptionAlg sa \<and> EncryptionKey peer = EncryptionKey sa \<and>
     IntegrityAlg2 peer = IntegrityAlg2 sa \<and> IntegrityKey peer = IntegrityKey sa \<and> IsAEAD peer = IsAEAD sa"

lemma sa_match_simps [simp]: "sa_match sa sa" "sa_match (sa\<lparr>SequenceNumber := n\<rparr>) peer = sa_match sa peer"
  "sa_match sa (peer\<lparr>SequenceNumber := n\<rparr>) = sa_match sa peer"
  "sa_match sa (peer\<lparr>SPI := spi\<rparr>) = sa_match sa peer"
  by (simp_all add: sa_match_def)

lemma NextSequenceNumber_ok:
  assumes "SequenceNumber sa < 0xFFFFFFFF"
  shows "NextSequenceNumber sa =
    (Inr (ucast (SequenceNumber sa + 1)), sa\<lparr>SequenceNumber := SequenceNumber sa + 1\<rparr>)"
proof -
  have "SequenceNumber sa + 1 \<le> 0xFFFFFFFF" using assms by (rule inc_le)
  then show ?thesis by (simp add: NextSequenceNumber_def Let_def not_less)
qed

lemma esp_header_parts: "length (esp_header spi seq) = 8" "get_u32 0 (esp_header spi seq) = spi"
  "get_u32 4 (esp_header spi seq) = seq"
proof -
  have "get_u32 0 (put_u32 4 seq bs) = get_u32 0 bs" for bs by (simp add: get_u32_def)
  then show "get_u32 0 (esp_header spi seq) = spi" by (simp add: esp_header_def)
qed (simp_all add: esp_header_def)

lemma parse_esp_header: "parseESPSPISeq (esp_header spi seq @ rest) = Inr (spi, seq)"
proof -
  have "get_u32 0 (esp_header spi seq @ rest) = get_u32 0 (esp_header spi seq)"
    "get_u32 4 (esp_header spi seq @ rest) = get_u32 4 (esp_header spi seq)"
    by (simp_all add: get_u32_def nth_append esp_header_parts(1))
  then show ?thesis by (simp add: parseESPSPISeq_def esp_header_parts)
qed

lemma esp_roundtrip:
  assumes cr: "crypto_ok cr" and sa: "sa_ok sa" and rnd: "rnd_ok rnd" and peer: "sa_match sa peer"
    and n: "SequenceNumber sa < 0xFFFFFFFF"
  obtains out where
    "encapsulateTransport cr rnd pt (Some sa) nh =
       (Inr out, Some (sa\<lparr>SequenceNumber := SequenceNumber sa + 1\<rparr>))"
    "parseESPSPISeq out = Inr (SPI sa, ucast (SequenceNumber sa + 1))"
    "decapsulateTransport cr out (cloneSAForInbound (Some peer) spi) = Inr (pt, nh)"
    "length out \<le> length pt + 53"
proof -
  obtain enc alg where alg: "EncryptionAlg sa = Some enc" "cipher_key_ok enc (EncryptionKey sa)"
    "IntegrityAlg2 sa = Some alg" "\<not> IsAEAD sa" using sa by (auto simp: sa_ok_def)
  obtain iv where iv: "rnd (IVSize enc) = Some iv" "length iv = IVSize enc"
    using rnd by (auto simp: rnd_ok_def)
  let ?pl = "esp_payload (BlockSize enc) pt nh"
  let ?h = "esp_header (SPI sa) (ucast (SequenceNumber sa + 1))"
  have len: "length ?pl = length pt + pad_length (BlockSize enc) (length pt) + 2"
    by (rule length_esp_payload)
  have "BlockSize enc dvd length ?pl"
    unfolding len using pad_length_dvd [OF BlockSize_pos(1)] .
  then obtain ct where ct: "Encrypt cr enc ?pl (EncryptionKey sa) iv = Inr ct"
    "Decrypt cr enc ct (EncryptionKey sa) iv = Inr ?pl" "length ct = length ?pl"
    using Encrypt_roundtrip [OF cr alg(2)] iv(2) by metis
  define body where "body = ?h @ iv @ ct"
  define icv where "icv = Compute cr alg (IntegrityKey sa) body"
  have icv: "length icv = OutputSize alg" using cr by (simp add: icv_def length_Compute)
  have body: "length body = 8 + IVSize enc + length ct"
    by (simp add: body_def esp_header_parts iv(2))
  have "encapsulateTransport cr rnd pt (Some sa) nh =
      (Inr (body @ icv), Some (sa\<lparr>SequenceNumber := SequenceNumber sa + 1\<rparr>))"
    using alg iv ct
    by (simp add: encapsulateTransport_def NextSequenceNumber_ok [OF n] Let_def body_def icv_def)
  moreover have "parseESPSPISeq (body @ icv) = Inr (SPI sa, ucast (SequenceNumber sa + 1))"
    by (simp add: body_def parse_esp_header)
  moreover have "slice (8 + IVSize enc) (length body) body = ct"
    by (simp add: body_def slice_append_right esp_header_parts iv(2) slice_0_take)
  then have "slice (8 + IVSize enc) (length body) (body @ icv) = ct"
    by (simp add: slice_append_left)
  moreover have "slice 8 (8 + IVSize enc) (body @ icv) = iv"
    by (simp add: body_def slice_append_right slice_append_left esp_header_parts slice_def iv(2))
  moreover have "strip_padding ?pl = Inr (pt, nh)"
    using BlockSize_pos [of enc] by (intro strip_padding_payload) auto
  ultimately have "decapsulateTransport cr (body @ icv) (cloneSAForInbound (Some peer) spi) = Inr (pt, nh)"
    using peer alg icv body ct
    by (simp add: decapsulateTransport_def cloneSAForInbound_def sa_match_def Let_def Verify_def
        icv_def [symmetric])
  moreover have "length (body @ icv) \<le> length pt + 53"
    using len ct(3) pad_length_less [OF BlockSize_pos(1), of enc "length pt"]
    by (cases enc; cases alg) (auto simp: body icv)
  ultimately show thesis
    using that \<open>encapsulateTransport cr rnd pt (Some sa) nh = _\<close> \<open>parseESPSPISeq (body @ icv) = _\<close>
    by blast
qed

text \<open>A packet is only accepted when its last bytes are the digest of everything before them.\<close>

lemma decapsulate_authentic:
  assumes "decapsulateTransport cr packet (Some sa) = Inr r"
    and "IntegrityAlg2 sa = Some alg" "\<not> IsAEAD sa"
  shows "\<exists>body. packet = body @ Compute cr alg (IntegrityKey sa) body \<and> 8 \<le> length body"
proof -
  let ?n = "length packet - OutputSize alg"
  have len: "8 + OutputSize alg \<le> length packet"
    and v: "Verify cr alg (IntegrityKey sa) (take ?n packet) (drop ?n packet)"
    using assms by (auto simp: decapsulateTransport_def Let_def rbind_Inr_iff split: option.splits if_splits)
  have "packet = take ?n packet @ Compute cr alg (IntegrityKey sa) (take ?n packet)"
    using v by (simp add: Verify_def)
  then show ?thesis using len by (intro exI [of _ "take ?n packet"]) auto
qed

section \<open>Sequence numbers\<close>

text \<open>The packets a sender passes to one association, each with the random source of its turn.\<close>

fun send_run :: "crypto \<Rightarrow> security_association option \<Rightarrow>
    ((nat \<Rightarrow> bytes option) \<times> bytes \<times> byte) list \<Rightarrow> bytes list" where
  "send_run cr sap [] = []"
| "send_run cr sap ((rnd, pt, nh) # rest) =
     (case encapsulateTransport cr rnd pt sap nh of
        (Inl e, sap') \<Rightarrow> send_run cr sap' rest
      | (Inr out, sap') \<Rightarrow> out # send_run cr sap' rest)"

lemma encapsulate_seq:
  assumes e: "encapsulateTransport cr rnd pt (Some sa) nh = (r, sap')"
    and n: "unat (SequenceNumber sa) + 1 < 2 ^ 64" and enc: "EncryptionAlg sa \<noteq> None"
  obtains sa' where "sap' = Some sa'" "EncryptionAlg sa' = EncryptionAlg sa"
    "unat (SequenceNumber sa') = unat (SequenceNumber sa) + 1"
    "\<And>out. r = Inr out \<Longrightarrow> unat (get_u32 4 out) = unat (SequenceNumber sa) + 1"
proof -
  obtain en where en: "EncryptionAlg sa = Some en" using enc by auto
  let ?sa = "sa\<lparr>SequenceNumber := SequenceNumber sa + 1\<rparr>"
  have u: "unat (SequenceNumber sa + 1) = unat (SequenceNumber sa) + 1"
    using n by (simp add: unat_word_ariths)
  have "sap' = Some ?sa"
    using e en by (auto simp: encapsulateTransport_def NextSequenceNumber_def Let_def split: if_splits)
  moreover have "unat (get_u32 4 out) = unat (SequenceNumber sa) + 1" if r: "r = Inr out" for out
  proof -
    have le: "SequenceNumber sa + 1 \<le> 0xFFFFFFFF"
      using e en r by (auto simp: encapsulateTransport_def NextSequenceNumber_def Let_def split: if_splits)
    then have b: "unat (SequenceNumber sa + 1) < 2 ^ 32"
      by (simp add: word_le_nat_alt)
    obtain rest where "out = esp_header (SPI sa) (ucast (SequenceNumber sa + 1)) @ rest"
      using e en r le
      by (auto simp: encapsulateTransport_def NextSequenceNumber_def Let_def rbind_Inr_iff
          split: option.splits if_splits sum.splits)
    then have "get_u32 4 out = ucast (SequenceNumber sa + 1)"
      using parse_esp_header [of "SPI sa" "ucast (SequenceNumber sa + 1)" rest]
      by (simp add: parseESPSPISeq_def split: if_splits)
    then show ?thesis using b u by (simp add: unsigned_ucast_eq take_bit_nat_eq_self_iff)
  qed
  ultimately show thesis using that [of ?sa] u by simp
qed

lemma send_run_seqs:
  assumes "EncryptionAlg sa \<noteq> None" "unat (SequenceNumber sa) + length ps < 2 ^ 64"
  shows "sorted_wrt (<) (List.map (\<lambda>out. unat (get_u32 4 out)) (send_run cr (Some sa) ps)) \<and>
    (\<forall>out \<in> set (send_run cr (Some sa) ps). unat (SequenceNumber sa) < unat (get_u32 4 out))"
  using assms
proof (induction ps arbitrary: sa)
  case (Cons p ps)
  obtain rnd pt nh where p: "p = (rnd, pt, nh)" by (cases p)
  obtain r sap' where e: "encapsulateTransport cr rnd pt (Some sa) nh = (r, sap')"
    by (cases "encapsulateTransport cr rnd pt (Some sa) nh")
  have n: "unat (SequenceNumber sa) + 1 < 2 ^ 64" using Cons.prems(2) by simp
  obtain sa' where sa': "sap' = Some sa'" "EncryptionAlg sa' = EncryptionAlg sa"
    "unat (SequenceNumber sa') = unat (SequenceNumber sa) + 1"
    "\<And>out. r = Inr out \<Longrightarrow> unat (get_u32 4 out) = unat (SequenceNumber sa) + 1"
    using encapsulate_seq [OF e n Cons.prems(1)] by metis
  have "EncryptionAlg sa' \<noteq> None" "unat (SequenceNumber sa') + length ps < 2 ^ 64"
    using Cons.prems sa' by auto
  note ih = Cons.IH [OF this]
  show ?case using ih sa' by (cases r) (auto simp: p e)
qed simp_all

section \<open>Properties\<close>

text \<open>C9: Within one association, ESP sequence numbers strictly increase and are never 0, whatever
  packets are sent and however many encapsulations fail, as long as fewer than \<open>2 ^ 64\<close> are tried:
  no number is used twice before the association must be rekeyed.\<close>

theorem esp_sequence_increases:
  assumes "EncryptionAlg sa \<noteq> None" "SequenceNumber sa = 0" "length ps < 2 ^ 64"
  shows "sorted_wrt (<) (map (\<lambda>out. unat (get_u32 4 out)) (send_run cr (Some sa) ps)) \<and>
    (\<forall>out \<in> set (send_run cr (Some sa) ps). 0 < unat (get_u32 4 out))"
  using send_run_seqs [of sa ps cr] assms by simp

theorem esp_sequence_increases_witness:
  "sorted_wrt (<) (map (\<lambda>out. unat (get_u32 4 out))
     (send_run \<lparr>aes_encrypt = \<lambda>k b. b, aes_decrypt = \<lambda>k b. b, des3_encrypt = \<lambda>k b. b,
        des3_decrypt = \<lambda>k b. b, hmac_sha1 = \<lambda>k d. replicate 20 0, hmac_md5 = \<lambda>k d. replicate 16 0\<rparr>
       (Some (NewSecurityAssociationCBC 7 (Some NullEncrypter) [] (Some HMACMD5_96) []))
       [(\<lambda>n. Some (replicate n 0), [1, 2], 6), (\<lambda>n. None, [3], 6)]))"
  by (rule esp_sequence_increases [THEN conjunct1]) (simp_all add: NewSecurityAssociationCBC_def)

text \<open>C10: A packet is decapsulated only when it ends with the digest of everything before it under the
  association's integrity key.\<close>

theorem decapsulated_is_authentic:
  assumes "decapsulateTransport cr packet (Some sa) = Inr r"
    and "IntegrityAlg2 sa = Some alg" "\<not> IsAEAD sa"
  shows "\<exists>body. packet = body @ Compute cr alg (IntegrityKey sa) body \<and> 8 \<le> length body"
  by (rule decapsulate_authentic [OF assms])

theorem decapsulated_is_authentic_witness:
  "\<exists>body. [0, 0, 0, 7, 0, 0, 0, 1, 42, 0, 6, 0, 0, 0, 0, 0, 0, 0, 0, 0, 0, 0, 0] = body @
     Compute \<lparr>aes_encrypt = \<lambda>k b. b, aes_decrypt = \<lambda>k b. b, des3_encrypt = \<lambda>k b. b,
        des3_decrypt = \<lambda>k b. b, hmac_sha1 = \<lambda>k d. replicate 20 0, hmac_md5 = \<lambda>k d. replicate 16 0\<rparr>
       HMACMD5_96 (IntegrityKey (NewSecurityAssociationCBC 7 (Some NullEncrypter) [] (Some HMACMD5_96) [])) body \<and>
     8 \<le> length body"
  by (rule decapsulated_is_authentic [where r = "([42], 6)"])
    (simp_all add: NewSecurityAssociationCBC_def decapsulateTransport_def Verify_def slice_def
      strip_padding_def numeral_nat replicate_Suc Let_def)

end
