(* ===== verification/Transport.thy ===== *)
theory Transport
  imports Replay Fragments ESP
begin

text \<open>
  The userspace ESP transport of the SIP signalling flows (\<^verbatim>\<open>ipsec3gpp/transport.go\<close>):
  \<^verbatim>\<open>NewTransport\<close>, the outbound and inbound transforms, the flow selector and the counters.

  The code's map from inbound SPIs holds pointers into the slice of outbound flows; here it holds the
  index of the flow, so a change of a flow is seen through both.  The clock and the random source of
  an initialisation vector are arguments of a transform.
\<close>

section \<open>State\<close>

record transport_flow =
  tf_flow :: flow
  tf_sa :: security_association
  tf_replay :: "replay_window option"

record transport =
  outFragments :: reassembler
  inFragments :: reassembler
  t_policy :: policy
  outbound :: "transport_flow list"
  inbound :: "(u32 \<times> nat) list"
  outboundPackets :: u64
  inboundPackets :: u64
  passthroughPackets :: u64
  transformErrors :: u64
  lastSourcePort :: int
  lastDestinationPort :: int
  lastSourceIP :: "string option"
  lastDestinationIP :: "string option"

record transport_stats =
  st_OutboundPackets :: u64
  st_InboundPackets :: u64
  st_PassthroughPackets :: u64
  st_TransformErrors :: u64
  st_Replay :: replay_stats
  st_LastSourcePort :: int
  st_LastDestinationPort :: int
  st_LastSourceIP :: string
  st_LastDestinationIP :: string

datatype transport_error =
    TransportPairError pair_error
  | TransportKeyError key_error
  | UnsupportedCipher string
  | UnsupportedIntegrity string
  | TransportNil
  | EmptyIPPacket
  | TransportFragment frag_error
  | TransportPacket ip_error
  | ProtectedSourceMismatch
  | TransportESP esp_error
  | UnprotectedToProtectedPort
  | TransportSPI spi_error
  | UnknownInboundSPI u32
  | ReplayRejected
  | SelectorMismatch

section \<open>Construction\<close>

definition encrypterForFlow :: "string \<Rightarrow> transport_error + encrypter" where
  "encrypterForFlow encAlg =
     (let a = canonicalEncAlg encAlg
      in if a = ''aes-cbc'' then Inr (AESCBC 16)
         else if a = ''des-ede3-cbc'' then Inr TripleDESCBC
         else if a = ''null'' then Inr NullEncrypter
         else Inl (UnsupportedCipher encAlg))"

definition integrityForFlow :: "string \<Rightarrow> transport_error + integrity" where
  "integrityForFlow authAlg =
     (let a = canonicalAuthAlg authAlg
      in if a = ''hmac-sha-1-96'' then Inr HMACSHA1_96
         else if a = ''hmac-md5-96'' then Inr HMACMD5_96
         else Inl (UnsupportedIntegrity authAlg))"

definition newSAForFlow :: "flow \<Rightarrow> transport_error + security_association" where
  "newSAForFlow f =
     (case DeriveSecureChannelKeys f of Inl e \<Rightarrow> Inl (TransportKeyError e) | Inr ks \<Rightarrow>
       rbind (encrypterForFlow (EncAlg f)) (\<lambda>enc.
       rbind (integrityForFlow (AuthAlg f)) (\<lambda>integ.
         Inr (NewSecurityAssociationCBC (OutboundSPI f) (Some enc) (EncKey ks) (Some integ) (AuthKey ks)))))"

definition newTransportFlow :: "flow \<Rightarrow> transport_error + transport_flow" where
  "newTransportFlow f =
     rbind (newSAForFlow f) (\<lambda>sa.
       Inr \<lparr>tf_flow = f, tf_sa = sa, tf_replay = Some (NewReplayWindow default_replay_window_size)\<rparr>)"

definition NewTransport :: "policy \<Rightarrow> transport_error + transport" where
  "NewTransport pol =
     (case normalizeIPPair (LocalIP pol) (RemoteIP pol) of Inl e \<Rightarrow> Inl (TransportPairError e) | Inr _ \<Rightarrow>
       rbind (newTransportFlow (FlowC pol)) (\<lambda>outC.
       rbind (newTransportFlow (FlowS pol)) (\<lambda>outS.
         Inr \<lparr>outFragments = [], inFragments = [], t_policy = pol, outbound = [outC, outS],
           inbound = AList.update (InboundSPI (FlowS pol)) 1
             (AList.update (InboundSPI (FlowC pol)) 0 []),
           outboundPackets = 0, inboundPackets = 0, passthroughPackets = 0, transformErrors = 0,
           lastSourcePort = 0, lastDestinationPort = 0, lastSourceIP = None, lastDestinationIP = None\<rparr>)))"

section \<open>Transforms\<close>

definition tcp_or_udp :: "byte \<Rightarrow> bool" where
  "tcp_or_udp proto \<longleftrightarrow> proto = ipProtoTCP \<or> proto = ipProtoUDP"

text \<open>The loop of \<^verbatim>\<open>matchOutbound\<close> over the flows from index \<^term>\<open>i\<close> on.\<close>

fun match_from :: "policy \<Rightarrow> parsedIPPacket \<Rightarrow> nat \<Rightarrow> transport_flow list \<Rightarrow> nat option" where
  "match_from pol parsed i [] = None"
| "match_from pol parsed i (f # fs) =
     (if \<not> ipEqual (ip_src parsed) (LocalIP pol) \<or> \<not> ipEqual (ip_dst parsed) (RemoteIP pol)
      then match_from pol parsed (Suc i) fs
      else if int (srcPort parsed) \<noteq> LocalPort (tf_flow f) \<or> int (dstPort parsed) \<noteq> RemotePort (tf_flow f)
      then match_from pol parsed (Suc i) fs
      else Some i)"

definition matchOutbound :: "transport \<Rightarrow> parsedIPPacket \<Rightarrow> nat option" where
  "matchOutbound t parsed =
     (if \<not> tcp_or_udp (nextHeader parsed) then None
      else match_from (t_policy t) parsed 0 (outbound t))"

definition count_error :: "transport \<Rightarrow> transport" where
  "count_error t = t\<lparr>transformErrors := transformErrors t + 1\<rparr>"

definition set_sa :: "nat \<Rightarrow> security_association option \<Rightarrow> transport \<Rightarrow> transport" where
  "set_sa i sap t = (case sap of None \<Rightarrow> t
     | Some sa \<Rightarrow> t\<lparr>outbound := (outbound t)[i := (outbound t ! i)\<lparr>tf_sa := sa\<rparr>]\<rparr>)"

definition set_replay :: "nat \<Rightarrow> replay_window option \<Rightarrow> transport \<Rightarrow> transport" where
  "set_replay i w t = t\<lparr>outbound := (outbound t)[i := (outbound t ! i)\<lparr>tf_replay := w\<rparr>]\<rparr>"

definition pass_outbound :: "parsedIPPacket \<Rightarrow> transport \<Rightarrow> transport" where
  "pass_outbound parsed t = t\<lparr>lastSourcePort := int (srcPort parsed),
     lastDestinationPort := int (dstPort parsed), lastSourceIP := Some (ip_string (ip_src parsed)),
     lastDestinationIP := Some (ip_string (ip_dst parsed)),
     passthroughPackets := passthroughPackets t + 1\<rparr>"

text \<open>\<^verbatim>\<open>TransformOutbound\<close> after reassembly, for one whole packet.\<close>

definition outbound_whole ::
    "crypto \<Rightarrow> (nat \<Rightarrow> bytes option) \<Rightarrow> bytes \<Rightarrow> transport \<Rightarrow> (transport_error + bytes option) \<times> transport" where
  "outbound_whole cr rnd packet t =
     (case parseIPPacket packet of Inl e \<Rightarrow> (Inl (TransportPacket e), count_error t) | Inr parsed \<Rightarrow>
      case matchOutbound t parsed of
        None \<Rightarrow>
          if tcp_or_udp (nextHeader parsed) \<and> ipEqual (ip_src parsed) (LocalIP (t_policy t)) \<and>
             list_ex (\<lambda>f. int (srcPort parsed) = LocalPort (tf_flow f)) (outbound t)
          then (Inl ProtectedSourceMismatch, t)
          else (Inr (Some packet), pass_outbound parsed t)
      | Some i \<Rightarrow>
          (case encapsulateTransport cr rnd (transportPayload parsed) (Some (tf_sa (outbound t ! i)))
                  (nextHeader parsed) of
             (Inl e, sap) \<Rightarrow> (Inl (TransportESP e), count_error (set_sa i sap t))
           | (Inr esp, sap) \<Rightarrow>
               (let t' = set_sa i sap t in
                case replaceIPPayload (ip_header parsed) esp ipProtoESP of
                  Inl e \<Rightarrow> (Inl (TransportPacket e), count_error t')
                | Inr out \<Rightarrow> (Inr (Some out), t'\<lparr>outboundPackets := outboundPackets t' + 1\<rparr>))))"

definition TransformOutbound ::
    "crypto \<Rightarrow> (nat \<Rightarrow> bytes option) \<Rightarrow> int \<Rightarrow> bytes \<Rightarrow> transport option \<Rightarrow>
     (transport_error + bytes option) \<times> transport option" where
  "TransformOutbound cr rnd now packet tp =
     (case tp of None \<Rightarrow> (Inl TransportNil, None) | Some t \<Rightarrow>
      if packet = [] then (Inl EmptyIPPacket, Some t)
      else case process now (outFragments t) packet of (r, frags) \<Rightarrow>
        let t' = t\<lparr>outFragments := frags\<rparr>
        in case r of
          Inl e \<Rightarrow> (Inl (TransportFragment e), Some t')
        | Inr None \<Rightarrow> (Inr None, Some t')
        | Inr (Some whole) \<Rightarrow> map_prod (\<lambda>x. x) Some (outbound_whole cr rnd whole t'))"

text \<open>The selector an authenticated packet must match.\<close>

definition selector_bad :: "policy \<Rightarrow> flow \<Rightarrow> parsedIPPacket \<Rightarrow> bytes \<Rightarrow> byte \<Rightarrow> bool" where
  "selector_bad pol f parsed plain proto \<longleftrightarrow>
     \<not> tcp_or_udp proto \<or> length plain < 4 \<or> \<not> ipEqual (ip_src parsed) (RemoteIP pol) \<or>
     \<not> ipEqual (ip_dst parsed) (LocalIP pol) \<or> int (unat (get_u16 0 plain)) \<noteq> RemotePort f \<or>
     int (unat (get_u16 2 plain)) \<noteq> LocalPort f"

text \<open>\<^verbatim>\<open>TransformInbound\<close> for an ESP packet of a known SPI: \<^term>\<open>i\<close> is the index of its flow.\<close>

definition inbound_esp ::
    "crypto \<Rightarrow> parsedIPPacket \<Rightarrow> u32 \<Rightarrow> u32 \<Rightarrow> nat \<Rightarrow> transport \<Rightarrow>
     (transport_error + bytes option) \<times> transport" where
  "inbound_esp cr parsed spi seq i t =
     (let f = outbound t ! i in
      case Check (tf_replay f) seq of (fresh, w) \<Rightarrow>
      let t1 = set_replay i w t
      in if \<not> fresh then (Inl ReplayRejected, count_error t1)
         else case decapsulateTransport cr (transportPayload parsed) (cloneSAForInbound (Some (tf_sa f)) spi) of
           Inl e \<Rightarrow> (Inl (TransportESP e), count_error t1)
         | Inr (plain, proto) \<Rightarrow>
             if selector_bad (t_policy t) (tf_flow f) parsed plain proto then (Inl SelectorMismatch, t1)
             else case Accept w seq of (accepted, w') \<Rightarrow>
               let t2 = set_replay i w' t1
               in if \<not> accepted then (Inl ReplayRejected, t2)
                  else case replaceIPPayload (ip_header parsed) plain proto of
                    Inl e \<Rightarrow> (Inl (TransportPacket e), count_error t2)
                  | Inr out \<Rightarrow> (Inr (Some out), t2\<lparr>inboundPackets := inboundPackets t2 + 1\<rparr>))"

definition inbound_whole ::
    "crypto \<Rightarrow> bytes \<Rightarrow> transport \<Rightarrow> (transport_error + bytes option) \<times> transport" where
  "inbound_whole cr packet t =
     (case parseIPPacket packet of Inl e \<Rightarrow> (Inl (TransportPacket e), count_error t) | Inr parsed \<Rightarrow>
      if nextHeader parsed \<noteq> ipProtoESP then
        if tcp_or_udp (nextHeader parsed) \<and> ipEqual (ip_dst parsed) (LocalIP (t_policy t)) \<and>
           list_ex (\<lambda>f. int (dstPort parsed) = LocalPort (tf_flow f)) (outbound t)
        then (Inl UnprotectedToProtectedPort, t)
        else (Inr (Some packet), t\<lparr>passthroughPackets := passthroughPackets t + 1\<rparr>)
      else case parseESPSPISeq (transportPayload parsed) of
        Inl e \<Rightarrow> (Inl (TransportSPI e), count_error t)
      | Inr (spi, seq) \<Rightarrow>
          (case map_of (inbound t) spi of
             None \<Rightarrow> (Inl (UnknownInboundSPI spi), count_error t)
           | Some i \<Rightarrow> inbound_esp cr parsed spi seq i t))"

definition TransformInbound ::
    "crypto \<Rightarrow> int \<Rightarrow> bytes \<Rightarrow> transport option \<Rightarrow> (transport_error + bytes option) \<times> transport option" where
  "TransformInbound cr now packet tp =
     (case tp of None \<Rightarrow> (Inl TransportNil, None) | Some t \<Rightarrow>
      if packet = [] then (Inl EmptyIPPacket, Some t)
      else case process now (inFragments t) packet of (r, frags) \<Rightarrow>
        let t' = t\<lparr>inFragments := frags\<rparr>
        in case r of
          Inl e \<Rightarrow> (Inl (TransportFragment e), Some t')
        | Inr None \<Rightarrow> (Inr None, Some t')
        | Inr (Some whole) \<Rightarrow> map_prod (\<lambda>x. x) Some (inbound_whole cr whole t'))"

definition add_stats :: "replay_stats \<Rightarrow> replay_stats \<Rightarrow> replay_stats" where
  "add_stats a b = \<lparr>Accepted = Accepted a + Accepted b, Duplicate = Duplicate a + Duplicate b,
     TooOld = TooOld a + TooOld b\<rparr>"

definition Stats :: "transport option \<Rightarrow> transport_stats" where
  "Stats tp = (case tp of
     None \<Rightarrow> \<lparr>st_OutboundPackets = 0, st_InboundPackets = 0, st_PassthroughPackets = 0,
       st_TransformErrors = 0, st_Replay = zero_stats, st_LastSourcePort = 0,
       st_LastDestinationPort = 0, st_LastSourceIP = [], st_LastDestinationIP = []\<rparr>
   | Some t \<Rightarrow> \<lparr>st_OutboundPackets = outboundPackets t, st_InboundPackets = inboundPackets t,
       st_PassthroughPackets = passthroughPackets t, st_TransformErrors = transformErrors t,
       st_Replay = foldl (\<lambda>acc (spi, i). add_stats acc (Snapshot (tf_replay (outbound t ! i)))) zero_stats (inbound t),
       st_LastSourcePort = lastSourcePort t, st_LastDestinationPort = lastDestinationPort t,
       st_LastSourceIP = (case lastSourceIP t of None \<Rightarrow> [] | Some s \<Rightarrow> s),
       st_LastDestinationIP = (case lastDestinationIP t of None \<Rightarrow> [] | Some s \<Rightarrow> s)\<rparr>)"

section \<open>No packet is delivered twice\<close>

definition tr_inv :: "transport \<Rightarrow> bool" where
  "tr_inv t \<longleftrightarrow> (\<forall>(spi, i) \<in> set (inbound t). i < length (outbound t)) \<and>
     (\<forall>f \<in> set (outbound t). rw_ok (tf_replay f))"

definition spent_id :: "transport \<Rightarrow> u32 \<times> u32 \<Rightarrow> bool" where
  "spent_id t ident \<longleftrightarrow> (case map_of (inbound t) (fst ident) of None \<Rightarrow> False
     | Some i \<Rightarrow> dead (tf_replay (outbound t ! i)) (snd ident))"

text \<open>The SPI and sequence number of the ESP packet a received packet carries or completes.\<close>

definition whole_ident :: "bytes \<Rightarrow> (u32 \<times> u32) option" where
  "whole_ident whole = (case parseIPPacket whole of Inl _ \<Rightarrow> None | Inr parsed \<Rightarrow>
     if nextHeader parsed \<noteq> ipProtoESP then None
     else case parseESPSPISeq (transportPayload parsed) of Inl _ \<Rightarrow> None | Inr ident \<Rightarrow> Some ident)"

definition delivered :: "'e + bytes option \<Rightarrow> bool" where
  "delivered r \<longleftrightarrow> (case r of Inr (Some _) \<Rightarrow> True | _ \<Rightarrow> False)"

definition rx_step :: "crypto \<Rightarrow> transport \<Rightarrow> int \<times> bytes \<Rightarrow> (u32 \<times> u32) option \<times> transport" where
  "rx_step cr t np = (case np of (now, packet) \<Rightarrow>
     let r = TransformInbound cr now packet (Some t)
     in (if delivered (fst r) then
           (case fst (process now (inFragments t) packet) of
              Inr (Some whole) \<Rightarrow> whole_ident whole | _ \<Rightarrow> None)
         else None,
         the (snd r)))"

lemma set_replay_simps [simp]:
  "inbound (set_replay i w t) = inbound t" "t_policy (set_replay i w t) = t_policy t"
  "length (outbound (set_replay i w t)) = length (outbound t)"
  "i < length (outbound t) \<Longrightarrow> outbound (set_replay i w t) ! j =
     (if i = j then (outbound t ! i)\<lparr>tf_replay := w\<rparr> else outbound t ! j)"
  by (auto simp: set_replay_def)

lemma count_error_simps [simp]:
  "inbound (count_error t) = inbound t" "outbound (count_error t) = outbound t"
  "t_policy (count_error t) = t_policy t"
  by (simp_all add: count_error_def)

text \<open>The outcome of an ESP packet: either the window is only checked, or the packet is fresh and its
  number is spent.\<close>

lemma inbound_esp_cases:
  assumes i: "i < length (outbound t)"
    and e: "inbound_esp cr parsed spi seq i t = (r, t')"
  obtains
    (checked) "\<not> delivered r" "inbound t' = inbound t" "t_policy t' = t_policy t"
      "outbound t' = outbound (set_replay i (snd (Check (tf_replay (outbound t ! i)) seq)) t)"
  | (accepted) "inbound t' = inbound t" "t_policy t' = t_policy t"
      "fst (Check (tf_replay (outbound t ! i)) seq)"
      "outbound t' = outbound (set_replay i
         (snd (Accept (snd (Check (tf_replay (outbound t ! i)) seq)) seq)) t)"
proof -
  let ?w = "tf_replay (outbound t ! i)"
  have twice: "outbound (set_replay i w' (set_replay i w t)) = outbound (set_replay i w' t)" for w w'
    by (simp add: set_replay_def i)
  obtain fresh w where ck: "Check ?w seq = (fresh, w)" by (cases "Check ?w seq")
  obtain ac w' where ac: "Accept w seq = (ac, w')" by (cases "Accept w seq")
  show thesis
  proof (cases "fresh \<and> (\<exists>plain proto. decapsulateTransport cr (transportPayload parsed)
      (cloneSAForInbound (Some (tf_sa (outbound t ! i))) spi) = Inr (plain, proto) \<and>
      \<not> selector_bad (t_policy t) (tf_flow (outbound t ! i)) parsed plain proto)")
    case False
    then have "\<not> delivered r \<and> inbound t' = inbound t \<and> t_policy t' = t_policy t \<and>
        outbound t' = outbound (set_replay i w t)"
      using e by (auto simp: inbound_esp_def Let_def ck delivered_def split: sum.splits if_splits prod.splits)
    then show thesis using checked by (simp add: ck)
  next
    case True
    then have "inbound t' = inbound t \<and> t_policy t' = t_policy t \<and>
        outbound t' = outbound (set_replay i w' t)"
      using e by (auto simp: inbound_esp_def Let_def ck ac twice split: sum.splits if_splits prod.splits)
    then show thesis using accepted True by (simp add: ck ac)
  qed
qed

lemma spent_set_replay:
  assumes "map_of (inbound t) spi = Some i" "i < length (outbound t)" "inbound t' = inbound t"
    "outbound t' = outbound (set_replay i w t)" "\<forall>(s, j) \<in> set (inbound t). j < length (outbound t)"
    "\<And>q. dead (tf_replay (outbound t ! i)) q \<Longrightarrow> dead w q"
  shows "spent_id t x \<Longrightarrow> spent_id t' x"
  using assms by (auto simp: spent_id_def split: option.splits)

lemma tr_inv_set_replay:
  assumes "tr_inv t" "i < length (outbound t)" "rw_ok w" "inbound t' = inbound t"
    "outbound t' = outbound (set_replay i w t)"
  shows "tr_inv t'"
  using assms by (auto simp: tr_inv_def set_replay_def dest!: set_update_subset_insert [THEN subsetD])

lemma inbound_whole_step:
  assumes inv: "tr_inv t" and e: "inbound_whole cr whole t = (r, t')"
  shows "tr_inv t'" "spent_id t x \<Longrightarrow> spent_id t' x" "t_policy t' = t_policy t"
    "delivered r \<Longrightarrow> whole_ident whole = Some ident \<Longrightarrow> \<not> spent_id t ident \<and> spent_id t' ident"
proof -
  have frame: "tr_inv t' \<and> (spent_id t x \<longrightarrow> spent_id t' x) \<and> t_policy t' = t_policy t"
    if "inbound t' = inbound t" "outbound t' = outbound t" "t_policy t' = t_policy t"
    using inv that by (simp add: tr_inv_def spent_id_def split: option.splits)
  have "tr_inv t' \<and> (spent_id t x \<longrightarrow> spent_id t' x) \<and> t_policy t' = t_policy t \<and>
    (delivered r \<longrightarrow> whole_ident whole = Some ident \<longrightarrow> \<not> spent_id t ident \<and> spent_id t' ident)"
  proof (cases "\<exists>parsed spi seq i. parseIPPacket whole = Inr parsed \<and> nextHeader parsed = ipProtoESP \<and>
      parseESPSPISeq (transportPayload parsed) = Inr (spi, seq) \<and> map_of (inbound t) spi = Some i")
    case False
    then have "inbound t' = inbound t \<and> outbound t' = outbound t \<and> t_policy t' = t_policy t \<and>
        (delivered r \<longrightarrow> whole_ident whole = None)"
      using e by (auto simp: inbound_whole_def whole_ident_def delivered_def
          split: sum.splits if_splits option.splits prod.splits)
    with frame show ?thesis by auto
  next
    case True
    then obtain parsed spi seq i where p: "parseIPPacket whole = Inr parsed"
      "nextHeader parsed = ipProtoESP" "parseESPSPISeq (transportPayload parsed) = Inr (spi, seq)"
      "map_of (inbound t) spi = Some i" by blast
    have bound: "\<forall>(s, j) \<in> set (inbound t). j < length (outbound t)" using inv by (simp add: tr_inv_def)
    then have i: "i < length (outbound t)" using map_of_SomeD [OF p(4)] by auto
    let ?w = "tf_replay (outbound t ! i)"
    have w: "rw_ok ?w" using inv i by (simp add: tr_inv_def)
    have ident: "whole_ident whole = Some (spi, seq)" by (simp add: whole_ident_def p)
    have "inbound_esp cr parsed spi seq i t = (r, t')"
      using e by (simp add: inbound_whole_def p)
    then show ?thesis
    proof (cases rule: inbound_esp_cases [OF i, consumes 1, case_names checked accepted])
      case checked
      have "tr_inv t'" by (rule tr_inv_set_replay [OF inv i Check_ok [OF w] checked(2,4)])
      moreover have "spent_id t x \<longrightarrow> spent_id t' x"
        using spent_set_replay [OF p(4) i checked(2,4) bound] by simp
      ultimately show ?thesis using checked by simp
    next
      case accepted
      let ?c = "snd (Check ?w seq)"
      have c: "?c = ?w" using accepted(3) by (rule Check_passes_frame)
      have fresh: "\<not> dead ?w seq" using accepted(3) w by (simp add: Check_iff)
      note o = accepted(4) [unfolded c]
      have "tr_inv t'" by (rule tr_inv_set_replay [OF inv i Accept_ok [OF w] accepted(1) o])
      moreover have "spent_id t x \<longrightarrow> spent_id t' x"
        using spent_set_replay [OF p(4) i accepted(1) o bound, of x] rw.accept_mono [OF w] by blast
      moreover have "\<not> spent_id t (spi, seq)" using fresh by (simp add: spent_id_def p(4))
      moreover have "spent_id t' (spi, seq)"
        using rw.accept_spends [OF w, of seq] i by (simp add: spent_id_def accepted(1) p(4) o)
      ultimately show ?thesis using accepted(2) ident by auto
    qed
  qed
  then show "tr_inv t'" "spent_id t x \<Longrightarrow> spent_id t' x" "t_policy t' = t_policy t"
    "delivered r \<Longrightarrow> whole_ident whole = Some ident \<Longrightarrow> \<not> spent_id t ident \<and> spent_id t' ident"
    by auto
qed

lemma frags_frame [simp]: "tr_inv (t\<lparr>inFragments := fs\<rparr>) = tr_inv t"
  "spent_id (t\<lparr>inFragments := fs\<rparr>) = spent_id t"
  "tr_inv (t\<lparr>outFragments := fs\<rparr>) = tr_inv t" "spent_id (t\<lparr>outFragments := fs\<rparr>) = spent_id t"
  by (simp_all add: tr_inv_def spent_id_def fun_eq_iff split: option.splits)

lemma TransformInbound_cases:
  obtains
    (same) "\<not> delivered (fst (TransformInbound cr now packet (Some t)))"
      "\<exists>fs. snd (TransformInbound cr now packet (Some t)) = Some (t\<lparr>inFragments := fs\<rparr>)"
  | (whole) whole fs r t' where "process now (inFragments t) packet = (Inr (Some whole), fs)"
      "inbound_whole cr whole (t\<lparr>inFragments := fs\<rparr>) = (r, t')"
      "TransformInbound cr now packet (Some t) = (r, Some t')"
proof (cases "packet = []")
  case True
  then have e: "snd (TransformInbound cr now packet (Some t)) = Some (t\<lparr>inFragments := inFragments t\<rparr>)"
    by (simp add: TransformInbound_def)
  have "\<not> delivered (fst (TransformInbound cr now packet (Some t)))"
    using True by (simp add: TransformInbound_def delivered_def)
  then show thesis using e same by blast
next
  case False
  obtain r fs where p: "process now (inFragments t) packet = (r, fs)"
    by (cases "process now (inFragments t) packet")
  show thesis
  proof (cases "\<exists>whole. r = Inr (Some whole)")
    case True
    then obtain whole where "r = Inr (Some whole)" by blast
    then show thesis
      using whole [of whole fs] p False
      by (cases "inbound_whole cr whole (t\<lparr>inFragments := fs\<rparr>)") (simp add: TransformInbound_def Let_def)
  next
    case nw: False
    then have "TransformInbound cr now packet (Some t) =
        ((case r of Inl e \<Rightarrow> Inl (TransportFragment e) | Inr _ \<Rightarrow> Inr None),
         Some (t\<lparr>inFragments := fs\<rparr>))"
      using False p by (auto simp: TransformInbound_def split: sum.splits option.splits)
    moreover have "\<not> delivered (case r of Inl e \<Rightarrow> Inl (TransportFragment e) | Inr _ \<Rightarrow> Inr None)"
      by (simp add: delivered_def split: sum.splits)
    ultimately show thesis by (intro same) auto
  qed
qed

interpretation rx: exactly_once "rx_step cr" spent_id tr_inv for cr
proof
  fix t :: transport and p :: "int \<times> bytes" and ident :: "u32 \<times> u32"
  assume inv: "tr_inv t"
  obtain now packet where p: "p = (now, packet)" by (cases p)
  have "tr_inv (snd (rx_step cr t p)) \<and> (spent_id t ident \<longrightarrow> spent_id (snd (rx_step cr t p)) ident) \<and>
    (fst (rx_step cr t p) = Some ident \<longrightarrow> \<not> spent_id t ident \<and> spent_id (snd (rx_step cr t p)) ident)"
  proof (cases rule: TransformInbound_cases [of cr now packet t])
    case same
    then show ?thesis using inv by (auto simp: rx_step_def p Let_def)
  next
    case (whole whole fs r t')
    have "tr_inv (t\<lparr>inFragments := fs\<rparr>)" using inv by simp
    note st = inbound_whole_step [OF this whole(2)]
    show ?thesis
      using st(1) st(2) [of ident] st(4) [of ident]
      by (auto simp: rx_step_def p Let_def whole(1,3) split: if_splits)
  qed
  then show "tr_inv (snd (rx_step cr t p))" "spent_id t ident \<Longrightarrow> spent_id (snd (rx_step cr t p)) ident"
    "fst (rx_step cr t p) = Some ident \<Longrightarrow> \<not> spent_id t ident"
    "fst (rx_step cr t p) = Some ident \<Longrightarrow> spent_id (snd (rx_step cr t p)) ident"
    by auto
qed

lemma NewTransport_inv: "NewTransport pol = Inr t \<Longrightarrow> tr_inv t"
  using NewReplayWindow_ok [of default_replay_window_size, simplified]
  by (auto simp: NewTransport_def rbind_Inr_iff newTransportFlow_def tr_inv_def
      split: sum.splits if_splits)

end
