(* ===== verification/Register_Flow.thy ===== *)
theory Register_Flow
  imports Registrars Transport
begin

text \<open>
  The REGISTER exchange of one attempt (\<^verbatim>\<open>imscore/register_session.go\<close>, \<^verbatim>\<open>register.go\<close>,
  \<^verbatim>\<open>sec_agree_decision.go\<close>, \<^verbatim>\<open>register_initial_security.go\<close>, \<^verbatim>\<open>reregister_policy.go\<close>): the
  security decisions, the installation of the security associations, the requests and the phases of the
  exchange.

  The SIP library, the digest library, the SIM card and the network are the fields of
  \<^verbatim>\<open>register_env\<close>: requests are values of a type \<^typ>\<open>'q\<close> with the operations the code calls, the
  network with the card and the random source is a state \<^typ>\<open>'n\<close>.  Errors carry what the code puts in
  their text.  The release of connections and listeners and the log calls are left out.
\<close>

section \<open>Environment and state\<close>

record digest_challenge =
  ChallengeAlgorithm :: string
  ChallengeRealm :: string
  ChallengeNonce :: string

record aka_result =
  aka_CK :: bytes
  aka_IK :: bytes
  aka_AUTS :: bytes

datatype flow_error =
  MissingResponse | UnexpectedInitialStatus int | SecAgreeServerMissing | MissingSecurityClient
| MissingSecurityServer int | SecurityHeaderError header_error | InvalidIPSecRemote string string
| FlowPolicyError policy_error | FlowTransportError transport_error
| NoAuthenticateHeader int | ChallengeUnparsable | OrdinaryMD5 | AKAFailed string | NetworkFailed string
| MissingPreviousRequest | AuthenticatedFailed int string string | UnexpectedChallenged int string
| MD5Rejected | StillChallenged string | RegistrarAttempt string int string | InvalidHomeDomain
| UnsupportedRetryAfter | VariantsExhausted | EAPDirectRefused

record ('q, 'n) register_env =
  NewRegister :: "string \<Rightarrow> 'q option"
  RemoveHeader :: "string \<Rightarrow> 'q \<Rightarrow> 'q"
  AppendHeader :: "string \<Rightarrow> string \<Rightarrow> 'q \<Rightarrow> 'q"
  PrependHeader :: "string \<Rightarrow> string \<Rightarrow> 'q \<Rightarrow> 'q"
  SetDestination :: "string \<Rightarrow> 'q \<Rightarrow> 'q"
  SetTransport :: "string \<Rightarrow> 'q \<Rightarrow> 'q"
  RequestHeader :: "'q \<Rightarrow> string \<Rightarrow> string option"
  ParseChallenge :: "string \<Rightarrow> digest_challenge option"
  AKADigest :: "digest_challenge \<Rightarrow> 'q \<Rightarrow> 'n \<Rightarrow> (flow_error + aka_result \<times> string) \<times> 'n"
  EAPDirect :: "ims_config \<Rightarrow> flow_error + string"
  RandomToken :: "'n \<Rightarrow> string \<times> 'n"
  RandomPort :: "'n \<Rightarrow> int \<times> 'n"
  RandomCSeq :: "'n \<Rightarrow> u32 \<times> 'n"
  Wait :: "int \<Rightarrow> 'n \<Rightarrow> bool \<times> 'n"
  Exchange :: "'q \<Rightarrow> 'n \<Rightarrow> (flow_error + sip_response) \<times> 'n"
  SecureExchange :: "transport \<Rightarrow> 'q \<Rightarrow> 'n \<Rightarrow> (flow_error + sip_response) \<times> 'n"

record register_state =
  rs_spiC :: u32
  rs_spiS :: u32
  rs_portC :: int
  rs_portS :: int
  rs_ck :: bytes
  rs_ik :: bytes
  sipInstance :: string
  rs_policy :: "policy option"
  rs_transport :: "transport option"
  verifyHeader :: string

datatype register_phase = PhaseInitial | PhaseAuth | PhaseSecure

record session =
  s_state :: register_state
  phase :: register_phase
  initial500Retried :: bool
  callID :: string
  s_cseq :: u32
  s_localPort :: int
  transportMode :: string

text \<open>\<^verbatim>\<open>registered_over\<close> is the transport of the secure connection that carried the registration, and
  \<^term>\<open>None\<close> when there is none.\<close>

record 'q register_result =
  registered_request :: 'q
  registered_expires :: int
  registered_verify :: string
  registered_msisdn :: string
  registered_over :: "transport option"

section \<open>Decisions\<close>

record sec_agree_decision =
  installIPSec :: bool
  requireVerify :: bool
  missingSecClient :: bool
  decision_reason :: string

definition sec_decision :: "bool \<Rightarrow> bool \<Rightarrow> bool \<Rightarrow> string \<Rightarrow> sec_agree_decision" where
  "sec_decision install verify missing reason =
     \<lparr>installIPSec = install, requireVerify = verify, missingSecClient = missing, decision_reason = reason\<rparr>"

definition has_security_server :: "sip_response \<Rightarrow> bool" where
  "has_security_server res \<longleftrightarrow>
     (case GetHeader res ''Security-Server'' of None \<Rightarrow> False | Some v \<Rightarrow> TrimSpace v \<noteq> [])"

definition decideSecAgreeAfterChallenge ::
  "ims_config \<Rightarrow> sip_response option \<Rightarrow> sec_agree_decision \<times> flow_error option" where
  "decideSecAgreeAfterChallenge cfg res =
     (case res of
        None \<Rightarrow> (sec_decision False False False [], Some MissingResponse)
      | Some r \<Rightarrow>
          if \<not> secAgreeEnabled (Template cfg) then (sec_decision False False False ''sec_agree_disabled'', None)
          else if \<not> has_security_server r then
            (if secAgreeRequired (Template cfg)
             then (sec_decision False True False ''security_server_missing_required'', Some SecAgreeServerMissing)
             else (sec_decision False False False ''security_server_missing_auto_disable'', None))
          else if securityClientMechanismCount (Template cfg) = 0
          then (sec_decision False False True ''missing_security_client_when_sec_agree_enabled'', Some MissingSecurityClient)
          else (sec_decision True True False ''security_server_offer_selected'', None))"

record initial_decision =
  accept :: bool
  requireIPSec :: bool
  plainOK :: bool
  securityServer :: bool
  initial_reason :: string

definition decideInitialRegisterSuccessSecurity ::
  "ims_config \<Rightarrow> sip_response option \<Rightarrow> flow_error + initial_decision" where
  "decideInitialRegisterSuccessSecurity cfg res =
     (case res of
        None \<Rightarrow> Inl MissingResponse
      | Some r \<Rightarrow>
          if StatusCode r \<noteq> 200 then Inl (UnexpectedInitialStatus (StatusCode r))
          else let hasServer = has_security_server r; secAgree = secAgreeEnabled (Template cfg)
          in if hasServer \<and> secAgree then
               Inr \<lparr>accept = True, requireIPSec = True, plainOK = False, securityServer = True,
                 initial_reason = ''initial_200_security_server_without_ipsec_install_required''\<rparr>
             else if hasServer \<and> \<not> secAgree then
               Inr \<lparr>accept = True, requireIPSec = False, plainOK = False, securityServer = True,
                 initial_reason = ''initial_200_security_server_ignored_without_ipsec_install''\<rparr>
             else if \<not> hasServer \<and> secAgree then
               (if secAgreeRequired (Template cfg) then Inl SecAgreeServerMissing
                else Inr \<lparr>accept = True, requireIPSec = False, plainOK = True, securityServer = False,
                  initial_reason = ''initial_200_without_security_server_auto_plain''\<rparr>)
             else Inr \<lparr>accept = True, requireIPSec = False, plainOK = True, securityServer = False,
                 initial_reason = ''initial_200_plain''\<rparr>)"

definition buildSecurityVerifyFromChallenge ::
  "'f float_ops \<Rightarrow> ims_config \<Rightarrow> sip_response \<Rightarrow> flow_error + string \<times> 'f security_offer" where
  "buildSecurityVerifyFromChallenge f cfg res =
     (case GetHeader res ''Security-Server'' of
        None \<Rightarrow> Inl (MissingSecurityServer (StatusCode res))
      | Some v \<Rightarrow>
          if TrimSpace v = [] then Inl (MissingSecurityServer (StatusCode res))
          else case ParseSecurityServer f v of
            Inl e \<Rightarrow> Inl (SecurityHeaderError e)
          | Inr offers \<Rightarrow>
              (case SelectSecurityServerOffer f offers (SecurityClientMechanisms (Template cfg))
                      (StrictSecurityServerOffer (Template cfg)) of
                 Inl e \<Rightarrow> Inl (SecurityHeaderError e)
               | Inr selected \<Rightarrow>
                   let verify = TrimSpace v
                   in Inr (if verify = [] then BuildSecurityVerify f selected else verify, selected)))"

definition offer_mechanism :: "'f security_offer \<Rightarrow> security_mechanism" where
  "offer_mechanism offer = \<lparr>Alg = OfferAlg offer, EAlg = OfferEAlg offer, Prot = OfferProt offer,
     Mode = OfferMode offer, SPIc = SPIC offer, SPIs = SPIS offer, PortC = OfferPortC offer,
     PortS = OfferPortS offer, Raw = []\<rparr>"

definition offer_policy_input ::
  "ims_config \<Rightarrow> register_state \<Rightarrow> bytes \<Rightarrow> 'f security_offer \<Rightarrow> policy_input" where
  "offer_policy_input cfg st rip selected =
     \<lparr>in_LocalIP = (if CfgLocalIP cfg = [] then None else Some (CfgLocalIP cfg)), in_RemoteIP = Some rip,
      in_Mech = offer_mechanism selected, in_LocalSPIC = rs_spiC st, in_LocalSPIS = rs_spiS st,
      in_LocalPortC = rs_portC st, in_LocalPortS = rs_portS st, in_CK = rs_ck st, in_IK = rs_ik st,
      in_AuthAlg = [], in_EncAlg = []\<rparr>"

text \<open>The state after an error keeps what was assigned before it.\<close>

definition installIPSecFromChallenge ::
  "'f float_ops \<Rightarrow> ims_config \<Rightarrow> sip_response \<Rightarrow> register_state \<Rightarrow> flow_error option \<times> register_state" where
  "installIPSecFromChallenge f cfg res st =
     (case buildSecurityVerifyFromChallenge f cfg res of
        Inl e \<Rightarrow> (Some e, st)
      | Inr (verify, selected) \<Rightarrow>
          let st1 = st\<lparr>verifyHeader := verify\<rparr>
          in case effectiveIPSecRemoteIP cfg of
               None \<Rightarrow> (Some (InvalidIPSecRemote (PCSCFAddr cfg) (effectiveTransportAddr cfg)), st1)
             | Some rip \<Rightarrow>
                 (case NewPolicy (offer_policy_input cfg st1 rip selected) of
                    Inl e \<Rightarrow> (Some (FlowPolicyError e), st1)
                  | Inr pol \<Rightarrow>
                      let st2 = st1\<lparr>rs_portC := LocalPortC pol, rs_portS := LocalPortS pol\<rparr>
                      in case NewTransport pol of
                           Inl e \<Rightarrow> (Some (FlowTransportError e), st2)
                         | Inr t \<Rightarrow> (None, st2\<lparr>rs_policy := Some pol, rs_transport := Some t\<rparr>)))"

section \<open>Challenges\<close>

definition selectDigestChallenge ::
  "('q, 'n) register_env \<Rightarrow> sip_response \<Rightarrow> flow_error + digest_challenge" where
  "selectDigestChallenge env res =
     (let www = GetHeaders res ''WWW-Authenticate'';
          headers = (if www = [] \<and> StatusCode res = 407 then GetHeaders res ''Proxy-Authenticate'' else www)
      in if headers = [] then Inl (NoAuthenticateHeader (StatusCode res))
         else case List.map_filter (ParseChallenge env) headers of
           [] \<Rightarrow> Inl ChallengeUnparsable
         | chal # _ \<Rightarrow> Inr chal)"

definition ordinary_digest :: "digest_challenge \<Rightarrow> bool" where
  "ordinary_digest chal \<longleftrightarrow>
     TrimSpace (ChallengeAlgorithm chal) = [] \<or> EqualFold (TrimSpace (ChallengeAlgorithm chal)) ''MD5''"

definition computeAKAAuth ::
  "('q, 'n) register_env \<Rightarrow> digest_challenge \<Rightarrow> 'q \<Rightarrow> 'n \<Rightarrow> (flow_error + aka_result \<times> string) \<times> 'n" where
  "computeAKAAuth env chal req net =
     (if ordinary_digest chal then (Inl OrdinaryMD5, net) else AKADigest env chal req net)"

end
