(* ===== verification/Register_Session.thy ===== *)
theory Register_Session
  imports Register_Flow
begin

text \<open>
  One REGISTER attempt (\<^verbatim>\<open>imscore/register_session.go\<close> and the requests of \<^verbatim>\<open>register.go\<close>): building
  and decorating requests, answering challenges, the initial phase over the variants of the request and
  the authentication phase with its at most six rounds.
\<close>

section \<open>Requests\<close>

definition RemoveHeaders :: "('q, 'n) register_env \<Rightarrow> string list \<Rightarrow> 'q \<Rightarrow> 'q" where
  "RemoveHeaders env names req = fold (RemoveHeader env) names req"

definition append_some :: "('q, 'n) register_env \<Rightarrow> string \<Rightarrow> string \<Rightarrow> 'q \<Rightarrow> 'q" where
  "append_some env name value req = (if value \<noteq> [] then AppendHeader env name value req else req)"

definition formatRegisterViaHost :: "bytes \<Rightarrow> int \<Rightarrow> string" where
  "formatRegisterViaHost ip port =
     (if ip = [] then ''127.0.0.1:'' @ Itoa port
      else if To4 ip = None then ''['' @ ip_string ip @ '']:'' @ Itoa port
      else ip_string ip @ '':'' @ Itoa port)"

text \<open>The random choice of \<^verbatim>\<open>randomEphemeralSIPPort\<close> is \<^verbatim>\<open>RandomPort\<close>.\<close>

definition registerAttemptLocalPort ::
  "('q, 'n) register_env \<Rightarrow> ims_config \<Rightarrow> nat \<Rightarrow> 'n \<Rightarrow> int \<times> 'n" where
  "registerAttemptLocalPort env cfg attemptIndex net =
     (if attemptIndex = 0 \<and> 0 < CfgLocalPort cfg \<and> CfgLocalPort cfg \<le> 65535 then (CfgLocalPort cfg, net)
      else if 0 < attemptIndex \<or> \<not> registrarHostEqualsLocalIP (PCSCFAddr cfg) (CfgLocalIP cfg) then RandomPort env net
      else (5060, net))"

definition nextRegisterTransportAttemptCSeq :: "('q, 'n) register_env \<Rightarrow> u32 \<Rightarrow> 'n \<Rightarrow> u32 \<times> 'n" where
  "nextRegisterTransportAttemptCSeq env previous net =
     (if 0 < previous then (previous + 1, net) else RandomCSeq env net)"

definition decorateRegisterRequest ::
  "('q, 'n) register_env \<Rightarrow> ims_config \<Rightarrow> 'q \<Rightarrow> session \<Rightarrow> 'n \<Rightarrow> 'q \<times> session \<times> 'n" where
  "decorateRegisterRequest env cfg req s net =
     (let req1 = RemoveHeaders env [''Via'', ''Call-ID'', ''CSeq'', ''Max-Forwards''] req;
          (port, net1) = (if s_localPort s \<le> 0 then registerAttemptLocalPort env cfg 0 net else (s_localPort s, net));
          (branch, net2) = RandomToken env net1;
          via = ''SIP/2.0/'' @ ToUpper (registerTransportName cfg (transportMode s)) @ '' '' @
            formatRegisterViaHost (CfgLocalIP cfg) port @ '';branch='' @ branch;
          req2 = AppendHeader env ''Max-Forwards'' ''70''
            (AppendHeader env ''CSeq'' (dec (unat (s_cseq s)) @ '' REGISTER'')
              (AppendHeader env ''Call-ID'' (callID s) (PrependHeader env ''Via'' via req1)));
          (cseq, net3) = nextRegisterTransportAttemptCSeq env (s_cseq s) net2
      in (req2, s\<lparr>s_localPort := port, s_cseq := cseq\<rparr>, net3))"

text \<open>The SIP instance is resolved once, when the session is created (\<^verbatim>\<open>resolveStableSIPInstance\<close>), so the
  state always has one.\<close>

definition buildIMSCoreContact :: "ims_config \<Rightarrow> register_state \<Rightarrow> int \<Rightarrow> string" where
  "buildIMSCoreContact cfg st port =
     (let urn = TrimSpace (sipInstance st)
      in BuildIMSContactHeader ((Template cfg)\<lparr>TemplateTransport := registerTransportName cfg []\<rparr>)
           \<lparr>IMSI = CfgIMSI cfg, PublicURI = CfgPublicURI cfg, ContactIP = CfgLocalIP cfg, ContactPort = port,
            SIPInstanceURN = (if urn = [] then TrimSpace (CfgSIPInstanceURN cfg) else urn),
            RegisterExpirySecs = RegisterExpirySeconds cfg\<rparr>)"

definition buildInitialRegisterAuthorization ::
  "('q, 'n) register_env \<Rightarrow> ims_config \<Rightarrow> string \<Rightarrow> flow_error + string" where
  "buildInitialRegisterAuthorization env cfg mode =
     (if EqualFold (TrimSpace mode) ''eap_direct'' then EAPDirect env cfg
      else Inr (buildInitialAuthorization cfg mode))"

text \<open>The headers after the authorization, in the order of \<^verbatim>\<open>buildRegisterRequest\<close>.\<close>

definition register_headers ::
  "('q, 'n) register_env \<Rightarrow> ims_config \<Rightarrow> register_state \<Rightarrow> bool \<Rightarrow> bool \<Rightarrow> 'q \<Rightarrow> 'q" where
  "register_headers env cfg st pani cellular req =
     (let t = Template cfg;
          gsma = EqualFold (TrimSpace (ContactMode t)) ''gsma'';
          r1 = AppendHeader env ''Expires'' (Itoa (effectiveRegisterExpiry cfg))
            (AppendHeader env ''Route'' (''<sip:'' @ effectiveRouteAddr cfg @ '';lr>'') req);
          r2 = append_some env ''Allow'' (effectiveAllowHeader t)
            (append_some env ''Supported'' (effectiveSupportedHeader t) r1);
          r3 = (if gsma then r2
            else AppendHeader env ''P-Visited-Network-ID'' (quoted (HomeDomain cfg))
              (AppendHeader env ''P-Preferred-Identity'' (''<'' @ CfgPublicURI cfg @ ''>'') r2));
          r4 = (if pani then AppendHeader env ''P-Access-Network-Info'' (effectivePANI t) r3 else r3);
          r5 = (if cellular \<and> \<not> gsma
            then AppendHeader env ''Cellular-Network-Info'' (buildCellularNetworkInfo cfg) r4 else r4);
          r6 = AppendHeader env ''Accept-Contact'' (''*;+g.3gpp.icsi-ref='' @ quoted (encodedICSIRef t))
            (AppendHeader env ''Accept-Contact'' ''*;+g.3gpp.smsip'' r5);
          secClient = buildTemplateSecurityClient t (rs_spiC st) (rs_spiS st) (rs_portC st) (rs_portS st);
          r7 = (if secAgreeEnabled t
            then AppendHeader env ''Proxy-Require'' ''sec-agree''
              (AppendHeader env ''Require'' ''sec-agree'' (AppendHeader env ''Security-Client'' secClient r6))
            else r6)
      in SetTransport env (ToUpper (registerTransportName cfg []))
           (SetDestination env (effectiveTransportAddr cfg) (AppendHeader env ''User-Agent'' (UserAgent cfg) r7)))"

definition buildRegisterRequest ::
  "('q, 'n) register_env \<Rightarrow> ims_config \<Rightarrow> register_state \<Rightarrow> int \<Rightarrow> bool \<Rightarrow> register_variant \<Rightarrow> 'n \<Rightarrow>
   (flow_error + 'q) \<times> 'n" where
  "buildRegisterRequest env cfg st port initial variant net =
     (case NewRegister env (''sip:'' @ TrimSpace (HomeDomain cfg)) of
        None \<Rightarrow> (Inl InvalidHomeDomain, net)
      | Some req \<Rightarrow>
          let (tag, net1) = RandomToken env net; uri = ''<'' @ CfgPublicURI cfg @ ''>'';
              r1 = AppendHeader env ''Contact'' (buildIMSCoreContact cfg st port)
                (AppendHeader env ''To'' uri (AppendHeader env ''From'' (uri @ '';tag='' @ tag) req));
              pani = (if initial then includePANI variant else templateIncludesPANI (Template cfg));
              cellular = (if initial then includeCellular variant else True)
          in if initial then
               (case buildInitialRegisterAuthorization env cfg (initialAuth variant) of
                  Inl e \<Rightarrow> (Inl e, net1)
                | Inr auth \<Rightarrow>
                    (Inr (register_headers env cfg st pani cellular (append_some env ''Authorization'' auth r1)), net1))
             else (Inr (register_headers env cfg st pani cellular r1), net1))"

fun Fields_loop :: "string \<Rightarrow> string \<Rightarrow> string list" where
  "Fields_loop b [] = (if b = [] then [] else [b])"
| "Fields_loop b (c # s) =
     (if is_space c then (if b = [] then Fields_loop [] s else b # Fields_loop [] s) else Fields_loop (b @ [c]) s)"

definition Fields :: "string \<Rightarrow> string list" where
  "Fields s = Fields_loop [] s"

text \<open>The sequence number after that of a header value \<^verbatim>\<open>N METHOD\<close>; other values are kept.\<close>

definition next_cseq_value :: "string \<Rightarrow> string" where
  "next_cseq_value value =
     (case Fields value of
        n # method # _ \<Rightarrow> (case Atoi n of Some i \<Rightarrow> Itoa (i + 1) @ '' '' @ method | None \<Rightarrow> value)
      | _ \<Rightarrow> value)"

definition buildAuthenticatedRegisterWithHeader ::
  "('q, 'n) register_env \<Rightarrow> ims_config \<Rightarrow> register_state \<Rightarrow> 'q \<Rightarrow> string \<Rightarrow> 'q" where
  "buildAuthenticatedRegisterWithHeader env cfg st prevReq authHeader =
     (let r1 = RemoveHeaders env [''Via'', ''Authorization'', ''Security-Verify'', ''CSeq''] prevReq;
          auth = (if verifyHeader st \<noteq> [] \<and> \<not> Contains (ToLower authHeader) ''integrity-protected=''
            then authHeader @ '', integrity-protected=yes'' else authHeader);
          r2 = AppendHeader env ''Authorization'' auth r1;
          r3 = (if verifyHeader st = [] then r2
            else let a = AppendHeader env ''Security-Verify'' (verifyHeader st) r2;
                     b = AppendHeader env ''Contact'' (buildIMSCoreContact cfg st (rs_portS st)) (RemoveHeader env ''Contact'' a)
                 in case (effectiveIPSecRemoteIP cfg, rs_policy st) of
                      (Some ip, Some pol) \<Rightarrow>
                        if 0 < RemotePortS pol
                        then AppendHeader env ''Route'' (''<sip:'' @ JoinHostPort (ip_string ip) (Itoa (RemotePortS pol)) @
                          '';transport='' @ registerTransportName cfg [] @ '';lr>'') (RemoveHeader env ''Route'' b)
                        else b
                    | _ \<Rightarrow> b)
      in case RequestHeader env prevReq ''CSeq'' of
           None \<Rightarrow> r3
         | Some v \<Rightarrow> AppendHeader env ''CSeq'' (next_cseq_value v) r3)"

section \<open>Results\<close>

definition finalizeRegisterSuccess ::
  "ims_config \<Rightarrow> register_state \<Rightarrow> 'q \<Rightarrow> transport option \<Rightarrow> sip_response \<Rightarrow> 'q register_result" where
  "finalizeRegisterSuccess cfg st req secure res =
     \<lparr>registered_request = req, registered_expires = registered_lifetime cfg res, registered_verify = verifyHeader st,
      registered_msisdn = extractAssociatedMSISDN (Some res) (CfgIMSI cfg), registered_over = secure\<rparr>"

text \<open>The registration over the protected connection.  Opening the connection and the listener of port-s is
  part of \<^verbatim>\<open>SecureExchange\<close>, which needs the installed transport.\<close>

definition runSecurePreparedRegister ::
  "('q, 'n) register_env \<Rightarrow> ims_config \<Rightarrow> register_state \<Rightarrow> 'q \<Rightarrow> 'n \<Rightarrow> (flow_error + 'q register_result) \<times> 'n" where
  "runSecurePreparedRegister env cfg st authReq net =
     (case rs_transport st of
        None \<Rightarrow> (Inl (NetworkFailed ''secure channel dial''), net)
      | Some t \<Rightarrow>
          (case SecureExchange env t authReq net of
             (Inl e, net1) \<Rightarrow> (Inl e, net1)
           | (Inr res, net1) \<Rightarrow>
               if StatusCode res \<noteq> 200
               then (Inl (AuthenticatedFailed (StatusCode res) (Reason res) (authenticatedRegisterFailureDetail (Some res))), net1)
               else (Inr (finalizeRegisterSuccess cfg st authReq (Some t) res), net1)))"

text \<open>\<^verbatim>\<open>runSecureAuthenticatedRegister\<close>; the previous request is nil after an unchallenged 200.\<close>

definition runSecureAuthenticatedRegister ::
  "('q, 'n) register_env \<Rightarrow> ims_config \<Rightarrow> register_state \<Rightarrow> 'q option \<Rightarrow> sip_response \<Rightarrow> 'n \<Rightarrow>
   (flow_error + 'q register_result) \<times> 'n" where
  "runSecureAuthenticatedRegister env cfg st lastReq lastRes net =
     (case lastReq of
        None \<Rightarrow> (Inl MissingPreviousRequest, net)
      | Some req \<Rightarrow>
          (case selectDigestChallenge env lastRes of
             Inl e \<Rightarrow> (Inl e, net)
           | Inr chal \<Rightarrow>
               (case computeAKAAuth env chal req net of
                  (Inl e, net1) \<Rightarrow> (Inl e, net1)
                | (Inr (aka, auth), net1) \<Rightarrow>
                    runSecurePreparedRegister env cfg st (buildAuthenticatedRegisterWithHeader env cfg st req auth) net1)))"

section \<open>The authentication phase\<close>

definition answerRegisterChallenge ::
  "('q, 'n) register_env \<Rightarrow> ims_config \<Rightarrow> session \<Rightarrow> 'q \<Rightarrow> sip_response \<Rightarrow> 'n \<Rightarrow>
   (flow_error + sip_response \<times> 'q \<times> aka_result) \<times> session \<times> 'n" where
  "answerRegisterChallenge env cfg s prevReq prevRes net =
     (case selectDigestChallenge env prevRes of
        Inl e \<Rightarrow> (Inl e, s, net)
      | Inr chal \<Rightarrow>
          (case computeAKAAuth env chal prevReq net of
             (Inl e, net1) \<Rightarrow> (Inl e, s, net1)
           | (Inr (aka, auth), net1) \<Rightarrow>
               let r1 = AppendHeader env ''Authorization'' auth (RemoveHeaders env [''Via'', ''Authorization''] prevReq);
                   (decision, err) = decideSecAgreeAfterChallenge cfg (Some prevRes);
                   r2 = (if err = None \<and> \<not> installIPSec decision
                     then RemoveHeaders env [''Security-Client'', ''Security-Verify'', ''Require'', ''Proxy-Require''] r1
                     else r1);
                   (r3, s1, net2) = decorateRegisterRequest env cfg r2 s net1
               in case Exchange env r3 net2 of
                    (Inl e, net3) \<Rightarrow> (Inl e, s1, net3)
                  | (Inr res, net3) \<Rightarrow> (Inr (res, r3, aka), s1, net3)))"

definition challenged :: "sip_response \<Rightarrow> bool" where
  "challenged res \<longleftrightarrow> StatusCode res = 401 \<or> StatusCode res = 407"

text \<open>How a round ends: with a return, by leaving the loop, or with the next round.\<close>

datatype 'q round_end =
  Return "flow_error + 'q register_result"
| Leave 'q sip_response
| Again 'q sip_response

definition set_keys :: "aka_result \<Rightarrow> session \<Rightarrow> session" where
  "set_keys aka s = s\<lparr>s_state := (s_state s)\<lparr>rs_ck := aka_CK aka, rs_ik := aka_IK aka\<rparr>\<rparr>"

definition resync_round ::
  "('q, 'n) register_env \<Rightarrow> ims_config \<Rightarrow> string \<Rightarrow> 'q \<Rightarrow> session \<Rightarrow> 'n \<Rightarrow> 'q round_end \<times> session \<times> 'n" where
  "resync_round env cfg authHeader lastReq s net =
     (let r1 = AppendHeader env ''Authorization'' authHeader (RemoveHeaders env [''Via'', ''Authorization''] lastReq);
          (r2, s1, net1) = decorateRegisterRequest env cfg r1 s net
      in case Exchange env r2 net1 of
           (Inl e, net2) \<Rightarrow> (Return (Inl e), s1, net2)
         | (Inr res, net2) \<Rightarrow> (Again r2 res, s1, net2))"

text \<open>The installation of the associations and the protected REGISTER.\<close>

definition protected_round ::
  "('q, 'n) register_env \<Rightarrow> 'f float_ops \<Rightarrow> ims_config \<Rightarrow> aka_result \<Rightarrow> string \<Rightarrow> 'q \<Rightarrow> sip_response \<Rightarrow> session \<Rightarrow> 'n \<Rightarrow>
   'q round_end \<times> session \<times> 'n" where
  "protected_round env f cfg aka authHeader lastReq lastRes s net =
     (let s1 = set_keys aka s;
          (err, st) = installIPSecFromChallenge f cfg lastRes (s_state s1);
          s2 = s1\<lparr>s_state := st\<rparr>
      in case err of
           Some e \<Rightarrow> (Return (Inl e), s2, net)
         | None \<Rightarrow>
             let r1 = buildAuthenticatedRegisterWithHeader env cfg st lastReq authHeader;
                 s3 = s2\<lparr>s_localPort := (case rs_policy st of Some pol \<Rightarrow> LocalPortC pol | None \<Rightarrow> 0)\<rparr>;
                 (r2, s4, net1) = decorateRegisterRequest env cfg r1 s3 net;
                 s5 = s4\<lparr>phase := PhaseSecure\<rparr>;
                 (result, net2) = runSecurePreparedRegister env cfg st r2 net1
             in (Return result, s5, net2))"

definition plain_round ::
  "('q, 'n) register_env \<Rightarrow> ims_config \<Rightarrow> bool \<Rightarrow> 'q \<Rightarrow> sip_response \<Rightarrow> session \<Rightarrow> 'n \<Rightarrow>
   'q round_end \<times> session \<times> 'n" where
  "plain_round env cfg plainDigest lastReq lastRes s net =
     (case answerRegisterChallenge env cfg s lastReq lastRes net of
        (Inl e, s1, net1) \<Rightarrow> (Return (Inl e), s1, net1)
      | (Inr (res, req, aka), s1, net1) \<Rightarrow>
          let s2 = set_keys aka s1
          in if \<not> challenged res \<or> plainDigest then (Leave req res, s2, net1) else (Again req res, s2, net1))"

definition auth_round ::
  "('q, 'n) register_env \<Rightarrow> 'f float_ops \<Rightarrow> ims_config \<Rightarrow> 'q \<Rightarrow> sip_response \<Rightarrow> session \<Rightarrow> 'n \<Rightarrow>
   'q round_end \<times> session \<times> 'n" where
  "auth_round env f cfg lastReq lastRes s net =
     (let challenge = selectDigestChallenge env lastRes;
          plainDigest = (case challenge of Inl _ \<Rightarrow> False | Inr chal \<Rightarrow> ordinary_digest chal);
          (decision, err) = decideSecAgreeAfterChallenge cfg (Some lastRes)
      in case err of
           Some e \<Rightarrow> (Return (Inl e), s, net)
         | None \<Rightarrow>
             if installIPSec decision then
               (case challenge of
                  Inl e \<Rightarrow> (Return (Inl e), s, net)
                | Inr chal \<Rightarrow>
                    (case computeAKAAuth env chal lastReq net of
                       (Inl e, net1) \<Rightarrow> (Return (Inl e), s, net1)
                     | (Inr (aka, authHeader), net1) \<Rightarrow>
                         if aka_AUTS aka \<noteq> [] then resync_round env cfg authHeader lastReq s net1
                         else protected_round env f cfg aka authHeader lastReq lastRes s net1))
             else plain_round env cfg plainDigest lastReq lastRes s net)"

definition maxChallengeRounds :: nat where "maxChallengeRounds = 6"

fun auth_rounds ::
  "('q, 'n) register_env \<Rightarrow> 'f float_ops \<Rightarrow> ims_config \<Rightarrow> nat \<Rightarrow> 'q \<Rightarrow> sip_response \<Rightarrow> session \<Rightarrow> 'n \<Rightarrow>
   ((flow_error + 'q register_result) + 'q \<times> sip_response) \<times> session \<times> 'n" where
  "auth_rounds env f cfg 0 lastReq lastRes s net = (Inr (lastReq, lastRes), s, net)"
| "auth_rounds env f cfg (Suc rounds) lastReq lastRes s net =
     (if \<not> challenged lastRes then (Inr (lastReq, lastRes), s, net)
      else case auth_round env f cfg lastReq lastRes s net of
             (Return r, s1, net1) \<Rightarrow> (Inl r, s1, net1)
           | (Leave req res, s1, net1) \<Rightarrow> (Inr (req, res), s1, net1)
           | (Again req res, s1, net1) \<Rightarrow> auth_rounds env f cfg rounds req res s1 net1)"

text \<open>What follows the loop of \<^verbatim>\<open>runAuthRegisterPhase\<close>.\<close>

definition after_rounds ::
  "('q, 'n) register_env \<Rightarrow> 'f float_ops \<Rightarrow> ims_config \<Rightarrow> 'q \<Rightarrow> sip_response \<Rightarrow> session \<Rightarrow> 'n \<Rightarrow>
   (flow_error + 'q register_result) \<times> session \<times> 'n" where
  "after_rounds env f cfg lastReq lastRes s net =
     (if StatusCode lastRes = 200 then (Inr (finalizeRegisterSuccess cfg (s_state s) lastReq None lastRes), s, net)
      else if \<not> challenged lastRes then (Inl (UnexpectedChallenged (StatusCode lastRes) (Reason lastRes)), s, net)
      else let (decision, err) = decideSecAgreeAfterChallenge cfg (Some lastRes)
      in case err of
           Some e \<Rightarrow> (Inl e, s, net)
         | None \<Rightarrow>
             if \<not> installIPSec decision then
               (case selectDigestChallenge env lastRes of
                  Inr chal \<Rightarrow>
                    if ordinary_digest chal then (Inl MD5Rejected, s, net)
                    else (Inl (StillChallenged (decision_reason decision)), s, net)
                | Inl _ \<Rightarrow> (Inl (StillChallenged (decision_reason decision)), s, net))
             else let (e, st) = installIPSecFromChallenge f cfg lastRes (s_state s); s1 = s\<lparr>s_state := st\<rparr>
               in case e of
                    Some e \<Rightarrow> (Inl e, s1, net)
                  | None \<Rightarrow>
                      (let (result, net1) = runSecureAuthenticatedRegister env cfg st (Some lastReq) lastRes net
                       in (result, s1, net1)))"

definition runAuthRegisterPhase ::
  "('q, 'n) register_env \<Rightarrow> 'f float_ops \<Rightarrow> ims_config \<Rightarrow> 'q \<Rightarrow> sip_response \<Rightarrow> session \<Rightarrow> 'n \<Rightarrow>
   (flow_error + 'q register_result) \<times> session \<times> 'n" where
  "runAuthRegisterPhase env f cfg challengeReq challengeRes s net =
     (case auth_rounds env f cfg maxChallengeRounds challengeReq challengeRes s net of
        (Inl r, s1, net1) \<Rightarrow> (r, s1, net1)
      | (Inr (req, res), s1, net1) \<Rightarrow> after_rounds env f cfg req res s1 net1)"

section \<open>The initial phase\<close>

definition configuredReRegister500 :: "ims_config \<Rightarrow> string \<Rightarrow> int \<Rightarrow> bool" where
  "configuredReRegister500 cfg method status \<longleftrightarrow>
     status = 500 \<and> method \<in> set [''REGISTER'', ''INVITE''] \<and>
     list_ex (\<lambda>rule. ToUpper (TrimSpace (RuleMethod rule)) = method \<and>
       list_ex (\<lambda>code. TrimSpace code = ''500'') (Statuses rule)) (ReRegisterOn (Template cfg))"

text \<open>The delay of \<^verbatim>\<open>waitReRegisterRetry\<close> in seconds; \<^term>\<open>None\<close> is its error.\<close>

definition retry_delay :: "sip_response \<Rightarrow> int option" where
  "retry_delay res =
     (case GetHeader res ''Retry-After'' of
        None \<Rightarrow> Some 1
      | Some h \<Rightarrow>
          let raw = takeWhile (\<lambda>c. c \<noteq> CHR ''('') (takeWhile (\<lambda>c. c \<noteq> CHR '';'') h)
          in case Atoi (TrimSpace raw) of
               None \<Rightarrow> None
             | Some seconds \<Rightarrow> if seconds < 0 \<or> 60 < seconds then None else if 1 < seconds then Some seconds else Some 1)"

definition waitReRegisterRetry :: "('q, 'n) register_env \<Rightarrow> sip_response \<Rightarrow> 'n \<Rightarrow> flow_error option \<times> 'n" where
  "waitReRegisterRetry env res net =
     (case retry_delay res of
        None \<Rightarrow> (Some UnsupportedRetryAfter, net)
      | Some d \<Rightarrow> (let (alive, net1) = Wait env d net in (if alive then None else Some (NetworkFailed ''context''), net1)))"

definition registerOnce ::
  "('q, 'n) register_env \<Rightarrow> ims_config \<Rightarrow> bool \<Rightarrow> register_variant \<Rightarrow> session \<Rightarrow> 'n \<Rightarrow>
   (flow_error + sip_response \<times> 'q) \<times> session \<times> 'n" where
  "registerOnce env cfg initial variant s net =
     (let port = (if AllowPlainIMS (Template cfg) then rs_portS (s_state s) else s_localPort s)
      in case buildRegisterRequest env cfg (s_state s) port initial variant net of
           (Inl e, net1) \<Rightarrow> (Inl e, s, net1)
         | (Inr req, net1) \<Rightarrow>
             let (req1, s1, net2) = decorateRegisterRequest env cfg req s net1
             in case Exchange env req1 net2 of
                  (Inl e, net3) \<Rightarrow> (Inl e, s1, net3)
                | (Inr res, net3) \<Rightarrow> (Inr (res, req1), s1, net3))"

definition registerInitialWithPolicy ::
  "('q, 'n) register_env \<Rightarrow> ims_config \<Rightarrow> register_variant \<Rightarrow> session \<Rightarrow> 'n \<Rightarrow>
   (flow_error + sip_response \<times> 'q) \<times> session \<times> 'n" where
  "registerInitialWithPolicy env cfg variant s net =
     (case registerOnce env cfg True variant s net of
        (Inl e, s1, net1) \<Rightarrow> (Inl e, s1, net1)
      | (Inr (res, req), s1, net1) \<Rightarrow>
          if initial500Retried s1 \<or> \<not> configuredReRegister500 cfg ''REGISTER'' (StatusCode res)
          then (Inr (res, req), s1, net1)
          else let s2 = s1\<lparr>initial500Retried := True\<rparr>
          in case waitReRegisterRetry env res net1 of
               (Some e, net2) \<Rightarrow> (Inl e, s2, net2)
             | (None, net2) \<Rightarrow> registerOnce env cfg True variant s2 net2)"

text \<open>An unchallenged 200.\<close>

definition initial_success ::
  "('q, 'n) register_env \<Rightarrow> 'f float_ops \<Rightarrow> ims_config \<Rightarrow> 'q \<Rightarrow> sip_response \<Rightarrow> session \<Rightarrow> 'n \<Rightarrow>
   (flow_error + 'q register_result) \<times> session \<times> 'n" where
  "initial_success env f cfg req res s net =
     (case decideInitialRegisterSuccessSecurity cfg (Some res) of
        Inl e \<Rightarrow> (Inl e, s, net)
      | Inr decision \<Rightarrow>
          if requireIPSec decision then
            (let (e, st) = installIPSecFromChallenge f cfg res (s_state s); s1 = s\<lparr>s_state := st\<rparr>
             in case e of
                  Some e \<Rightarrow> (Inl e, s1, net)
                | None \<Rightarrow>
                    (let (result, net1) = runSecureAuthenticatedRegister env cfg st None res net
                     in (result, s1\<lparr>phase := PhaseSecure\<rparr>, net1)))
          else (Inr (finalizeRegisterSuccess cfg (s_state s) req None res), s, net))"

text \<open>The loop over the variants from index \<^term>\<open>i\<close>; \<^term>\<open>lastErr\<close> is the error of the previous one.\<close>

fun initial_variants ::
  "('q, 'n) register_env \<Rightarrow> 'f float_ops \<Rightarrow> string \<Rightarrow> ims_config \<Rightarrow> int \<Rightarrow> int \<Rightarrow> flow_error option \<Rightarrow>
   register_variant list \<Rightarrow> session \<Rightarrow> 'n \<Rightarrow> (flow_error + 'q register_result) \<times> session \<times> 'n" where
  "initial_variants env f var cfg i total_variants lastErr [] s net =
     (Inl (case lastErr of Some e \<Rightarrow> e | None \<Rightarrow> VariantsExhausted), s, net)"
| "initial_variants env f var cfg i total_variants lastErr (variant # variants) s net =
     (case registerInitialWithPolicy env cfg variant s net of
        (Inl e, s1, net1) \<Rightarrow> initial_variants env f var cfg (i + 1) total_variants (Some e) variants s1 net1
      | (Inr (res, req), s1, net1) \<Rightarrow>
          if StatusCode res = 200 then initial_success env f cfg req res s1 net1
          else if challenged res then runAuthRegisterPhase env f cfg req res (s1\<lparr>phase := PhaseAuth\<rparr>) net1
          else let e = RegistrarAttempt (PCSCFAddr cfg) (StatusCode res) (Reason res);
                   outcome = decideRegisterFailureOutcome var cfg (StatusCode res) (Reason res) i total_variants False
          in if retryVariant outcome \<and> i + 1 < total_variants
             then initial_variants env f var cfg (i + 1) total_variants (Some e) variants s1 net1
             else (Inl e, s1, net1))"

text \<open>\<^verbatim>\<open>runInitialRegisterFlow\<close> from the open connection on.\<close>

definition runInitialRegisterFlow ::
  "('q, 'n) register_env \<Rightarrow> 'f float_ops \<Rightarrow> string \<Rightarrow> ims_config \<Rightarrow> session \<Rightarrow> 'n \<Rightarrow>
   (flow_error + 'q register_result) \<times> session \<times> 'n" where
  "runInitialRegisterFlow env f var cfg s net =
     (let variants = initialRegisterVariants var cfg
      in initial_variants env f var cfg 0 (int (length variants)) None variants s net)"

end
