(* ===== verification/Call_SDP.thy ===== *)
theory Call_SDP
  imports Register_Session
begin

text \<open>
  The media of a call as session descriptions (\<^verbatim>\<open>imscore/call_runtime.go\<close>, \<^verbatim>\<open>localSDP\<close> and
  \<^verbatim>\<open>applyRemoteSDP\<close>): what the client offers and answers, and what it accepts of the other side.
\<close>

section \<open>The negotiated media\<close>

text \<open>The fields of \<^verbatim>\<open>callRuntime\<close> and of its state that \<^verbatim>\<open>applyRemoteSDP\<close> writes.\<close>

record call_media =
  remoteRTP :: "(bytes \<times> int) option"
  Codec :: string
  MediaReady :: bool
  media_payload :: byte
  octetAligned :: bool
  dtmfReady :: bool
  dtmfPayload :: byte

datatype sdp_error = SDPMissing | SDPBadAddress | SDPNoEndpoint | SDPNoCodec

section \<open>Reading a description\<close>

fun crlf_lf :: "string \<Rightarrow> string" where
  "crlf_lf (a # b # s) =
     (if a = CHR 0x0D \<and> b = CHR 0x0A then CHR 0x0A # crlf_lf s else a # crlf_lf (b # s))"
| "crlf_lf s = s"

definition sdp_lines :: "string \<Rightarrow> string list" where
  "sdp_lines body = Split (crlf_lf body) CHR 0x0A"

text \<open>A field \<^verbatim>\<open>name=value\<close> of the parameters of a format; \<^verbatim>\<open>SplitN\<close> with 2 is the cut at the first sign.\<close>

definition sdp_fields :: "string \<Rightarrow> (string \<times> string) list" where
  "sdp_fields parameters =
     List.map_filter (\<lambda>field. case Cut (TrimSpace field) CHR ''='' of
         (k, v, found) \<Rightarrow> if found then Some (TrimSpace k, v) else None)
       (Split parameters CHR '';'')"

definition hasSDPParameter :: "string \<Rightarrow> string \<Rightarrow> string \<Rightarrow> bool" where
  "hasSDPParameter parameters name expected \<longleftrightarrow>
     list_ex (\<lambda>(k, v). EqualFold k name \<and> TrimSpace v = expected) (sdp_fields parameters)"

definition hasSDPMode :: "string \<Rightarrow> int \<Rightarrow> bool" where
  "hasSDPMode parameters wanted \<longleftrightarrow>
     list_ex (\<lambda>(k, v). EqualFold k ''mode-set'' \<and>
       list_ex (\<lambda>mode. Atoi (TrimSpace mode) = Some wanted) (Split v CHR '','')) (sdp_fields parameters)"

text \<open>The local variables of the loop over the lines.\<close>

record sdp_scan =
  sessionIP :: "bytes option"
  mediaIP :: "bytes option"
  sdp_port :: int
  mediaSection :: bool
  audioSection :: bool
  foundAudio :: bool
  offeredPayloads :: "string list"
  rtpmap :: "(string \<times> string) list"
  fmtp :: "(string \<times> string) list"

definition at_key :: "string \<Rightarrow> (string \<times> string) list \<Rightarrow> string" where
  "at_key k kvs = (case map_of kvs k of Some v \<Rightarrow> v | None \<Rightarrow> [])"

definition scan_start :: sdp_scan where
  "scan_start = \<lparr>sessionIP = None, mediaIP = None, sdp_port = 0, mediaSection = False, audioSection = False,
     foundAudio = False, offeredPayloads = [], rtpmap = [], fmtp = []\<rparr>"

definition scan_media :: "string \<Rightarrow> sdp_scan \<Rightarrow> sdp_scan" where
  "scan_media line s =
     (let s1 = s\<lparr>mediaSection := True, audioSection := False\<rparr>; fields = Fields line
      in if \<not> foundAudio s \<and> 3 < length fields \<and> fields ! 0 = ''m=audio'' then
           (case Atoi (fields ! 1) of
              None \<Rightarrow> s1
            | Some p \<Rightarrow>
                if p \<le> 0 \<or> 65535 < p \<or> fields ! 2 \<noteq> ''RTP/AVP'' then s1
                else s1\<lparr>foundAudio := True, audioSection := True, sdp_port := p, offeredPayloads := drop 3 fields\<rparr>)
         else s1)"

definition scan_address :: "string \<Rightarrow> sdp_scan \<Rightarrow> sdp_error + sdp_scan" where
  "scan_address line s =
     (if HasPrefix line ''c=IN IP4 '' \<or> HasPrefix line ''c=IN IP6 '' then
        (let parts = Fields line
         in if length parts = 3 then
              (if \<not> mediaSection s then Inr (s\<lparr>sessionIP := ParseIP (parts ! 2)\<rparr>)
               else if audioSection s then
                 (if ParseIP (parts ! 2) = None then Inl SDPBadAddress else Inr (s\<lparr>mediaIP := ParseIP (parts ! 2)\<rparr>))
               else Inr s)
            else Inr s)
      else Inr s)"

definition scan_rtpmap :: "string \<Rightarrow> sdp_scan \<Rightarrow> sdp_scan" where
  "scan_rtpmap line s =
     (if audioSection s \<and> HasPrefix (ToLower line) ''a=rtpmap:'' then
        (case Fields (TrimSpace (drop 9 line)) of
           p # v # _ \<Rightarrow> s\<lparr>rtpmap := (p, ToUpper v) # rtpmap s\<rparr>
         | _ \<Rightarrow> s)
      else s)"

definition scan_fmtp :: "string \<Rightarrow> sdp_scan \<Rightarrow> sdp_scan" where
  "scan_fmtp line s =
     (if audioSection s \<and> HasPrefix (ToLower line) ''a=fmtp:'' then
        (case Cut (TrimSpace (drop 7 line)) CHR '' '' of
           (p, v, found) \<Rightarrow> if found then s\<lparr>fmtp := (p, ToLower v) # fmtp s\<rparr> else s)
      else s)"

definition scan_line :: "sdp_scan \<Rightarrow> string \<Rightarrow> sdp_error + sdp_scan" where
  "scan_line s raw =
     (let line = TrimSpace raw
      in if HasPrefix line ''m='' then Inr (scan_media line s)
         else rbind (scan_address line s) (\<lambda>s1. Inr (scan_fmtp line (scan_rtpmap line s1))))"

fun scan_lines :: "sdp_scan \<Rightarrow> string list \<Rightarrow> sdp_error + sdp_scan" where
  "scan_lines s [] = Inr s"
| "scan_lines s (l # ls) = rbind (scan_line s l) (\<lambda>s1. scan_lines s1 ls)"

section \<open>Choosing payloads\<close>

definition pcma_payload :: "bool \<Rightarrow> sdp_scan \<Rightarrow> string \<Rightarrow> int option" where
  "pcma_payload answer s payload =
     (case Atoi payload of
        None \<Rightarrow> None
      | Some parsed \<Rightarrow>
          if parsed < 0 \<or> 127 < parsed then None
          else let mapping = at_key payload (rtpmap s); pcma = (mapping = ''PCMA/8000'' \<or> mapping = ''PCMA/8000/1'')
          in if parsed = 8 \<and> (mapping = [] \<or> pcma) \<or> \<not> answer \<and> 96 \<le> parsed \<and> pcma then Some parsed else None)"

definition amr_payload :: "sdp_scan \<Rightarrow> string \<Rightarrow> (int \<times> bool) option" where
  "amr_payload s payload =
     (case Atoi payload of
        None \<Rightarrow> None
      | Some parsed \<Rightarrow>
          if parsed < 96 \<or> 127 < parsed \<or> at_key payload (rtpmap s) \<noteq> ''AMR/8000'' \<or> \<not> hasSDPMode (at_key payload (fmtp s)) 7 then None
          else Some (parsed, hasSDPParameter (at_key payload (fmtp s)) ''octet-align'' ''1''))"

definition event_payload :: "int \<Rightarrow> sdp_scan \<Rightarrow> string \<Rightarrow> int option" where
  "event_payload chosen s payload =
     (if at_key payload (rtpmap s) = ''TELEPHONE-EVENT/8000'' \<or> at_key payload (rtpmap s) = ''TELEPHONE-EVENT/8000/1'' then
        (case Atoi payload of
           None \<Rightarrow> None
         | Some parsed \<Rightarrow> if 96 \<le> parsed \<and> parsed \<le> 127 \<and> parsed \<noteq> chosen then Some parsed else None)
      else None)"

fun first_some :: "('a \<Rightarrow> 'b option) \<Rightarrow> 'a list \<Rightarrow> 'b option" where
  "first_some f [] = None"
| "first_some f (x # xs) = (case f x of Some y \<Rightarrow> Some y | None \<Rightarrow> first_some f xs)"

text \<open>The payload type, the codec and the layout of AMR; the type is \<^term>\<open>- 1\<close> when nothing was chosen.\<close>

definition choose_codec :: "bool \<Rightarrow> bool \<Rightarrow> sdp_scan \<Rightarrow> int \<times> string \<times> bool" where
  "choose_codec disableAMR answer s =
     (case first_some (pcma_payload answer s) (offeredPayloads s) of
        Some p \<Rightarrow> (p, ''PCMA'', True)
      | None \<Rightarrow>
          if disableAMR then (- 1, [], True)
          else (case first_some (amr_payload s) (offeredPayloads s) of
                  Some (p, aligned) \<Rightarrow> (p, ''AMR'', aligned)
                | None \<Rightarrow> (- 1, [], True)))"

definition applyRemoteSDP :: "bool \<Rightarrow> string \<Rightarrow> bool \<Rightarrow> call_media \<Rightarrow> sdp_error + call_media" where
  "applyRemoteSDP disableAMR body answer m =
     (if body = [] then
        (if answer \<and> remoteRTP m \<noteq> None \<and> (Codec m = ''PCMA'' \<or> Codec m = ''AMR'') then Inr m else Inl SDPMissing)
      else rbind (scan_lines scan_start (sdp_lines body)) (\<lambda>s.
        let ip = (case mediaIP s of None \<Rightarrow> sessionIP s | Some i \<Rightarrow> Some i);
            (payload, codec, aligned) = choose_codec disableAMR answer s;
            event = first_some (event_payload payload s) (offeredPayloads s)
        in case ip of
             None \<Rightarrow> Inl SDPNoEndpoint
           | Some ip \<Rightarrow>
               if sdp_port s \<le> 0 then Inl SDPNoEndpoint
               else if payload < 0 then Inl SDPNoCodec
               else Inr (m\<lparr>remoteRTP := Some (ip, sdp_port s), Codec := codec, MediaReady := True,
                 media_payload := of_int payload, octetAligned := aligned, dtmfReady := (event \<noteq> None),
                 dtmfPayload := (case event of Some e \<Rightarrow> of_int e | None \<Rightarrow> dtmfPayload m)\<rparr>)))"

section \<open>Writing a description\<close>

definition crlf :: string where "crlf = [CHR 0x0D, CHR 0x0A]"

definition unlines :: "string list \<Rightarrow> string" where
  "unlines ls = concat (List.map (\<lambda>l. l @ crlf) ls)"

definition sdp_head :: "u64 \<Rightarrow> bytes \<Rightarrow> string list" where
  "sdp_head sessionID ip =
     (let family = (if To4 ip = None then ''IP6'' else ''IP4'')
      in [''v=0'', ''o=- '' @ dec (unat sessionID) @ '' 1 IN '' @ family @ '' '' @ ip_string ip, ''s=Proletarius'',
          ''c=IN '' @ family @ '' '' @ ip_string ip, ''t=0 0''])"

definition offer_lines :: "bool \<Rightarrow> int \<Rightarrow> string list" where
  "offer_lines disableAMR port =
     (if disableAMR
      then [''m=audio '' @ Itoa port @ '' RTP/AVP 8 101'', ''a=rtpmap:8 PCMA/8000'']
      else [''m=audio '' @ Itoa port @ '' RTP/AVP 8 97 101'', ''a=rtpmap:8 PCMA/8000'', ''a=rtpmap:97 AMR/8000'',
            ''a=fmtp:97 octet-align=1;mode-set=7;max-red=0'']) @
     [''a=rtpmap:101 telephone-event/8000'', ''a=fmtp:101 0-15'', ''a=ptime:20'', ''a=maxptime:40'', ''a=sendrecv'']"

definition answer_lines :: "call_media \<Rightarrow> int \<Rightarrow> string list" where
  "answer_lines m port =
     (let pt = (if media_payload m = 0 then (if Codec m = ''AMR'' then 97 else 8) else media_payload m);
          p = dec (unat pt); e = dec (unat (dtmfPayload m));
          audio = (if Codec m = ''AMR''
            then [''a=rtpmap:'' @ p @ '' AMR/8000'',
                  ''a=fmtp:'' @ p @ '' '' @ (if octetAligned m then ''octet-align=1;'' else []) @ ''mode-set=7;max-red=0'']
            else [''a=rtpmap:'' @ p @ '' PCMA/8000'']);
          event = (if dtmfReady m
            then [''a=rtpmap:'' @ e @ '' telephone-event/8000'', ''a=fmtp:'' @ e @ '' 0-15''] else [])
      in [''m=audio '' @ Itoa port @ '' RTP/AVP '' @ p @ (if dtmfReady m then '' '' @ e else [])] @ audio @ event @
         [''a=ptime:20'', ''a=maxptime:20'', ''a=sendrecv''])"

definition localSDP :: "bool \<Rightarrow> u64 \<Rightarrow> bytes \<Rightarrow> bool \<Rightarrow> call_media \<Rightarrow> int \<Rightarrow> string" where
  "localSDP disableAMR sessionID ip incoming m port =
     unlines (sdp_head sessionID ip @ (if incoming then answer_lines m port else offer_lines disableAMR port))"

section \<open>What is accepted\<close>

lemma first_some_Some: "first_some f xs = Some y \<Longrightarrow> \<exists>x \<in> set xs. f x = Some y"
  by (induction xs) (auto split: option.splits)

lemma chosen_codec:
  assumes "choose_codec disableAMR answer s = (p, codec, aligned)" "0 \<le> p"
  shows "codec = ''PCMA'' \<and> (p = 8 \<or> \<not> answer \<and> 96 \<le> p \<and> p \<le> 127) \<or> codec = ''AMR'' \<and> \<not> disableAMR \<and> 96 \<le> p \<and> p \<le> 127"
  using assms
  by (auto simp: choose_codec_def pcma_payload_def amr_payload_def Let_def split: option.splits if_splits
      dest!: first_some_Some)

lemma chosen_event:
  assumes "first_some (event_payload chosen s) ps = Some e"
  shows "96 \<le> e \<and> e \<le> 127 \<and> e \<noteq> chosen"
  using assms by (auto simp: event_payload_def split: option.splits if_splits dest!: first_some_Some)

lemma scan_line_port:
  assumes "scan_line s l = Inr s'" "sdp_port s \<le> 65535"
  shows "sdp_port s' \<le> 65535"
  using assms
  by (auto simp: scan_line_def scan_media_def scan_address_def scan_rtpmap_def scan_fmtp_def Let_def rbind_Inr_iff
      split: if_splits option.splits list.splits prod.splits)

lemma scan_lines_port: "scan_lines s ls = Inr s' \<Longrightarrow> sdp_port s \<le> 65535 \<Longrightarrow> sdp_port s' \<le> 65535"
  by (induction ls arbitrary: s) (auto simp: rbind_Inr_iff dest: scan_line_port)

definition playable :: "bool \<Rightarrow> bool \<Rightarrow> call_media \<Rightarrow> bool" where
  "playable disableAMR answer m \<longleftrightarrow>
     (\<exists>ip port. remoteRTP m = Some (ip, port) \<and> 1 \<le> port \<and> port \<le> 65535) \<and> MediaReady m \<and>
     (Codec m = ''PCMA'' \<and> (media_payload m = 8 \<or> \<not> answer \<and> 96 \<le> unat (media_payload m) \<and> unat (media_payload m) \<le> 127) \<or>
      Codec m = ''AMR'' \<and> \<not> disableAMR \<and> 96 \<le> unat (media_payload m) \<and> unat (media_payload m) \<le> 127) \<and>
     (dtmfReady m \<longrightarrow> 96 \<le> unat (dtmfPayload m) \<and> unat (dtmfPayload m) \<le> 127 \<and> dtmfPayload m \<noteq> media_payload m)"

lemma unat_of_int_byte: "0 \<le> i \<Longrightarrow> i < 256 \<Longrightarrow> unat (of_int i :: byte) = nat i"
  using unat_of_nat_byte [of "nat i"] by simp

lemma accepted_playable:
  assumes "applyRemoteSDP disableAMR body answer m = Inr m'" "body \<noteq> []"
  shows "playable disableAMR answer m'"
proof -
  obtain s where s: "scan_lines scan_start (sdp_lines body) = Inr s"
    using assms by (auto simp: applyRemoteSDP_def rbind_Inr_iff)
  obtain p codec aligned where c: "choose_codec disableAMR answer s = (p, codec, aligned)" by (rule prod_cases3)
  let ?e = "first_some (event_payload p s) (offeredPayloads s)"
  obtain ip where ip: "0 < sdp_port s" "0 \<le> p" "m' = m\<lparr>remoteRTP := Some (ip, sdp_port s), Codec := codec, MediaReady := True,
      media_payload := of_int p, octetAligned := aligned, dtmfReady := (?e \<noteq> None),
      dtmfPayload := (case ?e of Some e \<Rightarrow> of_int e | None \<Rightarrow> dtmfPayload m)\<rparr>"
    using assms unfolding applyRemoteSDP_def s by (auto simp: c Let_def split: option.splits if_splits)
  have port: "sdp_port s \<le> 65535" using scan_lines_port [OF s] by (simp add: scan_start_def)
  note codec = chosen_codec [OF c ip(2)]
  have small: "p < 256" using codec by auto
  have "dtmfReady m' \<longrightarrow> 96 \<le> unat (dtmfPayload m') \<and> unat (dtmfPayload m') \<le> 127 \<and> dtmfPayload m' \<noteq> media_payload m'"
  proof
    assume "dtmfReady m'"
    then obtain e where e: "?e = Some e" using ip(3) by auto
    note b = chosen_event [OF e]
    have "unat (of_int e :: byte) = nat e" "unat (of_int p :: byte) = nat p"
      using b small ip(2) by (simp_all add: unat_of_int_byte)
    then show "96 \<le> unat (dtmfPayload m') \<and> unat (dtmfPayload m') \<le> 127 \<and> dtmfPayload m' \<noteq> media_payload m'"
      using b ip(2,3) e by (auto simp: word_unat_eq_iff)
  qed
  moreover have "unat (media_payload m') = nat p" using ip small by (simp add: unat_of_int_byte)
  ultimately show ?thesis
    using ip port codec by (auto simp: playable_def word_unat_eq_iff)
qed


definition no_media :: call_media where
  "no_media = \<lparr>remoteRTP = None, Codec = [], MediaReady = False, media_payload = 0, octetAligned = False,
     dtmfReady = False, dtmfPayload = 0\<rparr>"

definition sample_description :: string where
  "sample_description = unlines [''v=0'', ''c=IN IP4 10.0.0.1'', ''m=audio 4000 RTP/AVP 8'']"

lemma sample_description_scanned: "\<exists>ip. scan_lines scan_start (sdp_lines sample_description) = Inr (scan_start
    \<lparr>sessionIP := Some ip, sdp_port := 4000, mediaSection := True, audioSection := True, foundAudio := True,
     offeredPayloads := [''8'']\<rparr>)"
proof -
  have parts: "sdp_lines sample_description = [''v=0'', ''c=IN IP4 10.0.0.1'', ''m=audio 4000 RTP/AVP 8'', []]"
    "Fields ''c=IN IP4 10.0.0.1'' = [''c=IN'', ''IP4'', ''10.0.0.1'']"
    "Fields ''m=audio 4000 RTP/AVP 8'' = [''m=audio'', ''4000'', ''RTP/AVP'', ''8'']"
    "TrimSpace ''v=0'' = ''v=0''" "TrimSpace ''c=IN IP4 10.0.0.1'' = ''c=IN IP4 10.0.0.1''"
    "TrimSpace ''m=audio 4000 RTP/AVP 8'' = ''m=audio 4000 RTP/AVP 8''" "TrimSpace [] = []" "ToLower [] = []"
    by code_simp+
  have "ParseIP ''10.0.0.1'' \<noteq> None" by code_simp
  then obtain ip where ip: "ParseIP ''10.0.0.1'' = Some ip" by blast
  have "Atoi ''4000'' = Some 4000" by (simp add: Atoi_def digit_val_def)
  then show ?thesis
    by (intro exI [of _ ip]) (simp add: parts ip scan_line_def scan_media_def scan_address_def scan_rtpmap_def
      scan_fmtp_def scan_start_def HasPrefix_def Let_def)
qed

lemma sample_description_accepted:
  "\<exists>m'. applyRemoteSDP disableAMR sample_description answer no_media = Inr m' \<and> Codec m' = ''PCMA''"
proof -
  obtain ip where s: "scan_lines scan_start (sdp_lines sample_description) = Inr (scan_start
    \<lparr>sessionIP := Some ip, sdp_port := 4000, mediaSection := True, audioSection := True, foundAudio := True,
     offeredPayloads := [''8'']\<rparr>)" using sample_description_scanned by blast
  have "Atoi ''8'' = Some 8" by (simp add: Atoi_def digit_val_def)
  moreover have "sample_description \<noteq> []" by (simp add: sample_description_def unlines_def)
  ultimately show ?thesis
    by (simp add: applyRemoteSDP_def s [unfolded scan_start_def] choose_codec_def pcma_payload_def event_payload_def at_key_def scan_start_def)
qed


end
