(* ===== verification/Call_Requests.thy ===== *)
theory Call_Requests
  imports Call_SDP
begin

text \<open>
  The SIP requests of a call (\<^verbatim>\<open>imscore/call_runtime.go\<close>): the target of a dial string, the dialog the
  client learns from responses, and the requests it builds in a call.  A request is its method, its URI, its
  headers in order and its body; rendering it is left to the SIP library, and so is the syntax check of a
  URI, which is the argument \<^verbatim>\<open>parse_uri\<close>.  The random tag and branch are arguments.
\<close>

section \<open>Numbers and addresses\<close>

definition remove_chars :: "char list \<Rightarrow> string \<Rightarrow> string" where
  "remove_chars cs s = filter (\<lambda>c. c \<notin> set cs) s"

definition isEmergencyNumber :: "string \<Rightarrow> bool" where
  "isEmergencyNumber value \<longleftrightarrow>
     remove_chars ''+ -()'' value \<in> set [''112'', ''911'', ''1911'', ''999'', ''000'', ''110'', ''119'', ''120'']"

datatype call_error = CallTargetRequired | NeedsPhoneContext string | InvalidCallTarget

definition normalizeCallTarget :: "string \<Rightarrow> string \<Rightarrow> string \<Rightarrow> call_error + string" where
  "normalizeCallTarget peer homeDomain realm =
     (let target = TrimSpace peer
      in if target = [] then Inl CallTargetRequired
         else if HasPrefix (ToLower target) ''sip:'' \<or> HasPrefix (ToLower target) ''tel:'' then Inr target
         else let compact = remove_chars '' -()'' target
         in if HasPrefix compact ''+'' then Inr (''tel:'' @ compact)
         else let home = TrimSpace homeDomain;
                  context0 = (if home = [] then TrimSpace realm else home);
                  context1 = TrimPrefix (TrimPrefix context0 ''sip:'') ''SIP:''
         in if context1 = [] then Inl (NeedsPhoneContext target)
            else Inr (''tel:'' @ compact @ '';phone-context='' @ context1))"

definition headerAddressURI :: "string \<Rightarrow> string" where
  "headerAddressURI value0 =
     (let v = TrimSpace value0;
          plain = TrimSpace (case IndexByte v CHR '';'' of None \<Rightarrow> v | Some i \<Rightarrow> take i v)
      in case IndexByte v CHR ''<'' of
           None \<Rightarrow> plain
         | Some left \<Rightarrow>
             (case IndexByte (drop (left + 1) v) CHR ''>'' of
                None \<Rightarrow> plain
              | Some right \<Rightarrow> TrimSpace (take right (drop (left + 1) v))))"

text \<open>The headers of a request are read through the value of the header, \<^term>\<open>None\<close> when it is absent.\<close>

definition sipCallIDFromRequest :: "string option \<Rightarrow> string" where
  "sipCallIDFromRequest call_id = (case call_id of None \<Rightarrow> [] | Some v \<Rightarrow> TrimSpace v)"

definition cut_at :: "char \<Rightarrow> string \<Rightarrow> string" where
  "cut_at c s = (case IndexByte s c of None \<Rightarrow> s | Some i \<Rightarrow> take i s)"

definition sipRequestPeer :: "string option \<Rightarrow> string" where
  "sipRequestPeer from_header =
     (case from_header of
        None \<Rightarrow> []
      | Some v \<Rightarrow>
          let uri = TrimPrefix (TrimPrefix (headerAddressURI v) ''sip:'') ''tel:'';
              user = TrimSpace (cut_at CHR '';'' (cut_at CHR ''@'' uri))
          in if user \<noteq> [] then user else TrimSpace v)"

definition headerContainsToken :: "string option \<Rightarrow> string \<Rightarrow> bool" where
  "headerContainsToken header token =
     (case header of None \<Rightarrow> False | Some v \<Rightarrow> list_ex (\<lambda>t. EqualFold (TrimSpace t) token) (Split v CHR '',''))"

section \<open>Why a call was rejected\<close>

definition q850Cause :: "string \<Rightarrow> string option" where
  "q850Cause v =
     (case Split v CHR '';'' of
        protocol # part # parts \<Rightarrow>
          if EqualFold (TrimSpace protocol) ''q.850'' then
            first_some (\<lambda>p. case Cut (TrimSpace p) CHR ''='' of
                (key, cause0, found) \<Rightarrow>
                  let cause = Trim (TrimSpace cause0) [CHR 0x22]
                  in if found \<and> EqualFold (TrimSpace key) ''cause'' \<and> cause \<noteq> [] then Some cause else None)
              (part # parts)
          else None
      | _ \<Rightarrow> None)"

datatype rejection =
    NetworkEnded
  | UnassignedNumber
  | TemporarilyUnreachable
  | InterworkingFailed
  | RequestTerminated "string option"
  | Rejected int string

definition callRejectionErrorWithFallback :: "sip_response option \<Rightarrow> string \<Rightarrow> rejection" where
  "callRejectionErrorWithFallback response fallbackReason =
     (case response of
        None \<Rightarrow> NetworkEnded
      | Some r \<Rightarrow>
          if StatusCode r = 487 then
            (let given = (case GetHeader r ''Reason'' of None \<Rightarrow> [] | Some v \<Rightarrow> TrimSpace v);
                 reason = (if given = [] then TrimSpace fallbackReason else given)
             in if reason = [] then RequestTerminated None
                else if q850Cause reason = Some ''1'' then UnassignedNumber
                else if q850Cause reason = Some ''20'' then TemporarilyUnreachable
                else if q850Cause reason = Some ''127'' then InterworkingFailed
                else RequestTerminated (Some reason))
          else Rejected (StatusCode r) (Reason r))"

section \<open>The dialog\<close>

text \<open>The fields of \<^verbatim>\<open>callRuntime\<close> that identify the transaction of the INVITE and the dialog.\<close>

record dialog =
  localTag :: string
  remoteTag :: string
  inviteBranch :: string
  inviteCSeq :: u32
  non2xxACK :: bool
  lastRSeq :: string
  remoteTarget :: string
  routeSet :: "string list"

definition no_dialog :: dialog where
  "no_dialog = \<lparr>localTag = [], remoteTag = [], inviteBranch = [], inviteCSeq = 0, non2xxACK = False,
     lastRSeq = [], remoteTarget = [], routeSet = []\<rparr>"

datatype sip_method = INVITE | ACK | CANCEL | BYE | PRACK | INFO

fun method_name :: "sip_method \<Rightarrow> string" where
  "method_name INVITE = ''INVITE''"
| "method_name ACK = ''ACK''"
| "method_name CANCEL = ''CANCEL''"
| "method_name BYE = ''BYE''"
| "method_name PRACK = ''PRACK''"
| "method_name INFO = ''INFO''"

text \<open>A response of a call: the tag of its To header, its CSeq and its body are read by the SIP library.\<close>

record call_response = sip_response +
  ToTag :: "string option"
  ResponseCSeq :: "(u32 \<times> sip_method) option"
  ResponseBody :: string

definition response_target :: "sip_response \<Rightarrow> string option" where
  "response_target r =
     (case GetHeader r ''Contact'' of
        None \<Rightarrow> None
      | Some v \<Rightarrow> if headerAddressURI v \<noteq> [] then Some (headerAddressURI v) else None)"

definition updateDialogFromResponse :: "call_response \<Rightarrow> dialog \<Rightarrow> dialog" where
  "updateDialogFromResponse r d =
     (let routes = GetHeaders r ''Record-Route'';
          d1 = (case ToTag r of None \<Rightarrow> d | Some tag \<Rightarrow> d\<lparr>remoteTag := tag\<rparr>);
          d2 = (case response_target (sip_response.truncate r) of None \<Rightarrow> d1 | Some t \<Rightarrow> d1\<lparr>remoteTarget := t\<rparr>)
      in if routes = [] then d2
         else d2\<lparr>routeSet := filter (\<lambda>v. v \<noteq> []) (List.map TrimSpace (rev routes))\<rparr>)"

section \<open>Building a request\<close>

text \<open>What a call reads of the service.\<close>

record call_service =
  svc_cfg :: ims_config
  CallPhoneContext :: string
  registeredMSISDN :: string
  svc_verifyHeader :: string
  LocalPortC :: int
  LocalPortS :: int
  DisableAMR :: bool

definition originatingIdentities :: "call_service \<Rightarrow> string \<times> string" where
  "originatingIdentities svc =
     (let number = TrimSpace (registeredMSISDN svc);
          home = TrimSpace (HomeDomain (svc_cfg svc));
          domain = (if home = [] then TrimSpace (Realm (svc_cfg svc)) else home);
          fallback = TrimSpace (CfgPublicURI (svc_cfg svc))
      in if HasPrefix number ''+'' \<and> domain \<noteq> []
         then (''sip:'' @ number @ ''@'' @ domain @ '';user=phone'', ''tel:'' @ number)
         else (fallback, fallback))"

text \<open>\<^verbatim>\<open>strings.ReplaceAll\<close> with an empty replacement.\<close>

function remove_all :: "string \<Rightarrow> string \<Rightarrow> string" where
  "remove_all sub s =
     (case s of
        [] \<Rightarrow> []
      | c # r \<Rightarrow> if sub \<noteq> [] \<and> HasPrefix s sub then remove_all sub (drop (length sub) s) else c # remove_all sub r)"
  by pat_completeness auto
termination
  by (relation "measure (length \<circ> snd)") auto

definition effectiveCallPANI :: "ims_template \<Rightarrow> string" where
  "effectiveCallPANI template =
     (if IncludePANIAuthenticated template then effectivePANI template
      else remove_all '';network-provided'' (effectivePANI template))"

record request =
  req_method :: sip_method
  req_uri :: string
  req_headers :: "(string \<times> string) list"
  req_body :: string
  req_destination :: string
  req_transport :: string

definition header :: "string \<Rightarrow> request \<Rightarrow> string option" where
  "header name r = map_of (req_headers r) name"

text \<open>The branch and the number of a request, and what building it leaves in the dialog.  \<^term>\<open>tag\<close> and
  \<^term>\<open>fresh\<close> are what the random generator would give.\<close>

definition claim_transaction ::
  "sip_method \<Rightarrow> string \<Rightarrow> string \<Rightarrow> u32 \<Rightarrow> dialog \<Rightarrow> string \<times> u32 \<times> dialog" where
  "claim_transaction method tag fresh cseq d0 =
     (let d = (if localTag d0 = [] then d0\<lparr>localTag := tag\<rparr> else d0)
      in case method of
           INVITE \<Rightarrow> (fresh, cseq, d\<lparr>inviteBranch := fresh, inviteCSeq := cseq\<rparr>)
         | CANCEL \<Rightarrow> (inviteBranch d, inviteCSeq d, d)
         | ACK \<Rightarrow> if non2xxACK d then (inviteBranch d, inviteCSeq d, d\<lparr>non2xxACK := False\<rparr>)
                  else (fresh, inviteCSeq d, d)
         | _ \<Rightarrow> (fresh, cseq, d))"

definition in_dialog :: "sip_method \<Rightarrow> dialog \<Rightarrow> bool" where
  "in_dialog method d \<longleftrightarrow> method = PRACK \<or> method = BYE \<or> method = INFO \<or> method = ACK \<and> \<not> non2xxACK d"

definition dialog_headers ::
  "call_service \<Rightarrow> sip_method \<Rightarrow> bool \<Rightarrow> string \<Rightarrow> string \<Rightarrow> u32 \<Rightarrow> string \<Rightarrow> dialog \<Rightarrow> (string \<times> string) list" where
  "dialog_headers svc method inside toTarget branch cseq call_id d =
     (let cfg = svc_cfg svc
      in [(''Via'', ''SIP/2.0/'' @ ToUpper (registerTransportName cfg []) @ '' '' @
             formatRegisterViaHost (CfgLocalIP cfg) (LocalPortC svc) @ '';branch='' @ branch @ '';rport''),
          (''From'', ''<'' @ fst (originatingIdentities svc) @ ''>;tag='' @ localTag d),
          (''To'', ''<'' @ toTarget @ ''>'' @
             (if remoteTag d \<noteq> [] \<and> method \<noteq> CANCEL then '';tag='' @ remoteTag d else [])),
          (''Call-ID'', call_id),
          (''CSeq'', dec (unat cseq) @ '' '' @ method_name method),
          (''Max-Forwards'', ''70'')] @
         (if inside \<and> routeSet d \<noteq> [] then List.map (Pair ''Route'') (routeSet d)
          else [(''Route'', ''<sip:'' @ effectiveRouteAddr cfg @ '';lr>'')]))"

text \<open>\<^verbatim>\<open>registerState{sipInstance: ...}\<close>: the other fields have their zero values.\<close>

definition contact_state :: "string \<Rightarrow> register_state" where
  "contact_state urn = \<lparr>rs_spiC = 0, rs_spiS = 0, rs_portC = 0, rs_portS = 0, rs_ck = [], rs_ik = [],
     sipInstance = urn, rs_policy = None, rs_transport = None, verifyHeader = []\<rparr>"

definition invite_headers :: "call_service \<Rightarrow> (string \<times> string) list" where
  "invite_headers svc =
     (let cfg = svc_cfg svc; t = Template cfg
      in [(''Contact'', buildIMSCoreContact cfg (contact_state (TrimSpace (CfgSIPInstanceURN cfg))) (LocalPortS svc)),
          (''P-Preferred-Identity'', ''<'' @ snd (originatingIdentities svc) @ ''>''),
          (''P-Preferred-Service'', ''urn:urn-7:3gpp-service.ims.icsi.mmtel'')] @
         (if SupportPEarlyMedia t \<and> EarlyMediaNeedsHeader t then [(''P-Early-Media'', ''supported'')] else []) @
         [(''Accept-Contact'', ''*;+g.3gpp.icsi-ref='' @ [CHR 0x22] @ encodedICSIRef t @ [CHR 0x22])] @
         (if templateIncludesCallPANI t then [(''P-Access-Network-Info'', effectiveCallPANI t)] else []) @
         [(''Session-Expires'', ''1800;refresher=uac''), (''Min-SE'', ''90''), (''Accept'', ''application/sdp'')])"

definition common_headers ::
  "call_service \<Rightarrow> sip_method \<Rightarrow> string \<Rightarrow> dialog \<Rightarrow> (string \<times> string) list" where
  "common_headers svc method body d =
     (let cfg = svc_cfg svc; t = Template cfg; agent = TrimSpace (UserAgent cfg)
      in [(''Supported'', ''100rel,timer,replaces''),
          (''Allow'', ''INVITE,ACK,CANCEL,BYE,UPDATE,PRACK,INFO,OPTIONS,MESSAGE'')] @
         (if agent \<noteq> [] then [(''User-Agent'', agent)] else []) @
         (if method = PRACK \<and> lastRSeq d \<noteq> []
          then [(''RAck'', lastRSeq d @ '' '' @ dec (unat (inviteCSeq d)) @ '' INVITE'')] else []) @
         (if method \<noteq> INVITE \<and> templateIncludesCallPANI t then [(''P-Access-Network-Info'', effectiveCallPANI t)] else []) @
         (if svc_verifyHeader svc \<noteq> [] then [(''Security-Verify'', svc_verifyHeader svc)] else []) @
         (if body \<noteq> []
          then [(''Content-Type'', if method = INFO then ''application/dtmf-relay'' else ''application/sdp'')] else []))"

definition buildRequest ::
  "(string \<Rightarrow> bool) \<Rightarrow> call_service \<Rightarrow> string \<Rightarrow> string \<Rightarrow> sip_method \<Rightarrow> string \<Rightarrow> string \<Rightarrow> u32 \<Rightarrow> string \<Rightarrow> dialog \<Rightarrow>
   (call_error + request) \<times> dialog" where
  "buildRequest parse_uri svc tag fresh method peer call_id cseq0 body d0 =
     (let cfg = svc_cfg svc;
          phoneContext = (if TrimSpace (CallPhoneContext svc) = [] then HomeDomain cfg else TrimSpace (CallPhoneContext svc))
      in case normalizeCallTarget peer phoneContext (Realm cfg) of
           Inl e \<Rightarrow> (Inl e, d0)
         | Inr toTarget \<Rightarrow>
             let inside = in_dialog method d0;
                 (branch, cseq, d) = claim_transaction method tag fresh cseq0 d0;
                 target = (if inside \<and> remoteTarget d \<noteq> [] then remoteTarget d else toTarget)
             in if \<not> parse_uri target then (Inl InvalidCallTarget, d)
                else (Inr \<lparr>req_method = method, req_uri = target,
                  req_headers = dialog_headers svc method inside toTarget branch cseq call_id d @
                    (if method = INVITE then invite_headers svc else []) @ common_headers svc method body d,
                  req_body = body, req_destination = effectiveTransportAddr cfg,
                  req_transport = ToUpper (registerTransportName cfg [])\<rparr>, d))"

section \<open>The target of a call\<close>

lemma HasPrefix_append: "HasPrefix (p @ s) p"
  by (simp add: HasPrefix_def)


section \<open>Transactions\<close>

lemma claim_dialog:
  assumes "claim_transaction method tag fresh cseq d = (b, n, d')"
  shows "remoteTag d' = remoteTag d" "lastRSeq d' = lastRSeq d" "remoteTarget d' = remoteTarget d" "routeSet d' = routeSet d"
    "localTag d' = (if localTag d = [] then tag else localTag d)"
    "non2xxACK d' = (if method = ACK then False else non2xxACK d)"
    "inviteBranch d' = (if method = INVITE then fresh else inviteBranch d)"
    "inviteCSeq d' = (if method = INVITE then cseq else inviteCSeq d)"
  using assms by (auto simp: claim_transaction_def Let_def split: sip_method.splits if_splits)

lemma build_headers:
  assumes "buildRequest parse svc tag fresh method peer call_id cseq body d = (Inr r, d')"
  obtains b n toTarget where "claim_transaction method tag fresh cseq d = (b, n, d')"
    "normalizeCallTarget peer (if TrimSpace (CallPhoneContext svc) = [] then HomeDomain (svc_cfg svc)
       else TrimSpace (CallPhoneContext svc)) (Realm (svc_cfg svc)) = Inr toTarget"
    "req_uri r = (if in_dialog method d \<and> remoteTarget d' \<noteq> [] then remoteTarget d' else toTarget)"
    "req_method r = method"
    "req_headers r = dialog_headers svc method (in_dialog method d) toTarget b n call_id d' @
       (if method = INVITE then invite_headers svc else []) @ common_headers svc method body d'"
proof -
  obtain b n d1 where c: "claim_transaction method tag fresh cseq d = (b, n, d1)" by (rule prod_cases3)
  show thesis
    using assms that [of b n] unfolding buildRequest_def Let_def c
    by (auto split: sum.splits if_splits)
qed

lemma dialog_header_values:
  "map_of (dialog_headers svc method inside t b n call_id d @ hs) ''Via'' =
     Some (''SIP/2.0/'' @ ToUpper (registerTransportName (svc_cfg svc) []) @ '' '' @
             formatRegisterViaHost (CfgLocalIP (svc_cfg svc)) (LocalPortC svc) @ '';branch='' @ b @ '';rport'')"
  "map_of (dialog_headers svc method inside t b n call_id d @ hs) ''From'' =
     Some (''<'' @ fst (originatingIdentities svc) @ ''>;tag='' @ localTag d)"
  "map_of (dialog_headers svc method inside t b n call_id d @ hs) ''To'' =
     Some (''<'' @ t @ ''>'' @ (if remoteTag d \<noteq> [] \<and> method \<noteq> CANCEL then '';tag='' @ remoteTag d else []))"
  "map_of (dialog_headers svc method inside t b n call_id d @ hs) ''Call-ID'' = Some call_id"
  "map_of (dialog_headers svc method inside t b n call_id d @ hs) ''CSeq'' = Some (dec (unat n) @ '' '' @ method_name method)"
  by (simp_all add: dialog_headers_def Let_def)

lemma update_dialog:
  "localTag (updateDialogFromResponse r d) = localTag d" "inviteBranch (updateDialogFromResponse r d) = inviteBranch d"
  "inviteCSeq (updateDialogFromResponse r d) = inviteCSeq d" "non2xxACK (updateDialogFromResponse r d) = non2xxACK d"
  by (simp_all add: updateDialogFromResponse_def Let_def split: option.split)

lemma update_dialogs:
  "localTag (fold updateDialogFromResponse rs d) = localTag d" "inviteBranch (fold updateDialogFromResponse rs d) = inviteBranch d"
  "inviteCSeq (fold updateDialogFromResponse rs d) = inviteCSeq d" "non2xxACK (fold updateDialogFromResponse rs d) = non2xxACK d"
  by (induction rs arbitrary: d) (simp_all add: update_dialog)


text \<open>A call is built, its ringing answered with a tag, and it is cancelled.\<close>

definition sample_ringing :: call_response where
  "sample_ringing = \<lparr>StatusCode = 180, Reason = ''Ringing'', GetHeaders = (\<lambda>_. []), ToTag = Some ''x'',
     ResponseCSeq = Some (1, INVITE), ResponseBody = []\<rparr>"


end
