(* ===== verification/Media_Codec.thy ===== *)
theory Media_Codec
  imports Go_Prelude
begin

text \<open>
  The voice payloads of a call (\<^verbatim>\<open>imscore/call_runtime.go\<close>): the two layouts of an AMR frame, with the
  bit access they are built on, and G.711.  A sample, an \<^verbatim>\<open>int16\<close>, is a 16-bit word read by \<^const>\<open>sint\<close>.
\<close>

section \<open>Bits\<close>

definition readBit :: "bytes \<Rightarrow> nat \<Rightarrow> byte" where
  "readBit data n = drop_bit (7 - n mod 8) (data ! (n div 8)) AND 1"

definition readBits :: "bytes \<Rightarrow> nat \<Rightarrow> nat \<Rightarrow> u64" where
  "readBits data offset count =
     fold (\<lambda>index value. push_bit 1 value OR ucast (readBit data (offset + index))) [0..<count] 0"

definition write_bit :: "nat \<Rightarrow> bool \<Rightarrow> bytes \<Rightarrow> bytes" where
  "write_bit position b data =
     (let i = position div 8; mask = push_bit (7 - position mod 8) 1
      in if b then data[i := data ! i OR mask] else data[i := data ! i AND NOT mask])"

definition writeBits :: "bytes \<Rightarrow> nat \<Rightarrow> u64 \<Rightarrow> nat \<Rightarrow> bytes" where
  "writeBits data offset value count =
     fold (\<lambda>index. write_bit (offset + index) (drop_bit (count - 1 - index) value AND 1 \<noteq> 0)) [0..<count] data"

section \<open>AMR frames\<close>

definition amrMode7SpeechBits :: nat where "amrMode7SpeechBits = 244"

datatype amr_error = TruncatedFrame | UnsupportedFrame | MultiFrame

text \<open>The loop that copies the speech bits.\<close>

definition copy_bits :: "nat \<Rightarrow> bytes \<Rightarrow> nat \<Rightarrow> nat \<Rightarrow> bytes \<Rightarrow> bytes" where
  "copy_bits count source from to data =
     fold (\<lambda>n d. writeBits d (to + n) (ucast (readBit source (from + n))) 1) [0..<count] data"

definition amrOctetAlignedToBandwidthEfficient :: "bytes \<Rightarrow> amr_error + bytes" where
  "amrOctetAlignedToBandwidthEfficient payload =
     (if length payload < 33 then Inl TruncatedFrame
      else let toc = payload ! 1
      in if toc AND 0x80 \<noteq> 0 \<or> drop_bit 3 toc AND 0x0f \<noteq> 7 \<or> toc AND 0x04 = 0 then Inl UnsupportedFrame
      else let out0 = replicate ((4 + 6 + amrMode7SpeechBits + 7) div 8) 0;
               out1 = writeBits out0 0 (ucast (drop_bit 4 (payload ! 0))) 4;
               out2 = writeBits out1 4 0 1;
               out3 = writeBits out2 5 (ucast (drop_bit 3 toc AND 0x0f)) 4;
               out4 = writeBits out3 9 (ucast (drop_bit 2 toc AND 0x01)) 1
           in Inr (copy_bits amrMode7SpeechBits (drop 2 payload) 0 10 out4))"

definition amrBandwidthEfficientToOctetAligned :: "bytes \<Rightarrow> amr_error + bytes" where
  "amrBandwidthEfficientToOctetAligned payload =
     (if length payload * 8 < 4 + 6 + amrMode7SpeechBits then Inl TruncatedFrame
      else if readBit payload 4 \<noteq> 0 then Inl MultiFrame
      else let frameType = readBits payload 5 4; quality = (ucast (readBits payload 9 1) :: byte)
      in if frameType \<noteq> 7 \<or> quality = 0 then Inl UnsupportedFrame
      else let head = [push_bit 4 (ucast (readBits payload 0 4)), ucast (push_bit 3 frameType) OR push_bit 2 quality]
           in Inr (head @ copy_bits amrMode7SpeechBits payload 10 0 (replicate 31 0)))"

section \<open>G.711\<close>

type_synonym sample = "16 word"

fun mu_exponent :: "nat \<Rightarrow> int \<Rightarrow> int \<Rightarrow> nat" where
  "mu_exponent 0 probe s = 0"
| "mu_exponent (Suc e) probe s = (if s AND probe = 0 then mu_exponent e (drop_bit 1 probe) s else Suc e)"

definition linearToMuLaw :: "sample \<Rightarrow> byte" where
  "linearToMuLaw v =
     (let s0 = sint v;
          sign = (if s0 < 0 then 0x80 else 0);
          s1 = (if s0 < 0 then - s0 else s0);
          s = (if s1 > 32635 then 32635 else s1) + 132;
          e = mu_exponent 7 0x4000 s;
          mant = drop_bit (e + 3) s AND 0x0f
      in NOT (sign OR of_int (push_bit 4 (int e)) OR of_int mant))"

definition muLawToLinear :: "byte \<Rightarrow> sample" where
  "muLawToLinear code =
     (let v = NOT code;
          t = push_bit (unat (drop_bit 4 (v AND 0x70))) (push_bit 3 (uint v AND 0x0f) + 132)
      in if v AND 0x80 \<noteq> 0 then of_int (132 - t) else of_int (t - 132))"

fun a_exponent :: "nat \<Rightarrow> int \<Rightarrow> nat" where
  "a_exponent 0 v = 0"
| "a_exponent (Suc n) v = (if 1 < v then Suc (a_exponent n (drop_bit 1 v)) else 0)"

text \<open>The loop \<^verbatim>\<open>for v := s >> 8; v > 1; v >>= 1\<close> ends within the bits of the sample.\<close>

definition linearToALaw :: "sample \<Rightarrow> byte" where
  "linearToALaw v =
     (let s0 = sint v;
          sign = (if s0 < 0 then 0 else 0x80);
          s1 = (if s0 < 0 then - s0 - 1 else s0);
          s = (if s1 > 32767 then 32767 else s1);
          e = (if 256 \<le> s then min 7 (a_exponent 16 (drop_bit 8 s) + 1) else 0);
          mant = (if e = 0 then drop_bit 4 s AND 0x0f else drop_bit (e + 3) s AND 0x0f)
      in (sign OR of_int (push_bit 4 (int e)) OR of_int mant) XOR 0x55)"

definition aLawToLinear :: "byte \<Rightarrow> sample" where
  "aLawToLinear code =
     (let v = code XOR 0x55;
          t0 = push_bit 4 (uint (v AND 0x0f));
          e = unat (drop_bit 4 (v AND 0x70));
          t = (if e = 0 then t0 + 8 else push_bit (e - 1) (t0 + 0x108))
      in if v AND 0x80 = 0 then of_int (- t) else of_int t)"

text \<open>Samples are stored little endian; an odd octet at the end is dropped.\<close>

fun samples :: "bytes \<Rightarrow> sample list" where
  "samples (a # b # bs) = be_u16 b a # samples bs"
| "samples _ = []"

definition sample_bytes :: "sample \<Rightarrow> bytes" where
  "sample_bytes s = [ucast s, ucast (drop_bit 8 s)]"

definition encodeG711 :: "bytes \<Rightarrow> bool \<Rightarrow> bytes" where
  "encodeG711 pcm alaw = map (if alaw then linearToALaw else linearToMuLaw) (samples pcm)"

definition decodeG711 :: "bytes \<Rightarrow> bool \<Rightarrow> bytes" where
  "decodeG711 data alaw = concat (map (sample_bytes \<circ> (if alaw then aLawToLinear else muLawToLinear)) data)"

section \<open>Bit access\<close>

lemma readBit_bit: "readBit data n = (if bit (data ! (n div 8)) (7 - n mod 8) then 1 else 0)"
proof -
  have "drop_bit k b AND 1 = (if bit b k then 1 else 0)" for b :: byte and k
    by (simp add: and_one_eq mod_2_eq_odd bit_iff_odd_drop_bit)
  then show ?thesis by (simp add: readBit_def)
qed

lemma readBit_01: "readBit data n = 0 \<or> readBit data n = 1"
  by (simp add: readBit_bit)

lemma length_write_bit [simp]: "length (write_bit p b data) = length data"
  by (simp add: write_bit_def Let_def)

lemma readBit_write_bit:
  assumes "p < 8 * length data"
  shows "readBit (write_bit p b data) q = (if q = p then if b then 1 else 0 else readBit data q)"
proof (cases "q div 8 = p div 8")
  case True
  have l: "p div 8 < length data" using assms by (simp add: less_mult_imp_div_less mult.commute)
  have or_bit: "bit (x OR push_bit k 1) j \<longleftrightarrow> bit x j \<or> j = k" if "j < 8" for x :: byte and j k
    using that by (auto simp: bit_or_iff bit_exp_iff)
  have and_bit: "bit (x AND NOT (push_bit k 1)) j \<longleftrightarrow> bit x j \<and> j \<noteq> k" if "j < 8" for x :: byte and j k
    using that by (auto simp: bit_and_iff bit_not_iff bit_exp_iff)
  have m: "q mod 8 < 8" "p mod 8 < 8" by simp_all
  then have "7 - q mod 8 = 7 - p mod 8 \<longleftrightarrow> q mod 8 = p mod 8" by linarith
  moreover have "q mod 8 = p mod 8 \<longleftrightarrow> q = p" using div_mult_mod_eq [of q 8] div_mult_mod_eq [of p 8] True by auto
  ultimately have same: "7 - q mod 8 = 7 - p mod 8 \<longleftrightarrow> q = p" by blast
  have n: "7 - q mod 8 < 8" by simp
  show ?thesis
    using l unfolding readBit_bit write_bit_def Let_def True
    by (simp only: length_list_update nth_list_update_eq or_bit [OF n] and_bit [OF n] same if_distrib if_bool_eq_conj split: if_splits) simp
next
  case False
  then show ?thesis by (auto simp: readBit_bit write_bit_def Let_def)
qed

lemma length_writeBits [simp]: "length (writeBits data a v c) = length data"
proof -
  have "length (fold (\<lambda>i. write_bit (p i) (b i)) xs d) = length d" for p b d and xs :: "nat list"
    by (induction xs arbitrary: d) simp_all
  then show ?thesis by (simp add: writeBits_def)
qed

lemma readBit_fold_write:
  "a + n \<le> 8 * length d \<Longrightarrow> readBit (fold (\<lambda>i. write_bit (a + i) (f i)) [0..<n] d) q =
    (if a \<le> q \<and> q < a + n then if f (q - a) then 1 else 0 else readBit d q)"
proof (induction n)
  case (Suc n)
  have l: "length (fold (\<lambda>i. write_bit (a + i) (f i)) xs e) = length e" for xs e
    by (induction xs arbitrary: e) simp_all
  show ?case using Suc by (auto simp: readBit_write_bit l less_Suc_eq)
qed auto

lemma drop_bit_and_1: "drop_bit k (v :: u64) AND 1 \<noteq> 0 \<longleftrightarrow> bit v k"
  by (simp add: and_one_eq mod_2_eq_odd bit_iff_odd_drop_bit)

lemma readBit_writeBits:
  "a + c \<le> 8 * length d \<Longrightarrow> readBit (writeBits d a v c) q =
    (if a \<le> q \<and> q < a + c then if bit v (c - 1 - (q - a)) then 1 else 0 else readBit d q)"
  unfolding writeBits_def drop_bit_and_1 by (rule readBit_fold_write)

lemma writeBits_one: "writeBits d p v 1 = write_bit p (bit v 0) d"
  using drop_bit_and_1 [of 0 v] by (simp add: writeBits_def)

lemma copy_bits_fold: "copy_bits n source from to d = fold (\<lambda>i. write_bit (to + i) (readBit source (from + i) \<noteq> 0)) [0..<n] d"
proof -
  have "bit (ucast (readBit source k) :: u64) 0 \<longleftrightarrow> readBit source k \<noteq> 0" for k
    using readBit_01 [of source k] by auto
  then show ?thesis unfolding copy_bits_def writeBits_one by simp
qed

lemma readBit_copy_bits:
  "to + n \<le> 8 * length d \<Longrightarrow> readBit (copy_bits n source from to d) q =
    (if to \<le> q \<and> q < to + n then readBit source (from + (q - to)) else readBit d q)"
  unfolding copy_bits_fold using readBit_01 [of source "from + (q - to)"] by (subst readBit_fold_write) auto

lemma length_copy_bits [simp]: "length (copy_bits n source from to d) = length d"
proof -
  have "length (fold (\<lambda>i. write_bit (to + i) (b i)) xs e) = length e" for b xs e
    by (induction xs arbitrary: e) simp_all
  then show ?thesis by (simp add: copy_bits_fold)
qed

lemma bit_readBits:
  "c \<le> 64 \<Longrightarrow> bit (readBits d a c) i \<longleftrightarrow> i < c \<and> readBit d (a + (c - 1 - i)) \<noteq> 0"
proof (induction c arbitrary: i)
  case (Suc c)
  have one: "bit (ucast (readBit d k) :: u64) j \<longleftrightarrow> j = 0 \<and> readBit d k \<noteq> 0" for k j
    using readBit_01 [of d k] by (auto simp: bit_1_iff)
  have e: "readBits d a (Suc c) = push_bit 1 (readBits d a c) OR ucast (readBit d (a + c))"
    by (simp add: readBits_def)
  have k: "bit (push_bit 1 (v :: u64)) i \<longleftrightarrow> i < 64 \<and> 0 < i \<and> bit v (i - 1)" for v
    unfolding bit_push_bit_iff possible_bit_word by (cases i) auto
  have "bit (readBits d a (Suc c)) i \<longleftrightarrow>
      i < 64 \<and> 0 < i \<and> bit (readBits d a c) (i - 1) \<or> i = 0 \<and> readBit d (a + c) \<noteq> 0"
    unfolding e bit_or_iff k one ..
  note step = this
  show ?case
  proof (cases i)
    case 0
    then show ?thesis unfolding step by simp
  next
    case (Suc j)
    have "bit (readBits d a c) j \<longleftrightarrow> j < c \<and> readBit d (a + (c - 1 - j)) \<noteq> 0" using Suc.IH Suc.prems by simp
    with Suc.prems show ?thesis unfolding step by (auto simp: \<open>i = Suc j\<close>)
  qed
qed (simp add: readBits_def)

lemma bytes_by_bits:
  assumes "length xs = length ys" "\<And>n. n < 8 * length ys \<Longrightarrow> readBit xs n = readBit ys n"
  shows "xs = ys"
proof (rule nth_equalityI)
  fix i assume i: "i < length xs"
  show "xs ! i = ys ! i"
  proof (rule bit_word_eqI)
    fix n assume n: "n < LENGTH(8)"
    have "(8 * i + m) div 8 = i" "(8 * i + m) mod 8 = m" if "m < 8" for m using that by simp_all
    from this [of "7 - n"] have "(8 * i + (7 - n)) div 8 = i" "(8 * i + (7 - n)) mod 8 = 7 - n" by simp_all
    moreover have "8 * i + (7 - n) < 8 * length ys" using i assms(1) by simp
    ultimately show "bit (xs ! i) n = bit (ys ! i) n"
      using assms(2) [of "8 * i + (7 - n)"] n by (simp add: readBit_bit split: if_splits)
  qed
qed (use assms in simp)

section \<open>The layouts\<close>

lemma readBit_append: "readBit (xs @ ys) n = (if n < 8 * length xs then readBit xs n else readBit ys (n - 8 * length xs))"
proof (cases "n < 8 * length xs")
  case True
  then have "n div 8 < length xs" by (simp add: less_mult_imp_div_less mult.commute)
  then show ?thesis using True by (simp add: readBit_bit nth_append)
next
  case False
  then obtain k where k: "n = 8 * length xs + k" by (metis le_Suc_ex not_less)
  then show ?thesis by (simp add: readBit_bit nth_append)
qed

lemma readBit_zeros: "n < 8 * k \<Longrightarrow> readBit (replicate k 0) n = 0"
  by (simp add: readBit_bit less_mult_imp_div_less mult.commute)

definition octet_speech :: "bytes \<Rightarrow> bytes" where
  "octet_speech speech = take 30 speech @ [speech ! 30 AND 0xf0]"

lemma byte_index: "m < 8 \<Longrightarrow> (8 * i + m) div 8 = i" "m < 8 \<Longrightarrow> (8 * i + m) mod 8 = (m :: nat)"
  by simp_all

lemma upper_bits: "bit (b AND 0xf0 :: byte) i \<longleftrightarrow> 4 \<le> i \<and> bit b i" "bit (b AND 0xfc :: byte) i \<longleftrightarrow> 2 \<le> i \<and> bit b i"
proof -
  have m: "(0xf0 :: byte) = push_bit 4 (mask 4)" "(0xfc :: byte) = push_bit 2 (mask 6)"
    by (simp_all add: mask_eq_exp_minus_1 push_bit_eq_mult)
  show "bit (b AND 0xf0 :: byte) i \<longleftrightarrow> 4 \<le> i \<and> bit b i" "bit (b AND 0xfc :: byte) i \<longleftrightarrow> 2 \<le> i \<and> bit b i"
    unfolding m bit_and_iff bit_push_bit_iff bit_mask_iff possible_bit_word by (auto dest: bit_imp_le_length)
qed

lemma bit_seven: "bit (7 :: u64) i \<longleftrightarrow> i < 3" "bit (7 :: byte) i \<longleftrightarrow> i < 3"
proof -
  have m: "(7 :: u64) = mask 3" "(7 :: byte) = mask 3" by (simp_all add: mask_eq_exp_minus_1)
  show "bit (7 :: u64) i \<longleftrightarrow> i < 3" "bit (7 :: byte) i \<longleftrightarrow> i < 3" unfolding m bit_mask_iff possible_bit_word by auto
qed

lemma readBit_take: "n < 8 * k \<Longrightarrow> readBit (take k xs) n = readBit xs n"
  by (simp add: readBit_bit less_mult_imp_div_less mult.commute)

lemma readBit_one: "n < 8 \<Longrightarrow> readBit [b] n = (if bit b (7 - n) then 1 else 0)"
  by (simp add: readBit_bit)

lemma readBit_octet_speech:
  assumes "31 \<le> length speech" "n < 248"
  shows "readBit (octet_speech speech) n = (if n < 244 then readBit speech n else 0)"
proof (cases "n < 240")
  case True
  then show ?thesis using assms by (simp add: octet_speech_def readBit_append readBit_take)
next
  case False
  then obtain k where k: "n = 240 + k" "k < 8" using assms(2) by (metis add_less_cancel_left le_Suc_ex not_less numeral_plus_numeral add_num_simps)
  have "readBit speech n = (if bit (speech ! 30) (7 - k) then 1 else 0)" using k byte_index [of k 30] by (simp add: readBit_bit)
  then show ?thesis using assms(1) k by (auto simp: octet_speech_def readBit_append readBit_one upper_bits)
qed

definition efficient_payload :: "bytes \<Rightarrow> bytes" where
  "efficient_payload q = take 31 q @ [q ! 31 AND 0xfc]"

lemma readBit_efficient_payload:
  assumes "32 \<le> length q" "n < 256"
  shows "readBit (efficient_payload q) n = (if n < 254 then readBit q n else 0)"
proof (cases "n < 248")
  case True
  then show ?thesis using assms by (simp add: efficient_payload_def readBit_append readBit_take)
next
  case False
  define k where "k = n - 248"
  have k: "n = 248 + k" "k < 8" using False assms(2) by (simp_all add: k_def)
  have "readBit q n = (if bit (q ! 31) (7 - k) then 1 else 0)" using k byte_index [of k 31] by (simp add: readBit_bit)
  then show ?thesis using assms(1) k by (auto simp: efficient_payload_def readBit_append readBit_one upper_bits)
qed

lemma to_efficient_bits:
  assumes "amrOctetAlignedToBandwidthEfficient p = Inr q"
  shows "length q = 32" "33 \<le> length p" "drop_bit 3 (p ! 1) AND 0x0f = 7"
    "n < 256 \<Longrightarrow> readBit q n = (if n < 4 then if bit (p ! 0) (7 - n) then 1 else 0 else if n < 6 then 0 else if n < 10 then 1
       else if n < 254 then readBit (drop 2 p) (n - 10) else 0)"
proof -
  have l: "33 \<le> length p" and t: "drop_bit 3 (p ! 1) AND 0x0f = 7" and f: "(p ! 1) AND 0x04 \<noteq> 0"
    using assms by (auto simp: amrOctetAlignedToBandwidthEfficient_def Let_def split: if_splits)
  let ?h = "writeBits (writeBits (writeBits (writeBits (replicate 32 0) 0 (ucast (drop_bit 4 (p ! 0))) 4) 4 0 1) 5 7 4) 9
    (ucast (drop_bit 2 (p ! 1) AND 0x01)) 1"
  have q: "q = copy_bits 244 (drop 2 p) 0 10 ?h"
    using assms l t f by (auto simp: amrOctetAlignedToBandwidthEfficient_def Let_def amrMode7SpeechBits_def split: if_splits)
  show "length q = 32" "33 \<le> length p" "drop_bit 3 (p ! 1) AND 0x0f = 7" using l t by (simp_all add: q)
  have m: "bit (p ! 1) 2"
  proof -
    have "(0x04 :: byte) = push_bit 2 1" by simp
    then show ?thesis using f by (metis and_exp_eq_0_iff_not_bit push_bit_of_1)
  qed
  have b: "bit (ucast (drop_bit 4 (p ! 0)) :: u64) i \<longleftrightarrow> bit (p ! 0) (4 + i)" for i
    by (auto simp: bit_simps dest: bit_imp_le_length)
  have c: "bit (ucast (drop_bit 2 (p ! 1) AND 0x01 :: byte) :: u64) 0" using m by (simp add: bit_simps)
  assume n: "n < 256"
  have h: "readBit ?h n = (if n < 4 then if bit (p ! 0) (7 - n) then 1 else 0 else if n < 6 then 0 else if n < 10 then 1 else 0)"
    using n c bit_seven(1) [of "8 - n"] by (auto simp: readBit_writeBits b readBit_zeros)
  show "readBit q n = (if n < 4 then if bit (p ! 0) (7 - n) then 1 else 0 else if n < 6 then 0 else if n < 10 then 1
       else if n < 254 then readBit (drop 2 p) (n - 10) else 0)"
    unfolding q by (subst readBit_copy_bits) (simp_all add: h [unfolded One_nat_def])
qed

lemma readBits_high:
  assumes "\<And>n. n < 4 \<Longrightarrow> readBit q n = (if bit (b :: byte) (7 - n) then 1 else 0)"
  shows "push_bit 4 (ucast (readBits q 0 4)) = b AND 0xf0"
proof (rule bit_word_eqI)
  fix i assume i: "i < LENGTH(8)"
  have "bit (push_bit 4 (ucast (readBits q 0 4)) :: byte) i \<longleftrightarrow> 4 \<le> i \<and> bit (readBits q 0 4) (i - 4)"
    using i unfolding bit_push_bit_iff possible_bit_word bit_ucast_iff by auto
  also have "\<dots> \<longleftrightarrow> 4 \<le> i \<and> readBit q (3 - (i - 4)) \<noteq> 0" using i by (auto simp: bit_readBits)
  also have "\<dots> \<longleftrightarrow> 4 \<le> i \<and> bit b i"
  proof (cases "4 \<le> i")
    case True
    then have "7 - (3 - (i - 4)) = i" using i by simp
    then show ?thesis using assms [of "3 - (i - 4)"] True by simp
  qed simp
  finally show "bit (push_bit 4 (ucast (readBits q 0 4)) :: byte) i \<longleftrightarrow> bit (b AND 0xf0) i" by (simp add: upper_bits)
qed

lemma readBits_seven:
  assumes "readBit q 5 = 0" "readBit q 6 \<noteq> 0" "readBit q 7 \<noteq> 0" "readBit q 8 \<noteq> 0"
  shows "readBits q 5 4 = (7 :: u64)"
proof (rule bit_word_eqI)
  fix i :: nat
  have "i < 4 \<Longrightarrow> i = 0 \<or> i = 1 \<or> i = 2 \<or> i = 3" by linarith
  then show "bit (readBits q 5 4) i \<longleftrightarrow> bit (7 :: u64) i"
    unfolding bit_seven by (cases "i < 4") (auto simp: bit_readBits assms)
qed

lemma readBits_one: "readBits q n 1 = ucast (readBit q n)" "readBits q n (Suc 0) = ucast (readBit q n)"
  by (simp_all add: readBits_def)

definition octet_payload :: "bytes \<Rightarrow> bytes" where
  "octet_payload p = [p ! 0 AND 0xf0, 0x3c] @ octet_speech (drop 2 p)"

lemma octet_frame_survives:
  assumes "amrOctetAlignedToBandwidthEfficient p = Inr q"
  shows "amrBandwidthEfficientToOctetAligned q = Inr (octet_payload p)"
proof -
  note q = to_efficient_bits [OF assms]
  have b: "readBit q 4 = 0" "readBit q 5 = 0" "readBit q 6 = 1" "readBit q 7 = 1" "readBit q 8 = 1" "readBit q 9 = 1"
    by (simp_all add: q(4))
  have h: "push_bit 4 (ucast (readBits q 0 4)) = p ! 0 AND 0xf0" by (rule readBits_high) (simp add: q(4))
  have s: "readBits q 5 4 = 7" by (rule readBits_seven) (simp_all add: b)
  have g: "ucast (readBits q 9 1) = (1 :: byte)" by (simp add: readBits_one b)
  have c: "copy_bits 244 q 10 0 (replicate 31 0) = octet_speech (drop 2 p)"
  proof (rule bytes_by_bits)
    show "length (copy_bits 244 q 10 0 (replicate 31 0)) = length (octet_speech (drop 2 p))"
      using q(2) by (simp add: octet_speech_def)
    fix n assume "n < 8 * length (octet_speech (drop 2 p))"
    then have n: "n < 248" using q(2) by (simp add: octet_speech_def)
    show "readBit (copy_bits 244 q 10 0 (replicate 31 0)) n = readBit (octet_speech (drop 2 p)) n"
      using n q(2) by (simp add: readBit_copy_bits readBit_octet_speech readBit_zeros q(4))
  qed
  show ?thesis
    by (simp add: amrBandwidthEfficientToOctetAligned_def amrMode7SpeechBits_def Let_def readBits_one b s h c octet_payload_def q(1))
qed

lemma to_octet_bits:
  assumes "amrBandwidthEfficientToOctetAligned q = Inr p"
  shows "32 \<le> length q" "length p = 33" "p ! 1 = 0x3c" "n < 4 \<Longrightarrow> bit (p ! 0) (7 - n) \<longleftrightarrow> readBit q n \<noteq> 0"
    "n < 244 \<Longrightarrow> readBit (drop 2 p) n = readBit q (10 + n)"
    "readBit q 4 = 0" "readBit q 5 = 0" "readBit q 6 \<noteq> 0" "readBit q 7 \<noteq> 0" "readBit q 8 \<noteq> 0" "readBit q 9 \<noteq> 0"
proof -
  have l: "254 \<le> length q * 8" and f: "readBit q 4 = 0" and s: "readBits q 5 4 = 7"
    and g: "ucast (readBits q 9 1) \<noteq> (0 :: byte)"
    using assms by (auto simp: amrBandwidthEfficientToOctetAligned_def amrMode7SpeechBits_def Let_def split: if_splits)
  have n: "readBit q 9 = 1" using g readBit_01 [of q 9] by (auto simp: readBits_one)
  have p: "p = [push_bit 4 (ucast (readBits q 0 4)), 0x3c] @ copy_bits 244 q 10 0 (replicate 31 0)"
    using assms l f s n
    by (simp add: amrBandwidthEfficientToOctetAligned_def amrMode7SpeechBits_def Let_def readBits_one split: if_splits)
  show "32 \<le> length q" using l by simp
  show "length p = 33" "p ! 1 = 0x3c" by (simp_all add: p)
  show "n < 244 \<Longrightarrow> readBit (drop 2 p) n = readBit q (10 + n)" by (simp add: p readBit_copy_bits)
  have seven: "i < 4 \<Longrightarrow> i < 3 \<longleftrightarrow> readBit q (8 - i) \<noteq> 0" for i
    using bit_readBits [of 4 q 5 i] bit_seven(1) [of i] unfolding s by auto
  show "readBit q 5 = 0" "readBit q 6 \<noteq> 0" "readBit q 7 \<noteq> 0" "readBit q 8 \<noteq> 0"
    using seven [of 3] seven [of 2] seven [of 1] seven [of 0] by simp_all
  show "readBit q 4 = 0" "readBit q 9 \<noteq> 0" using f n by simp_all
  show "n < 4 \<Longrightarrow> bit (p ! 0) (7 - n) \<longleftrightarrow> readBit q n \<noteq> 0"
  proof -
    assume k: "n < 4"
    have "bit (push_bit 4 (ucast (readBits q 0 4)) :: byte) (7 - n) \<longleftrightarrow> bit (readBits q 0 4) (3 - n)"
      using k unfolding bit_push_bit_iff possible_bit_word bit_ucast_iff by auto
    moreover have "3 - n < 4" by simp
    ultimately show ?thesis using k by (simp add: p bit_readBits)
  qed
qed

lemma efficient_frame_survives:
  assumes "amrBandwidthEfficientToOctetAligned q = Inr p"
  shows "amrOctetAlignedToBandwidthEfficient p = Inr (efficient_payload q)"
proof -
  note p = to_octet_bits [OF assms]
  have "\<exists>q'. amrOctetAlignedToBandwidthEfficient p = Inr q'"
    by (simp add: amrOctetAlignedToBandwidthEfficient_def Let_def p(2) p(3) [unfolded One_nat_def])
  then obtain q' where q': "amrOctetAlignedToBandwidthEfficient p = Inr q'" by blast
  note b = to_efficient_bits [OF q']
  have "q' = efficient_payload q"
  proof (rule bytes_by_bits)
    show "length q' = length (efficient_payload q)" using b(1) p(1) by (simp add: efficient_payload_def)
    fix n assume "n < 8 * length (efficient_payload q)"
    then have n: "n < 256" using p(1) by (simp add: efficient_payload_def)
    consider "n < 4" | "n = 4 \<or> n = 5" | "n = 6 \<or> n = 7 \<or> n = 8 \<or> n = 9" | "10 \<le> n" "n < 254" | "254 \<le> n" by linarith
    then show "readBit q' n = readBit (efficient_payload q) n"
      using n p readBit_01 [of q n]
      by cases (auto simp: b(4) readBit_efficient_payload)
  qed
  then show ?thesis using q' by simp
qed


section \<open>Segments of G.711\<close>

definition g711_code :: "bool \<Rightarrow> nat \<Rightarrow> nat \<Rightarrow> byte" where
  "g711_code sg e m = (if sg then 0x80 else 0) OR of_int (push_bit 4 (int e)) OR of_int (int m)"

lemma g711_table: "list_all (\<lambda>sg. list_all (\<lambda>e. list_all (\<lambda>m.
    g711_code sg e m AND 0x0f = of_nat m \<and> drop_bit 4 (g711_code sg e m AND 0x70) = of_nat e \<and>
    (g711_code sg e m AND 0x80 \<noteq> 0) = sg \<and> unat (g711_code sg e m) = (if sg then 128 else 0) + 16 * e + m)
      [0..<16]) [0..<8]) [True, False]"
  by code_simp

lemma table_use:
  "list_all (\<lambda>sg. list_all (\<lambda>e. list_all (\<lambda>m. P sg e m) [0..<a]) [0..<b]) [True, False] \<Longrightarrow> e < b \<Longrightarrow> m < a \<Longrightarrow> P sg e m"
  by (cases sg) (auto simp: list_all_iff)

lemma g711_code_fields:
  assumes "e < 8" "m < 16"
  shows "g711_code sg e m AND 0x0f = of_nat m" "drop_bit 4 (g711_code sg e m AND 0x70) = of_nat e"
    "g711_code sg e m AND 0x80 \<noteq> 0 \<longleftrightarrow> sg" "unat (g711_code sg e m) = (if sg then 128 else 0) + 16 * e + m"
proof -
  note t = table_use [OF g711_table assms, of sg]
  show "g711_code sg e m AND 0x0f = of_nat m" by (rule conjunct1 [OF t])
  note t2 = conjunct2 [OF t]
  show "drop_bit 4 (g711_code sg e m AND 0x70) = of_nat e" by (rule conjunct1 [OF t2])
  note t3 = conjunct2 [OF t2]
  show "g711_code sg e m AND 0x80 \<noteq> 0 \<longleftrightarrow> sg" by (rule conjunct1 [OF t3])
  show "unat (g711_code sg e m) = (if sg then 128 else 0) + 16 * e + m" by (rule conjunct2 [OF t3])
qed

lemma g711_code_cases:
  obtains sg e m where "v = g711_code sg e m" "e < 8" "m < 16"
proof -
  let ?u = "unat v"
  have u: "?u < 256" by (rule byte_less_256)
  have q: "?u div 16 mod 8 = ?u div 16 - (if 128 \<le> ?u then 8 else 0)"
    using u by (simp add: mod_if less_mult_imp_div_less)
  have "?u = 16 * (?u div 16) + ?u mod 16" by simp
  also have "?u div 16 = (if 128 \<le> ?u then 8 else 0) + ?u div 16 mod 8" unfolding q by simp
  finally have "?u = 16 * ((if 128 \<le> ?u then 8 else 0) + ?u div 16 mod 8) + ?u mod 16" .
  then have "?u = (if 128 \<le> ?u then 128 else 0) + 16 * (?u div 16 mod 8) + ?u mod 16" by (rule trans) simp
  then have "v = g711_code (128 \<le> ?u) (?u div 16 mod 8) (?u mod 16)"
    unfolding word_unat_eq_iff by (subst g711_code_fields(4)) simp_all
  then show thesis using that by simp
qed

lemma sint_of_small: "- 32768 \<le> i \<Longrightarrow> i < 32768 \<Longrightarrow> sint (of_int i :: sample) = i"
  by (simp add: int_word_sint)

lemma sint_sample: "- 32768 \<le> sint (v :: sample)" "sint (v :: sample) < 32768"
  using sint_ge [of v] sint_lt [of v] by simp_all

lemma and_15: "(i :: int) AND 15 = i mod 16"
  using take_bit_eq_mask [of 4 i] by (simp add: take_bit_eq_mod mask_eq_exp_minus_1)

lemma segment_mantissa:
  fixes s :: int
  assumes "2 ^ (e + 7) \<le> s" "s < 2 ^ (e + 8)"
  obtains m where "drop_bit (e + 3) s AND 0x0f = m" "0 \<le> m" "m < 16" "2 ^ (e + 3) * (m + 16) \<le> s" "s < 2 ^ (e + 3) * (m + 17)"
proof -
  let ?q = "s div 2 ^ (e + 3)"
  have p: "(2 :: int) ^ (e + 7) = 2 ^ (e + 3) * 16" "(2 :: int) ^ (e + 8) = 2 ^ (e + 3) * 32"
    by (simp_all add: power_add)
  have "2 ^ (e + 3) * 16 div 2 ^ (e + 3) \<le> ?q" using assms(1) unfolding p(1) by (rule zdiv_mono1) simp
  then have "16 \<le> ?q" by simp
  moreover have "2 ^ (e + 3) * ?q \<le> s" "s < 2 ^ (e + 3) * (?q + 1)"
  proof -
    have "2 ^ (e + 3) * ?q + s mod 2 ^ (e + 3) = s" by (rule mult_div_mod_eq)
    moreover have "0 \<le> s mod 2 ^ (e + 3)" "s mod 2 ^ (e + 3) < 2 ^ (e + 3)" by simp_all
    ultimately show "2 ^ (e + 3) * ?q \<le> s" "s < 2 ^ (e + 3) * (?q + 1)" unfolding distrib_left by linarith+
  qed
  moreover have "?q < 32"
  proof (rule ccontr)
    assume "\<not> ?q < 32"
    then have "2 ^ (e + 3) * 32 \<le> 2 ^ (e + 3) * ?q" by (intro mult_left_mono) simp_all
    also have "\<dots> \<le> s" by fact
    finally show False using assms(2) unfolding p(2) by simp
  qed
  moreover have "q mod 16 = q - 16" if "16 \<le> q" "q < 32" for q :: int using that by presburger
  ultimately show thesis using that [of "?q - 16"] by (simp add: drop_bit_eq_div and_15 add.commute)
qed

lemma bit_of_segment:
  fixes s :: int
  assumes "0 \<le> s" "s < 2 ^ (k + 1)"
  shows "s AND 2 ^ k = 0 \<longleftrightarrow> s < 2 ^ k"
proof -
  have "s AND 2 ^ k = 0 \<longleftrightarrow> \<not> bit s k" by (simp add: and_exp_eq_0_iff_not_bit)
  also have "\<dots> \<longleftrightarrow> even (s div 2 ^ k)" by (simp add: bit_iff_odd)
  also have "\<dots> \<longleftrightarrow> s < 2 ^ k"
  proof (cases "s < 2 ^ k")
    case False
    then have "s div 2 ^ k = 1" using assms by (intro int_div_pos_eq [where r = "s - 2 ^ k"]) simp_all
    then show ?thesis using False by simp
  qed (use assms in \<open>simp add: div_pos_pos_trivial\<close>)
  finally show ?thesis .
qed

lemma mu_exponent_segment:
  "2 ^ 7 \<le> s \<Longrightarrow> s < 2 ^ (e + 8) \<Longrightarrow> \<exists>k \<le> e. mu_exponent e (2 ^ (e + 7)) s = k \<and> 2 ^ (k + 7) \<le> s \<and> s < 2 ^ (k + 8)"
proof (induction e)
  case (Suc e)
  have d: "drop_bit 1 (2 ^ (Suc e + 7)) = (2 :: int) ^ (e + 7)"
    using power_Suc [of "2 :: int" "e + 7"] by (simp add: drop_bit_eq_div del: power_Suc)
  have q: "s AND 2 ^ (Suc e + 7) = 0 \<longleftrightarrow> s < 2 ^ (Suc e + 7)" using Suc.prems by (intro bit_of_segment) simp_all
  show ?case
  proof (cases "s < 2 ^ (Suc e + 7)")
    case True
    moreover have "Suc e + 7 = e + 8" by simp
    ultimately have "s < 2 ^ (e + 8)" by (simp only:)
    from Suc.IH [OF Suc.prems(1) this] obtain k where
      "k \<le> e" "mu_exponent e (2 ^ (e + 7)) s = k" "2 ^ (k + 7) \<le> s" "s < 2 ^ (k + 8)" by blast
    then show ?thesis using True q d by (intro exI [of _ k]) (simp only: mu_exponent.simps if_True le_SucI simp_thms)
  next
    case False
    then have "mu_exponent (Suc e) (2 ^ (Suc e + 7)) s = Suc e" using q by (simp only: mu_exponent.simps if_False)
    then show ?thesis using False [unfolded not_less] Suc.prems(2) by blast
  qed
qed simp

lemma a_exponent_segment:
  "1 \<le> v \<Longrightarrow> v < 2 ^ (n + 1) \<Longrightarrow> 2 ^ a_exponent n v \<le> v \<and> v < 2 ^ (a_exponent n v + 1)"
proof (induction n arbitrary: v)
  case (Suc n)
  show ?case
  proof (cases "1 < v")
    case True
    have "2 ^ a_exponent n (v div 2) \<le> v div 2 \<and> v div 2 < 2 ^ (a_exponent n (v div 2) + 1)"
      using Suc.prems True by (intro Suc.IH) auto
    then show ?thesis using True by (auto simp: drop_bit_eq_div)
  qed (use Suc.prems in simp)
qed simp

definition mu_magnitude :: "sample \<Rightarrow> int" where
  "mu_magnitude v = (let s1 = (if sint v < 0 then - sint v else sint v) in (if s1 > 32635 then 32635 else s1) + 132)"

lemma mu_law_code:
  obtains e m where "e < 8" "m < 16" "linearToMuLaw v = NOT (g711_code (sint v < 0) e m)"
    "2 ^ (e + 3) * (int m + 16) \<le> mu_magnitude v" "mu_magnitude v < 2 ^ (e + 3) * (int m + 17)"
proof -
  let ?x = "mu_magnitude v"
  have x: "132 \<le> ?x" "?x \<le> 32767" by (auto simp: mu_magnitude_def Let_def)
  obtain e where e: "e \<le> 7" "mu_exponent 7 (2 ^ (7 + 7)) ?x = e" "2 ^ (e + 7) \<le> ?x" "?x < 2 ^ (e + 8)"
    using mu_exponent_segment [of ?x 7] x by auto
  obtain m where m: "drop_bit (e + 3) ?x AND 0x0f = m" "0 \<le> m" "m < 16" "2 ^ (e + 3) * (m + 16) \<le> ?x" "?x < 2 ^ (e + 3) * (m + 17)"
    by (rule segment_mantissa [OF e(3,4)])
  have "linearToMuLaw v = NOT ((if sint v < 0 then 0x80 else 0) OR of_int (push_bit 4 (int (mu_exponent 7 0x4000 ?x))) OR
      of_int (drop_bit (mu_exponent 7 0x4000 ?x + 3) ?x AND 0x0f))"
    unfolding linearToMuLaw_def mu_magnitude_def Let_def by (rule refl)
  moreover have "mu_exponent 7 0x4000 ?x = e" using e(2) by simp
  ultimately have "linearToMuLaw v = NOT (g711_code (sint v < 0) e (nat m))"
    using m(1,2) by (simp only: g711_code_def nat_0_le)
  then show thesis using that [of e "nat m"] e(1) m by simp
qed

lemma segment_cases: "e < 8 \<Longrightarrow> e = 0 \<or> e = 1 \<or> e = 2 \<or> e = 3 \<or> e = 4 \<or> e = 5 \<or> e = 6 \<or> e = (7 :: nat)"
  by linarith

lemma segment_bound: "e < 8 \<Longrightarrow> m < 16 \<Longrightarrow> 2 ^ (e + 3) * (int m + 16) + 2 ^ (e + 2) \<le> 32256"
  by (drule segment_cases, elim disjE) simp_all

lemma segment_positive: "0 < 2 ^ (e + 3) * (int m + 16) + 2 ^ (e + 2)" "0 < 2 ^ (e + 3) * (int m + 16) + 4 * 2 ^ e"
  by (simp_all add: add_nonneg_pos)

lemma uint_of_nat_byte: "n < 256 \<Longrightarrow> uint (of_nat n :: byte) = int n"
  by (simp add: uint_nat unat_of_nat_byte)

lemma sint_either:
  assumes "- 32768 \<le> t" "t < 32768" "- 32768 \<le> u" "u < 32768"
  shows "sint (if b then of_int t else of_int u :: sample) = (if b then t else u)"
  using sint_of_small [OF assms(1,2)] sint_of_small [OF assms(3,4)] by (cases b) (simp_all only: if_True if_False)

lemma mu_law_value:
  assumes "e < 8" "m < 16"
  shows "sint (muLawToLinear (NOT (g711_code sg e m))) =
    (if sg then 132 - (2 ^ (e + 3) * (int m + 16) + 2 ^ (e + 2)) else 2 ^ (e + 3) * (int m + 16) + 2 ^ (e + 2) - 132)"
proof -
  let ?t = "2 ^ (e + 3) * (int m + 16) + 2 ^ (e + 2)"
  have "(128 + 16 * int e + int m) mod 16 = int m"
  proof -
    have "128 + 16 * int e + int m = int m + 16 * (8 + int e)" by simp
    then show ?thesis using assms(2) by (simp only: mod_mult_self2) simp
  qed
  then have u: "uint (g711_code sg e m) AND 0x0f = int m"
    using assms g711_code_fields(4) [OF assms, of sg] by (simp add: and_15 uint_nat zmod_int)
  have t: "push_bit e (push_bit 3 (int m) + 132) = ?t"
    by (simp add: push_bit_eq_mult power_add algebra_simps)
  have b: "1 \<le> ?t" "?t \<le> 32256" using segment_bound [OF assms] segment_positive [of e m] by simp_all
  have "muLawToLinear (NOT (g711_code sg e m)) = (if sg then of_int (132 - ?t) else of_int (?t - 132))"
    using assms t by (simp only: muLawToLinear_def Let_def bit.double_compl g711_code_fields [OF assms] u unat_of_nat_byte)
  moreover have "- 32768 \<le> 132 - ?t" "132 - ?t < 32768" "- 32768 \<le> ?t - 132" "?t - 132 < 32768" using b by linarith+
  ultimately show ?thesis by (simp only: sint_either)
qed

lemma a_law_value:
  assumes "e < 8" "m < 16"
  shows "sint (aLawToLinear (g711_code sg e m XOR 0x55)) =
    (let t = if e = 0 then 16 * int m + 8 else 2 ^ (e + 3) * (int m + 16) + 2 ^ (e + 2) in if sg then t else - t)"
proof -
  let ?t = "if e = 0 then 16 * int m + 8 else 2 ^ (e + 3) * (int m + 16) + 2 ^ (e + 2)"
  have u: "push_bit 4 (uint (of_nat m :: byte)) = 16 * int m"
    using assms(2) by (simp add: uint_of_nat_byte push_bit_eq_mult)
  have n: "unat (of_nat e :: byte) = e" using assms(1) by (simp add: unat_of_nat_byte)
  have t: "(if e = 0 then 16 * int m + 8 else push_bit (e - 1) (16 * int m + 0x108)) = ?t"
    by (cases e) (simp_all add: push_bit_eq_mult power_add algebra_simps)
  have b: "- 32768 \<le> - ?t" "- ?t < 32768" "- 32768 \<le> ?t" "?t < 32768" 
  proof -
    show "- 32768 \<le> - ?t" "- ?t < 32768" "- 32768 \<le> ?t" "?t < 32768"
      using segment_bound [OF assms] segment_positive [of e m] assms(2) by (simp_all split: if_splits)
  qed
  have x: "(g711_code sg e m XOR 0x55) XOR 0x55 = g711_code sg e m" by (simp add: xor.assoc)
  have v: "aLawToLinear (g711_code sg e m XOR 0x55) = (if \<not> sg then of_int (- ?t) else of_int ?t)"
    unfolding aLawToLinear_def Let_def x g711_code_fields(1,2) [OF assms] u n t
    using g711_code_fields(3) [OF assms, of sg] by (cases sg) (simp_all only: simp_thms if_True if_False)
  have "sint (aLawToLinear (g711_code sg e m XOR 0x55)) = (if \<not> sg then - ?t else ?t)"
    unfolding v by (rule sint_either [OF b])
  then show ?thesis unfolding Let_def by (cases sg) (simp_all only: simp_thms if_True if_False)
qed

definition a_cell :: "nat \<Rightarrow> nat \<Rightarrow> int \<Rightarrow> bool" where
  "a_cell e m x \<longleftrightarrow> (if e = 0 then 16 * int m \<le> x \<and> x < 16 * (int m + 1)
     else 2 ^ (e + 3) * (int m + 16) \<le> x \<and> x < 2 ^ (e + 3) * (int m + 17))"

lemma a_law_code:
  fixes v defines "x \<equiv> (if sint v < 0 then - sint v - 1 else sint v)"
  obtains e m where "e < 8" "m < 16" "linearToALaw v = g711_code (0 \<le> sint v) e m XOR 0x55"
    "a_cell e m x"
proof -
  have x: "0 \<le> x" "x \<le> 32767" using sint_sample [of v] by (auto simp: x_def)
  show thesis
  proof (cases "256 \<le> x")
    case True
    let ?k = "a_exponent 16 (drop_bit 8 x)"
    have d: "drop_bit 8 x = x div 256" by (simp add: drop_bit_eq_div)
    have k: "2 ^ ?k \<le> x div 256" "x div 256 < 2 ^ (?k + 1)"
      using a_exponent_segment [of "drop_bit 8 x" 16] x True unfolding d by auto
    have "256 * 2 ^ ?k \<le> x" "x < 256 * 2 ^ (?k + 1)" using k by linarith+
    then have e: "2 ^ (?k + 1 + 7) \<le> x" "x < 2 ^ (?k + 1 + 8)" by (simp_all add: power_add)
    have "?k + 1 \<le> 7"
    proof (rule ccontr)
      assume "\<not> ?k + 1 \<le> 7"
      then have "(2 :: int) ^ 15 \<le> 2 ^ (?k + 1 + 7)" by (intro power_increasing) simp_all
      then show False using e(1) x(2) by simp
    qed
    obtain m where m: "drop_bit (?k + 1 + 3) x AND 0x0f = m" "0 \<le> m" "m < 16"
      "2 ^ (?k + 1 + 3) * (m + 16) \<le> x" "x < 2 ^ (?k + 1 + 3) * (m + 17)"
      by (rule segment_mantissa [OF e])
    have "linearToALaw v = g711_code (0 \<le> sint v) (?k + 1) (nat m) XOR 0x55"
      using True x(2) m(1,2) \<open>?k + 1 \<le> 7\<close>
      by (auto simp: linearToALaw_def g711_code_def Let_def x_def min_def)
    then show thesis using that [of "?k + 1" "nat m"] \<open>?k + 1 \<le> 7\<close> m by (simp add: a_cell_def)
  next
    case False
    have m: "drop_bit 4 x AND 0x0f = x div 16" using False x by (simp add: drop_bit_eq_div and_15)
    have "linearToALaw v = g711_code (0 \<le> sint v) 0 (nat (x div 16)) XOR 0x55"
      using False x m by (auto simp: linearToALaw_def g711_code_def Let_def x_def)
    moreover have "16 * int (nat (x div 16)) \<le> x \<and> x < 16 * (int (nat (x div 16)) + 1)" using x by (simp add: pos_imp_zdiv_nonneg_iff) presburger
    ultimately show thesis using that [of 0 "nat (x div 16)"] False x by (simp add: a_cell_def)
  qed
qed

lemma a_cell_unique:
  assumes "a_cell e m x" "a_cell e' m' x" "e < 8" "e' < 8" "m < 16" "m' < 16"
  shows "e = e' \<and> m = m'"
  using assms segment_cases [OF assms(3)] segment_cases [OF assms(4)]
  by (elim disjE) (simp_all add: a_cell_def)

lemma a_law_roundtrip: "linearToALaw (aLawToLinear code) = code"
proof -
  obtain sg e m where c: "code XOR 0x55 = g711_code sg e m" "e < 8" "m < 16" by (rule g711_code_cases)
  have code: "code = g711_code sg e m XOR 0x55" using c(1) [symmetric] by (simp add: xor.assoc)
  let ?t = "if e = 0 then 16 * int m + 8 else 2 ^ (e + 3) * (int m + 16) + 2 ^ (e + 2)"
  let ?v = "aLawToLinear code"
  have s: "sint ?v = (if sg then ?t else - ?t)" unfolding code a_law_value [OF c(2,3)] Let_def by simp
  have t: "0 < ?t" using segment_positive [of e m] by simp
  have "(1 :: int) \<le> 2 ^ (e + 2)" by (rule one_le_power) simp
  moreover have "(2 :: int) ^ (e + 2) < 2 ^ (e + 3)" by (simp add: power_add)
  ultimately have p: "(2 :: int) ^ (e + 2) < 2 ^ (e + 3)" "(1 :: int) \<le> 2 ^ (e + 2)" by blast+
  have cell: "a_cell e m ?t" "a_cell e m (?t - 1)" using p unfolding a_cell_def by (simp_all only: algebra_simps split: if_split) linarith+
  obtain e' m' where k: "e' < 8" "m' < 16" "linearToALaw ?v = g711_code (0 \<le> sint ?v) e' m' XOR 0x55"
    "a_cell e' m' (if sint ?v < 0 then - sint ?v - 1 else sint ?v)" by (rule a_law_code)
  have "(if sint ?v < 0 then - sint ?v - 1 else sint ?v) = (if sg then ?t else ?t - 1)" "0 \<le> sint ?v \<longleftrightarrow> sg"
    using t unfolding s by auto
  then have "a_cell e' m' (if sg then ?t else ?t - 1)" and sg: "0 \<le> sint ?v \<longleftrightarrow> sg" using k(4) by simp_all
  then have "e' = e \<and> m' = m" using a_cell_unique [OF _ _ k(1) c(2) k(2) c(3)] cell by (cases sg) (simp_all only: if_True if_False)
  then show ?thesis using k(3) sg code by simp
qed

lemma a_law_error: "32 * \<bar>sint (aLawToLinear (linearToALaw v)) - sint v\<bar> \<le> \<bar>sint v\<bar> + 256"
proof -
  obtain e m where k: "e < 8" "m < 16" "linearToALaw v = g711_code (0 \<le> sint v) e m XOR 0x55"
    "a_cell e m (if sint v < 0 then - sint v - 1 else sint v)" by (rule a_law_code)
  show ?thesis using k(4) segment_cases [OF k(1)] k(2)
    unfolding k(3) a_law_value [OF k(1,2)] Let_def
    by (elim disjE) (auto simp: a_cell_def abs_if split: if_splits)
qed

lemma mu_law_error:
  assumes "\<bar>sint v\<bar> \<le> 32635"
  shows "32 * \<bar>sint (muLawToLinear (linearToMuLaw v)) - sint v\<bar> \<le> \<bar>sint v\<bar> + 132"
proof -
  obtain e m where k: "e < 8" "m < 16" "linearToMuLaw v = NOT (g711_code (sint v < 0) e m)"
    "2 ^ (e + 3) * (int m + 16) \<le> mu_magnitude v" "mu_magnitude v < 2 ^ (e + 3) * (int m + 17)" by (rule mu_law_code)
  have x: "mu_magnitude v = \<bar>sint v\<bar> + 132" using assms by (auto simp: mu_magnitude_def Let_def)
  show ?thesis using k(4,5) segment_cases [OF k(1)]
    unfolding k(3) mu_law_value [OF k(1,2)] x
    by (elim disjE) (auto simp: abs_if split: if_splits)
qed


section \<open>Frames and payloads\<close>

text \<open>C21: The two AMR layouts carry the same frame.  A frame in octets converted to the compact layout and back
  is the frame with its reserved bits cleared, and so is a compact frame converted to octets and back.\<close>

theorem amr_layouts_inverse:
  assumes "amrOctetAlignedToBandwidthEfficient p = Inr q" "amrBandwidthEfficientToOctetAligned q' = Inr p'"
  shows "amrBandwidthEfficientToOctetAligned q = Inr (octet_payload p) \<and>
    amrOctetAlignedToBandwidthEfficient p' = Inr (efficient_payload q')"
  using octet_frame_survives [OF assms(1)] efficient_frame_survives [OF assms(2)] by simp

definition sample_frame :: bytes where
  "sample_frame = [0x2f, 0x3c] @ replicate 31 0x5a"

lemma sample_frame_converts: "\<exists>q. amrOctetAlignedToBandwidthEfficient sample_frame = Inr q"
  by (simp add: amrOctetAlignedToBandwidthEfficient_def Let_def sample_frame_def)

theorem amr_layouts_inverse_witness:
  "\<exists>q. amrOctetAlignedToBandwidthEfficient sample_frame = Inr q \<and>
     amrBandwidthEfficientToOctetAligned q = Inr (octet_payload sample_frame) \<and>
     amrOctetAlignedToBandwidthEfficient (octet_payload sample_frame) = Inr (efficient_payload q)"
proof -
  obtain q where q: "amrOctetAlignedToBandwidthEfficient sample_frame = Inr q" using sample_frame_converts by blast
  show ?thesis using q amr_layouts_inverse [OF q octet_frame_survives [OF q]] by blast
qed

lemma samples_of_bytes: "samples (concat (map sample_bytes ss)) = ss"
  by (induction ss) (simp_all add: sample_bytes_def be_u16_split)

lemma samples_decoded: "samples (decodeG711 data alaw) = map (if alaw then aLawToLinear else muLawToLinear) data"
  unfolding decodeG711_def using samples_of_bytes [of "map (if alaw then aLawToLinear else muLawToLinear) data"] by simp

lemma length_decodeG711 [simp]: "length (decodeG711 data alaw) = 2 * length data"
  by (induction data) (simp_all add: decodeG711_def sample_bytes_def)

text \<open>A-law payloads, those of the calls, survive decoding and encoding unchanged, and a sample that is
  encoded and decoded is off by at most a 32nd of its magnitude and eight.\<close>

theorem a_law_payloads:
  "encodeG711 (decodeG711 data True) True = data \<and>
   list_all2 (\<lambda>s s'. 32 * \<bar>sint s' - sint s\<bar> \<le> \<bar>sint s\<bar> + 256)
     (samples pcm) (samples (decodeG711 (encodeG711 pcm True) True))"
proof
  show "encodeG711 (decodeG711 data True) True = data"
    by (simp add: encodeG711_def samples_decoded map_idI a_law_roundtrip)
  show "list_all2 (\<lambda>s s'. 32 * \<bar>sint s' - sint s\<bar> \<le> \<bar>sint s\<bar> + 256)
      (samples pcm) (samples (decodeG711 (encodeG711 pcm True) True))"
    by (simp add: samples_decoded encodeG711_def list_all2_conv_all_nth a_law_error)
qed

end
