(* ===== verification/RTP_Audio.thy ===== *)
theory RTP_Audio
  imports Media_Codec Go_Strings
begin

text \<open>
  The audio path of a call (\<^verbatim>\<open>imscore/call_runtime.go\<close>): RTP packets, the uplink from the local audio
  bridge, the downlink to it with concealment of lost packets, and key presses as RFC 4733 events.

  The AMR codec is a C library and is a parameter, like the float operations and the results of the
  socket writes.  The runtime's locks make each packet one step.
\<close>

section \<open>Packets\<close>

record rtp_stream =
  rtpSeq :: u16
  rtpTimestamp :: u32
  stream_ssrc :: u32

definition makeRTPPacket :: "rtp_stream \<Rightarrow> byte \<Rightarrow> u32 \<Rightarrow> bool \<Rightarrow> bytes \<Rightarrow> bytes \<times> rtp_stream" where
  "makeRTPPacket s payloadType timestamp marker payload =
     (let b1 = (if marker then (payloadType AND 0x7f) OR 0x80 else payloadType AND 0x7f);
          head = put_u32 8 (stream_ssrc s) (put_u32 4 timestamp (put_u16 2 (rtpSeq s) ([0x80, b1] @ replicate 10 0)))
      in (head @ payload, s\<lparr>rtpSeq := rtpSeq s + 1\<rparr>))"

record parsed_packet =
  rtp_payload :: bytes
  rtp_type :: byte
  rtp_sequence :: u16
  rtp_timestamp :: u32
  rtp_marker :: bool
  rtp_ssrc :: u32

text \<open>The offset of the payload behind the contributing sources and the header extension.\<close>

definition payload_offset :: "bytes \<Rightarrow> nat option" where
  "payload_offset packet =
     (let offset = 12 + unat (packet ! 0 AND 0x0f) * 4
      in if length packet < offset then None
         else if packet ! 0 AND 0x10 \<noteq> 0 then
           (if length packet < offset + 4 then None
            else let next = offset + 4 + unat (get_u16 (offset + 2) packet) * 4
                 in if length packet < next then None else Some next)
         else Some offset)"

definition parseRTPPacket :: "bytes \<Rightarrow> parsed_packet option" where
  "parseRTPPacket packet =
     (if length packet < 12 \<or> drop_bit 6 (packet ! 0) \<noteq> 2 then None
      else case payload_offset packet of
        None \<Rightarrow> None
      | Some offset \<Rightarrow>
          let padding = (if packet ! 0 AND 0x20 \<noteq> 0 then Some (unat (packet ! (length packet - 1))) else None)
          in if (case padding of None \<Rightarrow> False | Some n \<Rightarrow> n = 0 \<or> length packet - offset < n) then None
             else let stop = length packet - (case padding of None \<Rightarrow> 0 | Some n \<Rightarrow> n)
             in if stop \<le> offset then None
                else Some \<lparr>rtp_payload = slice offset stop packet, rtp_type = packet ! 1 AND 0x7f,
                  rtp_sequence = get_u16 2 packet, rtp_timestamp = get_u32 4 packet,
                  rtp_marker = (packet ! 1 AND 0x80 \<noteq> 0), rtp_ssrc = get_u32 8 packet\<rparr>)"

definition rtpPayload :: "bytes \<Rightarrow> (bytes \<times> byte) option" where
  "rtpPayload packet = map_option (\<lambda>p. (rtp_payload p, rtp_type p)) (parseRTPPacket packet)"

section \<open>Frames of samples\<close>

record 'f audio_floats =
  f_int :: "int \<Rightarrow> 'f"
  f_hundredths :: "int \<Rightarrow> 'f"
  f_add :: "'f \<Rightarrow> 'f \<Rightarrow> 'f"
  f_sub :: "'f \<Rightarrow> 'f \<Rightarrow> 'f"
  f_mul :: "'f \<Rightarrow> 'f \<Rightarrow> 'f"
  f_div :: "'f \<Rightarrow> 'f \<Rightarrow> 'f"
  f_cos :: "'f \<Rightarrow> 'f"
  f_pi :: 'f
  f_int16 :: "'f \<Rightarrow> sample"

fun splitPCMFrames_loop :: "nat \<Rightarrow> bytes \<Rightarrow> bytes list" where
  "splitPCMFrames_loop 0 pcm = []"
| "splitPCMFrames_loop (Suc n) pcm = take 320 pcm # splitPCMFrames_loop n (drop 320 pcm)"

definition splitPCMFrames :: "bytes \<Rightarrow> bytes list" where
  "splitPCMFrames pcm =
     (if length pcm = 0 \<or> length pcm mod 320 \<noteq> 0 then [] else splitPCMFrames_loop (length pcm div 320) pcm)"

text \<open>The raised cosine \<^verbatim>\<open>0.5 - 0.5*math.Cos(math.Pi*position)\<close>.\<close>

definition fade :: "'f audio_floats \<Rightarrow> 'f \<Rightarrow> 'f" where
  "fade f position =
     f_sub f (f_hundredths f 50) (f_mul f (f_hundredths f 50) (f_cos f (f_mul f (f_pi f) position)))"

definition concealPCMFrame :: "'f audio_floats \<Rightarrow> bytes \<Rightarrow> nat \<Rightarrow> bytes" where
  "concealPCMFrame f previous depth =
     (if length previous < 320 then replicate 320 0
      else let startGain = f_hundredths f ([90, 30, 8] ! min (depth - 1) 2);
               endGain = f_hundredths f ([30, 8, 0] ! min (depth - 1) 2);
               lastSample = be_u16 (previous ! 319) (previous ! 318)
           in concat (map (\<lambda>k. let position = f_div f (f_int f (int k)) (f_int f 159);
                  gain = f_add f startGain (f_mul f (f_sub f endGain startGain) (fade f position))
                in sample_bytes (f_int16 f (f_mul f (f_int f (sint lastSample)) gain))) [0..<160]))"

definition fadeInPCMFrame :: "'f audio_floats \<Rightarrow> bytes \<Rightarrow> nat \<Rightarrow> bytes" where
  "fadeInPCMFrame f frame n =
     (let count = min (length frame div 2) n
      in concat (map (\<lambda>index. let position = f_div f (f_int f (int (index + 1))) (f_int f (int count))
            in sample_bytes (f_int16 f (f_mul f (f_int f (sint (samples frame ! index))) (fade f position)))) [0..<count])
         @ drop (2 * count) frame)"

section \<open>The downlink\<close>

record ('f, 'a) audio_env =
  floats :: "'f audio_floats"
  amr_decode :: "'a \<Rightarrow> bytes \<Rightarrow> bytes option \<times> 'a"
  amr_encode :: "'a \<Rightarrow> bytes \<Rightarrow> bytes option \<times> 'a"

text \<open>What the loops read of the call at each packet, and the counters they write.\<close>

record audio_call =
  audio_codec :: string
  payloadType :: byte
  amrOctetAligned :: bool
  AudioToken :: bytes
  audioPeer :: bool
  RTPReceived :: u64
  AudioDecodeErrors :: u64
  RTPTransmitted :: u64
  AudioTransportErrors :: u64

text \<open>The local variables of \<^verbatim>\<open>runRTPDownlink\<close>.\<close>

record downlink =
  lastSequence :: u16
  haveSequence :: bool
  currentSSRC :: u32
  lastPCM :: bytes

definition bridge_datagram :: "audio_call \<Rightarrow> bytes \<Rightarrow> bytes" where
  "bridge_datagram c frame = AudioToken c @ [0] @ frame"

definition concealed :: "'f audio_floats \<Rightarrow> audio_call \<Rightarrow> bytes \<Rightarrow> nat \<Rightarrow> bytes list" where
  "concealed f c previous n = map (\<lambda>index. bridge_datagram c (concealPCMFrame f previous (index + 1))) [0..<n]"

text \<open>The sequence check: \<^term>\<open>None\<close> for a late or repeated packet, otherwise the number of frames to
  conceal and the new state.\<close>

definition accept_sequence :: "downlink \<Rightarrow> parsed_packet \<Rightarrow> (nat \<times> downlink) option" where
  "accept_sequence d p =
     (let d1 = (if \<not> haveSequence d \<or> rtp_ssrc p \<noteq> currentSSRC d
            then d\<lparr>haveSequence := False, currentSSRC := rtp_ssrc p, lastPCM := []\<rparr> else d);
          delta = sint (rtp_sequence p - lastSequence d1);
          missing = (if haveSequence d1 \<and> 1 < delta then nat (min (delta - 1) 3) else 0)
      in if haveSequence d1 \<and> delta \<le> 0 then None
         else Some (missing, d1\<lparr>lastSequence := rtp_sequence p, haveSequence := True\<rparr>))"

definition amr_frame :: "audio_call \<Rightarrow> bytes \<Rightarrow> bytes option" where
  "amr_frame c payload =
     (if amrOctetAligned c then Some payload
      else case amrBandwidthEfficientToOctetAligned payload of Inl _ \<Rightarrow> None | Inr p \<Rightarrow> Some p)"

text \<open>What an accepted payload decodes to; the codec keeps a state.\<close>

definition decode_audio ::
  "('f, 'a) audio_env \<Rightarrow> audio_call \<Rightarrow> 'a \<Rightarrow> bytes \<Rightarrow> bytes option \<times> 'a" where
  "decode_audio env c amr payload =
     (if audio_codec c = ''AMR''
      then (case amr_frame c payload of None \<Rightarrow> (None, amr) | Some frame \<Rightarrow> amr_decode env amr frame)
      else (Some (decodeG711 payload True), amr))"

text \<open>The datagrams of an accepted packet and the samples kept for concealment.\<close>

definition play ::
  "('f, 'a) audio_env \<Rightarrow> audio_call \<Rightarrow> bytes \<Rightarrow> nat \<Rightarrow> bytes \<Rightarrow> bytes list \<times> bytes" where
  "play env c previous missing pcm0 =
     (let pcm = (if 0 < missing then fadeInPCMFrame (floats env) pcm0 40 else pcm0)
      in (concealed (floats env) c previous missing @ map (bridge_datagram c) (splitPCMFrames pcm),
          if 320 \<le> length pcm then drop (length pcm - 320) pcm else previous))"

text \<open>One packet: the new state of the loop, the call, the codec, and what is sent to the bridge.\<close>

definition downlink_step ::
  "('f, 'a) audio_env \<Rightarrow> downlink \<times> audio_call \<times> 'a \<Rightarrow> bytes \<Rightarrow> (downlink \<times> audio_call \<times> 'a) \<times> bytes list" where
  "downlink_step env s packet =
     (case s of (d, c, amr) \<Rightarrow>
        (case parseRTPPacket packet of
           None \<Rightarrow> (s, [])
         | Some p \<Rightarrow>
             if rtp_type p \<noteq> payloadType c then (s, [])
             else let c1 = c\<lparr>RTPReceived := RTPReceived c + 1\<rparr>
             in case accept_sequence d p of
                  None \<Rightarrow> ((d, c1, amr), [])
                | Some (missing, d1) \<Rightarrow>
                    if \<not> audioPeer c then ((d1, c1, amr), [])
                    else (case decode_audio env c amr (rtp_payload p) of
                            (None, amr1) \<Rightarrow>
                              ((d1, c1\<lparr>AudioDecodeErrors := AudioDecodeErrors c1 + 1\<rparr>, amr1),
                               concealed (floats env) c (lastPCM d1) (missing + 1))
                          | (Some pcm, amr1) \<Rightarrow>
                              let (out, kept) = play env c (lastPCM d1) missing pcm
                              in ((d1\<lparr>lastPCM := kept\<rparr>, c1, amr1), out))))"

section \<open>The uplink\<close>

text \<open>One datagram of the bridge; \<^term>\<open>ready\<close> tells whether the remote address is known, \<^term>\<open>sending\<close>
  whether a key press is being sent, and \<^term>\<open>written\<close> whether the write succeeds.  A codec error ends
  the loop and fails the call.\<close>

datatype uplink_result = Skipped | Sent bytes | Stopped

definition uplink_payload ::
  "('f, 'a) audio_env \<Rightarrow> audio_call \<Rightarrow> 'a \<Rightarrow> bytes \<Rightarrow> bytes option \<times> 'a" where
  "uplink_payload env c amr pcm =
     (if audio_codec c = ''AMR''
      then (case amr_encode env amr pcm of
              (None, amr1) \<Rightarrow> (None, amr1)
            | (Some frame, amr1) \<Rightarrow>
                if amrOctetAligned c then (Some frame, amr1)
                else (case amrOctetAlignedToBandwidthEfficient frame of Inl _ \<Rightarrow> (None, amr1) | Inr p \<Rightarrow> (Some p, amr1)))
      else (Some (encodeG711 pcm True), amr))"

definition uplink_step ::
  "('f, 'a) audio_env \<Rightarrow> bool \<Rightarrow> bool \<Rightarrow> bool \<Rightarrow> rtp_stream \<times> audio_call \<times> 'a \<Rightarrow> bytes \<Rightarrow>
   (rtp_stream \<times> audio_call \<times> 'a) \<times> uplink_result" where
  "uplink_step env ready sending written s buf =
     (case s of (stream, c, amr) \<Rightarrow>
        (let prefix = AudioToken c @ [0]; pcm = drop (length prefix) buf
         in if \<not> ready \<or> length buf \<le> length prefix \<or> take (length prefix) buf \<noteq> prefix then (s, Skipped)
            else let c1 = c\<lparr>audioPeer := True\<rparr>
            in if sending \<or> length pcm \<noteq> 320 then ((stream, c1, amr), Skipped)
               else (case uplink_payload env c amr pcm of
                       (None, amr1) \<Rightarrow> ((stream, c1, amr1), Stopped)
                     | (Some payload, amr1) \<Rightarrow>
                         let (packet, stream1) = makeRTPPacket stream (payloadType c) (rtpTimestamp stream) False payload;
                             c2 = (if written then c1\<lparr>RTPTransmitted := RTPTransmitted c1 + 1\<rparr>
                               else c1\<lparr>AudioTransportErrors := AudioTransportErrors c1 + 1\<rparr>)
                         in ((stream1\<lparr>rtpTimestamp := rtpTimestamp stream1 + 160\<rparr>, c2, amr1), Sent packet))))"

section \<open>Key presses\<close>

definition dtmfEvent :: "string \<Rightarrow> byte option" where
  "dtmfEvent digit =
     (case digit of
        [c] \<Rightarrow> if is_digit c then Some (of_nat (of_char c - 48))
               else if c = CHR ''*'' then Some 10
               else if c = CHR ''#'' then Some 11 else None
      | _ \<Rightarrow> None)"

definition resolveDTMFEvent :: "(string \<Rightarrow> byte option) option \<Rightarrow> string \<Rightarrow> byte option" where
  "resolveDTMFEvent validator digit =
     (case validator of None \<Rightarrow> dtmfEvent (TrimSpace digit) | Some f \<Rightarrow> f (TrimSpace digit))"

definition dtmf_steps :: "(u16 \<times> bool) list" where
  "dtmf_steps = [(160, False), (320, False), (480, False), (640, False), (800, True), (800, True), (800, True)]"

definition dtmf_payload :: "byte \<Rightarrow> u16 \<times> bool \<Rightarrow> bytes" where
  "dtmf_payload event step =
     (case step of (duration, stop) \<Rightarrow> put_u16 2 duration [event, if stop then 10 OR 0x80 else 10, 0, 0])"

text \<open>The packets from step \<^term>\<open>index\<close> on; \<^term>\<open>carry n\<close> tells whether the write of packet \<^term>\<open>n\<close> and the
  wait behind it succeed.  An error leaves the remaining steps out.\<close>

fun dtmf_loop ::
  "(nat \<Rightarrow> bool) \<Rightarrow> byte \<Rightarrow> u32 \<Rightarrow> byte \<Rightarrow> nat \<Rightarrow> (u16 \<times> bool) list \<Rightarrow> rtp_stream \<Rightarrow> bool \<times> bytes list \<times> rtp_stream" where
  "dtmf_loop carry pt start event index [] s = (True, [], s)"
| "dtmf_loop carry pt start event index (step # steps) s =
     (let (packet, s1) = makeRTPPacket s pt start (index = 0) (dtmf_payload event step)
      in if \<not> carry index then (False, [packet], s1)
         else let (ok, packets, s2) = dtmf_loop carry pt start event (index + 1) steps s1
              in (ok, packet # packets, s2))"

text \<open>\<^verbatim>\<open>sendDTMF\<close> of an active call with a negotiated event payload.\<close>

definition sendDTMF ::
  "(nat \<Rightarrow> bool) \<Rightarrow> byte \<Rightarrow> byte \<Rightarrow> rtp_stream \<Rightarrow> bool \<times> bytes list \<times> rtp_stream" where
  "sendDTMF carry pt event s =
     (case dtmf_loop carry pt (rtpTimestamp s) event 0 dtmf_steps s of
        (False, packets, s1) \<Rightarrow> (False, packets, s1)
      | (True, packets, s1) \<Rightarrow>
          (True, packets, s1\<lparr>rtpTimestamp := rtpTimestamp s + of_nat (length dtmf_steps * 160)\<rparr>))"

section \<open>What is played and sent\<close>

lemma get_append: "i + 1 < length xs \<Longrightarrow> get_u16 i (xs @ ys) = get_u16 i xs"
  "i + 3 < length xs \<Longrightarrow> get_u32 i (xs @ ys) = get_u32 i xs"
  by (simp_all add: get_u16_def get_u32_def nth_append)

lemma get_u16_put_u32: "i + 1 < j \<Longrightarrow> get_u16 i (put_u32 j v bs) = get_u16 i bs"
  by (simp add: get_u16_def put_u32_def)

lemma get_u32_put_u32: "i + 3 < j \<Longrightarrow> get_u32 i (put_u32 j v bs) = get_u32 i bs"
  by (simp add: get_u32_def put_u32_def)

lemma header_byte_1:
  fixes pt :: byte
  defines "b m \<equiv> if m then (pt AND 0x7f) OR 0x80 else pt AND 0x7f"
  shows "b m AND 0x7f = pt AND 0x7f" "b m AND 0x80 \<noteq> 0 \<longleftrightarrow> m"
proof -
  have m7: "(0x7f :: byte) = mask 7" "(0x80 :: byte) = push_bit 7 1" by (simp_all add: mask_eq_exp_minus_1)
  have e1: "bit ((pt AND mask 7) OR push_bit 7 1) i \<longleftrightarrow> i < 7 \<and> bit pt i \<or> i = 7" for i
    unfolding bit_or_iff bit_and_iff bit_mask_iff bit_push_bit_iff possible_bit_word bit_1_iff by auto
  have e2: "bit (pt AND mask 7) i \<longleftrightarrow> i < 7 \<and> bit pt i" for i
    unfolding bit_and_iff bit_mask_iff possible_bit_word by auto
  have e: "bit (b m) i \<longleftrightarrow> i < 7 \<and> bit pt i \<or> m \<and> i = 7" for i
    unfolding b_def m7 using e1 [of i] e2 [of i] by (cases m) (simp_all only: if_True if_False simp_thms)
  show "b m AND 0x7f = pt AND 0x7f"
    unfolding m7 by (rule bit_word_eqI) (auto simp: bit_and_iff bit_mask_iff e)
  have "bit (b m) 7 \<longleftrightarrow> m" by (simp add: e)
  moreover have "b m AND 0x80 \<noteq> 0 \<longleftrightarrow> bit (b m) 7"
    using and_exp_eq_0_iff_not_bit [of "b m" 7] by simp
  ultimately show "b m AND 0x80 \<noteq> 0 \<longleftrightarrow> m" by simp
qed

lemma parse_made:
  assumes "payload \<noteq> []" "makeRTPPacket s pt ts m payload = (packet, s')"
  shows "parseRTPPacket packet = Some \<lparr>rtp_payload = payload, rtp_type = pt AND 0x7f, rtp_sequence = rtpSeq s,
    rtp_timestamp = ts, rtp_marker = m, rtp_ssrc = stream_ssrc s\<rparr>" "s' = s\<lparr>rtpSeq := rtpSeq s + 1\<rparr>"
proof -
  let ?b = "if m then (pt AND 0x7f) OR 0x80 else pt AND 0x7f"
  let ?h = "put_u32 8 (stream_ssrc s) (put_u32 4 ts (put_u16 2 (rtpSeq s) ([0x80, ?b] @ replicate 10 0)))"
  have l: "length ?h = 12" by simp
  have p: "packet = ?h @ payload" and "s' = s\<lparr>rtpSeq := rtpSeq s + 1\<rparr>" using assms(2) by (auto simp: makeRTPPacket_def Let_def)
  then show "s' = s\<lparr>rtpSeq := rtpSeq s + 1\<rparr>" by simp
  have h: "?h ! 0 = 0x80" "?h ! 1 = ?b" by (simp_all add: put_u32_def put_u16_def)
  have i: "packet ! 0 = 0x80" "packet ! 1 = ?b" unfolding p using h l by (simp_all add: nth_append)
  have n: "length packet = 12 + length payload" unfolding p by simp
  have g: "get_u16 2 packet = rtpSeq s" "get_u32 4 packet = ts" "get_u32 8 packet = stream_ssrc s"
    unfolding p by (simp_all add: get_append get_u16_put_u32 get_u32_put_u32 get_put_u32 get_put_u16)
  have o: "payload_offset packet = Some 12" unfolding payload_offset_def i(1) Let_def by (simp add: n)
  have b: "slice 12 (12 + length payload) packet = payload" unfolding p slice_def by simp
  have d: "drop_bit 6 (packet ! 0) = 2" "packet ! 0 AND 0x20 = 0" unfolding i(1) by simp_all
  show "parseRTPPacket packet = Some \<lparr>rtp_payload = payload, rtp_type = pt AND 0x7f, rtp_sequence = rtpSeq s,
    rtp_timestamp = ts, rtp_marker = m, rtp_ssrc = stream_ssrc s\<rparr>"
    unfolding parseRTPPacket_def o d g i(2) header_byte_1 using assms(1) by (simp add: n b Let_def)
qed

text \<open>The payload of an accepted packet lies inside it, behind the fixed header.\<close>

lemma parsed_payload_inside:
  assumes "parseRTPPacket packet = Some p"
  shows "\<exists>i j. 12 \<le> i \<and> i < j \<and> j \<le> length packet \<and> rtp_payload p = slice i j packet"
proof -
  obtain i where i: "payload_offset packet = Some i"
    using assms by (auto simp: parseRTPPacket_def split: if_splits option.splits)
  have "12 \<le> i" using i by (auto simp: payload_offset_def Let_def split: if_splits)
  moreover have "\<exists>j. i < j \<and> j \<le> length packet \<and> rtp_payload p = slice i j packet"
    using assms i
    by (auto simp: parseRTPPacket_def Let_def split: if_splits
        intro: exI [of _ "length packet"] exI [of _ "length packet - unat (packet ! (length packet - Suc 0))"])
  ultimately show ?thesis by blast
qed

lemma accepted_state:
  assumes "accept_sequence d p = Some (n, d1)"
  shows "lastSequence d1 = rtp_sequence p" "haveSequence d1" "currentSSRC d1 = rtp_ssrc p" "n \<le> 3"
proof -
  let ?d = "if \<not> haveSequence d \<or> rtp_ssrc p \<noteq> currentSSRC d
            then d\<lparr>haveSequence := False, currentSSRC := rtp_ssrc p, lastPCM := []\<rparr> else d"
  have "currentSSRC ?d = rtp_ssrc p" by simp
  moreover have "d1 = ?d\<lparr>lastSequence := rtp_sequence p, haveSequence := True\<rparr>"
    "n = (if haveSequence ?d \<and> 1 < sint (rtp_sequence p - lastSequence ?d) then nat (min (sint (rtp_sequence p - lastSequence ?d) - 1) 3) else 0)"
    using assms unfolding accept_sequence_def Let_def by (simp_all only: split: if_splits) simp_all
  moreover have "nat (min x 3) \<le> 3" for x by simp
  ultimately show "lastSequence d1 = rtp_sequence p" "haveSequence d1" "currentSSRC d1 = rtp_ssrc p" "n \<le> 3"
    by simp_all
qed

lemma refused:
  assumes "lastSequence d = rtp_sequence p" "haveSequence d" "currentSSRC d = rtp_ssrc p"
  shows "accept_sequence d p = None"
  using assms by (simp add: accept_sequence_def)


lemma length_samples_concat: "length (concat (map (\<lambda>k. sample_bytes (f k)) ks)) = 2 * length ks"
  by (induction ks) (simp_all add: sample_bytes_def)

lemma length_concealed_frame [simp]: "length (concealPCMFrame f previous depth) = 320"
  unfolding concealPCMFrame_def Let_def by (simp add: length_samples_concat)

lemma splitPCMFrames_loop_frames: "length pcm = n * 320 \<Longrightarrow> frame \<in> set (splitPCMFrames_loop n pcm) \<Longrightarrow> length frame = 320"
  by (induction n arbitrary: pcm) force+

lemma splitPCMFrames_frames: "frame \<in> set (splitPCMFrames pcm) \<Longrightarrow> length frame = 320"
  by (rule splitPCMFrames_loop_frames [of pcm "length pcm div 320"])
    (auto simp: splitPCMFrames_def split: if_splits)

text \<open>C23: Whatever arrives from the network, the local audio bridge only receives datagrams made of the token of
  the call, a zero and one whole frame of 320 octets.\<close>

theorem bridge_frames:
  "list_all (\<lambda>x. \<exists>frame. length frame = 320 \<and> x = AudioToken c @ [0] @ frame)
     (snd (downlink_step env (d, c, amr) packet))"
proof -
  have cc: "list_all (\<lambda>x. \<exists>frame. length frame = 320 \<and> x = AudioToken c @ [0] @ frame) (concealed f c previous n)" for f previous n
    by (auto simp: concealed_def bridge_datagram_def list_all_iff)
  have ff: "list_all (\<lambda>x. \<exists>frame. length frame = 320 \<and> x = AudioToken c @ [0] @ frame) (map (bridge_datagram c) (splitPCMFrames pcm))" for pcm
    using splitPCMFrames_frames [of _ pcm] by (auto simp: bridge_datagram_def list_all_iff)
  show ?thesis
    using cc ff
    by (auto simp: downlink_step_def play_def Let_def split: option.splits prod.splits if_splits)
qed


lemma dtmf_payload_not_Nil [simp]: "dtmf_payload event step \<noteq> []"
  by (cases step) (simp add: dtmf_payload_def put_u16_def)

lemma dtmf_loop_packets:
  "dtmf_loop carry pt start event k steps s = (ok, packets, s') \<Longrightarrow>
   \<exists>n \<le> length steps. map parseRTPPacket packets =
       map (\<lambda>i. Some \<lparr>rtp_payload = dtmf_payload event (steps ! i), rtp_type = pt AND 0x7f,
         rtp_sequence = rtpSeq s + of_nat i, rtp_timestamp = start, rtp_marker = (k + i = 0), rtp_ssrc = stream_ssrc s\<rparr>) [0..<n] \<and>
     s' = s\<lparr>rtpSeq := rtpSeq s + of_nat n\<rparr> \<and> (ok \<longleftrightarrow> n = length steps \<and> (\<forall>i < n. carry (k + i)))"
proof (induction steps arbitrary: k s ok packets s')
  case (Cons step steps)
  obtain packet s1 where p: "makeRTPPacket s pt start (k = 0) (dtmf_payload event step) = (packet, s1)" by force
  note m = parse_made [OF dtmf_payload_not_Nil p]
  show ?case
  proof (cases "carry k")
    case False
    then have "ok = False" "packets = [packet]" "s' = s1" using Cons.prems p by (simp_all add: Let_def)
    then show ?thesis using m False by (intro exI [of _ 1]) auto
  next
    case True
    obtain ok2 packets2 s2 where r: "dtmf_loop carry pt start event (k + 1) steps s1 = (ok2, packets2, s2)" by (metis prod_cases3)
    from Cons.IH [OF r] obtain n where n: "n \<le> length steps" "map parseRTPPacket packets2 =
       map (\<lambda>i. Some \<lparr>rtp_payload = dtmf_payload event (steps ! i), rtp_type = pt AND 0x7f,
         rtp_sequence = rtpSeq s1 + of_nat i, rtp_timestamp = start, rtp_marker = (k + 1 + i = 0), rtp_ssrc = stream_ssrc s1\<rparr>) [0..<n]"
     "s2 = s1\<lparr>rtpSeq := rtpSeq s1 + of_nat n\<rparr>" "ok2 \<longleftrightarrow> n = length steps \<and> (\<forall>i < n. carry (k + 1 + i))" by blast
    have e: "ok = ok2" "packets = packet # packets2" "s' = s2" using Cons.prems p r True by (simp_all add: Let_def)
    have u: "[0..<Suc n] = 0 # map Suc [0..<n]" by (simp add: map_Suc_upt upt_conv_Cons)
    have "map parseRTPPacket packets = map (\<lambda>i. Some \<lparr>rtp_payload = dtmf_payload event ((step # steps) ! i), rtp_type = pt AND 0x7f,
         rtp_sequence = rtpSeq s + of_nat i, rtp_timestamp = start, rtp_marker = (k + i = 0), rtp_ssrc = stream_ssrc s\<rparr>) [0..<Suc n]"
      unfolding u e(2) by (simp add: m n(2) algebra_simps)
    moreover have "s' = s\<lparr>rtpSeq := rtpSeq s + of_nat (Suc n)\<rparr>" by (simp add: e n(3) m(2) algebra_simps)
    moreover have "ok \<longleftrightarrow> Suc n = length (step # steps) \<and> (\<forall>i < Suc n. carry (k + i))"
      using True by (auto simp: e n(4) less_Suc_eq_0_disj)
    ultimately show ?thesis using n(1) by (intro exI [of _ "Suc n"]) simp
  qed
qed simp


text \<open>What one side packs as RTP the other unpacks: payload, type, sequence number, time, marker and
  source.\<close>

theorem packet_roundtrip:
  assumes "payload \<noteq> []"
  shows "parseRTPPacket (fst (makeRTPPacket s pt ts m payload)) = Some \<lparr>rtp_payload = payload, rtp_type = pt AND 0x7f,
      rtp_sequence = rtpSeq s, rtp_timestamp = ts, rtp_marker = m, rtp_ssrc = stream_ssrc s\<rparr> \<and>
    rtpSeq (snd (makeRTPPacket s pt ts m payload)) = rtpSeq s + 1"
  using parse_made [OF assms, of s pt ts m] by (cases "makeRTPPacket s pt ts m payload") simp

theorem packet_roundtrip_witness:
  "parseRTPPacket (fst (makeRTPPacket \<lparr>rtpSeq = 65535, rtpTimestamp = 9, stream_ssrc = 7\<rparr> 8 160 True [1, 2])) =
     Some \<lparr>rtp_payload = [1, 2], rtp_type = 8, rtp_sequence = 65535, rtp_timestamp = 160, rtp_marker = True, rtp_ssrc = 7\<rparr> \<and>
   rtpSeq (snd (makeRTPPacket \<lparr>rtpSeq = 65535, rtpTimestamp = 9, stream_ssrc = 7\<rparr> 8 160 True [1, 2])) = 0"
  using packet_roundtrip [of "[1, 2]" "\<lparr>rtpSeq = 65535, rtpTimestamp = 9, stream_ssrc = 7\<rparr>" 8 160 True] by simp

end
