(* ===== verification/Call_State.thy ===== *)
theory Call_State
  imports Call_Requests RTP_Audio
begin

text \<open>
  The life of a call (\<^verbatim>\<open>callRuntime\<close> of \<^verbatim>\<open>imscore/call_runtime.go\<close>): outgoing calls from the dial
  string to the final response, incoming calls from the INVITE to the answer, and how both end.

  The code takes \<^verbatim>\<open>incomingFinalMu\<close> around every decision about an incoming INVITE and \<^verbatim>\<open>mu\<close> around
  every change of its state, and gives both up only while it waits for media or writes a request of its own.
  A function models the code between two such waits; \<^verbatim>\<open>dial\<close>, \<^verbatim>\<open>answer\<close> and \<^verbatim>\<open>hangup\<close>, which
  wait in between, are two functions each.  What the outside contributes to a step (written responses and
  requests, random names, sockets, the clock) is a record of its own.
\<close>

section \<open>The state\<close>

text \<open>The values of \<^verbatim>\<open>CallState.State\<close>.\<close>

datatype call_phase = Idle | Outgoing | Early | Cancelling | Incoming | Connecting | Active | Ended | Failed

text \<open>A request of the network.  Two requests are the same when they are the same object, \<^verbatim>\<open>rq_id\<close>; it also
  stands for the responder of the request.\<close>

record sip_request =
  rq_id :: nat
  rq_method :: string
  rq_call_id :: "string option"
  rq_cseq :: "(u32 \<times> string) option"
  rq_from :: "string option"
  rq_body :: string

datatype call_failure =
    TryingNotWritten
  | RingingNotWritten
  | ResponseNotWritten
  | RequestNotWritten
  | RequestNotBuilt call_error
  | MediaNotAllocated
  | DescriptionRefused sdp_error
  | CodecUnavailable
  | InviteTimedOut
  | InviteStreamClosed
  | CallRejected rejection

record call =
  phase :: call_phase
  Direction :: string
  Peer :: string
  CallID :: string
  StartedAt :: string
  LastError :: "call_failure option"
  EarlyMedia :: bool
  AudioPort :: int
  AudioName :: string
  negotiated :: call_media
  incoming :: "sip_request option"
  incomingToTag :: string
  incomingAnswerSDP :: string
  incomingAnswerPreparing :: bool
  incomingDecisionTimer :: "(nat \<times> string) option"
  media_set :: bool
  audio_set :: bool
  media_running :: bool
  amr_set :: bool
  context_set :: bool
  call_cseq :: u32
  call_dialog :: dialog
  cancelRequested :: bool
  lastInviteReason :: string
  pracked :: "string list option"

definition newCallRuntime :: call where
  "newCallRuntime = \<lparr>phase = Idle, Direction = [], Peer = [], CallID = [], StartedAt = [], LastError = None,
     EarlyMedia = False, AudioPort = 0, AudioName = [],
     negotiated = no_media,
     incoming = None, incomingToTag = [], incomingAnswerSDP = [], incomingAnswerPreparing = False,
     incomingDecisionTimer = None, media_set = False, audio_set = False, media_running = False, amr_set = False,
     context_set = False, call_cseq = 0, call_dialog = no_dialog, cancelRequested = False, lastInviteReason = [],
     pracked = None\<rparr>"

text \<open>What the outside does in a step.\<close>

record call_env =
  service :: call_service
  ParseUri :: "string \<Rightarrow> bool"
  Responded :: "int \<Rightarrow> bool"
  Written :: "sip_method \<Rightarrow> bool"
  NewTag :: string
  NewBranch :: "sip_method \<Rightarrow> string"
  NewName :: string
  AMRAvailable :: bool
  NewSessionID :: u64
  Clock :: string

datatype call_event =
    Received sip_request
  | Respond nat int string string
  | SendRequest request
  | RecoverRegistration
  | Panic

definition free :: "call_phase \<Rightarrow> bool" where
  "free p \<longleftrightarrow> p = Idle \<or> p = Ended \<or> p = Failed"

definition fail_with :: "call_failure option \<Rightarrow> call \<Rightarrow> call" where
  "fail_with err c = (case err of None \<Rightarrow> c | Some e \<Rightarrow> c\<lparr>LastError := Some e\<rparr>)"

definition setState :: "call_phase \<Rightarrow> call_failure option \<Rightarrow> call \<Rightarrow> call" where
  "setState p err c = fail_with err (c\<lparr>phase := p\<rparr>)"

definition finish :: "call_phase \<Rightarrow> call_failure option \<Rightarrow> call \<Rightarrow> call" where
  "finish p err c =
     fail_with err (c\<lparr>incomingDecisionTimer := None, context_set := False, media_set := False, audio_set := False,
       incoming := None, incomingToTag := [], incomingAnswerSDP := [], incomingAnswerPreparing := False,
       amr_set := False, media_running := False,
       call_dialog := no_dialog, cancelRequested := False, lastInviteReason := [], pracked := None,
       negotiated := (negotiated c)\<lparr>remoteRTP := None, MediaReady := False, dtmfPayload := 101, dtmfReady := False\<rparr>,
       phase := p, EarlyMedia := False\<rparr>)"

text \<open>The loops of \<^verbatim>\<open>RTP_Audio\<close> are started once, when both sockets and the remote address are there.\<close>

definition startMedia :: "call_env \<Rightarrow> call \<Rightarrow> call" where
  "startMedia env c =
     (let codec = Codec (negotiated c);
          lost = c\<lparr>negotiated := (negotiated c)\<lparr>MediaReady := False\<rparr>, LastError := Some CodecUnavailable\<rparr>
      in if codec \<noteq> ''PCMA'' \<and> codec \<noteq> ''AMR'' then lost
         else if codec = ''AMR'' \<and> \<not> amr_set c \<and> \<not> AMRAvailable env then lost
         else let c1 = c\<lparr>amr_set := (amr_set c \<or> codec = ''AMR'')\<rparr>
         in if media_set c \<and> audio_set c \<and> remoteRTP (negotiated c) \<noteq> None then c1\<lparr>media_running := True\<rparr> else c1)"

definition build ::
  "call_env \<Rightarrow> sip_method \<Rightarrow> string \<Rightarrow> string \<Rightarrow> u32 \<Rightarrow> string \<Rightarrow> call \<Rightarrow> (call_error + request) \<times> call" where
  "build env method peer call_id cseq body c =
     (let (result, d) = buildRequest (ParseUri env) (service env) (NewTag env) (NewBranch env method) method peer call_id
        cseq body (call_dialog c)
      in (result, c\<lparr>call_dialog := d\<rparr>))"

text \<open>A request that is built and handed to the transport; the result tells what went wrong.\<close>

definition send ::
  "call_env \<Rightarrow> sip_method \<Rightarrow> string \<Rightarrow> string \<Rightarrow> u32 \<Rightarrow> string \<Rightarrow> call \<Rightarrow>
   call_failure option \<times> call_event list \<times> call" where
  "send env method peer call_id cseq body c =
     (case build env method peer call_id cseq body c of
        (Inl e, c1) \<Rightarrow> (Some (RequestNotBuilt e), [], c1)
      | (Inr r, c1) \<Rightarrow>
          if Written env method then (None, [SendRequest r], c1) else (Some RequestNotWritten, [], c1))"

section \<open>Outgoing calls\<close>

datatype dial_error = TargetMissing | EmergencyDisabled | CallAlreadyActive

text \<open>\<^verbatim>\<open>dial\<close> up to the end of its critical section.  The result is the target, the name and the number of
  the call.\<close>

definition dial_claim :: "call_env \<Rightarrow> string \<Rightarrow> call \<Rightarrow> (dial_error + string \<times> string \<times> u32) \<times> call" where
  "dial_claim env peer0 c =
     (let peer = TrimSpace peer0
      in if peer = [] then (Inl TargetMissing, c)
         else if isEmergencyNumber peer then (Inl EmergencyDisabled, c)
         else if \<not> free (phase c) then (Inl CallAlreadyActive, c)
         else let cseq = call_cseq c + 1
         in (Inr (peer, NewName env, cseq),
             c\<lparr>context_set := True, phase := Outgoing, Direction := ''outgoing'', Peer := peer, CallID := NewName env,
               StartedAt := [], LastError := None, EarlyMedia := False, AudioPort := 0, AudioName := [],
               negotiated := (negotiated c)\<lparr>Codec := [], MediaReady := False, dtmfPayload := 101, dtmfReady := False\<rparr>,
               call_dialog := no_dialog, cancelRequested := False, lastInviteReason := [], pracked := Some [],
               call_cseq := cseq\<rparr>))"

datatype socket_result = NoSocket | Socket int "int option"

definition allocateMedia :: "call_env \<Rightarrow> socket_result \<Rightarrow> call \<Rightarrow> int option \<times> call" where
  "allocateMedia env sockets c =
     (case sockets of
        NoSocket \<Rightarrow> (None, c)
      | Socket port bridge \<Rightarrow>
          (let c1 = c\<lparr>media_set := True\<rparr>
           in if audio_set c then (Some port, c1)
              else (case bridge of
                      None \<Rightarrow> (None, c1)
                    | Some b \<Rightarrow> (Some port, c1\<lparr>audio_set := True, AudioPort := b, AudioName := NewName env\<rparr>))))"

text \<open>The rest of \<^verbatim>\<open>dial\<close>: \<^term>\<open>subscribed\<close> tells whether the transport accepts the subscription.  The result
  tells whether the responses are watched.\<close>

definition dial_send ::
  "call_env \<Rightarrow> socket_result \<Rightarrow> bool \<Rightarrow> string \<times> string \<times> u32 \<Rightarrow> call \<Rightarrow> bool \<times> call_event list \<times> call" where
  "dial_send env sockets subscribed task c =
     (case task of (peer, call_id, cseq) \<Rightarrow>
        (case allocateMedia env sockets c of
           (None, c1) \<Rightarrow> (False, [], setState Failed (Some MediaNotAllocated) c1)
         | (Some port, c1) \<Rightarrow>
             let sdp = localSDP (DisableAMR (service env)) (NewSessionID env) (CfgLocalIP (svc_cfg (service env)))
                   (Direction c1 = ''incoming'') (negotiated c1) port
             in (case build env INVITE peer call_id cseq sdp c1 of
                   (Inl e, c2) \<Rightarrow> (False, [], setState Failed (Some (RequestNotBuilt e)) c2)
                 | (Inr r, c2) \<Rightarrow>
                     if \<not> subscribed then (False, [], c2)
                     else if Written env INVITE then (True, [SendRequest r], c2)
                     else (False, [], setState Failed (Some RequestNotWritten) c2))))"

definition updateProvisionalState :: "bool \<Rightarrow> call \<Rightarrow> bool \<times> call" where
  "updateProvisionalState ready c =
     (if cancelRequested c then (False, c)
      else (ready, c\<lparr>phase := Early, EarlyMedia := ready, negotiated := (negotiated c)\<lparr>MediaReady := ready\<rparr>\<rparr>))"

text \<open>A reliable provisional response is acknowledged once.  \<^verbatim>\<open>finish\<close> leaves a nil map, \<^term>\<open>None\<close>, behind,
  and Go panics when it writes to one.\<close>

definition prack ::
  "call_env \<Rightarrow> string \<Rightarrow> string \<Rightarrow> call_response \<Rightarrow> call \<Rightarrow> call_event list \<times> call" where
  "prack env peer call_id r c =
     (let base = sip_response.truncate r
      in if headerContainsToken (GetHeader base ''Require'') ''100rel'' then
           (case GetHeader base ''RSeq'' of
              None \<Rightarrow> ([], c)
            | Some rseq \<Rightarrow>
                let key = TrimSpace rseq @ ''|'' @
                      (case ResponseCSeq r of None \<Rightarrow> [] | Some (n, m) \<Rightarrow> dec (unat n) @ '' '' @ method_name m)
                in case pracked c of None \<Rightarrow> ([Panic], c)
                 | Some keys \<Rightarrow> if key \<in> set keys then ([], c)
                   else let c1 = c\<lparr>pracked := Some (key # keys), call_cseq := call_cseq c + 1,
                              call_dialog := (call_dialog c)\<lparr>lastRSeq := TrimSpace rseq\<rparr>\<rparr>
                   in (case send env PRACK peer call_id (call_cseq c1) [] c1 of (_, events, c2) \<Rightarrow> (events, c2)))
         else ([], c))"

definition provisional_response ::
  "call_env \<Rightarrow> string \<Rightarrow> string \<Rightarrow> call_response \<Rightarrow> bool \<Rightarrow> call \<Rightarrow> call_event list \<times> call" where
  "provisional_response env peer call_id r wasCancelling c =
     (let (ready, c1) =
            (if \<not> wasCancelling \<and> ResponseBody r \<noteq> [] then
               (case applyRemoteSDP (DisableAMR (service env)) (ResponseBody r) True (negotiated c) of
                  Inl _ \<Rightarrow> (False, c)
                | Inr m \<Rightarrow> (True, c\<lparr>negotiated := m\<rparr>))
             else (False, c));
          (started, c2) = updateProvisionalState ready c1
      in prack env peer call_id r (if started then startMedia env c2 else c2))"

text \<open>A BYE under a new number; what becomes of it is not looked at.\<close>

definition send_bye :: "call_env \<Rightarrow> string \<Rightarrow> string \<Rightarrow> call \<Rightarrow> call_event list \<times> call" where
  "send_bye env peer call_id c =
     (let c1 = c\<lparr>call_cseq := call_cseq c + 1\<rparr>
      in case send env BYE peer call_id (call_cseq c1) [] c1 of (_, events, c2) \<Rightarrow> (events, c2))"

definition activate :: "call_env \<Rightarrow> call \<Rightarrow> call" where
  "activate env c =
     startMedia env (c\<lparr>phase := Active, StartedAt := Clock env,
       negotiated := (negotiated c)\<lparr>MediaReady := (remoteRTP (negotiated c) \<noteq> None)\<rparr>\<rparr>)"

definition success_response ::
  "call_env \<Rightarrow> string \<Rightarrow> string \<Rightarrow> u32 \<Rightarrow> call_response \<Rightarrow> bool \<Rightarrow> call \<Rightarrow> call_event list \<times> call" where
  "success_response env peer call_id cseq r wasCancelling c =
     (let applied = applyRemoteSDP (DisableAMR (service env)) (ResponseBody r) True (negotiated c);
          c1 = (case applied of Inl _ \<Rightarrow> c | Inr m \<Rightarrow> c\<lparr>negotiated := m\<rparr>)
      in case send env ACK peer call_id cseq [] c1 of
           (Some e, events, c2) \<Rightarrow> (events, finish Failed (Some e) c2)
         | (None, events, c2) \<Rightarrow>
             if wasCancelling then
               (case send_bye env peer call_id c2 of (bye, c3) \<Rightarrow> (events @ bye, finish Ended None c3))
             else (case applied of
                     Inl e \<Rightarrow> (case send_bye env peer call_id c2 of
                         (bye, c3) \<Rightarrow> (events @ bye, finish Failed (Some (DescriptionRefused e)) c3))
                   | Inr _ \<Rightarrow> (events, activate env c2)))"

definition failure_response ::
  "call_env \<Rightarrow> string \<Rightarrow> string \<Rightarrow> u32 \<Rightarrow> call_response \<Rightarrow> bool \<Rightarrow> call \<Rightarrow> call_event list \<times> call" where
  "failure_response env peer call_id cseq r wasCancelling c =
     (let reason = lastInviteReason c
      in case send env ACK peer call_id cseq [] (c\<lparr>call_dialog := (call_dialog c)\<lparr>non2xxACK := True\<rparr>\<rparr>) of
           (_, events, c1) \<Rightarrow>
             if wasCancelling then (events, finish Ended None c1)
             else (events @ [RecoverRegistration],
               finish Failed (Some (CallRejected (callRejectionErrorWithFallback (Some (sip_response.truncate r)) reason))) c1))"

text \<open>One response in \<^verbatim>\<open>watchInvite\<close>; the first result tells whether the loop goes on.\<close>

definition watch_response ::
  "call_env \<Rightarrow> string \<times> string \<times> u32 \<Rightarrow> call_response \<Rightarrow> call \<Rightarrow> bool \<times> call_event list \<times> call" where
  "watch_response env task r c =
     (case task of (peer, call_id, cseq) \<Rightarrow>
        if ResponseCSeq r \<noteq> Some (cseq, INVITE) then (True, [], c)
        else if CallID c \<noteq> call_id then (False, [], c)
        else let reason = (case GetHeader (sip_response.truncate r) ''Reason'' of None \<Rightarrow> [] | Some v \<Rightarrow> TrimSpace v);
                 c1 = c\<lparr>call_dialog := updateDialogFromResponse r (call_dialog c),
                   lastInviteReason := (if reason = [] then lastInviteReason c else reason)\<rparr>;
                 wasCancelling = cancelRequested c
        in if StatusCode r < 180 then (True, [], if wasCancelling then c1 else setState Outgoing None c1)
           else if StatusCode r < 200 then (True, provisional_response env peer call_id r wasCancelling c1)
           else if StatusCode r < 300 then (False, success_response env peer call_id cseq r wasCancelling c1)
           else (False, failure_response env peer call_id cseq r wasCancelling c1))"

text \<open>The end of the watch: no final response in time, or the stream of responses is closed.\<close>

definition watch_end :: "call_failure \<Rightarrow> string \<Rightarrow> call \<Rightarrow> call" where
  "watch_end failure call_id c =
     (if CallID c \<noteq> call_id then c
      else if cancelRequested c then finish Ended None c else finish Failed (Some failure) c)"

section \<open>Incoming calls\<close>

definition same_transaction :: "sip_request \<Rightarrow> call \<Rightarrow> bool" where
  "same_transaction req c \<longleftrightarrow>
     (case incoming c of
        None \<Rightarrow> False
      | Some i \<Rightarrow> CallID c \<noteq> [] \<and> CallID c = sipCallIDFromRequest (rq_call_id req) \<and>
          rq_cseq i \<noteq> None \<and> rq_cseq req \<noteq> None \<and> rq_cseq i = rq_cseq req)"

definition armIncomingDecisionTimer :: "sip_request \<Rightarrow> string \<Rightarrow> call \<Rightarrow> call" where
  "armIncomingDecisionTimer req tag c =
     (if phase c \<noteq> Incoming \<or> map_option rq_id (incoming c) \<noteq> Some (rq_id req) \<or> incomingToTag c \<noteq> tag then c
      else c\<lparr>incomingDecisionTimer := Some (rq_id req, tag)\<rparr>)"

text \<open>A new INVITE that may ring: 100, the description, then 180.\<close>

definition ring :: "call_env \<Rightarrow> sip_request \<Rightarrow> call \<Rightarrow> call_event list \<times> call" where
  "ring env req c =
     (let answers = (\<lambda>code body tag. Respond (rq_id req) code tag body)
      in if \<not> Responded env 100 then ([], finish Failed (Some TryingNotWritten) c)
         else (case applyRemoteSDP (DisableAMR (service env)) (rq_body req) False (negotiated c) of
                 Inl _ \<Rightarrow> (answers 100 [] [] # (if Responded env 488 then [answers 488 [] []] else []), c)
               | Inr m \<Rightarrow>
                   let tag = NewTag env;
                       c1 = c\<lparr>negotiated := m\<lparr>MediaReady := False\<rparr>, incoming := Some req, incomingToTag := tag,
                         phase := Incoming, Direction := ''incoming'', Peer := sipRequestPeer (rq_from req),
                         CallID := sipCallIDFromRequest (rq_call_id req), StartedAt := [], LastError := None,
                         EarlyMedia := False, AudioPort := 0, AudioName := []\<rparr>
                   in if \<not> Responded env 180 then ([answers 100 [] []], finish Failed (Some RingingNotWritten) c1)
                      else ([answers 100 [] [], answers 180 [] tag], armIncomingDecisionTimer req tag c1)))"

definition respond_once :: "call_env \<Rightarrow> sip_request \<Rightarrow> int \<Rightarrow> string \<Rightarrow> string \<Rightarrow> call_event list" where
  "respond_once env req code tag body = (if Responded env code then [Respond (rq_id req) code tag body] else [])"

definition handleInvite :: "call_env \<Rightarrow> sip_request \<Rightarrow> call \<Rightarrow> call_event list \<times> call" where
  "handleInvite env req c =
     (let same = same_transaction req c
      in if (phase c = Incoming \<or> phase c = Connecting) \<and> same \<and> incomingAnswerSDP c \<noteq> []
         then (respond_once env req 200 (incomingToTag c) (incomingAnswerSDP c), c)
         else if phase c = Incoming \<and> same then (respond_once env req 180 (incomingToTag c) [], c)
         else if \<not> free (phase c) then (respond_once env req 486 [] [], c)
         else ring env req c)"

definition rejectPendingLocked :: "call_env \<Rightarrow> int \<Rightarrow> call \<Rightarrow> call_event list \<times> call" where
  "rejectPendingLocked env code c =
     (case incoming c of
        None \<Rightarrow> ([], c)
      | Some req \<Rightarrow>
          (respond_once env req code (incomingToTag c) [],
           finish Ended (if Responded env code then None else Some ResponseNotWritten) c))"

definition reject :: "call_env \<Rightarrow> int \<Rightarrow> call \<Rightarrow> call_event list \<times> call" where
  "reject env code c = rejectPendingLocked env (if code = 0 then 486 else code) c"

definition expireIncomingDecision :: "call_env \<Rightarrow> nat \<times> string \<Rightarrow> call \<Rightarrow> call_event list \<times> call" where
  "expireIncomingDecision env armed c =
     (if phase c = Incoming \<and> map_option rq_id (incoming c) = Some (fst armed) \<and> incomingToTag c = snd armed
      then rejectPendingLocked env 408 c else ([], c))"

definition handle_cancel :: "call_env \<Rightarrow> sip_request \<Rightarrow> call \<Rightarrow> call_event list \<times> call" where
  "handle_cancel env req c =
     (let matched = (phase c = Incoming \<and> CallID c \<noteq> [] \<and> CallID c = sipCallIDFromRequest (rq_call_id req) \<and>
            (case incoming c of None \<Rightarrow> False | Some i \<Rightarrow>
               (case (rq_cseq i, rq_cseq req) of (Some (n, _), Some (k, _)) \<Rightarrow> n = k | _ \<Rightarrow> False)))
      in if \<not> matched then (respond_once env req 481 [] [], c)
         else (case rejectPendingLocked env 487 c of (events, c1) \<Rightarrow> (respond_once env req 200 [] [] @ events, c1)))"

definition handle_ack :: "call_env \<Rightarrow> sip_request \<Rightarrow> call \<Rightarrow> call" where
  "handle_ack env req c =
     (if CallID c \<noteq> [] \<and> CallID c = sipCallIDFromRequest (rq_call_id req) \<and> phase c = Connecting
      then activate env c else c)"

definition handle_bye :: "call_env \<Rightarrow> sip_request \<Rightarrow> call \<Rightarrow> call_event list \<times> call" where
  "handle_bye env req c =
     (if CallID c \<noteq> [] \<and> CallID c = sipCallIDFromRequest (rq_call_id req) \<and> \<not> free (phase c)
      then (respond_once env req 200 [] [], finish Ended None c)
      else (respond_once env req 481 [] [], c))"

definition handleRequest :: "call_env \<Rightarrow> sip_request \<Rightarrow> call \<Rightarrow> call_event list \<times> call" where
  "handleRequest env req c =
     (let method = ToUpper (rq_method req)
      in if method = ''INVITE'' then handleInvite env req c
         else if method = ''ACK'' then ([], handle_ack env req c)
         else if method = ''CANCEL'' then handle_cancel env req c
         else if method = ''BYE'' then handle_bye env req c
         else if method = ''PRACK'' \<or> method = ''UPDATE'' \<or> method = ''INFO'' then (respond_once env req 200 [] [], c)
         else ([], c))"

datatype answer_error = NoIncomingCall | AnswerMediaFailed | AlreadyAnswered | NoLongerPending | MediaInUse | AnswerNotWritten

text \<open>\<^verbatim>\<open>answer\<close> up to the reservation; the result is the request and its tag.\<close>

definition answer_reserve :: "call \<Rightarrow> (answer_error + sip_request \<times> string) \<times> call" where
  "answer_reserve c =
     (case incoming c of
        None \<Rightarrow> (Inl NoIncomingCall, c)
      | Some req \<Rightarrow>
          if phase c \<noteq> Incoming \<or> incomingAnswerPreparing c \<or> incomingAnswerSDP c \<noteq> [] then (Inl AlreadyAnswered, c)
          else (Inr (req, incomingToTag c), c\<lparr>incomingAnswerPreparing := True\<rparr>))"

definition clearIncomingAnswerReservation :: "sip_request \<Rightarrow> call \<Rightarrow> call" where
  "clearIncomingAnswerReservation req c =
     (if map_option rq_id (incoming c) = Some (rq_id req) \<and> phase c = Incoming
      then c\<lparr>incomingAnswerPreparing := False\<rparr> else c)"

text \<open>The rest of \<^verbatim>\<open>answer\<close>, with the ports of the sockets opened in the meantime.\<close>

definition answer_commit ::
  "call_env \<Rightarrow> (int \<times> int) option \<Rightarrow> sip_request \<times> string \<Rightarrow> call \<Rightarrow>
   answer_error option \<times> call_event list \<times> call" where
  "answer_commit env sockets task c =
     (case task of (req, tag) \<Rightarrow>
        (case sockets of
           None \<Rightarrow> (Some AnswerMediaFailed, [], clearIncomingAnswerReservation req c)
         | Some (port, bridge) \<Rightarrow>
             let sdp = localSDP (DisableAMR (service env)) (NewSessionID env) (CfgLocalIP (svc_cfg (service env)))
                   (Direction c = ''incoming'') (negotiated c) port
             in if phase c \<noteq> Incoming \<or> map_option rq_id (incoming c) \<noteq> Some (rq_id req) \<or> incomingToTag c \<noteq> tag \<or>
                   \<not> incomingAnswerPreparing c then (Some NoLongerPending, [], c)
                else if media_set c \<or> audio_set c then (Some MediaInUse, [], c\<lparr>incomingAnswerPreparing := False\<rparr>)
                else let c1 = c\<lparr>media_set := True, audio_set := True, AudioPort := bridge, AudioName := NewName env,
                           incomingAnswerSDP := sdp\<rparr>
                in if \<not> Responded env 200 then (Some AnswerNotWritten, [], finish Failed (Some ResponseNotWritten) c1)
                   else (None, [Respond (rq_id req) 200 tag sdp],
                     c1\<lparr>incomingDecisionTimer := None, phase := Connecting, incomingAnswerPreparing := False\<rparr>)))"

section \<open>Hanging up\<close>

text \<open>\<^verbatim>\<open>hangup\<close> up to the request it sends, and the rest.\<close>

definition hangup_claim :: "call \<Rightarrow> (sip_method \<times> string \<times> string \<times> u32) option \<times> call" where
  "hangup_claim c =
     (if free (phase c) \<or> phase c = Cancelling then (None, c)
      else if phase c = Outgoing \<or> phase c = Early
      then (Some (CANCEL, Peer c, CallID c, inviteCSeq (call_dialog c)), c\<lparr>cancelRequested := True, phase := Cancelling\<rparr>)
      else (Some (BYE, Peer c, CallID c, call_cseq c + 1), c\<lparr>call_cseq := call_cseq c + 1\<rparr>))"

definition hangup_send ::
  "call_env \<Rightarrow> sip_method \<times> string \<times> string \<times> u32 \<Rightarrow> call \<Rightarrow> call_event list \<times> call" where
  "hangup_send env task c =
     (case task of (method, peer, call_id, cseq) \<Rightarrow>
        (case send env method peer call_id cseq [] c of
           (err, events, c1) \<Rightarrow>
             if method = CANCEL \<and> err = None then (events, c1) else (events, finish Ended err c1)))"

definition close :: "call \<Rightarrow> call" where
  "close c = finish Ended None c"

end
