(* ===== verification/Call_Life.thy ===== *)
theory Call_Life
  imports Call_State
begin

text \<open>
  All runs of a call: the operations of \<^verbatim>\<open>Call_State\<close> as steps that user, network and goroutines take in
  any order.  An operation that waits is a task between its two steps.  The theorems say what every run keeps:
  a request of the network gets one final response, and an answer and a CANCEL exclude each other.
\<close>

section \<open>Steps\<close>

datatype task =
    Dialing "string \<times> string \<times> u32"
  | Watching "string \<times> string \<times> u32"
  | Answering "sip_request \<times> string"
  | HangingUp "sip_method \<times> string \<times> string \<times> u32"

record client =
  client_call :: call
  tasks :: "task list"
  call_log :: "call_event list"

definition received :: "nat \<Rightarrow> call_event list \<Rightarrow> bool" where
  "received i es \<longleftrightarrow> list_ex (\<lambda>e. case e of Received r \<Rightarrow> rq_id r = i | _ \<Rightarrow> False) es"

definition start_client :: client where
  "start_client = \<lparr>client_call = newCallRuntime, tasks = [], call_log = []\<rparr>"

definition advance :: "client \<Rightarrow> call \<Rightarrow> task list \<Rightarrow> call_event list \<Rightarrow> client" where
  "advance s c ts es = s\<lparr>client_call := c, tasks := ts, call_log := call_log s @ es\<rparr>"

text \<open>The loop of \<^verbatim>\<open>watchInvite\<close> may still take a response when its context is cancelled, since \<^verbatim>\<open>select\<close>
  picks any case that is ready.  The user declines a call while it rings.\<close>

inductive call_step :: "client \<Rightarrow> client \<Rightarrow> bool" where
  receive: "\<not> received (rq_id req) (call_log s) \<Longrightarrow> handleRequest env req (client_call s) = (es, c) \<Longrightarrow>
    call_step s (advance s c (tasks s) (Received req # es))"
| dialled: "dial_claim env peer (client_call s) = (Inr t, c) \<Longrightarrow>
    call_step s (advance s c (Dialing t # tasks s) [])"
| dial_sent: "Dialing t \<in> set (tasks s) \<Longrightarrow> dial_send env sockets subscribed t (client_call s) = (watched, es, c) \<Longrightarrow>
    call_step s (advance s c ((if watched then [Watching t] else []) @ remove1 (Dialing t) (tasks s)) es)"
| response: "Watching t \<in> set (tasks s) \<Longrightarrow> watch_response env t r (client_call s) = (goes_on, es, c) \<Longrightarrow>
    call_step s (advance s c (if goes_on then tasks s else remove1 (Watching t) (tasks s)) es)"
| watch_ended: "Watching (peer, call_id, n) \<in> set (tasks s) \<Longrightarrow>
    call_step s (advance s (watch_end failure call_id (client_call s)) (remove1 (Watching (peer, call_id, n)) (tasks s)) [])"
| watch_cancelled: "Watching t \<in> set (tasks s) \<Longrightarrow>
    call_step s (advance s (client_call s) (remove1 (Watching t) (tasks s)) [])"
| answer_reserved: "answer_reserve (client_call s) = (Inr t, c) \<Longrightarrow>
    call_step s (advance s c (Answering t # tasks s) [])"
| answer_committed: "Answering t \<in> set (tasks s) \<Longrightarrow> answer_commit env sockets' t (client_call s) = (e, es, c) \<Longrightarrow>
    call_step s (advance s c (remove1 (Answering t) (tasks s)) es)"
| declined: "phase (client_call s) = Incoming \<Longrightarrow> reject env 486 (client_call s) = (es, c) \<Longrightarrow>
    call_step s (advance s c (tasks s) es)"
| expired: "expireIncomingDecision env armed (client_call s) = (es, c) \<Longrightarrow>
    call_step s (advance s c (tasks s) es)"
| hung_up: "hangup_claim (client_call s) = (Some t, c) \<Longrightarrow>
    call_step s (advance s c (HangingUp t # tasks s) [])"
| hangup_sent: "HangingUp t \<in> set (tasks s) \<Longrightarrow> hangup_send env t (client_call s) = (es, c) \<Longrightarrow>
    call_step s (advance s c (remove1 (HangingUp t) (tasks s)) es)"
| closed: "call_step s (advance s (close (client_call s)) (tasks s) [])"

inductive_cases call_stepE: "call_step s s'"

section \<open>Final responses\<close>

definition is_final :: "nat \<Rightarrow> call_event \<Rightarrow> bool" where
  "is_final i e \<longleftrightarrow> (case e of Respond k code _ _ \<Rightarrow> k = i \<and> 200 \<le> code | _ \<Rightarrow> False)"

definition finals :: "nat \<Rightarrow> call_event list \<Rightarrow> nat" where
  "finals i es = length (filter (is_final i) es)"

lemma finals_simps [simp]:
  "finals i [] = 0" "finals i (e # es) = (if is_final i e then Suc (finals i es) else finals i es)"
  "finals i (es @ fs) = finals i es + finals i fs"
  by (simp_all add: finals_def)

lemma is_final_simps [simp]:
  "is_final i (Received r) = False" "is_final i (SendRequest q) = False" "is_final i RecoverRegistration = False"
  "is_final i Panic = False" "is_final i (Respond k code tag body) \<longleftrightarrow> k = i \<and> 200 \<le> code"
  by (simp_all add: is_final_def)

lemma received_simps [simp]:
  "received i [] = False" "received i (es @ fs) \<longleftrightarrow> received i es \<or> received i fs"
  "received i (e # es) \<longleftrightarrow> (case e of Received r \<Rightarrow> rq_id r = i | _ \<Rightarrow> False) \<or> received i es"
  by (simp_all add: received_def)

lemma respond_once_finals: "finals i (respond_once env req code tag body) =
  (if Responded env code \<and> rq_id req = i \<and> 200 \<le> code then 1 else 0)"
  by (simp add: respond_once_def)

text \<open>What a step may do to the responses: it answers requests of \<^term>\<open>F\<close>, or it decides the INVITE that
  rings, once, and then nothing rings any more.\<close>

definition answers_once :: "nat set \<Rightarrow> call \<Rightarrow> call_event list \<Rightarrow> call \<Rightarrow> bool" where
  "answers_once F c es c' \<longleftrightarrow>
     (\<forall>i. finals i es \<le> 1 \<and>
       (0 < finals i es \<longrightarrow> i \<in> F \<or> phase c = Incoming \<and> map_option rq_id (incoming c) = Some i \<and> phase c' \<noteq> Incoming)) \<and>
     (phase c' = Incoming \<longrightarrow> phase c = Incoming \<and> incoming c' = incoming c \<or>
       (\<exists>r. incoming c' = Some r \<and> rq_id r \<in> F \<and> finals (rq_id r) es = 0))"

definition silent :: "call_event list \<Rightarrow> bool" where
  "silent es \<longleftrightarrow> (\<forall>i. finals i es = 0)"

definition keeps_ringing :: "call \<Rightarrow> call \<Rightarrow> bool" where
  "keeps_ringing c c' \<longleftrightarrow> (phase c' = Incoming \<longrightarrow> phase c = Incoming \<and> incoming c' = incoming c)"

lemma silent_once: "silent es \<Longrightarrow> keeps_ringing c c' \<Longrightarrow> answers_once F c es c'"
  by (simp add: answers_once_def silent_def keeps_ringing_def)

lemma silent_simps [simp]: "silent []" "silent (SendRequest q # es) = silent es" "silent (es @ fs) \<longleftrightarrow> silent es \<and> silent fs"
  "silent (RecoverRegistration # es) = silent es" "silent (Panic # es) = silent es"
  by (auto simp: silent_def)

lemma keeps_trans: "keeps_ringing a b \<Longrightarrow> keeps_ringing b c \<Longrightarrow> keeps_ringing a c"
  by (auto simp: keeps_ringing_def)

lemma finish_phase [simp]: "phase (finish p e c) = p" "incoming (finish p e c) = None" "media_set (finish p e c) = False"
  "audio_set (finish p e c) = False" "context_set (finish p e c) = False" "media_running (finish p e c) = False"
  "incomingDecisionTimer (finish p e c) = None" "CallID (finish p e c) = CallID c" "pracked (finish p e c) = None"
  by (simp_all add: finish_def fail_with_def split: option.split)

lemma keeps_finish: "p \<noteq> Incoming \<Longrightarrow> keeps_ringing c (finish p e d)"
  by (simp add: keeps_ringing_def)

lemma setState_simps [simp]: "phase (setState p e c) = p" "incoming (setState p e c) = incoming c" "media_set (setState p e c) = media_set c"
  "audio_set (setState p e c) = audio_set c"
  by (simp_all add: setState_def fail_with_def split: option.split)

lemma startMedia_simps [simp]: "phase (startMedia env c) = phase c" "incoming (startMedia env c) = incoming c"
  "CallID (startMedia env c) = CallID c"
  by (simp_all add: startMedia_def Let_def)

lemma activate_simps [simp]: "phase (activate env c) = Active"
  by (simp add: activate_def)

lemma send_effect:
  assumes "send env method peer call_id n body c = (e, es, c')"
  shows "silent es" "phase c' = phase c" "incoming c' = incoming c" "CallID c' = CallID c"
  using assms by (auto simp: send_def build_def Let_def split: sum.splits prod.splits if_splits)

lemma send_bye_effect:
  assumes "send_bye env peer call_id c = (es, c')"
  shows "silent es"
  using assms unfolding send_bye_def Let_def
  by (auto split: prod.splits dest: send_effect(1))

lemma prack_effect:
  assumes "prack env peer call_id r c = (es, c')"
  shows "silent es" "phase c' = phase c" "incoming c' = incoming c"
  using assms unfolding prack_def Let_def
  by (auto split: if_splits option.splits prod.splits dest: send_effect(1-3))

lemma provisional_effect:
  assumes "provisional_response env peer call_id r k c = (es, c')"
  shows "silent es" "keeps_ringing c c'"
proof -
  obtain ready c1 where a: "(if \<not> k \<and> ResponseBody r \<noteq> [] then
      (case applyRemoteSDP (DisableAMR (service env)) (ResponseBody r) True (negotiated c) of
         Inl _ \<Rightarrow> (False, c) | Inr m \<Rightarrow> (True, c\<lparr>negotiated := m\<rparr>)) else (False, c)) = (ready, c1)"
    by (rule prod.exhaust)
  obtain b c2 where u: "updateProvisionalState ready c1 = (b, c2)" by (cases "updateProvisionalState ready c1")
  have p: "prack env peer call_id r (if b then startMedia env c2 else c2) = (es, c')"
    using assms unfolding provisional_response_def Let_def a prod.case u .
  show "silent es" by (rule prack_effect(1) [OF p])
  have "phase c1 = phase c" "incoming c1 = incoming c" using a by (auto split: if_splits sum.splits)
  moreover have "phase c2 = Early \<or> phase c2 = phase c1" "incoming c2 = incoming c1"
    using u by (auto simp: updateProvisionalState_def split: if_splits)
  ultimately show "keeps_ringing c c'"
    using prack_effect(2,3) [OF p] by (auto simp: keeps_ringing_def)
qed

lemma success_effect:
  assumes "success_response env peer call_id n r k c = (es, c')"
  shows "silent es" "phase c' \<noteq> Incoming"
proof -
  let ?c1 = "case applyRemoteSDP (DisableAMR (service env)) (ResponseBody r) True (negotiated c) of
      Inl _ \<Rightarrow> c | Inr m \<Rightarrow> c\<lparr>negotiated := m\<rparr>"
  obtain e fs c2 where s: "send env ACK peer call_id n [] ?c1 = (e, fs, c2)" by (rule prod_cases3)
  obtain bye c3 where b: "send_bye env peer call_id c2 = (bye, c3)" by (cases "send_bye env peer call_id c2")
  show "silent es" "phase c' \<noteq> Incoming"
    using assms send_effect(1) [OF s] send_bye_effect [OF b]
    by (auto simp: success_response_def Let_def s b split: option.splits if_splits sum.splits)
qed

lemma failure_effect:
  assumes "failure_response env peer call_id n r k c = (es, c')"
  shows "silent es" "phase c' \<noteq> Incoming"
proof -
  obtain e fs c2 where s: "send env ACK peer call_id n [] (c\<lparr>call_dialog := (call_dialog c)\<lparr>non2xxACK := True\<rparr>\<rparr>) = (e, fs, c2)"
    by (rule prod_cases3)
  show "silent es" "phase c' \<noteq> Incoming"
    using assms send_effect(1) [OF s] by (auto simp: failure_response_def Let_def s split: if_splits)
qed

lemma watch_effect:
  assumes "watch_response env t r c = (go, es, c')"
  shows "silent es" "keeps_ringing c c'"
proof -
  obtain peer call_id n where t: "t = (peer, call_id, n)" by (rule prod_cases3)
  let ?reason = "case GetHeader (sip_response.truncate r) ''Reason'' of None \<Rightarrow> [] | Some v \<Rightarrow> TrimSpace v"
  let ?c1 = "c\<lparr>call_dialog := updateDialogFromResponse r (call_dialog c),
    lastInviteReason := (if ?reason = [] then lastInviteReason c else ?reason)\<rparr>"
  define d where "d = ?c1"
  have w: "watch_response env t r c =
      (if ResponseCSeq r \<noteq> Some (n, INVITE) then (True, [], c)
       else if CallID c \<noteq> call_id then (False, [], c)
       else if StatusCode r < 180 then (True, [], if cancelRequested c then d else setState Outgoing None d)
       else if StatusCode r < 200 then (True, provisional_response env peer call_id r (cancelRequested c) d)
       else if StatusCode r < 300 then (False, success_response env peer call_id n r (cancelRequested c) d)
       else (False, failure_response env peer call_id n r (cancelRequested c) d))"
    unfolding watch_response_def t Let_def prod.case d_def by (rule refl)
  have d: "phase d = phase c" "incoming d = incoming c" by (simp_all add: d_def)
  consider "es = []" "c' = c" | "es = []" "c' = d \<or> c' = setState Outgoing None d"
    | "provisional_response env peer call_id r (cancelRequested c) d = (es, c')"
    | "success_response env peer call_id n r (cancelRequested c) d = (es, c')"
    | "failure_response env peer call_id n r (cancelRequested c) d = (es, c')"
    using assms unfolding w by (auto split: if_splits)
  then have "silent es \<and> keeps_ringing c c'"
  proof cases
    case 2
    then show ?thesis using d by (auto simp: keeps_ringing_def)
  next
    case 3
    then show ?thesis using provisional_effect [OF 3] d by (simp add: keeps_ringing_def)
  next
    case 4
    then show ?thesis using success_effect [OF 4] by (simp add: keeps_ringing_def)
  next
    case 5
    then show ?thesis using failure_effect [OF 5] by (simp add: keeps_ringing_def)
  qed (simp add: keeps_ringing_def)
  then show "silent es" "keeps_ringing c c'" by simp_all
qed

lemma dial_send_effect:
  assumes "dial_send env sockets subscribed t c = (w, es, c')"
  shows "silent es" "keeps_ringing c c'"
proof -
  obtain peer call_id n where t: "t = (peer, call_id, n)" by (rule prod_cases3)
  obtain port c1 where a: "allocateMedia env sockets c = (port, c1)" by (cases "allocateMedia env sockets c")
  have c1: "phase c1 = phase c" "incoming c1 = incoming c"
    using a by (auto simp: allocateMedia_def Let_def split: socket_result.splits option.splits if_splits)
  have b: "build env INVITE peer call_id n sdp c1 = (q, c2) \<Longrightarrow> phase c2 = phase c1 \<and> incoming c2 = incoming c1" for sdp q c2
    by (auto simp: build_def Let_def split: prod.splits)
  show "silent es" "keeps_ringing c c'"
    using assms c1 unfolding dial_send_def t prod.case a Let_def
    by (auto simp: keeps_ringing_def split: option.splits sum.splits prod.splits if_splits dest!: b)
qed

lemma hangup_send_effect:
  assumes "hangup_send env t c = (es, c')"
  shows "silent es" "keeps_ringing c c'"
proof -
  obtain verb peer call_id n where t: "t = (verb, peer, call_id, n)" by (rule prod_cases4)
  obtain e fs c1 where s: "send env verb peer call_id n [] c = (e, fs, c1)" by (rule prod_cases3)
  show "silent es" "keeps_ringing c c'"
    using assms send_effect [OF s] by (auto simp: hangup_send_def t s keeps_ringing_def split: if_splits)
qed

section \<open>One final response\<close>

lemma reject_once:
  assumes "rejectPendingLocked env code c = (es, c')" "phase c = Incoming"
  shows "answers_once {} c es c'" "phase c' = Incoming \<Longrightarrow> incoming c = None" "es \<noteq> [] \<Longrightarrow> phase c' \<noteq> Incoming"
  using assms by (auto simp: rejectPendingLocked_def answers_once_def respond_once_finals split: option.splits if_splits)

lemma expire_once:
  assumes "expireIncomingDecision env armed c = (es, c')"
  shows "answers_once {} c es c'"
proof (cases "phase c = Incoming \<and> map_option rq_id (incoming c) = Some (fst armed) \<and> incomingToTag c = snd armed")
  case True
  then show ?thesis using assms reject_once(1) [of env 408 c es c'] by (simp add: expireIncomingDecision_def)
next
  case False
  then have "es = []" "c' = c" using assms unfolding expireIncomingDecision_def by (simp_all only: if_False prod.inject)
  then show ?thesis by (simp add: silent_once keeps_ringing_def)
qed

lemma once_fresh: "answers_once {} c es c' \<Longrightarrow> answers_once F c es c'"
  by (auto simp: answers_once_def)

lemma respond_fresh: "answers_once {rq_id req} c (respond_once env req code tag body) c"
  by (auto simp: answers_once_def respond_once_finals)

lemma ring_once:
  assumes "ring env req c = (es, c')"
  shows "answers_once {rq_id req} c es c'"
  using assms
  by (auto simp: ring_def Let_def answers_once_def armIncomingDecisionTimer_def split: if_splits sum.splits)

lemma invite_once: "handleInvite env req c = (es, c') \<Longrightarrow> answers_once {rq_id req} c es c'"
  by (auto simp: handleInvite_def Let_def split: if_splits intro: respond_fresh ring_once)

lemma cancel_once:
  assumes "handle_cancel env req c = (es, c')" "phase c = Incoming \<Longrightarrow> map_option rq_id (incoming c) \<noteq> Some (rq_id req)"
  shows "answers_once {rq_id req} c es c'"
proof -
  obtain fs d where r: "rejectPendingLocked env 487 c = (fs, d)" by (cases "rejectPendingLocked env 487 c")
  show ?thesis
  proof (cases "es = respond_once env req 481 [] [] \<and> c' = c")
    case True
    then show ?thesis by (simp add: respond_fresh)
  next
    case False
    then have m: "phase c = Incoming" "es = respond_once env req 200 [] [] @ fs" "c' = d"
      using assms(1) r by (auto simp: handle_cancel_def Let_def split: if_splits)
    show ?thesis
      using assms(2) [OF m(1)] m r
      by (auto simp: rejectPendingLocked_def answers_once_def respond_once_finals split: option.splits if_splits)
  qed
qed

lemma bye_once: "handle_bye env req c = (es, c') \<Longrightarrow> answers_once {rq_id req} c es c'"
  by (auto simp: handle_bye_def answers_once_def respond_once_finals split: if_splits)

lemma request_once:
  assumes "handleRequest env req c = (es, c')" "phase c = Incoming \<Longrightarrow> map_option rq_id (incoming c) \<noteq> Some (rq_id req)"
  shows "answers_once {rq_id req} c es c'"
proof -
  have a: "answers_once {rq_id req} c [] (handle_ack env req c)"
    by (intro silent_once) (auto simp: handle_ack_def keeps_ringing_def)
  show ?thesis
    using assms a unfolding handleRequest_def Let_def
    by (auto split: if_splits intro: invite_once cancel_once bye_once respond_fresh silent_once simp: keeps_ringing_def)
qed

lemma commit_once:
  assumes "answer_commit env sockets t c = (e, es, c')"
  shows "answers_once {} c es c'"
proof -
  obtain req tag where t: "t = (req, tag)" by (cases t)
  show ?thesis
    using assms unfolding answer_commit_def t prod.case Let_def
    by (auto simp: answers_once_def clearIncomingAnswerReservation_def split: option.splits if_splits prod.splits)
qed

text \<open>The invariant of all runs.\<close>

definition call_inv :: "client \<Rightarrow> bool" where
  "call_inv s \<longleftrightarrow>
     (\<forall>i. finals i (call_log s) \<le> 1 \<and> (0 < finals i (call_log s) \<longrightarrow> received i (call_log s))) \<and>
     (phase (client_call s) = Incoming \<longrightarrow>
       (\<exists>r. incoming (client_call s) = Some r \<and> received (rq_id r) (call_log s) \<and> finals (rq_id r) (call_log s) = 0))"

lemma call_inv_advance:
  assumes "call_inv s" "answers_once F (client_call s) es c"
    and "\<And>i. i \<in> F \<Longrightarrow> \<not> received i (call_log s) \<and> received i fs" "silent fs"
  shows "call_inv (advance s c ts (fs @ es))"
proof -
  have f: "finals i fs = 0" for i using assms(4) by (simp add: silent_def)
  have n: "finals i (call_log s) = 0" if "i \<in> F" for i using assms(1) assms(3) [OF that] by (auto simp: call_inv_def)
  have "finals i (call_log s) + finals i es \<le> 1 \<and>
      (0 < finals i (call_log s) + finals i es \<longrightarrow> received i (call_log s) \<or> received i fs)" for i
  proof (cases "finals i es = 0")
    case True
    then show ?thesis using assms(1) by (simp add: call_inv_def)
  next
    case False
    then consider "i \<in> F" | "phase (client_call s) = Incoming" "map_option rq_id (incoming (client_call s)) = Some i"
      using assms(2) by (auto simp: answers_once_def)
    then have "finals i (call_log s) = 0 \<and> (received i (call_log s) \<or> received i fs)"
    proof cases
      case 1
      then show ?thesis using n assms(3) by blast
    next
      case 2
      then show ?thesis using assms(1) by (auto simp: call_inv_def)
    qed
    then show ?thesis using assms(2) by (simp add: answers_once_def)
  qed
  moreover have "\<exists>r. incoming c = Some r \<and> (received (rq_id r) (call_log s) \<or> received (rq_id r) fs) \<and>
      finals (rq_id r) (call_log s) + finals (rq_id r) es = 0" if i: "phase c = Incoming"
  proof -
    consider "phase (client_call s) = Incoming" "incoming c = incoming (client_call s)"
      | r where "incoming c = Some r" "rq_id r \<in> F" "finals (rq_id r) es = 0"
      using assms(2) i by (auto simp: answers_once_def)
    then show ?thesis
    proof cases
      case 1
      then obtain r where r: "incoming (client_call s) = Some r" "received (rq_id r) (call_log s)" "finals (rq_id r) (call_log s) = 0"
        using assms(1) by (auto simp: call_inv_def)
      then have "finals (rq_id r) es = 0"
        using assms(2) i n [of "rq_id r"] assms(3) [of "rq_id r"] by (auto simp: answers_once_def)
      then show ?thesis using 1 r by simp
    next
      case 2
      then show ?thesis using n assms(3) by auto
    qed
  qed
  ultimately show ?thesis by (auto simp: call_inv_def advance_def f)
qed

lemma call_inv_quiet:
  assumes "call_inv s" "silent es" "keeps_ringing (client_call s) c"
  shows "call_inv (advance s c ts es)"
  using call_inv_advance [OF assms(1) silent_once [OF assms(2,3), of "{}"], of "[]" ts] by simp

lemma call_inv_decided:
  assumes "call_inv s" "answers_once {} (client_call s) es c"
  shows "call_inv (advance s c ts es)"
  using call_inv_advance [OF assms, of "[]" ts] by simp

lemma call_inv_step:
  assumes "call_step s s'" "call_inv s"
  shows "call_inv s'"
  using assms(1)
proof cases
  case (receive req env es c)
  have "phase (client_call s) = Incoming \<Longrightarrow> map_option rq_id (incoming (client_call s)) \<noteq> Some (rq_id req)"
    using assms(2) receive(2) by (auto simp: call_inv_def)
  from request_once [OF receive(3) this] have o: "answers_once {rq_id req} (client_call s) es c" by blast
  have "call_inv (advance s c (tasks s) ([Received req] @ es))"
    by (rule call_inv_advance [OF assms(2) o]) (use receive(2) in \<open>auto simp: silent_def\<close>)
  then show ?thesis using receive(1) by simp
next
  case (dialled env peer t c)
  have "keeps_ringing (client_call s) c"
    using dialled(2) by (auto simp: dial_claim_def Let_def keeps_ringing_def split: if_splits)
  then show ?thesis unfolding dialled(1) by (intro call_inv_quiet [OF assms(2)]) simp_all
next
  case (dial_sent t env sockets subscribed w es c)
  show ?thesis unfolding dial_sent(1) by (rule call_inv_quiet [OF assms(2) dial_send_effect [OF dial_sent(3)]])
next
  case (response t env r go es c)
  show ?thesis unfolding response(1) by (rule call_inv_quiet [OF assms(2) watch_effect [OF response(3)]])
next
  case (watch_ended peer call_id n failure)
  have "keeps_ringing (client_call s) (watch_end failure call_id (client_call s))"
    by (simp add: watch_end_def keeps_ringing_def)
  then show ?thesis unfolding watch_ended(1) by (intro call_inv_quiet [OF assms(2)]) simp_all
next
  case (watch_cancelled t)
  then show ?thesis using call_inv_quiet [OF assms(2), of "[]" "client_call s"] by (simp add: keeps_ringing_def)
next
  case (answer_reserved t c)
  have "keeps_ringing (client_call s) c"
    using answer_reserved(2) by (auto simp: answer_reserve_def keeps_ringing_def split: option.splits if_splits)
  then show ?thesis unfolding answer_reserved(1) by (intro call_inv_quiet [OF assms(2)]) simp_all
next
  case (answer_committed t env sockets' e es c)
  show ?thesis unfolding answer_committed(1) by (rule call_inv_decided [OF assms(2) commit_once [OF answer_committed(3)]])
next
  case (declined env es c)
  have "answers_once {} (client_call s) es c"
    using declined(3) reject_once(1) [OF _ declined(2)] by (simp add: reject_def)
  then show ?thesis unfolding declined(1) by (rule call_inv_decided [OF assms(2)])
next
  case (expired env armed es c)
  have "answers_once {} (client_call s) es c" by (rule expire_once [OF expired(2)])
  then show ?thesis unfolding expired(1) by (rule call_inv_decided [OF assms(2)])
next
  case (hung_up t c)
  have "keeps_ringing (client_call s) c"
    using hung_up(2) by (auto simp: hangup_claim_def keeps_ringing_def split: if_splits)
  then show ?thesis unfolding hung_up(1) by (intro call_inv_quiet [OF assms(2)]) simp_all
next
  case (hangup_sent t env es c)
  show ?thesis unfolding hangup_sent(1) by (rule call_inv_quiet [OF assms(2) hangup_send_effect [OF hangup_sent(3)]])
next
  case closed
  show ?thesis unfolding closed(1)
    by (rule call_inv_quiet [OF assms(2)]) (simp_all add: close_def keeps_finish)
qed

lemma call_inv_run: "call_step\<^sup>*\<^sup>* start_client s \<Longrightarrow> call_inv s"
proof (induction rule: rtranclp_induct)
  case base
  show ?case by (simp add: call_inv_def start_client_def newCallRuntime_def)
qed (rule call_inv_step)


definition sample_call_config :: ims_config where
  "sample_call_config = \<lparr>CfgLocalIP = [10, 0, 0, 2], PCSCFAddr = ''10.0.0.1:5060'', TransportPCSCFAddr = [],
     RegistrarCandidates = [], Realm = ''ims.example'', PrivateID = [], CfgPublicURI = ''sip:1@ims.example'',
     HomeDomain = ''ims.example'', CfgIMSI = [], Template = DefaultIMSRegisterTemplate, MCC = [], MNC = [], CellID = [],
     CfgTransport = ''tcp'', CfgLocalPort = 0, CfgSIPInstanceURN = [], UserAgent = [], SecurityVerify = [],
     RegisterExpirySeconds = 0\<rparr>"

definition sample_call_service :: call_service where
  "sample_call_service = \<lparr>svc_cfg = sample_call_config, CallPhoneContext = [], registeredMSISDN = [],
     svc_verifyHeader = [], LocalPortC = 5062, LocalPortS = 5063, DisableAMR = False\<rparr>"

definition sample_call_env :: call_env where
  "sample_call_env = \<lparr>service = sample_call_service, ParseUri = (\<lambda>_. True), Responded = (\<lambda>_. True), Written = (\<lambda>_. True),
     NewTag = ''t'', NewBranch = (\<lambda>_. ''b''), NewName = ''n'', AMRAvailable = False, NewSessionID = 1, Clock = []\<rparr>"

section \<open>Answering and cancelling\<close>

text \<open>C27: An answer of the user and a CANCEL of the caller race, and the first one decides.  After the CANCEL
  the INVITE is refused with 487 and the answer, whatever sockets it opened, changes nothing; after the answer
  the CANCEL finds no transaction and the call goes on to be connected.\<close>

theorem answer_or_cancel:
  assumes "answer_reserve c = (Inr (req, tag), c1)" "\<And>code. Responded env code"
    and "CallID c \<noteq> []" "CallID c = sipCallIDFromRequest (rq_call_id can)"
    and "rq_cseq req = Some (n, m)" "rq_cseq can = Some (n, m')"
    and "\<not> media_set c" "\<not> audio_set c"
  shows "(case handle_cancel env can c1 of (es, c2) \<Rightarrow>
      es = [Respond (rq_id can) 200 [] [], Respond (rq_id req) 487 tag []] \<and> phase c2 = Ended \<and>
      answer_commit env (Some (port, bridge)) (req, tag) c2 = (Some NoLongerPending, [], c2)) \<and>
    (case answer_commit env (Some (port, bridge)) (req, tag) c1 of (e, es, c2) \<Rightarrow>
      e = None \<and> (\<exists>sdp. es = [Respond (rq_id req) 200 tag sdp]) \<and> phase c2 = Connecting \<and>
      handle_cancel env can c2 = ([Respond (rq_id can) 481 [] []], c2))"
proof -
  have r: "incoming c = Some req" "phase c = Incoming" "incomingToTag c = tag" "c1 = c\<lparr>incomingAnswerPreparing := True\<rparr>"
    using assms(1) by (auto simp: answer_reserve_def split: option.splits if_splits)
  have "handle_cancel env can c1 = ([Respond (rq_id can) 200 [] [], Respond (rq_id req) 487 tag []], finish Ended None c1)"
    using assms(2-6) by (simp add: handle_cancel_def Let_def r rejectPendingLocked_def respond_once_def)
  moreover have "answer_commit env (Some (port, bridge)) (req, tag) (finish Ended None c1) = (Some NoLongerPending, [], finish Ended None c1)"
    by (simp add: answer_commit_def Let_def)
  moreover have "\<exists>sdp. answer_commit env (Some (port, bridge)) (req, tag) c1 = (None, [Respond (rq_id req) 200 tag sdp],
      c1\<lparr>media_set := True, audio_set := True, AudioPort := bridge, AudioName := NewName env, incomingAnswerSDP := sdp,
        incomingDecisionTimer := None, phase := Connecting, incomingAnswerPreparing := False\<rparr>)"
    using assms(2,7,8) by (simp add: answer_commit_def Let_def r)
  ultimately show ?thesis using assms(2) by (auto simp: handle_cancel_def Let_def respond_once_def)
qed

section \<open>A busy call\<close>

text \<open>While a call is in progress, nothing but that call is served: a new INVITE of another transaction
  gets 486 and a dial attempt an error, and neither changes the call.\<close>

theorem busy_call_kept:
  assumes "\<not> free (phase c)"
  shows "(\<not> same_transaction req c \<longrightarrow> handleInvite env req c = (respond_once env req 486 [] [], c)) \<and>
    snd (dial_claim env peer c) = c"
  using assms by (auto simp: handleInvite_def Let_def dial_claim_def split: if_splits)

section \<open>The outcome of an outgoing call\<close>

definition sent_methods :: "call_event list \<Rightarrow> sip_method list" where
  "sent_methods es = List.map_filter (\<lambda>e. case e of SendRequest r \<Rightarrow> Some (req_method r) | _ \<Rightarrow> None) es"

definition writes_all :: "call_env \<Rightarrow> string \<Rightarrow> bool" where
  "writes_all env peer \<longleftrightarrow> Written env = (\<lambda>_. True) \<and> ParseUri env = (\<lambda>_. True) \<and>
     (\<exists>t. normalizeCallTarget peer (if TrimSpace (CallPhoneContext (service env)) = []
       then HomeDomain (svc_cfg (service env)) else TrimSpace (CallPhoneContext (service env))) (Realm (svc_cfg (service env))) = Inr t)"

lemma send_written:
  assumes "writes_all env peer" "send env method peer call_id n body c = (e, es, c')"
  shows "e = None \<and> (\<exists>r. es = [SendRequest r] \<and> req_method r = method) \<and> cancelRequested c' = cancelRequested c"
proof -
  obtain b k d where "claim_transaction method (NewTag env) (NewBranch env method) n (call_dialog c) = (b, k, d)" by (rule prod_cases3)
  then show ?thesis
    using assms by (auto simp: writes_all_def send_def build_def buildRequest_def Let_def split: if_splits)
qed

lemma sent_methods_simps [simp]: "sent_methods [] = []" "sent_methods (SendRequest r # es) = req_method r # sent_methods es"
  "sent_methods (RecoverRegistration # es) = sent_methods es" "sent_methods (es @ fs) = sent_methods es @ sent_methods fs"
  by (simp_all add: sent_methods_def List.map_filter_def)

lemma send_bye_written:
  assumes "writes_all env peer" "send_bye env peer call_id c = (es, c')"
  shows "sent_methods es = [BYE]"
proof -
  let ?c1 = "c\<lparr>call_cseq := call_cseq c + 1\<rparr>"
  obtain e fs c2 where s: "send env BYE peer call_id (call_cseq ?c1) [] ?c1 = (e, fs, c2)" by (rule prod_cases3)
  have "es = fs" using assms(2) s by (simp add: send_bye_def Let_def)
  then show ?thesis using send_written [OF assms(1) s] by auto
qed

text \<open>C28: A final response to the INVITE of the current call is always acknowledged and ends the watch.  A 2xx
  makes the call active exactly if the user has not hung up and its media can be used, and otherwise the call
  it established is ended with a BYE; any other final response ends the call.\<close>

theorem call_outcome:
  assumes "writes_all env peer" "ResponseCSeq r = Some (n, INVITE)" "CallID c = call_id" "200 \<le> StatusCode r"
  defines "usable \<equiv> (\<exists>m. applyRemoteSDP (DisableAMR (service env)) (ResponseBody r) True (negotiated c) = Inr m)"
  shows "case watch_response env (peer, call_id, n) r c of (goes_on, es, c') \<Rightarrow>
    \<not> goes_on \<and>
    (if StatusCode r < 300 \<and> \<not> cancelRequested c \<and> usable then phase c' = Active \<and> sent_methods es = [ACK]
     else phase c' = (if cancelRequested c then Ended else Failed) \<and>
       sent_methods es = (if StatusCode r < 300 then [ACK, BYE] else [ACK]))"
proof -
  let ?reason = "case GetHeader (sip_response.truncate r) ''Reason'' of None \<Rightarrow> [] | Some v \<Rightarrow> TrimSpace v"
  define d where "d = c\<lparr>call_dialog := updateDialogFromResponse r (call_dialog c),
    lastInviteReason := (if ?reason = [] then lastInviteReason c else ?reason)\<rparr>"
  have d: "negotiated d = negotiated c" by (simp add: d_def)
  have w: "watch_response env (peer, call_id, n) r c = (False,
      if StatusCode r < 300 then success_response env peer call_id n r (cancelRequested c) d
      else failure_response env peer call_id n r (cancelRequested c) d)"
    using assms(2-4) unfolding watch_response_def Let_def prod.case d_def by simp
  show ?thesis
  proof (cases "StatusCode r < 300")
    case True
    let ?applied = "applyRemoteSDP (DisableAMR (service env)) (ResponseBody r) True (negotiated d)"
    let ?c1 = "case ?applied of Inl _ \<Rightarrow> d | Inr m \<Rightarrow> d\<lparr>negotiated := m\<rparr>"
    obtain e fs c2 where s: "send env ACK peer call_id n [] ?c1 = (e, fs, c2)" by (rule prod_cases3)
    obtain bye c3 where b: "send_bye env peer call_id c2 = (bye, c3)" by (cases "send_bye env peer call_id c2")
    have "sent_methods fs = [ACK]" "e = None" using send_written [OF assms(1) s] by auto
    then have "success_response env peer call_id n r (cancelRequested c) d =
        (if cancelRequested c then (fs @ bye, finish Ended None c3)
         else (case ?applied of Inl e \<Rightarrow> (fs @ bye, finish Failed (Some (DescriptionRefused e)) c3)
                 | Inr _ \<Rightarrow> (fs, activate env c2)))"
      unfolding success_response_def Let_def s by (simp add: b split: sum.split)
    then show ?thesis
      using True send_bye_written [OF assms(1) b] \<open>sent_methods fs = [ACK]\<close>
      unfolding w usable_def d by (auto split: sum.splits)
  next
    case False
    obtain e fs c2 where s: "send env ACK peer call_id n [] (d\<lparr>call_dialog := (call_dialog d)\<lparr>non2xxACK := True\<rparr>\<rparr>) = (e, fs, c2)"
      by (rule prod_cases3)
    have "sent_methods fs = [ACK]" using send_written [OF assms(1) s] by auto
    then show ?thesis using False unfolding w by (simp add: failure_response_def Let_def s)
  qed
qed

section \<open>Concrete runs\<close>

definition sample_invite :: sip_request where
  "sample_invite = \<lparr>rq_id = 1, rq_method = ''INVITE'', rq_call_id = Some ''x'', rq_cseq = Some (1, ''INVITE''),
     rq_from = None, rq_body = sample_description\<rparr>"

definition sample_cancel :: sip_request where
  "sample_cancel = \<lparr>rq_id = 2, rq_method = ''CANCEL'', rq_call_id = Some ''x'', rq_cseq = Some (1, ''CANCEL''),
     rq_from = None, rq_body = []\<rparr>"

lemma sample_names: "ToUpper ''INVITE'' = ''INVITE''" "ToUpper ''CANCEL'' = ''CANCEL''" "TrimSpace ''x'' = ''x''"
  by code_simp+

lemma sample_rings:
  obtains c where "handleRequest sample_call_env sample_invite newCallRuntime = ([Respond 1 100 [] [], Respond 1 180 ''t'' []], c)"
    "answer_reserve c = (Inr (sample_invite, ''t''), c\<lparr>incomingAnswerPreparing := True\<rparr>)"
    "CallID c = ''x''" "\<not> media_set c" "\<not> audio_set c"
proof -
  obtain m where m: "applyRemoteSDP (DisableAMR (service sample_call_env)) sample_description False no_media = Inr m"
    using sample_description_accepted by blast
  show thesis
    by (rule that [of "snd (handleRequest sample_call_env sample_invite newCallRuntime)"])
      (simp_all add: handleRequest_def sample_invite_def sample_names handleInvite_def newCallRuntime_def free_def
        same_transaction_def ring_def m Let_def sipRequestPeer_def sipCallIDFromRequest_def armIncomingDecisionTimer_def
        answer_reserve_def, simp_all add: sample_call_env_def)
qed


theorem answer_or_cancel_witness:
  "\<exists>c c2 sdp. answer_reserve c = (Inr (sample_invite, ''t''), c2) \<and>
     fst (snd (answer_commit sample_call_env (Some (4000, 5000)) (sample_invite, ''t'') c2)) = [Respond 1 200 ''t'' sdp] \<and>
     fst (handle_cancel sample_call_env sample_cancel c2) = [Respond 2 200 [] [], Respond 1 487 ''t'' []]"
proof -
  obtain c where c: "answer_reserve c = (Inr (sample_invite, ''t''), c\<lparr>incomingAnswerPreparing := True\<rparr>)"
    "CallID c = ''x''" "\<not> media_set c" "\<not> audio_set c"
    by (rule sample_rings) blast
  have "Responded sample_call_env code" for code by (simp add: sample_call_env_def)
  moreover have "CallID c \<noteq> []" "CallID c = sipCallIDFromRequest (rq_call_id sample_cancel)"
    "rq_cseq sample_invite = Some (1, ''INVITE'')" "rq_cseq sample_cancel = Some (1, ''CANCEL'')"
    by (simp_all add: c(2) sample_cancel_def sample_invite_def sipCallIDFromRequest_def sample_names)
  moreover have "rq_id sample_invite = 1" "rq_id sample_cancel = 2" by (simp_all add: sample_invite_def sample_cancel_def)
  ultimately show ?thesis
    using answer_or_cancel [OF c(1), of sample_call_env sample_cancel 1 "''INVITE''" "''CANCEL''" 4000 5000] c(1,3,4)
    by (intro exI [of _ c] exI [of _ "c\<lparr>incomingAnswerPreparing := True\<rparr>"]) (auto split: prod.splits)
qed

theorem busy_call_kept_witness:
  "handleInvite sample_call_env sample_invite (newCallRuntime\<lparr>phase := Active\<rparr>) =
     ([Respond 1 486 [] []], newCallRuntime\<lparr>phase := Active\<rparr>)"
proof -
  have "\<not> free (phase (newCallRuntime\<lparr>phase := Active\<rparr>))" by (simp add: free_def)
  from busy_call_kept [OF this, of sample_invite sample_call_env] show ?thesis
    by (simp add: same_transaction_def newCallRuntime_def respond_once_def sample_call_env_def sample_invite_def)
qed

definition sample_ok :: call_response where
  "sample_ok = \<lparr>StatusCode = 200, Reason = ''OK'', GetHeaders = (\<lambda>_. []), ToTag = Some ''y'',
     ResponseCSeq = Some (1, INVITE), ResponseBody = sample_description\<rparr>"

theorem call_outcome_witness:
  "\<exists>es c. watch_response sample_call_env (''+44'', ''n'', 1) sample_ok (newCallRuntime\<lparr>CallID := ''n''\<rparr>) = (False, es, c) \<and>
     phase c = Active \<and> sent_methods es = [ACK]"
proof -
  let ?c = "newCallRuntime\<lparr>CallID := ''n''\<rparr>"
  have "normalizeCallTarget ''+44'' k z = Inr ''tel:+44''" for k z
    by (simp add: normalizeCallTarget_def Let_def remove_chars_def HasPrefix_def TrimSpace_def trim_by_def is_space_def ToLower_def lower_char_def)
  then have w: "writes_all sample_call_env ''+44''" by (simp add: writes_all_def sample_call_env_def)
  have u: "\<exists>m. applyRemoteSDP (DisableAMR (service sample_call_env)) (ResponseBody sample_ok) True (negotiated ?c) = Inr m"
    using sample_description_accepted by (auto simp: sample_ok_def newCallRuntime_def)
  have r: "ResponseCSeq sample_ok = Some (1, INVITE)" "CallID ?c = ''n''" "200 \<le> StatusCode sample_ok" "StatusCode sample_ok < 300"
    "\<not> cancelRequested ?c"
    by (simp_all add: sample_ok_def newCallRuntime_def)
  show ?thesis
    using call_outcome [OF w r(1-3)] u r(4,5) by (auto split: prod.splits)
qed

section \<open>What goes wrong\<close>

text \<open>A dial attempt that fails after its sockets are opened leaves them with the call.  The next incoming
  call rings, but every attempt to answer it fails.\<close>

lemma failed_dial_blocks_answer:
  assumes "dial_send env (Socket port (Some bridge)) True t c = (False, es, c1)"
    and "ring env' req c1 = (fs, c2)" "answer_reserve c2 = (Inr k, c3)"
  shows "phase c1 = Failed \<and> fst (answer_commit env'' (Some sockets) k c3) = Some MediaInUse"
proof -
  obtain peer call_id n where t: "t = (peer, call_id, n)" by (rule prod_cases3)
  have c1: "phase c1 = Failed" "media_set c1"
    using assms(1) by (auto simp: dial_send_def t allocateMedia_def Let_def build_def split: sum.splits prod.splits if_splits)
  have r: "phase c2 = Incoming" "c3 = c2\<lparr>incomingAnswerPreparing := True\<rparr>" "incoming c2 = Some (fst k)" "incomingToTag c2 = snd k"
    using assms(3) by (auto simp: answer_reserve_def split: option.splits if_splits)
  have "media_set c2"
    using assms(2) c1 r(1) by (auto simp: ring_def Let_def armIncomingDecisionTimer_def split: if_splits sum.splits)
  then show ?thesis using r c1 by (cases k; cases sockets) (simp add: answer_commit_def Let_def)
qed

text \<open>When the transport refuses the subscription, the call stays outgoing, hanging up leaves it cancelling, and
  no further call can be made.\<close>

lemma unsubscribed_call_stuck:
  assumes "phase c = Outgoing" "build env INVITE peer call_id n
      (localSDP (DisableAMR (service env)) (NewSessionID env) (CfgLocalIP (svc_cfg (service env)))
        (Direction c = ''incoming'') (negotiated c) port) (snd (allocateMedia env (Socket port (Some b)) c)) = (Inr q, c1)"
  shows "dial_send env (Socket port (Some b)) False (peer, call_id, n) c = (False, [], c1) \<and>
    phase (snd (hangup_claim c1)) = Cancelling \<and> fst (hangup_claim (snd (hangup_claim c1))) = None \<and>
    fst (dial_claim env ''1'' (snd (hangup_claim c1))) = Inl CallAlreadyActive"
proof -
  define d where "d = snd (allocateMedia env (Socket port (Some b)) c)"
  have a: "allocateMedia env (Socket port (Some b)) c = (Some port, d)" "phase d = Outgoing"
    "Direction d = Direction c" "negotiated d = negotiated c"
    using assms(1) by (simp_all add: allocateMedia_def Let_def d_def)
  have c1: "phase c1 = Outgoing" using assms(2) a by (auto simp: build_def Let_def split: prod.splits)
  have one: "TrimSpace ''1'' = ''1''" "\<not> isEmergencyNumber ''1''" by code_simp+
  show ?thesis using assms(2) a c1 one
    by (simp add: dial_send_def hangup_claim_def free_def dial_claim_def Let_def)
qed

text \<open>A reliable provisional response that is taken after the call was finished writes to a nil map.\<close>

lemma late_provisional_panics:
  assumes "headerContainsToken (GetHeader (sip_response.truncate r) ''Require'') ''100rel''"
    and "GetHeader (sip_response.truncate r) ''RSeq'' = Some rseq"
  shows "fst (prack env peer call_id r (finish p e c)) = [Panic]"
  using assms by (simp add: prack_def Let_def)

text \<open>Declining is not limited to a call that rings: a call answered before gets a second final response.\<close>

lemma reject_after_answer:
  assumes "answer_commit env sockets (req, tag) c = (None, es, c1)" "Responded env 486"
  shows "\<exists>sdp. es = [Respond (rq_id req) 200 tag sdp] \<and> fst (reject env 486 c1) = [Respond (rq_id req) 486 tag []] \<and>
    phase (snd (reject env 486 c1)) = Ended"
  using assms
  by (auto simp: answer_commit_def Let_def reject_def rejectPendingLocked_def respond_once_def split: option.splits if_splits)

end
