(* ===== verification/SIP_Runtime.thy ===== *)
theory SIP_Runtime
  imports Call_Requests
begin

text \<open>
  The runtime below the calls and messages (\<^verbatim>\<open>imscore/transport_runtime.go\<close>): the health of the protected
  connection and its heartbeat, the lease that keeps an inbound connection open for a final response, the
  subscriptions to responses, the queue of raw responses, and where an inbound request goes.

  Sockets, timers and contexts are what a step is told: which probe was answered, which write failed, whether
  the context is done.
\<close>

section \<open>Diagnostics of inbound connections\<close>

record port_s_diagnostics =
  listenerStarted :: bool
  acceptCount :: u64
  lastInboundSIPAt :: "int option"
  lastResponseWriteError :: string
  reachability :: string

definition listenerState :: "bool \<Rightarrow> port_s_diagnostics \<Rightarrow> port_s_diagnostics" where
  "listenerState started d =
     (let d1 = d\<lparr>listenerStarted := started\<rparr>
      in if reachability d1 = [] then d1\<lparr>reachability := ''unverified''\<rparr> else d1)"

definition accepted :: "port_s_diagnostics \<Rightarrow> port_s_diagnostics" where
  "accepted d = d\<lparr>acceptCount := acceptCount d + 1, reachability := ''observed''\<rparr>"

text \<open>The time is replaced by that of the clock when it is zero.\<close>

definition inboundSIPObserved :: "int \<Rightarrow> int option \<Rightarrow> port_s_diagnostics \<Rightarrow> port_s_diagnostics" where
  "inboundSIPObserved clock at d =
     d\<lparr>lastInboundSIPAt := Some (case at of None \<Rightarrow> clock | Some t \<Rightarrow> t), reachability := ''observed''\<rparr>"

datatype write_error = DeadlineExceeded | TimeoutError | ConnClosed | EndOfFile | OtherWriteError

definition incomingResponseWriteErrorClass :: "write_error option \<Rightarrow> string" where
  "incomingResponseWriteErrorClass err =
     (case err of
        None \<Rightarrow> []
      | Some e \<Rightarrow>
          if e = DeadlineExceeded \<or> e = TimeoutError then ''timeout''
          else if e = ConnClosed \<or> e = EndOfFile then ''connection_closed'' else ''write_failed'')"

definition responseWriteFailed :: "write_error option \<Rightarrow> port_s_diagnostics \<Rightarrow> port_s_diagnostics" where
  "responseWriteFailed err d =
     (if err = None then d else d\<lparr>lastResponseWriteError := incomingResponseWriteErrorClass err\<rparr>)"

definition diagnostics_snapshot :: "port_s_diagnostics option \<Rightarrow> port_s_diagnostics" where
  "diagnostics_snapshot d =
     (case d of
        None \<Rightarrow> \<lparr>listenerStarted = False, acceptCount = 0, lastInboundSIPAt = None, lastResponseWriteError = [],
          reachability = ''unverified''\<rparr>
      | Some d \<Rightarrow> if reachability d = [] then d\<lparr>reachability := ''unverified''\<rparr> else d)"

section \<open>The response lease\<close>

record response_lease =
  lease_pending :: bool
  lease_released :: bool

definition newPortSResponseLease :: response_lease where
  "newPortSResponseLease = \<lparr>lease_pending = False, lease_released = False\<rparr>"

definition release :: "response_lease \<Rightarrow> response_lease" where
  "release l = l\<lparr>lease_released := True\<rparr>"

definition observeResponse :: "int \<Rightarrow> write_error option \<Rightarrow> response_lease \<Rightarrow> response_lease" where
  "observeResponse code err l =
     (if err \<noteq> None \<or> 200 \<le> code then release l
      else if code < 100 then l
      else if lease_released l then l else l\<lparr>lease_pending := True\<rparr>)"

text \<open>Whether \<^verbatim>\<open>waitForFinal\<close> waits at all once the peer has closed its side.\<close>

definition waitForFinal :: "response_lease \<Rightarrow> bool" where
  "waitForFinal l \<longleftrightarrow> lease_pending l \<and> \<not> lease_released l"

section \<open>Health\<close>

record 'e rt_health =
  healthy :: bool
  rt_failed :: bool
  rt_closed :: bool
  failureOnce :: bool
  failureC :: "'e option"
  rt_cancelled :: bool

definition fresh_health :: "'e rt_health" where
  "fresh_health = \<lparr>healthy = True, rt_failed = False, rt_closed = False, failureOnce = False, failureC = None,
     rt_cancelled = False\<rparr>"

text \<open>The channel has room for one failure, and \<^verbatim>\<open>failureOnce\<close> lets one caller in.\<close>

definition rt_fail :: "'e \<Rightarrow> 'e rt_health \<Rightarrow> 'e rt_health" where
  "rt_fail err h =
     (if failureOnce h then h
      else let h1 = h\<lparr>failureOnce := True\<rparr>
      in if rt_closed h then h1
         else h1\<lparr>rt_failed := True, healthy := False, rt_cancelled := True,
           failureC := (case failureC h of None \<Rightarrow> Some err | Some e \<Rightarrow> Some e)\<rparr>)"

definition markDegraded :: "'e rt_health \<Rightarrow> 'e rt_health" where
  "markDegraded h = (if \<not> rt_failed h \<and> \<not> rt_closed h then h\<lparr>healthy := False\<rparr> else h)"

definition markHealthy :: "bool \<Rightarrow> 'e rt_health \<Rightarrow> 'e rt_health" where
  "markHealthy ctx_done h =
     (if ctx_done then h else if \<not> rt_failed h \<and> \<not> rt_closed h then h\<lparr>healthy := True\<rparr> else h)"

definition rt_close :: "'e rt_health \<Rightarrow> 'e rt_health" where
  "rt_close h = h\<lparr>rt_closed := True, healthy := False, rt_cancelled := True\<rparr>"

section \<open>The heartbeat\<close>

datatype heartbeat_error =
    HeartbeatCancelled
  | HeartbeatTimedOut
  | HeartbeatStreamClosed
  | HeartbeatRejected int
  | HeartbeatNotBuilt
  | HeartbeatNotSubscribed
  | HeartbeatNotWritten
  | HeartbeatMissedTwice heartbeat_error heartbeat_error

text \<open>What \<^verbatim>\<open>select\<close> picks; a nil response is \<^term>\<open>Answered None\<close>.\<close>

datatype heartbeat_event = ContextDone | Answered "int option" | StreamClosed | TimerFired

fun awaitOptionsFinalResponse :: "heartbeat_event list \<Rightarrow> (heartbeat_error + int) option" where
  "awaitOptionsFinalResponse [] = None"
| "awaitOptionsFinalResponse (ContextDone # es) = Some (Inl HeartbeatCancelled)"
| "awaitOptionsFinalResponse (StreamClosed # es) = Some (Inl HeartbeatStreamClosed)"
| "awaitOptionsFinalResponse (TimerFired # es) = Some (Inl HeartbeatTimedOut)"
| "awaitOptionsFinalResponse (Answered r # es) =
     (case r of
        None \<Rightarrow> awaitOptionsFinalResponse es
      | Some code \<Rightarrow>
          if 200 \<le> code then Some (if code < 300 then Inr code else Inl (HeartbeatRejected code))
          else awaitOptionsFinalResponse es)"

text \<open>The two probes of a round, whether the context of an explicit request is done before them, and whether the
  context is done after the first, in the wait and after the second.\<close>

record heartbeat_round =
  first_probe :: "heartbeat_error + int"
  second_probe :: "heartbeat_error + int"
  request_done :: bool
  done_first :: bool
  done_waiting :: bool
  done_second :: bool
  runtime_done :: bool

definition confirmOptionsHeartbeat ::
  "heartbeat_round \<Rightarrow> heartbeat_error rt_health \<Rightarrow> (heartbeat_error + int) \<times> heartbeat_error rt_health" where
  "confirmOptionsHeartbeat r h =
     (case first_probe r of
        Inr code \<Rightarrow> (Inr code, h)
      | Inl e \<Rightarrow>
          if done_first r then (Inl e, h)
          else let h1 = markDegraded h
          in if done_waiting r then (Inl HeartbeatCancelled, h1)
             else if done_second r then (Inl HeartbeatCancelled, h1)
             else (case second_probe r of
                     Inl e2 \<Rightarrow> (Inl (HeartbeatMissedTwice e e2), h1)
                   | Inr code \<Rightarrow> (Inr code, markHealthy (runtime_done r) h1)))"

text \<open>An iteration of \<^verbatim>\<open>runOptionsPing\<close>: whether the loop goes on, and the answer to an explicit request.\<close>

definition options_round ::
  "bool \<Rightarrow> heartbeat_round \<Rightarrow> u32 \<times> heartbeat_error rt_health \<Rightarrow>
   bool \<times> (heartbeat_error + int) option \<times> u32 \<times> heartbeat_error rt_health" where
  "options_round requested r s =
     (case s of (cseq, h) \<Rightarrow>
        if requested \<and> request_done r then (True, Some (Inl HeartbeatCancelled), cseq, h)
        else (case confirmOptionsHeartbeat r h of (result, h1) \<Rightarrow>
           if runtime_done r then (False, None, cseq, h1)
           else if requested then
             (case result of
                Inl e \<Rightarrow> (False, Some result, cseq, h1)
              | Inr code \<Rightarrow> (True, Some result, cseq + 1, h1))
           else (case result of
                   Inl e \<Rightarrow> (False, None, cseq, rt_fail e h1)
                 | Inr code \<Rightarrow> (True, None, cseq + 1, h1))))"

fun runOptionsPing ::
  "(bool \<times> heartbeat_round) list \<Rightarrow> u32 \<times> heartbeat_error rt_health \<Rightarrow> u32 \<times> heartbeat_error rt_health" where
  "runOptionsPing [] s = s"
| "runOptionsPing ((requested, r) # rs) s =
     (case options_round requested r s of
        (goes_on, answer, s1) \<Rightarrow> if goes_on then runOptionsPing rs s1 else s1)"

section \<open>The OPTIONS request\<close>

datatype options_error = RouteMissing | RouteInvalid

definition registerSIPLocalPort :: "int \<Rightarrow> ims_config \<Rightarrow> int" where
  "registerSIPLocalPort random cfg =
     (if 0 < CfgLocalPort cfg \<and> CfgLocalPort cfg \<le> 65535 then CfgLocalPort cfg
      else if \<not> registrarHostEqualsLocalIP (PCSCFAddr cfg) (CfgLocalIP cfg) then random else 5060)"

record sip_message =
  msg_method :: string
  msg_uri :: string
  msg_headers :: "(string \<times> string) list"
  msg_body :: bytes
  msg_destination :: string
  msg_transport :: string

definition buildOptionsPing ::
  "(string \<Rightarrow> bool) \<Rightarrow> ims_config \<Rightarrow> int \<Rightarrow> int \<Rightarrow> string \<Rightarrow> string \<Rightarrow> string \<Rightarrow> string \<Rightarrow> u32 \<Rightarrow> options_error + sip_message" where
  "buildOptionsPing parse_uri cfg random client_port tag branch new_id call_id0 cseq0 =
     (let target = TrimSpace (effectiveRouteAddr cfg);
          port = (if client_port \<le> 0 then registerSIPLocalPort random cfg else client_port);
          cseq = (if cseq0 = 0 then 1 else cseq0);
          call_id = (if TrimSpace call_id0 = [] then new_id else call_id0);
          transport = ToUpper (registerTransportName cfg []);
          verify = TrimSpace (SecurityVerify cfg)
      in if target = [] then Inl RouteMissing
         else if \<not> parse_uri (''sip:'' @ target) then Inl RouteInvalid
         else Inr \<lparr>msg_method = ''OPTIONS'', msg_uri = ''sip:'' @ target,
           msg_headers =
             [(''Via'', ''SIP/2.0/'' @ transport @ '' '' @ formatRegisterViaHost (CfgLocalIP cfg) port @ '';branch='' @ branch),
              (''From'', ''<'' @ CfgPublicURI cfg @ ''>;tag='' @ tag),
              (''To'', ''<sip:'' @ target @ ''>''),
              (''Call-ID'', call_id),
              (''CSeq'', dec (unat cseq) @ '' OPTIONS''),
              (''Max-Forwards'', ''70''),
              (''Route'', ''<sip:'' @ effectiveRouteAddr cfg @ '';lr>'')] @
             (if TrimSpace (CfgPublicURI cfg) \<noteq> []
              then [(''P-Preferred-Identity'', ''<'' @ CfgPublicURI cfg @ ''>'')] else []) @
             (if TrimSpace (UserAgent cfg) \<noteq> [] then [(''User-Agent'', UserAgent cfg)] else []) @
             (if verify \<noteq> [] then [(''Security-Verify'', verify)] else []),
           msg_body = [], msg_destination = effectiveTransportAddr cfg, msg_transport = transport\<rparr>)"

section \<open>Probes\<close>

definition sendOptionsPing ::
  "options_error + sip_message \<Rightarrow> bool \<Rightarrow> bool \<Rightarrow> heartbeat_event list \<Rightarrow> (heartbeat_error + int) option" where
  "sendOptionsPing built subscribed put es =
     (case built of
        Inl e \<Rightarrow> Some (Inl HeartbeatNotBuilt)
      | Inr m \<Rightarrow>
          if \<not> subscribed then Some (Inl HeartbeatNotSubscribed)
          else if \<not> put then Some (Inl HeartbeatNotWritten)
          else awaitOptionsFinalResponse es)"

section \<open>Subscriptions to responses\<close>

text \<open>A waiter is the call it waits for, its number and the responses in its channel, which has room for 16.\<close>

record 'r subscriptions =
  waiters :: "(string \<times> u64 \<times> 'r list) list"
  nextWaiter :: u64

definition subscribeResponses :: "string \<Rightarrow> 'r subscriptions \<Rightarrow> u64 option \<times> 'r subscriptions" where
  "subscribeResponses call_id0 s =
     (let call_id = TrimSpace call_id0; i = nextWaiter s + 1
      in if call_id = [] then (None, s)
         else (Some i, s\<lparr>nextWaiter := i, waiters := waiters s @ [(call_id, i, [])]\<rparr>))"

definition unsubscribe :: "string \<Rightarrow> u64 \<Rightarrow> 'r subscriptions \<Rightarrow> 'r subscriptions" where
  "unsubscribe call_id i s = s\<lparr>waiters := filter (\<lambda>(c, k, q). \<not> (c = TrimSpace call_id \<and> k = i)) (waiters s)\<rparr>"

text \<open>\<^verbatim>\<open>sipResponseCallID\<close> reads the header; a full channel loses the response.\<close>

definition sipResponseCallID :: "string option \<Rightarrow> string" where
  "sipResponseCallID value = (case value of None \<Rightarrow> [] | Some v \<Rightarrow> TrimSpace v)"

definition publishResponse :: "string option \<times> 'r \<Rightarrow> 'r subscriptions \<Rightarrow> 'r subscriptions" where
  "publishResponse r s =
     (let call_id = sipResponseCallID (fst r)
      in if call_id = [] then s
         else s\<lparr>waiters := List.map (\<lambda>(c, i, q).
           if c = call_id \<and> length q < 16 then (c, i, q @ [snd r]) else (c, i, q)) (waiters s)\<rparr>)"

text \<open>The raw responses: a full channel loses its oldest element.\<close>

definition enqueueParsedResponse :: "'d \<Rightarrow> 'd list \<Rightarrow> 'd list" where
  "enqueueParsedResponse d q =
     (if length q < 32 then q @ [d]
      else let q1 = drop 1 q in if length q1 < 32 then q1 @ [d] else q1)"

section \<open>Inbound requests\<close>

datatype dispatch_action =
    Answer int
  | HandleMessage
  | NotifyRequest
  | ToCalls

text \<open>Who is there: the observer of requests and the handler of calls.\<close>

definition dispatchIncomingRequestWithResponder :: "bool \<Rightarrow> bool \<Rightarrow> string \<Rightarrow> dispatch_action list" where
  "dispatchIncomingRequestWithResponder has_observer has_calls name =
     (let verb = ToUpper name
      in if verb = ''MESSAGE'' then [Answer 200, HandleMessage]
         else if verb = ''OPTIONS'' then Answer 200 # (if has_observer then [NotifyRequest] else [])
         else if verb = ''ACK'' then (if has_calls then [ToCalls] else [])
         else if verb \<in> set [''INVITE'', ''PRACK'', ''UPDATE'', ''CANCEL'', ''BYE'', ''INFO''] then
           (if has_calls then [ToCalls]
            else if EqualFold name ''INVITE'' then [Answer 480] else [Answer 481])
         else [Answer 405])"

text \<open>The responder of a request from an inbound connection: the lease follows the responses to an INVITE.\<close>

definition respond_on ::
  "bool \<Rightarrow> string \<Rightarrow> int \<Rightarrow> write_error option \<Rightarrow> response_lease \<times> port_s_diagnostics \<Rightarrow> response_lease \<times> port_s_diagnostics" where
  "respond_on fromPortS name code err s =
     (case s of (l, d) \<Rightarrow>
        (if fromPortS \<and> EqualFold name ''INVITE'' then observeResponse code err l else l,
         if fromPortS then responseWriteFailed err d else d))"

text \<open>A parsed message: a request with the outcome of writing the answer of the runtime, or a response.\<close>

datatype 'r sip_in = InRequest string "write_error option" | InResponse "string option" 'r

record 'r port_s =
  ps_lease :: response_lease
  ps_diagnostics :: port_s_diagnostics
  ps_subscriptions :: "'r subscriptions"
  ps_queue :: "'r list"

text \<open>What the code has besides the message: the side it came from, the observer and the handler of calls.\<close>

record receiving =
  from_port_s :: bool
  with_observer :: bool
  with_calls :: bool

definition dispatchIncomingRequest ::
  "receiving \<Rightarrow> string \<Rightarrow> write_error option \<Rightarrow> 'r port_s \<Rightarrow> dispatch_action list \<times> 'r port_s" where
  "dispatchIncomingRequest rc name err s =
     (let actions = dispatchIncomingRequestWithResponder (with_observer rc) (with_calls rc) name;
          (l, d) = fold (\<lambda>a. case a of Answer code \<Rightarrow> respond_on (from_port_s rc) name code err | _ \<Rightarrow> id) actions
            (ps_lease s, ps_diagnostics s)
      in (actions, s\<lparr>ps_lease := l, ps_diagnostics := d\<rparr>))"

definition deliver_message :: "receiving \<Rightarrow> int \<Rightarrow> 'r sip_in \<Rightarrow> 'r port_s \<Rightarrow> dispatch_action list \<times> 'r port_s" where
  "deliver_message rc clock m s0 =
     (let s = (if from_port_s rc then s0\<lparr>ps_diagnostics := inboundSIPObserved clock (Some clock) (ps_diagnostics s0)\<rparr> else s0)
      in case m of
           InRequest name err \<Rightarrow> dispatchIncomingRequest rc name err s
         | InResponse call_id r \<Rightarrow>
             ([], s\<lparr>ps_subscriptions := publishResponse (call_id, r) (ps_subscriptions s),
               ps_queue := enqueueParsedResponse r (ps_queue s)\<rparr>))"

fun deliverInboundSIPFrom ::
  "receiving \<Rightarrow> int \<Rightarrow> 'r sip_in list \<Rightarrow> 'r port_s \<Rightarrow> dispatch_action list \<times> 'r port_s" where
  "deliverInboundSIPFrom rc clock [] s = ([], s)"
| "deliverInboundSIPFrom rc clock (m # ms) s =
     (case deliver_message rc clock m s of (a, s1) \<Rightarrow>
       case deliverInboundSIPFrom rc clock ms s1 of (b, s2) \<Rightarrow> (a @ b, s2))"

section \<open>The workers\<close>

text \<open>What happens to an inbound connection: a read with its messages and how it ended, a response of the calls,
  and the end of the runtime.\<close>

datatype read_end = AtEOF | ReadBroken

datatype 'r port_s_event =
    PortSRead int "'r sip_in list" "read_end option"
  | CallResponse string int "write_error option"
  | RuntimeEnds

text \<open>The actions, and whether the connection is kept for a final response after the peer closed its side.\<close>

fun drainInboundPortS ::
  "receiving \<Rightarrow> 'r port_s_event list \<Rightarrow> 'r port_s \<Rightarrow> dispatch_action list \<times> bool \<times> 'r port_s" where
  "drainInboundPortS rc [] s = ([], False, s)"
| "drainInboundPortS rc (RuntimeEnds # es) s = ([], False, s\<lparr>ps_lease := release (ps_lease s)\<rparr>)"
| "drainInboundPortS rc (CallResponse name code err # es) s =
     (let (l, d) = respond_on (from_port_s rc) name code err (ps_lease s, ps_diagnostics s)
      in drainInboundPortS rc es (s\<lparr>ps_lease := l, ps_diagnostics := d\<rparr>))"
| "drainInboundPortS rc (PortSRead clock ms e # es) s =
     (let (a, s1) = deliverInboundSIPFrom rc clock ms s
      in case e of
           Some how \<Rightarrow>
             (a, how = AtEOF \<and> waitForFinal (ps_lease s1), s1\<lparr>ps_lease := release (ps_lease s1)\<rparr>)
         | None \<Rightarrow> (let (b, kept, s2) = drainInboundPortS rc es s1 in (a @ b, kept, s2)))"

text \<open>The two workers of the protected connection; they end with the first error.\<close>

datatype 'e rt_error = WriteLost 'e | ReadEnded 'e | HeartbeatLost heartbeat_error

fun runTCPWriteChannel :: "'e option list \<Rightarrow> 'e rt_error rt_health \<Rightarrow> nat \<times> 'e rt_error rt_health" where
  "runTCPWriteChannel [] h = (0, h)"
| "runTCPWriteChannel (result # results) h =
     (case result of
        Some e \<Rightarrow> (1, rt_fail (WriteLost e) h)
      | None \<Rightarrow> (case runTCPWriteChannel results h of (n, h1) \<Rightarrow> (n + 1, h1)))"

text \<open>A read: its messages, its error, and whether the context is done by then.\<close>

fun runPortCReadLoop ::
  "receiving \<Rightarrow> (int \<times> 'r sip_in list \<times> 'e option \<times> bool) list \<Rightarrow> 'r port_s \<times> 'e rt_error rt_health \<Rightarrow>
   dispatch_action list \<times> 'r port_s \<times> 'e rt_error rt_health" where
  "runPortCReadLoop rc [] sh = ([], sh)"
| "runPortCReadLoop rc ((clock, ms, err, ctx_done) # reads) sh =
     (let (s, h) = sh; (a, s1) = deliverInboundSIPFrom (rc\<lparr>from_port_s := False\<rparr>) clock ms s
      in case err of
           Some e \<Rightarrow> (a, s1, if ctx_done then h else rt_fail (ReadEnded e) h)
         | None \<Rightarrow> (let (b, sh1) = runPortCReadLoop rc reads (s1, h) in (a @ b, sh1)))"

section \<open>Nothing revives a failed connection\<close>

datatype 'e health_op = Fails 'e | Degrades | Recovers bool | Closes

fun health_step :: "'e health_op \<Rightarrow> 'e rt_health \<Rightarrow> 'e rt_health" where
  "health_step (Fails e) h = rt_fail e h"
| "health_step Degrades h = markDegraded h"
| "health_step (Recovers d) h = markHealthy d h"
| "health_step Closes h = rt_close h"

lemmas health_defs = rt_fail_def markDegraded_def markHealthy_def rt_close_def Let_def

definition health_ok :: "'e rt_health \<Rightarrow> bool" where
  "health_ok h \<longleftrightarrow> (rt_failed h \<or> rt_closed h \<longrightarrow> \<not> healthy h \<and> rt_cancelled h) \<and> (rt_failed h \<longleftrightarrow> failureC h \<noteq> None) \<and>
     (rt_failed h \<longrightarrow> failureOnce h)"

lemma health_ok_step: "health_ok h \<Longrightarrow> health_ok (health_step op h)"
  by (cases op) (auto simp: health_ok_def health_defs split: option.split)

lemma health_ok_run: "health_ok h \<Longrightarrow> health_ok (fold health_step ops h)"
  by (induction ops arbitrary: h) (simp_all add: health_ok_step)

lemma health_final_step:
  "rt_failed h \<or> rt_closed h \<Longrightarrow> health_ok h \<Longrightarrow>
   failureC (health_step op h) = failureC h \<and> (rt_failed (health_step op h) \<or> rt_closed (health_step op h))"
  by (cases op) (auto simp: health_ok_def health_defs split: option.split)

lemma health_final: "rt_failed h \<or> rt_closed h \<Longrightarrow> health_ok h \<Longrightarrow>
  failureC (fold health_step ops h) = failureC h \<and> \<not> healthy (fold health_step ops h)"
proof (induction ops arbitrary: h)
  case Nil
  then show ?case by (auto simp: health_ok_def)
next
  case (Cons op ops)
  note s = health_final_step [OF Cons.prems, of op]
  show ?case using Cons.IH [OF _ health_ok_step [OF Cons.prems(2)], of op] s by simp
qed


section \<open>What the heartbeat decides\<close>

definition probe_answered :: "heartbeat_error + int \<Rightarrow> bool" where
  "probe_answered r = (case r of Inl _ \<Rightarrow> False | Inr _ \<Rightarrow> True)"

definition periodic :: "heartbeat_round \<Rightarrow> bool" where
  "periodic r \<longleftrightarrow> \<not> done_first r \<and> \<not> done_waiting r \<and> \<not> done_second r \<and> \<not> runtime_done r"

lemma healthy_round:
  assumes "periodic r" "healthy h" "\<not> rt_failed h" "\<not> rt_closed h" "probe_answered (first_probe r) \<or> probe_answered (second_probe r)"
  shows "options_round False r (n, h) = (True, None, n + 1, h)"
  using assms
  by (auto simp: periodic_def probe_answered_def options_round_def confirmOptionsHeartbeat_def Let_def markDegraded_def markHealthy_def
      split: sum.splits)

lemma missed_round:
  assumes "periodic r" "\<not> rt_failed h" "\<not> rt_closed h" "\<not> failureOnce h"
    and "first_probe r = Inl e1" "second_probe r = Inl e2"
  shows "\<exists>h'. options_round False r (n, h) = (False, None, n, h') \<and> rt_failed h' \<and> \<not> healthy h' \<and>
    (failureC h = None \<longrightarrow> failureC h' = Some (HeartbeatMissedTwice e1 e2))"
  using assms
  by (auto simp: periodic_def options_round_def confirmOptionsHeartbeat_def Let_def markDegraded_def rt_fail_def)

text \<open>C32: As long as every round of the periodic heartbeat gets an answer to one of its two probes, the
  connection stays healthy and every round has a number of its own; the first round without any answer ends
  the heartbeat and fails the connection with the errors of its two probes.\<close>

theorem heartbeat_decides:
  assumes "list_all periodic (rs @ r # rs')" "list_all (\<lambda>r. probe_answered (first_probe r) \<or> probe_answered (second_probe r)) rs"
    and "first_probe r = Inl e1" "second_probe r = Inl e2"
  shows "runOptionsPing (List.map (Pair False) rs) (n, fresh_health) = (n + of_nat (length rs), fresh_health) \<and>
    (case runOptionsPing (List.map (Pair False) (rs @ r # rs')) (n, fresh_health) of (n', h) \<Rightarrow>
       n' = n + of_nat (length rs) \<and> rt_failed h \<and> \<not> healthy h \<and> failureC h = Some (HeartbeatMissedTwice e1 e2))"
proof -
  have f: "healthy fresh_health" "\<not> rt_failed fresh_health" "\<not> rt_closed fresh_health" "\<not> failureOnce fresh_health"
    "failureC fresh_health = None"
    by (simp_all add: fresh_health_def)
  have run: "runOptionsPing (List.map (Pair False) (xs @ ys)) (k, fresh_health) =
      runOptionsPing (List.map (Pair False) ys) (k + of_nat (length xs), fresh_health)"
    if "list_all periodic xs" "list_all (\<lambda>r. probe_answered (first_probe r) \<or> probe_answered (second_probe r)) xs" for xs ys k
    using that by (induction xs arbitrary: k) (simp_all add: healthy_round f add.assoc)
  have p: "list_all periodic rs" "periodic r" using assms(1) by simp_all
  obtain h where h: "options_round False r (n + of_nat (length rs), fresh_health) = (False, None, n + of_nat (length rs), h)"
    "rt_failed h" "\<not> healthy h" "failureC h = Some (HeartbeatMissedTwice e1 e2)"
    using missed_round [OF p(2) f(2-4) assms(3,4)] f(5) by blast
  show ?thesis
    using run [OF p(1) assms(2), of "[]"] run [OF p(1) assms(2), of "r # rs'"] h by simp
qed

definition sample_probe :: "bool \<Rightarrow> bool \<Rightarrow> heartbeat_round" where
  "sample_probe a b = \<lparr>first_probe = (if a then Inr 200 else Inl HeartbeatTimedOut),
     second_probe = (if b then Inr 200 else Inl HeartbeatTimedOut), request_done = False, done_first = False, done_waiting = False,
     done_second = False, runtime_done = False\<rparr>"

theorem heartbeat_decides_witness:
  "runOptionsPing (List.map (Pair False) [sample_probe True False, sample_probe False True]) (5, fresh_health) = (7, fresh_health)"
proof -
  have "list_all periodic ([sample_probe True False, sample_probe False True] @ sample_probe False False # [])"
    "list_all (\<lambda>r. probe_answered (first_probe r) \<or> probe_answered (second_probe r)) [sample_probe True False, sample_probe False True]"
    "first_probe (sample_probe False False) = Inl HeartbeatTimedOut" "second_probe (sample_probe False False) = Inl HeartbeatTimedOut"
    by (simp_all add: sample_probe_def periodic_def probe_answered_def)
  from heartbeat_decides [OF this, of 5] show ?thesis by simp
qed

section \<open>Responses reach their callers\<close>

lemma publish_waiters:
  "waiters (fold publishResponse rs s) = List.map (\<lambda>(c, i, q). (c, i,
     if length q \<le> 16 then take 16 (q @ List.map snd (filter (\<lambda>r. sipResponseCallID (fst r) = c \<and> c \<noteq> []) rs)) else q)) (waiters s)"
proof (induction rs arbitrary: s)
  case Nil
  have "take 16 q = q" if "length q \<le> 16" for q :: "'a list" using that by simp
  then show ?case by (auto intro!: map_idI [symmetric])
next
  case (Cons r rs)
  show ?case
    unfolding fold.simps comp_def Cons.IH
    by (auto simp: publishResponse_def Let_def split: if_splits)
qed

text \<open>C33: A response reaches the subscribers of its call and nobody else: a new subscriber finds, in the order in
  which they came, the first 16 responses of its call that came after it subscribed, and every other
  subscriber keeps what it had.\<close>

theorem subscriber_gets_its_responses:
  "case subscribeResponses call_id s of
     (None, s1) \<Rightarrow> TrimSpace call_id = [] \<and> s1 = s
   | (Some i, s1) \<Rightarrow> waiters (fold publishResponse rs s1) = waiters (fold publishResponse rs s) @
       [(TrimSpace call_id, i, take 16 (List.map snd (filter (\<lambda>r. sipResponseCallID (fst r) = TrimSpace call_id) rs)))]"
  by (simp add: subscribeResponses_def Let_def publish_waiters)

text \<open>The queue of raw responses holds the newest 32.\<close>

lemma inbound_queue_newest:
  "length q \<le> 32 \<Longrightarrow> fold enqueueParsedResponse ds q = drop (length q + length ds - 32) (q @ ds)"
proof (induction ds arbitrary: q)
  case (Cons d ds)
  show ?case
  proof (cases "length q < 32")
    case True
    then show ?thesis using Cons.IH [of "q @ [d]"] by (simp add: enqueueParsedResponse_def del: drop_append)
  next
    case False
    then have q: "length q = 32" using Cons.prems by simp
    then obtain x xs where x: "q = x # xs" by (cases q) auto
    then have "length xs = 31" using q by simp
    then show ?thesis using Cons.IH [of "xs @ [d]"] x by (simp add: enqueueParsedResponse_def Let_def del: drop_append)
  qed
qed simp

section \<open>Every request is answered\<close>

text \<open>A request other than ACK is answered by the runtime or handed to the calls, exactly one of the two and
  once; ACK is never answered.\<close>

lemma request_answered_once:
  "let actions = dispatchIncomingRequestWithResponder has_observer has_calls name;
       answers = filter (\<lambda>a. case a of Answer _ \<Rightarrow> True | ToCalls \<Rightarrow> True | _ \<Rightarrow> False) actions
   in if ToUpper name = ''ACK'' then list_all (\<lambda>a. a = ToCalls) answers else length answers = 1"
  by (simp add: dispatchIncomingRequestWithResponder_def Let_def)

text \<open>The connection is kept open exactly while an INVITE was answered provisionally and not yet finally.\<close>

lemma lease_follows_invite:
  "waitForFinal (fold (\<lambda>r. observeResponse (fst r) (snd r)) responses newPortSResponseLease) \<longleftrightarrow>
   list_ex (\<lambda>r. 100 \<le> fst r) responses \<and> list_all (\<lambda>r. snd r = None \<and> fst r < 200) responses"
proof -
  have "waitForFinal (fold (\<lambda>r. observeResponse (fst r) (snd r)) responses l) \<longleftrightarrow>
      \<not> lease_released l \<and> (lease_pending l \<or> list_ex (\<lambda>r. 100 \<le> fst r) responses) \<and>
      list_all (\<lambda>r. snd r = None \<and> fst r < 200) responses" for l
  proof (induction responses arbitrary: l)
    case (Cons r responses)
    show ?case
    proof (cases "snd r \<noteq> None \<or> 200 \<le> fst r")
      case True
      then show ?thesis using Cons.IH [of "release l"] by (auto simp: observeResponse_def release_def)
    next
      case False
      then show ?thesis using Cons.IH by (simp add: observeResponse_def)
    qed
  qed (auto simp: waitForFinal_def)
  then show ?thesis by (simp add: newPortSResponseLease_def)
qed

text \<open>The responses to INVITE requests in what happens to an inbound connection: those of the runtime itself and
  those of the calls.\<close>

definition own_answers :: "receiving \<Rightarrow> 'r sip_in \<Rightarrow> (int \<times> write_error option) list" where
  "own_answers rc m =
     (case m of
        InRequest name err \<Rightarrow>
          if EqualFold name ''INVITE'' then
            concat (List.map (\<lambda>a. case a of Answer code \<Rightarrow> [(code, err)] | _ \<Rightarrow> [])
              (dispatchIncomingRequestWithResponder (with_observer rc) (with_calls rc) name))
          else []
      | InResponse c r \<Rightarrow> [])"

fun invite_responses :: "receiving \<Rightarrow> 'r port_s_event list \<Rightarrow> (int \<times> write_error option) list" where
  "invite_responses rc [] = []"
| "invite_responses rc (PortSRead clock ms e # es) = concat (List.map (own_answers rc) ms) @ invite_responses rc es"
| "invite_responses rc (CallResponse name code err # es) =
     (if EqualFold name ''INVITE'' then [(code, err)] else []) @ invite_responses rc es"
| "invite_responses rc (RuntimeEnds # es) = invite_responses rc es"

text \<open>Where the requests of a connection go.\<close>

definition actions_of :: "receiving \<Rightarrow> 'r sip_in list \<Rightarrow> dispatch_action list" where
  "actions_of rc ms = concat (List.map (\<lambda>m. case m of
     InRequest name err \<Rightarrow> dispatchIncomingRequestWithResponder (with_observer rc) (with_calls rc) name
   | InResponse c r \<Rightarrow> []) ms)"

fun messages_of :: "'r port_s_event list \<Rightarrow> 'r sip_in list" where
  "messages_of [] = []"
| "messages_of (PortSRead clock ms e # es) = ms @ messages_of es"
| "messages_of (e # es) = messages_of es"

definition observe_all :: "(int \<times> write_error option) list \<Rightarrow> response_lease \<Rightarrow> response_lease" where
  "observe_all rs = fold (\<lambda>r. observeResponse (fst r) (snd r)) rs"

lemma observe_all_simps [simp]:
  "observe_all [] l = l" "observe_all ((c, e) # rs) l = observe_all rs (observeResponse c e l)"
  "observe_all (xs @ ys) l = observe_all ys (observe_all xs l)"
  by (simp_all add: observe_all_def)

lemma answers_observed:
  "fst (fold (\<lambda>a. case a of Answer code \<Rightarrow> respond_on True name code err | _ \<Rightarrow> id) actions (l, d)) =
   observe_all (if EqualFold name ''INVITE''
     then concat (List.map (\<lambda>a. case a of Answer code \<Rightarrow> [(code, err)] | _ \<Rightarrow> []) actions) else []) l"
  by (induction actions arbitrary: l d) (auto simp: respond_on_def split: dispatch_action.splits)

lemma message_observed:
  assumes "from_port_s rc"
  shows "fst (deliver_message rc clock m s) = actions_of rc [m]"
    and "ps_lease (snd (deliver_message rc clock m s)) = observe_all (own_answers rc m) (ps_lease s)"
  using assms by (cases m;
    simp add: deliver_message_def dispatchIncomingRequest_def actions_of_def own_answers_def Let_def split_beta answers_observed)+

lemma messages_observed:
  assumes "from_port_s rc"
  shows "fst (deliverInboundSIPFrom rc clock ms s) = actions_of rc ms \<and>
    ps_lease (snd (deliverInboundSIPFrom rc clock ms s)) = observe_all (concat (List.map (own_answers rc) ms)) (ps_lease s)"
proof (induction ms arbitrary: s)
  case Nil
  then show ?case by (simp add: actions_of_def)
next
  case (Cons m ms)
  obtain a s1 where m: "deliver_message rc clock m s = (a, s1)" by (cases "deliver_message rc clock m s")
  obtain b s2 where ms: "deliverInboundSIPFrom rc clock ms s1 = (b, s2)" by (cases "deliverInboundSIPFrom rc clock ms s1")
  show ?case using message_observed [OF assms, of clock m s] Cons.IH [of s1] m ms by (simp add: actions_of_def)
qed

definition reads_on :: "'r port_s_event \<Rightarrow> bool" where
  "reads_on e = (case e of PortSRead clock ms how \<Rightarrow> how = None | CallResponse name code err \<Rightarrow> True | RuntimeEnds \<Rightarrow> False)"

lemma respond_lease:
  "fst (respond_on True name code err (l, d)) = observe_all (if EqualFold name ''INVITE'' then [(code, err)] else []) l"
  by (simp add: respond_on_def)

lemma drained:
  assumes "from_port_s rc" "list_all reads_on es"
  shows "case drainInboundPortS rc (es @ [PortSRead clock ms (Some how)]) s of (actions, kept, s') \<Rightarrow>
    actions = actions_of rc (messages_of es @ ms) \<and>
    (kept \<longleftrightarrow> how = AtEOF \<and> waitForFinal (observe_all (invite_responses rc (es @ [PortSRead clock ms (Some how)])) (ps_lease s)))"
  using assms(2)
proof (induction es arbitrary: s)
  case Nil
  then show ?case using messages_observed [OF assms(1), of clock ms s] by (simp add: split_beta)
next
  case (Cons e es)
  have IH: "list_all reads_on es" using Cons.prems by simp
  show ?case
  proof (cases e)
    case (PortSRead c m h)
    then have h: "h = None" using Cons.prems by (simp add: reads_on_def)
    obtain a s1 where d: "deliverInboundSIPFrom rc c m s = (a, s1)" by (cases "deliverInboundSIPFrom rc c m s")
    have "a = actions_of rc m" "ps_lease s1 = observe_all (concat (List.map (own_answers rc) m)) (ps_lease s)"
      using messages_observed [OF assms(1), of c m s] d by simp_all
    then show ?thesis using Cons.IH [OF IH, of s1] by (auto simp: PortSRead h d actions_of_def split: prod.splits)
  next
    case (CallResponse name code err)
    obtain l d where r: "respond_on True name code err (ps_lease s, ps_diagnostics s) = (l, d)" by fastforce
    have "l = observe_all (if EqualFold name ''INVITE'' then [(code, err)] else []) (ps_lease s)"
      using respond_lease [of name code err "ps_lease s" "ps_diagnostics s"] r by simp
    then show ?thesis using Cons.IH [OF IH, of "s\<lparr>ps_lease := l, ps_diagnostics := d\<rparr>"] assms(1) r
      by (simp add: CallResponse)
  next
    case RuntimeEnds
    then show ?thesis using Cons.prems by (simp add: reads_on_def)
  qed
qed



end
