(* ===== verification/Go_Encoding.thy ===== *)
theory Go_Encoding
  imports Go_Strings
begin

text \<open>
  The encodings of Go's standard library that the SMS code uses: \<^verbatim>\<open>encoding/hex\<close>,
  \<^verbatim>\<open>unicode/utf16\<close>, the validation and decoding of UTF-8 of \<^verbatim>\<open>unicode/utf8\<close>, and the semi-octet
  digits shared by the relay and the transfer layer.

  A text is the list of its Unicode code points.  The lemmas show that decoding inverts encoding.
\<close>

type_synonym runes = "nat list"

section \<open>Hexadecimal\<close>

definition hex_char :: "nat \<Rightarrow> char" where
  "hex_char d = (if d < 10 then char_of (48 + d) else char_of (87 + d))"

fun EncodeToString :: "bytes \<Rightarrow> string" where
  "EncodeToString [] = []"
| "EncodeToString (b # bs) = hex_char (unat b div 16) # hex_char (unat b mod 16) # EncodeToString bs"

text \<open>\<^term>\<open>None\<close> stands for the errors of \<^verbatim>\<open>hex.DecodeString\<close>: an odd length or an invalid byte.\<close>

fun DecodeString :: "string \<Rightarrow> bytes option" where
  "DecodeString [] = Some []"
| "DecodeString [c] = None"
| "DecodeString (c # d # cs) =
     (case (digit_val 16 c, digit_val 16 d, DecodeString cs) of
        (Some x, Some y, Some bs) \<Rightarrow> Some (of_nat (16 * x + y) # bs)
      | _ \<Rightarrow> None)"

lemma less_16_cases: "(d::nat) < 16 \<Longrightarrow> d < 10 \<or> d = 10 \<or> d = 11 \<or> d = 12 \<or> d = 13 \<or> d = 14 \<or> d = 15"
  by linarith

lemma digit_val_hex: "d < 16 \<Longrightarrow> digit_val 16 (hex_char d) = Some d"
  "d < 16 \<Longrightarrow> digit_val 16 (upper_char (hex_char d)) = Some d"
  "d < 16 \<Longrightarrow> \<not> is_space (upper_char (hex_char d))"
  by (auto simp: hex_char_def digit_val_def upper_char_def is_space_def Let_def dest!: less_16_cases)

lemma hex_no_space: "d < 16 \<Longrightarrow> \<not> is_space (hex_char d)"
  by (auto simp: hex_char_def is_space_def Let_def dest!: less_16_cases)

lemma byte_nibbles: "of_nat (16 * (unat (b :: byte) div 16) + unat b mod 16) = b"
  by simp

lemma Decode_Encode: "DecodeString (EncodeToString bs) = Some bs"
  "DecodeString (ToUpper (EncodeToString bs)) = Some bs"
proof -
  have n: "unat (b :: byte) div 16 < 16" for b using byte_less_256 [of b] by (simp add: less_mult_imp_div_less)
  show "DecodeString (EncodeToString bs) = Some bs"
    by (induction bs) (simp_all add: digit_val_hex n byte_nibbles del: of_nat_add of_nat_mult)
  show "DecodeString (ToUpper (EncodeToString bs)) = Some bs"
    by (induction bs) (simp_all add: ToUpper_def digit_val_hex n byte_nibbles del: of_nat_add of_nat_mult)
qed

lemma upper_char_idem [simp]: "upper_char (upper_char c) = upper_char c"
proof (cases "97 \<le> (of_char c :: nat) \<and> (of_char c :: nat) \<le> 122")
  case True
  then have "((of_char c :: nat) - 32) mod 256 = of_char c - 32" by (intro mod_less) linarith
  then show ?thesis using True by (auto simp: upper_char_def Let_def)
next
  case False
  then have "upper_char c = c" by (auto simp: upper_char_def Let_def)
  then show ?thesis by simp
qed

lemma ToUpper_idem [simp]: "ToUpper (ToUpper s) = ToUpper s"
  by (simp add: ToUpper_def)

lemma Encode_no_space: "c \<in> set (ToUpper (EncodeToString bs)) \<Longrightarrow> \<not> is_space c"
proof -
  have n: "unat (b :: byte) div 16 < 16" for b using byte_less_256 [of b] by (simp add: less_mult_imp_div_less)
  show "c \<in> set (ToUpper (EncodeToString bs)) \<Longrightarrow> \<not> is_space c"
    by (induction bs) (auto simp: ToUpper_def digit_val_hex n)
qed

lemma TrimSpace_hex: "TrimSpace (ToUpper (EncodeToString bs)) = ToUpper (EncodeToString bs)"
  "TrimSpace (EncodeToString bs) = EncodeToString bs"
proof -
  show "TrimSpace (ToUpper (EncodeToString bs)) = ToUpper (EncodeToString bs)"
    unfolding TrimSpace_def by (rule trim_by_none) (use Encode_no_space in blast)
  have "unat (b :: byte) div 16 < 16" for b using byte_less_256 [of b] by (simp add: less_mult_imp_div_less)
  then have "c \<in> set (EncodeToString bs) \<Longrightarrow> \<not> is_space c" for c
    by (induction bs) (auto simp: hex_no_space)
  then show "TrimSpace (EncodeToString bs) = EncodeToString bs"
    unfolding TrimSpace_def by (intro trim_by_none) blast
qed

lemma length_EncodeToString [simp]: "length (EncodeToString bs) = 2 * length bs"
  by (induction bs) simp_all

section \<open>UTF-16\<close>

text \<open>The code points a valid text consists of.\<close>

definition scalar :: "nat \<Rightarrow> bool" where
  "scalar r \<longleftrightarrow> r < 0xd800 \<or> (0xe000 \<le> r \<and> r \<le> 0x10ffff)"

definition high_surrogate :: "u16 \<Rightarrow> bool" where
  "high_surrogate u \<longleftrightarrow> 0xd800 \<le> unat u \<and> unat u < 0xdc00"

definition low_surrogate :: "u16 \<Rightarrow> bool" where
  "low_surrogate u \<longleftrightarrow> 0xdc00 \<le> unat u \<and> unat u < 0xe000"

definition utf16_units :: "nat \<Rightarrow> u16 list" where
  "utf16_units r =
     (if r < 0xd800 \<or> (0xe000 \<le> r \<and> r < 0x10000) then [of_nat r]
      else if 0x10000 \<le> r \<and> r \<le> 0x10ffff then
        [of_nat (0xd800 + (r - 0x10000) div 0x400), of_nat (0xdc00 + (r - 0x10000) mod 0x400)]
      else [0xfffd])"

definition utf16_Encode :: "runes \<Rightarrow> u16 list" where
  "utf16_Encode msg = concat (map utf16_units msg)"

fun utf16_Decode :: "u16 list \<Rightarrow> runes" where
  "utf16_Decode [] = []"
| "utf16_Decode (u # us) =
     (if \<not> high_surrogate u \<and> \<not> low_surrogate u then unat u # utf16_Decode us
      else case us of
        [] \<Rightarrow> [0xfffd]
      | v # vs \<Rightarrow>
          if high_surrogate u \<and> low_surrogate v
          then (0x10000 + (unat u - 0xd800) * 0x400 + (unat v - 0xdc00)) # utf16_Decode vs
          else 0xfffd # utf16_Decode us)"

lemma unat_of_nat_16: "n < 65536 \<Longrightarrow> unat (of_nat n :: u16) = n"
  by (simp add: unat_of_nat take_bit_nat_eq_self_iff)

lemma scalar_units:
  assumes "scalar r"
  obtains (one) u where "utf16_units r = [u]" "\<not> high_surrogate u" "\<not> low_surrogate u" "unat u = r"
  | (two) u v where "utf16_units r = [u, v]" "high_surrogate u" "low_surrogate v" "\<not> low_surrogate u"
      "0x10000 + (unat u - 0xd800) * 0x400 + (unat v - 0xdc00) = r"
proof (cases "r < 0x10000")
  case True
  then have u: "unat (of_nat r :: u16) = r" by (simp add: unat_of_nat_16)
  have "r < 0xd800 \<or> (0xe000 \<le> r \<and> r < 0x10000)" using assms True by (auto simp: scalar_def)
  then show thesis
    using u by (intro one [of "of_nat r"]) (auto simp: utf16_units_def high_surrogate_def low_surrogate_def)
next
  case False
  define q where "q = r - 0x10000"
  have q: "r = 0x10000 + q" "q < 0x100000" using False assms by (auto simp: q_def scalar_def)
  have d: "q div 0x400 < 0x400" using q(2) by (simp add: less_mult_imp_div_less)
  have u: "unat (of_nat (0xd800 + q div 0x400) :: u16) = 0xd800 + q div 0x400"
    "unat (of_nat (0xdc00 + q mod 0x400) :: u16) = 0xdc00 + q mod 0x400"
  proof -
    have "0xd800 + q div 0x400 < 65536" using d by linarith
    then show "unat (of_nat (0xd800 + q div 0x400) :: u16) = 0xd800 + q div 0x400" by (rule unat_of_nat_16)
    have "q mod 0x400 < 0x400" by simp
    then have "0xdc00 + q mod 0x400 < 65536" by linarith
    then show "unat (of_nat (0xdc00 + q mod 0x400) :: u16) = 0xdc00 + q mod 0x400" by (rule unat_of_nat_16)
  qed
  have m: "q mod 0x400 < 0x400" by simp
  show thesis
  proof (rule two)
    show "utf16_units r = [of_nat (0xd800 + q div 0x400), of_nat (0xdc00 + q mod 0x400)]"
      using q by (simp add: utf16_units_def)
    show "high_surrogate (of_nat (0xd800 + q div 0x400))" "low_surrogate (of_nat (0xdc00 + q mod 0x400))"
      "\<not> low_surrogate (of_nat (0xd800 + q div 0x400))"
      unfolding high_surrogate_def low_surrogate_def u using d m by linarith+
    show "0x10000 + (unat (of_nat (0xd800 + q div 0x400) :: u16) - 0xd800) * 0x400 +
        (unat (of_nat (0xdc00 + q mod 0x400) :: u16) - 0xdc00) = r"
      unfolding u q(1) by simp
  qed
qed

lemma utf16_roundtrip_append:
  "list_all scalar msg \<Longrightarrow> utf16_Decode (utf16_Encode msg @ us) = msg @ utf16_Decode us"
proof (induction msg)
  case (Cons r msg)
  then have "scalar r" by simp
  then show ?case
    by (cases rule: scalar_units) (use Cons in \<open>simp_all add: utf16_Encode_def\<close>)
qed (simp add: utf16_Encode_def)

lemma utf16_roundtrip: "list_all scalar msg \<Longrightarrow> utf16_Decode (utf16_Encode msg) = msg"
  using utf16_roundtrip_append [of msg "[]"] by simp

section \<open>UTF-8\<close>

definition continuation :: "byte \<Rightarrow> bool" where
  "continuation b \<longleftrightarrow> 0x80 \<le> unat b \<and> unat b < 0xc0"

text \<open>The code points of a valid UTF-8 string, \<^term>\<open>None\<close> when \<^verbatim>\<open>utf8.Valid\<close> rejects it: overlong
  forms, surrogates and values beyond the last code point are invalid.\<close>

definition utf8_put :: "nat \<Rightarrow> runes option \<Rightarrow> runes option" where
  "utf8_put r rest = (if scalar r then map_option (\<lambda>rs. r # rs) rest else None)"

fun utf8_decode :: "bytes \<Rightarrow> runes option" where
  "utf8_decode [] = Some []"
| "utf8_decode (a # bs) =
     (if unat a < 0x80 then map_option (\<lambda>rs. unat a # rs) (utf8_decode bs)
      else if unat a < 0xc0 then None
      else case bs of [] \<Rightarrow> None | b # cs \<Rightarrow>
        if \<not> continuation b then None
        else if unat a < 0xe0 then
          (let r = (unat a - 0xc0) * 0x40 + (unat b - 0x80)
           in if r < 0x80 then None else utf8_put r (utf8_decode cs))
        else case cs of [] \<Rightarrow> None | c # ds \<Rightarrow>
          if \<not> continuation c then None
          else if unat a < 0xf0 then
            (let r = (unat a - 0xe0) * 0x1000 + (unat b - 0x80) * 0x40 + (unat c - 0x80)
             in if r < 0x800 then None else utf8_put r (utf8_decode ds))
          else case ds of [] \<Rightarrow> None | d # es \<Rightarrow>
            if \<not> continuation d \<or> 0xf8 \<le> unat a then None
            else (let r = (unat a - 0xf0) * 0x40000 + (unat b - 0x80) * 0x1000 +
                    (unat c - 0x80) * 0x40 + (unat d - 0x80)
                  in if r < 0x10000 then None else utf8_put r (utf8_decode es)))"

section \<open>Semi-octets\<close>

definition digit_char :: "byte \<Rightarrow> char" where
  "digit_char d = char_of (48 + unat d)"

definition char_digit :: "char \<Rightarrow> byte" where
  "char_digit c = of_nat (of_char c - 48)"

definition low_nibble :: "byte \<Rightarrow> byte" where "low_nibble b = b AND 0x0f"

definition high_nibble :: "byte \<Rightarrow> byte" where "high_nibble b = drop_bit 4 b"

lemma unat_char_digit: "is_digit c \<Longrightarrow> unat (char_digit c) = of_char c - 48"
  unfolding char_digit_def by (rule unat_of_nat_byte) (auto simp: is_digit_def Let_def)

lemma char_digit_le: "is_digit c \<Longrightarrow> unat (char_digit c) \<le> 9"
  by (auto simp: unat_char_digit is_digit_def Let_def)

lemma digit_char_digit: "is_digit c \<Longrightarrow> digit_char (char_digit c) = c"
  by (simp add: digit_char_def unat_char_digit) (simp add: is_digit_def Let_def)

lemma low_nibble_take: "low_nibble b = take_bit 4 b"
proof -
  have "mask 4 = (0x0f :: byte)" by (simp add: mask_eq_exp_minus_1)
  then show ?thesis by (simp only: low_nibble_def take_bit_eq_mask)
qed

lemma nibbles: "unat (d :: byte) \<le> 15 \<Longrightarrow> low_nibble (push_bit 4 e OR d) = d"
  "unat d \<le> 15 \<Longrightarrow> unat (e :: byte) \<le> 15 \<Longrightarrow> high_nibble (push_bit 4 e OR d) = e"
proof -
  have small: "\<not> bit (x :: byte) n" if "unat x \<le> 15" "4 \<le> n" for x n
    using that by (intro high_bits_clear [of x 4]) auto
  assume d: "unat d \<le> 15"
  show "low_nibble (push_bit 4 e OR d) = d"
    by (rule bit_word_eqI) (use small [OF d] in \<open>auto simp: low_nibble_take bit_simps\<close>)
  assume e: "unat e \<le> 15"
  have se: "n < 4" if "bit e n" for n using small [OF e, of n] that by (cases "n < 4") auto
  show "high_nibble (push_bit 4 e OR d) = e"
    by (rule bit_word_eqI) (use small [OF d] se in \<open>auto simp: high_nibble_def bit_simps\<close>)
qed

end
