(* ===== verification/Part_Split.thy ===== *)
theory Part_Split
  imports Go_Prelude
begin

text \<open>
  Cutting a message into parts, the contract shared by the two splitting loops of
  \<^verbatim>\<open>internal/device/sms_pdu.go\<close>: \<open>count\<close> says how many units the next part takes, and the loop cuts
  them off until nothing is left.  \<open>means units t\<close> says that the units are the encoding of the items
  \<^term>\<open>t\<close>; a cut is required to fall between two items.
\<close>

locale part_split =
  fixes count :: "'u list \<Rightarrow> nat \<Rightarrow> nat"
    and split :: "'u list \<Rightarrow> nat \<Rightarrow> 'u list list option"
    and means :: "'u list \<Rightarrow> 't list \<Rightarrow> bool"
  assumes split_unfold: "split units maximum =
      (if units = [] then Some []
       else if count units maximum = 0 then None
       else map_option (\<lambda>rest. take (count units maximum) units # rest)
         (split (drop (count units maximum) units) maximum))"
    and count_le: "count units maximum \<le> maximum"
    and count_pos: "2 \<le> maximum \<Longrightarrow> units \<noteq> [] \<Longrightarrow> 0 < count units maximum"
    and count_full: "maximum \<le> Suc (count units maximum) \<or> count units maximum = length units"
    and cut_between: "means units t \<Longrightarrow> units \<noteq> [] \<Longrightarrow> 0 < count units maximum \<Longrightarrow>
      \<exists>t1 t2. means (take (count units maximum) units) t1 \<and> means (drop (count units maximum) units) t2 \<and> t = t1 @ t2"
    and means_Nil: "means [] t \<Longrightarrow> t = []"
begin

lemma split_terminates: "2 \<le> maximum \<Longrightarrow> \<exists>parts. split units maximum = Some parts"
proof (induction units rule: length_induct)
  case (1 units)
  show ?case
  proof (cases "units = []")
    case False
    have n: "0 < count units maximum" using count_pos [OF 1(2) False] .
    then have "length (drop (count units maximum) units) < length units" using False by simp
    then obtain rest where "split (drop (count units maximum) units) maximum = Some rest" using 1 by blast
    then show ?thesis using False n by (subst split_unfold) simp
  qed (subst split_unfold, simp)
qed

lemma split_step:
  assumes "split units maximum = Some parts" "units \<noteq> []"
  obtains rest where "0 < count units maximum" "split (drop (count units maximum) units) maximum = Some rest"
    "parts = take (count units maximum) units # rest"
proof -
  have "0 < count units maximum \<and> (\<exists>rest. split (drop (count units maximum) units) maximum = Some rest \<and>
      parts = take (count units maximum) units # rest)"
    using assms by (subst (asm) split_unfold) (auto split: if_splits)
  then show thesis using that by blast
qed

lemma split_Nil: "split [] maximum = Some []"
  by (subst split_unfold) simp

lemma split_parts:
  "split units maximum = Some parts \<Longrightarrow>
   concat parts = units \<and> list_all (\<lambda>p. p \<noteq> [] \<and> length p \<le> maximum) parts"
proof (induction units arbitrary: parts rule: length_induct)
  case (1 units)
  show ?case
  proof (cases "units = []")
    case False
    obtain rest where r: "0 < count units maximum" "split (drop (count units maximum) units) maximum = Some rest"
      "parts = take (count units maximum) units # rest" by (rule split_step [OF 1(2) False])
    have "length (drop (count units maximum) units) < length units" using r(1) False by simp
    then have "concat rest = drop (count units maximum) units \<and> list_all (\<lambda>p. p \<noteq> [] \<and> length p \<le> maximum) rest"
      using 1(1) r(2) by blast
    then show ?thesis using r count_le [of units maximum] False by simp
  qed (use 1(2) split_Nil in simp)
qed

text \<open>Only the last part may be more than one unit short.\<close>

lemma split_few:
  "split units maximum = Some parts \<Longrightarrow> length units \<le> (maximum - 1) * k \<Longrightarrow> length parts \<le> k"
proof (induction units arbitrary: parts k rule: length_induct)
  case (1 units)
  show ?case
  proof (cases "units = []")
    case False
    obtain rest where r: "0 < count units maximum" "split (drop (count units maximum) units) maximum = Some rest"
      "parts = take (count units maximum) units # rest" by (rule split_step [OF 1(2) False])
    obtain j where k: "k = Suc j" using 1(3) False by (cases k) auto
    have "length (drop (count units maximum) units) < length units" using r(1) False by simp
    moreover have "length (drop (count units maximum) units) \<le> (maximum - 1) * j"
      using count_full [of maximum units] 1(3) k by auto
    ultimately have "length rest \<le> j" using 1(1) r(2) by blast
    then show ?thesis using r(3) k by simp
  qed (use 1(2) split_Nil in simp)
qed

lemma split_means:
  "split units maximum = Some parts \<Longrightarrow> means units t \<Longrightarrow> \<exists>ts. list_all2 means parts ts \<and> concat ts = t"
proof (induction units arbitrary: parts t rule: length_induct)
  case (1 units)
  show ?case
  proof (cases "units = []")
    case False
    obtain rest where r: "0 < count units maximum" "split (drop (count units maximum) units) maximum = Some rest"
      "parts = take (count units maximum) units # rest" by (rule split_step [OF 1(2) False])
    obtain t1 t2 where t: "means (take (count units maximum) units) t1" "means (drop (count units maximum) units) t2"
      "t = t1 @ t2" using cut_between [OF 1(3) False r(1)] by blast
    have "length (drop (count units maximum) units) < length units" using r(1) False by simp
    then obtain ts where "list_all2 means rest ts" "concat ts = t2" using 1(1) r(2) t(2) by blast
    then show ?thesis using t r(3) by (intro exI [of _ "t1 # ts"]) simp
  qed (use 1(2,3) split_Nil means_Nil in auto)
qed

end

end
