(* ===== verification/GSM7.thy ===== *)
theory GSM7
  imports Go_Encoding Part_Split
begin

text \<open>
  The GSM 7-bit alphabet and its packing (\<^verbatim>\<open>internal/device/sms_pdu.go\<close>): the encoder and the
  decoder of texts, \<^verbatim>\<open>packSeptets\<close> and \<^verbatim>\<open>unpackSeptets\<close>, and the split into parts.

  The lemmas
  show that decoding inverts encoding, that unpacking inverts packing at every start bit, and that
  the parts of a text are short enough, not empty and never separate an escape from its code.
\<close>

section \<open>The alphabet\<close>

definition gsm7DefaultAlphabet :: runes where
  "gsm7DefaultAlphabet =
     [64, 163, 36, 165, 232, 233, 249, 236, 242, 199, 10, 216, 248, 13, 197, 229,
      916, 95, 934, 915, 923, 937, 928, 936, 931, 920, 926, 27, 198, 230, 223, 201,
      32, 33, 34, 35, 164, 37, 38, 39, 40, 41, 42, 43, 44, 45, 46, 47,
      48, 49, 50, 51, 52, 53, 54, 55, 56, 57, 58, 59, 60, 61, 62, 63,
      161, 65, 66, 67, 68, 69, 70, 71, 72, 73, 74, 75, 76, 77, 78, 79,
      80, 81, 82, 83, 84, 85, 86, 87, 88, 89, 90, 196, 214, 209, 220, 167,
      191, 97, 98, 99, 100, 101, 102, 103, 104, 105, 106, 107, 108, 109, 110, 111,
      112, 113, 114, 115, 116, 117, 118, 119, 120, 121, 122, 228, 246, 241, 252, 224]"

definition gsm7ExtensionAlphabet :: "(byte \<times> nat) list" where
  "gsm7ExtensionAlphabet =
     [(0x0a, 12), (0x14, 94), (0x28, 123), (0x29, 125), (0x2f, 92), (0x3c, 91), (0x3d, 126),
      (0x3e, 93), (0x40, 124), (0x65, 8364)]"

text \<open>The map \<^verbatim>\<open>gsm7Encoder\<close>; the entries of the extension are written last, so they come first.\<close>

definition gsm7_pairs :: "(nat \<times> bytes) list" where
  "gsm7_pairs =
     List.map (\<lambda>(code, character). (character, [0x1b, code])) gsm7ExtensionAlphabet @
     List.map (\<lambda>(code, character). (character, [of_nat code]))
       (filter (\<lambda>(code, character). code \<noteq> 0x1b) (zip [0..<128] gsm7DefaultAlphabet))"

definition gsm7Encoder :: "nat \<Rightarrow> bytes option" where
  "gsm7Encoder character = map_of gsm7_pairs character"

fun encodeGSM7 :: "runes \<Rightarrow> bytes option" where
  "encodeGSM7 [] = Some []"
| "encodeGSM7 (character # text) =
     (case gsm7Encoder character of None \<Rightarrow> None | Some encoded \<Rightarrow>
       map_option (\<lambda>rest. encoded @ rest) (encodeGSM7 text))"

fun canSendDirectGSM7 :: "runes \<Rightarrow> bool" where
  "canSendDirectGSM7 [] = True"
| "canSendDirectGSM7 (character # text) =
     (case gsm7Encoder character of None \<Rightarrow> False | Some encoded \<Rightarrow>
        if length encoded \<noteq> 1 \<or> encoded ! 0 = 0x1b \<or> character > 0x7f \<or>
          of_nat character \<noteq> encoded ! 0
        then False else canSendDirectGSM7 text)"

datatype gsm7_error = InvalidGSM7Code | TrailingEscape | UnknownExtension byte

text \<open>The decoder returns the text decoded so far together with its error.\<close>

fun decodeGSM7 :: "bytes \<Rightarrow> runes \<times> gsm7_error option" where
  "decodeGSM7 [] = ([], None)"
| "decodeGSM7 (code # rest) =
     (if code \<noteq> 0x1b then
        (if unat code \<ge> length gsm7DefaultAlphabet then ([], Some InvalidGSM7Code)
         else let (text, e) = decodeGSM7 rest in (gsm7DefaultAlphabet ! unat code # text, e))
      else case rest of
        [] \<Rightarrow> ([], Some TrailingEscape)
      | x # rest' \<Rightarrow>
          (case map_of gsm7ExtensionAlphabet x of
             None \<Rightarrow> ([], Some (UnknownExtension x))
           | Some character \<Rightarrow> let (text, e) = decodeGSM7 rest' in (character # text, e)))"

definition DecodeGSM7Septets :: "bytes \<Rightarrow> runes \<times> bool" where
  "DecodeGSM7Septets data = (let (decoded, e) = decodeGSM7 data in (decoded, e = None))"

section \<open>Packing\<close>

definition or_at :: "nat \<Rightarrow> byte \<Rightarrow> bytes \<Rightarrow> bytes" where
  "or_at i v bs = bs[i := bs ! i OR v]"

fun pack_loop :: "bytes \<Rightarrow> nat \<Rightarrow> bytes \<Rightarrow> bytes" where
  "pack_loop res pos [] = res"
| "pack_loop res pos (septet # septets) =
     (let byteIndex = pos div 8; shift = pos mod 8;
          res1 = or_at byteIndex (push_bit shift (septet AND 0x7f)) res;
          res2 = (if shift > 1 \<and> byteIndex + 1 < length res
                  then or_at (byteIndex + 1) (drop_bit (8 - shift) (septet AND 0x7f)) res1 else res1)
      in pack_loop res2 (pos + 7) septets)"

definition packSeptets :: "bytes \<Rightarrow> nat \<Rightarrow> bytes" where
  "packSeptets septets startBit =
     (if septets = [] then []
      else pack_loop (replicate ((startBit + length septets * 7 + 7) div 8) 0) startBit septets)"

definition unpack_one :: "bytes \<Rightarrow> nat \<Rightarrow> byte" where
  "unpack_one data pos =
     (let byteIndex = pos div 8; shift = pos mod 8;
          v = drop_bit shift (data ! byteIndex);
          v' = (if shift > 1 \<and> byteIndex + 1 < length data
                then v OR push_bit (8 - shift) (data ! (byteIndex + 1)) else v)
      in v' AND 0x7f)"

text \<open>\<^term>\<open>None\<close> is the error "GSM-7 user data is truncated".\<close>

definition unpackSeptets :: "bytes \<Rightarrow> int \<Rightarrow> nat \<Rightarrow> bytes option" where
  "unpackSeptets data count startBit =
     (if count < 0 \<or> int startBit + count * 7 > int (length data) * 8 then None
      else Some (List.map (\<lambda>i. unpack_one data (startBit + i * 7)) [0..<nat count]))"

section \<open>Splitting\<close>

text \<open>\<^term>\<open>None\<close> is a loop that does not end: with a maximum of 1 an escape leaves no progress.
  The code passes 153.\<close>

definition split_count :: "bytes \<Rightarrow> nat \<Rightarrow> nat" where
  "split_count septets maximum =
     (let count = (if maximum > length septets then length septets else maximum)
      in if count < length septets \<and> 0 < count \<and> septets ! (count - 1) = 0x1b then count - 1 else count)"

function splitGSM7 :: "bytes \<Rightarrow> nat \<Rightarrow> bytes list option" where
  "splitGSM7 septets maximum =
     (if septets = [] then Some []
      else if split_count septets maximum = 0 then None
      else map_option (\<lambda>rest. take (split_count septets maximum) septets # rest)
        (splitGSM7 (drop (split_count septets maximum) septets) maximum))"
  by auto
termination by (relation "measure (\<lambda>(septets, maximum). length septets)") auto

declare splitGSM7.simps [simp del]

lemma splitGSM7_Nil [simp]: "splitGSM7 [] maximum = Some []"
  by (simp add: splitGSM7.simps)

section \<open>Decoding inverts encoding\<close>

lemma length_gsm7DefaultAlphabet [simp]: "length gsm7DefaultAlphabet = 128"
  by (simp add: gsm7DefaultAlphabet_def)

lemma extension_pairs: "(code, character) \<in> set gsm7ExtensionAlphabet \<Longrightarrow>
    map_of gsm7ExtensionAlphabet code = Some character \<and> unat code < 128 \<and> code \<noteq> 0x1b"
  by (auto simp: gsm7ExtensionAlphabet_def)

lemma gsm7Encoder_cases:
  assumes "gsm7Encoder character = Some encoded"
  obtains (basic) code where "encoded = [code]" "code \<noteq> 0x1b" "unat code < 128"
      "gsm7DefaultAlphabet ! unat code = character"
  | (extension) code where "encoded = [0x1b, code]" "unat code < 128" "code \<noteq> 0x1b"
      "map_of gsm7ExtensionAlphabet code = Some character"
proof -
  have "(character, encoded) \<in> set gsm7_pairs" using assms by (simp add: gsm7Encoder_def map_of_SomeD)
  then consider code where "(code, character) \<in> set gsm7ExtensionAlphabet" "encoded = [0x1b, code]"
    | i where "i < 128" "character = gsm7DefaultAlphabet ! i" "i \<noteq> 27" "encoded = [of_nat i]"
    by (auto simp: gsm7_pairs_def set_zip)
  then show thesis
  proof cases
    case 1
    then show thesis using extension [of code] extension_pairs by simp
  next
    case 2
    have u: "unat (of_nat i :: byte) = i" using 2 by (simp add: unat_of_nat_byte)
    then have "(of_nat i :: byte) \<noteq> 0x1b" using 2(3) by auto
    then show thesis using basic [of "of_nat i"] 2 u by simp
  qed
qed

lemma decode_encode_GSM7: "encodeGSM7 msg = Some septets \<Longrightarrow> decodeGSM7 septets = (msg, None)"
proof (induction msg arbitrary: septets)
  case (Cons character msg)
  then obtain encoded rest where e: "gsm7Encoder character = Some encoded" "encodeGSM7 msg = Some rest"
    "septets = encoded @ rest" by (auto split: option.splits)
  note ih = Cons.IH [OF e(2)]
  from e(1) show ?case
  proof (cases rule: gsm7Encoder_cases)
    case (basic code)
    then show ?thesis using ih e(3) by simp
  next
    case (extension code)
    then show ?thesis using ih e(3) by simp
  qed
qed simp

lemma encodeGSM7_septets: "encodeGSM7 msg = Some septets \<Longrightarrow> list_all (\<lambda>s. unat s < 128) septets"
proof (induction msg arbitrary: septets)
  case (Cons character msg)
  then obtain encoded rest where e: "gsm7Encoder character = Some encoded" "encodeGSM7 msg = Some rest"
    "septets = encoded @ rest" by (auto split: option.splits)
  note ih = Cons.IH [OF e(2)]
  from e(1) show ?case
    by (cases rule: gsm7Encoder_cases) (simp_all add: e(3) ih)
qed simp

section \<open>Unpacking inverts packing\<close>

text \<open>Bit \<^term>\<open>k\<close> of the packed stream: septets are written to it from \<open>startBit\<close> on.\<close>

definition gbit :: "bytes \<Rightarrow> nat \<Rightarrow> bool" where
  "gbit data k \<longleftrightarrow> bit (data ! (k div 8)) (k mod 8)"

lemma septet_mask: "(s :: byte) AND 0x7f = take_bit 7 s"
proof -
  have "(0x7f :: byte) = mask 7" by (simp add: mask_eq_exp_minus_1)
  then show ?thesis by (simp add: take_bit_eq_mask)
qed

lemma length_or_at [simp]: "length (or_at i v bs) = length bs"
  by (simp add: or_at_def)

lemma nth_or_at: "i < length bs \<Longrightarrow> or_at i v bs ! j = (if j = i then bs ! j OR v else bs ! j)"
  by (simp add: or_at_def nth_list_update)

definition put_septet :: "nat \<Rightarrow> byte \<Rightarrow> bytes \<Rightarrow> bytes" where
  "put_septet pos septet res =
     (let res1 = or_at (pos div 8) (push_bit (pos mod 8) (take_bit 7 septet)) res
      in if pos mod 8 > 1 \<and> pos div 8 + 1 < length res
         then or_at (pos div 8 + 1) (drop_bit (8 - pos mod 8) (take_bit 7 septet)) res1 else res1)"

lemma pack_loop_Cons: "pack_loop res pos (septet # septets) = pack_loop (put_septet pos septet res) (pos + 7) septets"
  by (simp add: put_septet_def septet_mask Let_def)

lemma length_put_septet [simp]: "length (put_septet pos septet res) = length res"
  by (simp add: put_septet_def Let_def)

lemma bit_pos_cases:
  fixes k pos :: nat
  obtains (same) "k div 8 = pos div 8" "pos \<le> k \<longleftrightarrow> pos mod 8 \<le> k mod 8" "k - pos = k mod 8 - pos mod 8"
  | (next_byte) "k div 8 = pos div 8 + 1" "pos \<le> k" "k - pos = 8 - pos mod 8 + k mod 8"
  | (before) "k div 8 < pos div 8" "k < pos"
  | (beyond) "pos div 8 + 1 < k div 8" "pos + 8 < k"
proof -
  have k: "k = 8 * (k div 8) + k mod 8" "k mod 8 < 8" and p: "pos = 8 * (pos div 8) + pos mod 8" "pos mod 8 < 8"
    by simp_all
  consider "k div 8 = pos div 8" | "k div 8 = pos div 8 + 1" | "k div 8 < pos div 8" | "pos div 8 + 1 < k div 8"
    by linarith
  then show thesis
    by cases (rule same next_byte before beyond; use k p in linarith)+
qed

lemma gbit_put_septet:
  assumes len: "pos + 7 \<le> 8 * length res" and k: "k < 8 * length res"
  shows "gbit (put_septet pos septet res) k \<longleftrightarrow> gbit res k \<or> (pos \<le> k \<and> k < pos + 7 \<and> bit septet (k - pos))"
proof -
  have b: "pos div 8 < length res" and kb: "k div 8 < length res" using len k by linarith+
  have kp: "k < pos + 7 \<longleftrightarrow> k - pos < 7 \<or> k < pos" by linarith
  show ?thesis
  proof (cases rule: bit_pos_cases [of k pos])
    case same
    then show ?thesis
      using b by (auto simp: gbit_def put_septet_def nth_or_at Let_def bit_simps kp)
  next
    case next_byte
    then have "k < pos + 7 \<longleftrightarrow> 8 - pos mod 8 + k mod 8 < 7" by linarith
    then show ?thesis
      using b kb next_byte
      by (cases "pos mod 8 > 1") (auto simp: gbit_def put_septet_def nth_or_at Let_def bit_simps)
  next
    case before
    then show ?thesis using b by (simp add: gbit_def put_septet_def nth_or_at Let_def)
  next
    case beyond
    then show ?thesis using b by (simp add: gbit_def put_septet_def nth_or_at Let_def)
  qed
qed

lemma length_pack_loop [simp]: "length (pack_loop res pos septets) = length res"
  by (induction septets arbitrary: res pos) (simp_all add: pack_loop_Cons del: pack_loop.simps(2))

lemma septet_index:
  fixes k pos :: nat assumes "pos + 7 \<le> k"
  shows "(k - pos) div 7 = Suc ((k - (pos + 7)) div 7)" "(k - pos) mod 7 = (k - (pos + 7)) mod 7"
proof -
  have e: "k - pos = (k - (pos + 7)) + 7" using assms by simp
  show "(k - pos) div 7 = Suc ((k - (pos + 7)) div 7)" unfolding e by simp
  show "(k - pos) mod 7 = (k - (pos + 7)) mod 7" unfolding e by simp
qed

lemma gbit_pack_loop:
  "pos + 7 * length septets \<le> 8 * length res \<Longrightarrow> k < 8 * length res \<Longrightarrow>
   gbit (pack_loop res pos septets) k \<longleftrightarrow> gbit res k \<or>
     (pos \<le> k \<and> k < pos + 7 * length septets \<and> bit (septets ! ((k - pos) div 7)) ((k - pos) mod 7))"
proof (induction septets arbitrary: res pos)
  case (Cons septet septets)
  have ih: "gbit (pack_loop (put_septet pos septet res) (pos + 7) septets) k \<longleftrightarrow>
      gbit (put_septet pos septet res) k \<or> (pos + 7 \<le> k \<and> k < pos + 7 + 7 * length septets \<and>
        bit (septets ! ((k - (pos + 7)) div 7)) ((k - (pos + 7)) mod 7))"
    by (rule Cons.IH) (use Cons.prems in simp_all)
  have g: "gbit (put_septet pos septet res) k \<longleftrightarrow> gbit res k \<or> (pos \<le> k \<and> k < pos + 7 \<and> bit septet (k - pos))"
    by (rule gbit_put_septet) (use Cons.prems in simp_all)
  show ?case
  proof (cases "pos + 7 \<le> k")
    case True
    then show ?thesis unfolding pack_loop_Cons ih g by (auto simp: septet_index)
  next
    case False
    then show ?thesis unfolding pack_loop_Cons ih g by auto
  qed
qed auto

lemma bit_unpack_one:
  assumes "pos + 7 \<le> 8 * length data"
  shows "bit (unpack_one data pos) n \<longleftrightarrow> n < 7 \<and> gbit data (pos + n)"
proof (cases "n < 7")
  case True
  have b: "pos div 8 + 1 < length data" if "pos mod 8 + n \<ge> 8"
  proof -
    have "2 \<le> pos mod 8" using that True by linarith
    moreover have "pos = 8 * (pos div 8) + pos mod 8" by simp
    ultimately show ?thesis using assms by presburger
  qed
  show ?thesis
  proof (cases "pos mod 8 + n < 8")
    case low: True
    have "8 * (pos div 8) + (pos mod 8 + n) = pos + n" by simp
    then have "(pos + n) div 8 = pos div 8" "(pos + n) mod 8 = pos mod 8 + n"
      using low div_mult_self4 [of 8 "pos div 8" "pos mod 8 + n"] mod_mult_self4 [of 8 "pos div 8" "pos mod 8 + n"]
      by simp_all
    then show ?thesis
      using True low by (auto simp: unpack_one_def septet_mask Let_def gbit_def bit_simps)
  next
    case high: False
    have "8 * (pos div 8 + 1) + (pos mod 8 + n - 8) = pos + n" using high by simp
    moreover have "pos mod 8 + n - 8 < 8" using True by (simp add: less_diff_conv2)
    ultimately have i: "(pos + n) div 8 = pos div 8 + 1" "(pos + n) mod 8 = pos mod 8 + n - 8"
      using div_mult_self4 [of 8 "pos div 8 + 1" "pos mod 8 + n - 8"]
        mod_mult_self4 [of 8 "pos div 8 + 1" "pos mod 8 + n - 8"] by simp_all
    have "\<not> bit (data ! (pos div 8)) (pos mod 8 + n)"
      using high bit_imp_le_length [of "data ! (pos div 8)" "pos mod 8 + n"] by auto
    moreover have "pos mod 8 > 1" using high True by linarith
    moreover have "8 - pos mod 8 \<le> n" "n - (8 - pos mod 8) = pos mod 8 + n - 8" using high by linarith+
    ultimately show ?thesis
      using True high b i by (auto simp: unpack_one_def septet_mask Let_def gbit_def bit_simps)
  qed
next
  case False
  then show ?thesis by (simp add: unpack_one_def septet_mask bit_simps Let_def)
qed

text \<open>Unpacking depends on the bits from \<open>startBit\<close> on only; below them a header may stand.\<close>

lemma unpack_pack_gen:
  assumes len: "length data = length (packSeptets septets startBit)" "septets \<noteq> []"
    and same: "\<And>k. startBit \<le> k \<Longrightarrow> k < startBit + 7 * length septets \<Longrightarrow>
      gbit data k = gbit (packSeptets septets startBit) k"
    and small: "list_all (\<lambda>s. unat s < 128) septets"
  shows "unpackSeptets data (int (length septets)) startBit = Some septets"
proof -
  let ?n = "(startBit + length septets * 7 + 7) div 8"
  have l: "length data = ?n" using len by (simp add: packSeptets_def)
  have fits: "startBit + 7 * length septets \<le> 8 * ?n" by linarith
  have "unpack_one data (startBit + i * 7) = septets ! i" if i: "i < length septets" for i
  proof (rule bit_word_eqI)
    fix n assume "n < LENGTH(8)"
    have i7: "i * 7 + 7 \<le> 7 * length septets" using i by linarith
    have g: "gbit data (startBit + i * 7 + n) \<longleftrightarrow> bit (septets ! i) n" if n: "n < 7"
    proof -
      have "gbit data (startBit + i * 7 + n) = gbit (packSeptets septets startBit) (startBit + i * 7 + n)"
        by (rule same) (use i7 n in linarith)+
      also have "\<dots> = gbit (pack_loop (replicate ?n 0) startBit septets) (startBit + i * 7 + n)"
        using len(2) by (simp add: packSeptets_def)
      also have "\<dots> \<longleftrightarrow> bit (septets ! ((i * 7 + n) div 7)) ((i * 7 + n) mod 7)"
      proof (subst gbit_pack_loop)
        have "(startBit + i * 7 + n) div 8 < ?n" using i7 n by linarith
        then show "(gbit (replicate ?n 0) (startBit + i * 7 + n) \<or>
          (startBit \<le> startBit + i * 7 + n \<and> startBit + i * 7 + n < startBit + 7 * length septets \<and>
            bit (septets ! ((startBit + i * 7 + n - startBit) div 7)) ((startBit + i * 7 + n - startBit) mod 7))) =
          bit (septets ! ((i * 7 + n) div 7)) ((i * 7 + n) mod 7)"
          using i7 n by (simp add: gbit_def)
      qed (use fits i7 n in \<open>simp_all\<close>)
      also have "\<dots> = bit (septets ! i) n" using n by simp
      finally show ?thesis .
    qed
    have "unat (septets ! i) < 2 ^ 7" using small i by (simp add: list_all_length)
    then have hi: "\<not> bit (septets ! i) n" if "\<not> n < 7"
      by (rule high_bits_clear) (use that in simp)
    have "startBit + i * 7 + 7 \<le> 8 * length data" using i7 fits l by linarith
    then show "bit (unpack_one data (startBit + i * 7)) n = bit (septets ! i) n"
      using g hi by (auto simp: bit_unpack_one)
  qed
  then have "List.map (\<lambda>i. unpack_one data (startBit + i * 7)) [0..<length septets] = septets"
    by (intro nth_equalityI) simp_all
  moreover have "int startBit + int (length septets) * 7 \<le> int (length data) * 8" using fits l by linarith
  ultimately show ?thesis by (simp add: unpackSeptets_def)
qed

lemma unpack_pack:
  assumes "list_all (\<lambda>s. unat s < 128) septets"
  shows "unpackSeptets (packSeptets septets startBit) (int (length septets)) startBit = Some septets \<or> septets = []"
  using unpack_pack_gen [OF refl _ refl assms] by blast

section \<open>The parts of a split\<close>

lemma split_count_le: "split_count septets maximum \<le> maximum"
  by (simp add: split_count_def Let_def)

lemma split_count_pos: "2 \<le> maximum \<Longrightarrow> septets \<noteq> [] \<Longrightarrow> 0 < split_count septets maximum"
  by (auto simp: split_count_def Let_def)

text \<open>A decodable list can be cut anywhere but after an escape.\<close>

lemma decode_cut:
  "decodeGSM7 s = (t, None) \<Longrightarrow> c \<le> length s \<Longrightarrow> c = 0 \<or> s ! (c - 1) \<noteq> 0x1b \<Longrightarrow>
   \<exists>t1 t2. decodeGSM7 (take c s) = (t1, None) \<and> decodeGSM7 (drop c s) = (t2, None) \<and> t = t1 @ t2"
proof (induction s arbitrary: t c rule: decodeGSM7.induct)
  case (2 code rest)
  show ?case
  proof (cases "c = 0")
    case False
    then obtain c' where c: "c = Suc c'" by (cases c) auto
    show ?thesis
    proof (cases "code = 0x1b")
      case plain: False
      then obtain t' where t': "unat code < 128" "decodeGSM7 rest = (t', None)"
        "t = gsm7DefaultAlphabet ! unat code # t'"
        using 2(3) by (auto split: if_splits prod.splits)
      have "c' = 0 \<or> rest ! (c' - 1) \<noteq> 0x1b" using 2(5) c by (cases c') auto
      then obtain t1 t2 where "decodeGSM7 (take c' rest) = (t1, None)" "decodeGSM7 (drop c' rest) = (t2, None)"
        "t' = t1 @ t2"
        using 2(1) [OF plain _ t'(2), of c'] t'(1) 2(4) c by auto
      then show ?thesis using plain t' c by simp
    next
      case escape: True
      then obtain x r where r: "rest = x # r" using 2(3) by (cases rest) auto
      obtain character t' where t': "map_of gsm7ExtensionAlphabet x = Some character"
        "decodeGSM7 r = (t', None)" "t = character # t'"
        using 2(3) by (auto simp: escape r split: option.splits prod.splits)
      have "c' \<noteq> 0" using 2(5) c escape by (cases c') auto
      then obtain c'' where c'': "c' = Suc c''" by (cases c') auto
      have "c'' = 0 \<or> r ! (c'' - 1) \<noteq> 0x1b" using 2(5) c c'' r by (cases c'') auto
      then obtain t1 t2 where "decodeGSM7 (take c'' r) = (t1, None)" "decodeGSM7 (drop c'' r) = (t2, None)"
        "t' = t1 @ t2"
        using 2(2) [of x r character t' c''] t' 2(4) c c'' r escape by auto
      then show ?thesis using t' c c'' escape r by simp
    qed
  qed (use 2(3) in simp)
qed simp

lemma decode_no_double_escape:
  "decodeGSM7 s = (t, None) \<Longrightarrow> Suc i < length s \<Longrightarrow> s ! Suc i = 0x1b \<Longrightarrow> s ! i \<noteq> 0x1b"
proof (induction s arbitrary: t i rule: decodeGSM7.induct)
  case (2 code rest)
  show ?case
  proof (cases "code = 0x1b")
    case plain: False
    then obtain t' where "unat code < 128" "decodeGSM7 rest = (t', None)"
      using 2(3) by (auto split: if_splits prod.splits)
    then show ?thesis using 2(1) [OF plain, of t' "i - 1"] 2(4,5) plain by (cases i) auto
  next
    case escape: True
    then obtain x r where r: "rest = x # r" using 2(3) by (cases rest) auto
    obtain character t' where t': "map_of gsm7ExtensionAlphabet x = Some character" "decodeGSM7 r = (t', None)"
      using 2(3) by (auto simp: escape r split: option.splits prod.splits)
    have x: "x \<noteq> 0x1b" using extension_pairs [of x character] t'(1) map_of_SomeD by fastforce
    show ?thesis
    proof (cases i)
      case 0
      then show ?thesis using 2(5) x r by simp
    next
      case (Suc j)
      show ?thesis
      proof (cases j)
        case 0
        then show ?thesis using Suc x r by simp
      next
        case (Suc k)
        then show ?thesis
          using 2(2) [of x r character t' k] t' r escape 2(4,5) \<open>i = Suc j\<close> by simp
      qed
    qed
  qed
qed simp

lemma split_cut_ok:
  assumes "decodeGSM7 septets = (t, None)" "septets \<noteq> []" "0 < split_count septets maximum"
  obtains "split_count septets maximum = length septets"
  | "split_count septets maximum \<le> length septets" "septets ! (split_count septets maximum - 1) \<noteq> 0x1b"
proof -
  define n where "n = (if maximum > length septets then length septets else maximum)"
  have c: "split_count septets maximum = (if n < length septets \<and> 0 < n \<and> septets ! (n - 1) = 0x1b then n - 1 else n)"
    by (simp add: split_count_def Let_def n_def)
  have n: "n \<le> length septets" by (simp add: n_def)
  show thesis
  proof (cases "n < length septets \<and> 0 < n \<and> septets ! (n - 1) = 0x1b")
    case True
    then have c': "split_count septets maximum = n - 1" using c by simp
    then have "2 \<le> n" using assms(3) by simp
    then obtain m where m: "n = Suc (Suc m)" by (cases n; cases "n - 1") auto
    have "septets ! m \<noteq> 0x1b" by (rule decode_no_double_escape [OF assms(1)]) (use True m in simp_all)
    then show thesis using that(2) c' n m by simp
  next
    case False
    then have c': "split_count septets maximum = n" unfolding c by (rule if_not_P)
    then show thesis using that False n assms(3) by (cases "n < length septets") simp_all
  qed
qed

text \<open>A list of septets means the text it decodes to.\<close>

definition septets_mean :: "bytes \<Rightarrow> runes \<Rightarrow> bool" where
  "septets_mean septets t \<longleftrightarrow> decodeGSM7 septets = (t, None)"

interpretation gsm: part_split split_count splitGSM7 septets_mean
proof unfold_locales
  fix units :: bytes and maximum t
  show "splitGSM7 units maximum =
      (if units = [] then Some [] else if split_count units maximum = 0 then None
       else map_option (\<lambda>rest. take (split_count units maximum) units # rest)
         (splitGSM7 (drop (split_count units maximum) units) maximum))"
    by (rule splitGSM7.simps)
  show "split_count units maximum \<le> maximum" by (rule split_count_le)
  show "0 < split_count units maximum" if "2 \<le> maximum" "units \<noteq> []" using that by (rule split_count_pos)
  show "maximum \<le> Suc (split_count units maximum) \<or> split_count units maximum = length units"
    by (auto simp: split_count_def Let_def)
  show "t = []" if "septets_mean [] t" using that by (simp add: septets_mean_def)
  assume m: "septets_mean units t" and ne: "units \<noteq> []" and c: "0 < split_count units maximum"
  from m have d: "decodeGSM7 units = (t, None)" by (simp add: septets_mean_def)
  show "\<exists>t1 t2. septets_mean (take (split_count units maximum) units) t1 \<and>
      septets_mean (drop (split_count units maximum) units) t2 \<and> t = t1 @ t2"
  proof (rule split_cut_ok [OF d ne c])
    assume "split_count units maximum = length units"
    then show ?thesis using d by (intro exI [of _ t] exI [of _ "[]"]) (simp add: septets_mean_def)
  next
    assume "split_count units maximum \<le> length units" "units ! (split_count units maximum - 1) \<noteq> 0x1b"
    then show ?thesis using decode_cut [OF d] by (simp add: septets_mean_def)
  qed
qed

lemmas splitGSM7_terminates = gsm.split_terminates

section \<open>Properties\<close>

text \<open>Decoding the septets of an encodable text gives the text back, and every septet is below 128.\<close>

theorem gsm7_roundtrip:
  "encodeGSM7 msg = Some septets \<Longrightarrow> decodeGSM7 septets = (msg, None) \<and> (\<forall>s \<in> set septets. unat s < 128)"
  using decode_encode_GSM7 encodeGSM7_septets by (simp add: list_all_iff)

theorem gsm7_roundtrip_witness: "decodeGSM7 [0x48, 0x1b, 0x65] = ([72, 8364], None)"
proof -
  have "encodeGSM7 [72, 8364] = Some [0x48, 0x1b, 0x65]"
    by code_simp
  from gsm7_roundtrip [OF this] show ?thesis by simp
qed

text \<open>Septets packed from any start bit are unpacked again, and the bytes below the start bit may be
  overwritten, as a user data header does, without changing them.\<close>

theorem septets_roundtrip:
  assumes "list_all (\<lambda>s. unat s < 128) septets" "septets \<noteq> []" "8 * length header \<le> startBit"
  shows "unpackSeptets (header @ drop (length header) (packSeptets septets startBit))
    (int (length septets)) startBit = Some septets"
proof (rule unpack_pack_gen [OF _ assms(2) _ assms(1)])
  have "length header \<le> length (packSeptets septets startBit)"
    using assms(2,3) by (simp add: packSeptets_def)
  note len = this
  then show "length (header @ drop (length header) (packSeptets septets startBit)) =
      length (packSeptets septets startBit)" by simp
  fix k assume "startBit \<le> k"
  then have "length header \<le> k div 8" using assms(3) by linarith
  then show "gbit (header @ drop (length header) (packSeptets septets startBit)) k =
      gbit (packSeptets septets startBit) k" 
    using len by (simp add: gbit_def nth_append)
qed

theorem septets_roundtrip_witness:
  "unpackSeptets ([5, 0, 3, 77, 2, 1] @ drop (length [5, 0, 3, 77, 2, 1 :: byte])
       (packSeptets [0x68, 0x65, 0x1b, 0x65] 49)) (int (length [0x68, 0x65, 0x1b, 0x65 :: byte])) 49 =
   Some [0x68, 0x65, 0x1b, 0x65]"
  by (rule septets_roundtrip) simp_all

text \<open>The encoding of a text is always split: the parts are not empty, hold at most
  \<^term>\<open>maximum\<close> septets and concatenate to the encoding; no escape is separated from its code, so
  that every part is decoded without an error, and the decoded parts concatenate to the text.\<close>

theorem split_text_decodes:
  assumes "encodeGSM7 msg = Some septets" "2 \<le> maximum"
  shows "\<exists>parts. splitGSM7 septets maximum = Some parts \<and> concat parts = septets \<and>
    list_all (\<lambda>p. p \<noteq> [] \<and> length p \<le> maximum \<and> snd (decodeGSM7 p) = None) parts \<and>
    concat (List.map (fst \<circ> decodeGSM7) parts) = msg"
proof -
  obtain parts where p: "splitGSM7 septets maximum = Some parts" using gsm.split_terminates [OF assms(2)] by blast
  have "septets_mean septets msg" using decode_encode_GSM7 [OF assms(1)] by (simp add: septets_mean_def)
  then obtain ts where ts: "list_all2 septets_mean parts ts" "concat ts = msg" using gsm.split_means [OF p] by blast
  from ts(1) have "list_all (\<lambda>p. snd (decodeGSM7 p) = None) parts" "List.map (fst \<circ> decodeGSM7) parts = ts"
    by (induction rule: list_all2_induct) (simp_all add: septets_mean_def)
  then show ?thesis using gsm.split_parts [OF p] p ts(2) by (auto simp: list_all_iff)
qed

theorem split_text_decodes_witness:
  "splitGSM7 [0x48, 0x1b, 0x65] 2 = Some [[0x48], [0x1b, 0x65]] \<and>
   concat (List.map (fst \<circ> decodeGSM7) [[0x48], [0x1b, 0x65]]) = [72, 8364]"
proof -
  have "encodeGSM7 [72, 8364] = Some [0x48, 0x1b, 0x65]" by code_simp
  moreover have "splitGSM7 [0x48, 0x1b, 0x65] 2 = Some [[0x48], [0x1b, 0x65]]" by code_simp
  ultimately show ?thesis using split_text_decodes [of "[72, 8364]" "[0x48, 0x1b, 0x65]" 2] by simp
qed

end
