(* ===== verification/SMS_Submit.thy ===== *)
theory SMS_Submit
  imports GSM7
begin

text \<open>
  Sending a text (\<^verbatim>\<open>internal/device/sms_pdu.go\<close>, first half, and its \<^verbatim>\<open>types.go\<close>): the recipient, the
  choice of the alphabet, the split into parts and the SMS-SUBMIT units.

  A text is the list of its code points.  A nil slice of the code that is told apart from an empty one
  is \<^term>\<open>None\<close>.  The random concatenation reference is an argument, \<^term>\<open>None\<close> when the random source
  fails.
\<close>

section \<open>Types\<close>

datatype sms_error =
    ErrSMSInvalidRecipient | ErrSMSEmpty | ErrSMSTooLong | TooManyParts nat | TextContainsNUL
  | InvalidConcatHeader | NoUserData | ReferenceUnavailable | NotGSM7 | EncodedPDUInvalid | NoTPDU

text \<open>\<^verbatim>\<open>SMSEncodingUnset\<close> is the empty string, the zero value of the type.\<close>

datatype sms_encoding =
    SMSEncodingGSM7Text | SMSEncodingGSM7PDU | SMSEncodingUCS2PDU | SMSEncodingUTF8PDU
  | SMSEncodingGB18030 | SMSEncodingLatin1 | SMSEncoding8BitPDU | SMSEncodingUnknown | SMSEncodingUnset

record prepared_sms =
  ps_to :: string
  ps_encoding :: sms_encoding
  ps_payload :: string
  ps_prompt :: string
  ps_setup :: "string list"
  ps_tpduLength :: nat
  ps_part :: nat
  ps_total :: nat
  ps_concatReference :: "nat option"

record submit_tpdu =
  To :: string
  Encoding :: sms_encoding
  TPDU :: bytes
  Part :: nat
  Total :: nat
  ConcatReference :: "nat option"

section \<open>Recipient\<close>

text \<open>The loop of \<^verbatim>\<open>normalizeSMSRecipient\<close>; \<^term>\<open>acc\<close> is what the builder holds.\<close>

fun recipient_loop :: "string \<Rightarrow> string \<Rightarrow> string option" where
  "recipient_loop acc [] = Some acc"
| "recipient_loop acc (c # cs) =
     (if is_digit c then recipient_loop (acc @ [c]) cs
      else if c = CHR ''+'' \<and> acc = [] then recipient_loop (acc @ [c]) cs
      else if c \<in> set '' -()'' then recipient_loop acc cs
      else None)"

definition normalizeSMSRecipient :: "string \<Rightarrow> sms_error + string" where
  "normalizeSMSRecipient v =
     (case recipient_loop [] (TrimSpace v) of
        None \<Rightarrow> Inl ErrSMSInvalidRecipient
      | Some normalized \<Rightarrow>
          (let digits = TrimPrefix normalized ''+''
           in if length digits < 1 \<or> length digits > 20 then Inl ErrSMSInvalidRecipient
              else if list_ex (\<lambda>c. \<not> is_digit c) digits then Inl ErrSMSInvalidRecipient
              else Inr normalized))"

fun semi_octets :: "string \<Rightarrow> bytes option" where
  "semi_octets [] = Some []"
| "semi_octets [low] =
     (if \<not> is_digit low then None else Some [push_bit 4 0x0f OR char_digit low])"
| "semi_octets (low # high # digits) =
     (if \<not> is_digit low then None
      else if \<not> is_digit high then None
      else map_option (\<lambda>rest. (push_bit 4 (char_digit high) OR char_digit low) # rest) (semi_octets digits))"

definition encodeSemiOctets :: "string \<Rightarrow> sms_error + bytes" where
  "encodeSemiOctets digits =
     (if digits = [] then Inl ErrSMSInvalidRecipient
      else case semi_octets digits of None \<Rightarrow> Inl ErrSMSInvalidRecipient | Some octets \<Rightarrow> Inr octets)"

section \<open>UCS-2\<close>

fun encodeUCS2Units :: "u16 list \<Rightarrow> bytes" where
  "encodeUCS2Units [] = []"
| "encodeUCS2Units (u # us) = ucast (drop_bit 8 u) # ucast u # encodeUCS2Units us"

text \<open>The number of units in the next part: a surrogate pair is not divided.\<close>

definition ucs2_count :: "u16 list \<Rightarrow> nat \<Rightarrow> nat" where
  "ucs2_count units maximum =
     (let count = (if maximum > length units then length units else maximum)
      in if count < length units \<and> 0 < count \<and> high_surrogate (units ! (count - 1)) \<and>
            low_surrogate (units ! count)
         then count - 1 else count)"

text \<open>\<^term>\<open>None\<close> is a loop that does not end, as for \<^term>\<open>splitGSM7\<close>; the code passes 67.\<close>

function splitUCS2 :: "u16 list \<Rightarrow> nat \<Rightarrow> u16 list list option" where
  "splitUCS2 units maximum =
     (if units = [] then Some []
      else if ucs2_count units maximum = 0 then None
      else map_option (\<lambda>rest. take (ucs2_count units maximum) units # rest)
        (splitUCS2 (drop (ucs2_count units maximum) units) maximum))"
  by auto
termination by (relation "measure (\<lambda>(units, maximum). length units)") auto

declare splitUCS2.simps [simp del]

section \<open>SMS-SUBMIT\<close>

definition concatUDH :: "byte \<Rightarrow> nat \<Rightarrow> nat \<Rightarrow> bytes" where
  "concatUDH reference count sequence = [0x05, 0x00, 0x03, reference, of_nat count, of_nat sequence]"

text \<open>\<^verbatim>\<open>copy(dst, src)\<close>.\<close>

definition copy_over :: "bytes \<Rightarrow> bytes \<Rightarrow> bytes" where
  "copy_over dst src = take (length dst) src @ drop (length src) dst"

definition submit_result :: "bytes \<Rightarrow> string \<times> nat" where
  "submit_result pdu = (ToUpper (EncodeToString pdu), length pdu - 1)"

definition encodeSubmitPDUWithHeader ::
    "string \<Rightarrow> bytes option \<Rightarrow> bytes option \<Rightarrow> bytes \<Rightarrow> sms_error + string \<times> nat" where
  "encodeSubmitPDUWithHeader recipient gsm7Septets ucs2 userDataHeader =
     (let digits = TrimPrefix recipient ''+''
      in rbind (encodeSemiOctets digits) (\<lambda>address.
        let toa = (if HasPrefix recipient ''+'' then 0x91 else 0x81)
        in if userDataHeader \<noteq> [] \<and> unat (userDataHeader ! 0) + 1 \<noteq> length userDataHeader
           then Inl InvalidConcatHeader
           else
             let firstOctet = (if userDataHeader \<noteq> [] then 0x21 OR 0x40 else 0x21);
                 pdu = [0x00, firstOctet, 0x00, of_nat (length digits), toa] @ address @ [0x00]
             in case gsm7Septets of
                  Some septets \<Rightarrow>
                    (let headerSeptets = (if userDataHeader \<noteq> [] then (length userDataHeader * 8 + 6) div 7 else 0);
                         startBit = (if userDataHeader \<noteq> [] then headerSeptets * 7 else 0);
                         userDataLength = headerSeptets + length septets
                     in if userDataLength > 160 then Inl ErrSMSTooLong
                        else let packed = copy_over (packSeptets septets startBit) userDataHeader
                          in Inr (submit_result (pdu @ [0x00, of_nat userDataLength] @ packed)))
                | None \<Rightarrow>
                    (case ucs2 of
                       Some units \<Rightarrow>
                         (let userDataLength = length userDataHeader + length units
                          in if userDataLength > 140 then Inl ErrSMSTooLong
                             else Inr (submit_result (pdu @ [0x08, of_nat userDataLength] @ userDataHeader @ units)))
                     | None \<Rightarrow> Inl NoUserData)))"

definition encodeSubmitPDU :: "string \<Rightarrow> bytes option \<Rightarrow> bytes option \<Rightarrow> sms_error + string \<times> nat" where
  "encodeSubmitPDU recipient gsm7Septets ucs2 = encodeSubmitPDUWithHeader recipient gsm7Septets ucs2 []"

section \<open>Parts\<close>

definition quoted :: "string \<Rightarrow> string" where
  "quoted s = CHR 0x22 # s @ [CHR 0x22]"

text \<open>One part that is sent as a PDU.\<close>

definition pdu_part :: "string \<Rightarrow> sms_encoding \<Rightarrow> string \<times> nat \<Rightarrow> nat \<Rightarrow> nat \<Rightarrow> nat option \<Rightarrow> prepared_sms" where
  "pdu_part recipient enc pdu part count reference =
     \<lparr>ps_to = recipient, ps_encoding = enc, ps_payload = fst pdu,
      ps_prompt = ''AT+CMGS='' @ dec (snd pdu), ps_setup = [''AT+CMGF=0''], ps_tpduLength = snd pdu,
      ps_part = part, ps_total = count, ps_concatReference = reference\<rparr>"

text \<open>The text itself as payload: it is all ASCII, so that its bytes are its code points.\<close>

definition text_part :: "string \<Rightarrow> runes \<Rightarrow> prepared_sms" where
  "text_part recipient msg =
     \<lparr>ps_to = recipient, ps_encoding = SMSEncodingGSM7Text, ps_payload = List.map char_of msg,
      ps_prompt = ''AT+CMGS='' @ quoted recipient,
      ps_setup = [''AT+CMGF=1'', ''AT+CSCS='' @ quoted ''GSM'', ''AT+CSMP=49,167,0,0''], ps_tpduLength = 0,
      ps_part = 1, ps_total = 1, ps_concatReference = None\<rparr>"

text \<open>The loop over the segments: each is the user data of one alphabet.\<close>

definition segment_part ::
    "string \<Rightarrow> sms_encoding \<Rightarrow> byte \<Rightarrow> nat \<Rightarrow> nat \<times> bytes option \<times> bytes option \<Rightarrow> sms_error + prepared_sms" where
  "segment_part recipient enc reference count seg =
     (case seg of (index, gsm7Septets, ucs2) \<Rightarrow>
      rbind (encodeSubmitPDUWithHeader recipient gsm7Septets ucs2 (concatUDH reference count (index + 1)))
        (\<lambda>pdu. Inr (pdu_part recipient enc pdu (index + 1) count (Some (unat reference)))))"

text \<open>The splits are total for the maxima used (\<open>splitGSM7_terminates\<close>, \<open>splitUCS2_terminates\<close>), so
  that \<^term>\<open>the\<close> is their result.\<close>

definition prepareSMSPartsWithReference :: "string \<Rightarrow> runes \<Rightarrow> byte \<Rightarrow> sms_error + prepared_sms list" where
  "prepareSMSPartsWithReference recipient0 msg reference =
     rbind (normalizeSMSRecipient recipient0) (\<lambda>recipient.
       if msg = [] then Inl ErrSMSEmpty
       else if 0 \<in> set msg then Inl TextContainsNUL
       else case encodeGSM7 msg of
         Some septets \<Rightarrow>
           if length septets \<le> 160 \<and> canSendDirectGSM7 msg then Inr [text_part recipient msg]
           else if length septets \<le> 160 then
             rbind (encodeSubmitPDU recipient (Some septets) None)
               (\<lambda>pdu. Inr [pdu_part recipient SMSEncodingGSM7PDU pdu 1 1 None])
           else
             (let segments = the (splitGSM7 septets 153)
              in if length segments > 255 then Inl (TooManyParts (length segments))
                 else collect (segment_part recipient SMSEncodingGSM7PDU reference (length segments))
                   (enumerate 0 (List.map (\<lambda>segment. (Some segment, None)) segments)))
       | None \<Rightarrow>
           (let units = utf16_Encode msg
            in if length units \<le> 70 then
                 rbind (encodeSubmitPDU recipient None (Some (encodeUCS2Units units)))
                   (\<lambda>pdu. Inr [pdu_part recipient SMSEncodingUCS2PDU pdu 1 1 None])
               else
                 let segments = the (splitUCS2 units 67)
                 in if length segments > 255 then Inl (TooManyParts (length segments))
                    else collect (segment_part recipient SMSEncodingUCS2PDU reference (length segments))
                      (enumerate 0 (List.map (\<lambda>segment. (None, Some (encodeUCS2Units segment))) segments))))"

definition prepareSMSParts :: "byte option \<Rightarrow> string \<Rightarrow> runes \<Rightarrow> sms_error + prepared_sms list" where
  "prepareSMSParts rnd recipient msg =
     (case prepareSMSPartsWithReference recipient msg 0 of
        Inl e \<Rightarrow> Inl e
      | Inr parts \<Rightarrow>
          if length parts \<le> 1 then Inr parts
          else case rnd of
            None \<Rightarrow> Inl ReferenceUnavailable
          | Some reference \<Rightarrow> prepareSMSPartsWithReference recipient msg reference)"

definition prepareSMS :: "string \<Rightarrow> runes \<Rightarrow> sms_error + prepared_sms" where
  "prepareSMS recipient msg =
     rbind (prepareSMSPartsWithReference recipient msg 0) (\<lambda>parts.
       if length parts \<noteq> 1 then Inl (TooManyParts (length parts)) else Inr (parts ! 0))"

definition part_tpdu :: "runes \<Rightarrow> prepared_sms \<Rightarrow> sms_error + submit_tpdu" where
  "part_tpdu msg part =
     rbind (if ps_encoding part = SMSEncodingGSM7Text then
              (case encodeGSM7 msg of None \<Rightarrow> Inl NotGSM7 | Some septets \<Rightarrow>
                 rbind (encodeSubmitPDU (ps_to part) (Some septets) None)
                   (\<lambda>(pduHex, _). Inr (pduHex, SMSEncodingGSM7PDU)))
            else Inr (ps_payload part, ps_encoding part))
       (\<lambda>(pduHex, enc).
         case DecodeString pduHex of
           None \<Rightarrow> Inl EncodedPDUInvalid
         | Some pdu \<Rightarrow>
             if length pdu < 2 then Inl EncodedPDUInvalid
             else if 1 + unat (pdu ! 0) \<ge> length pdu then Inl NoTPDU
             else Inr \<lparr>To = ps_to part, Encoding = enc, TPDU = drop (1 + unat (pdu ! 0)) pdu,
               Part = ps_part part, Total = ps_total part, ConcatReference = ps_concatReference part\<rparr>)"

definition PrepareSMSSubmitTPDUs :: "byte option \<Rightarrow> string \<Rightarrow> runes \<Rightarrow> sms_error + submit_tpdu list" where
  "PrepareSMSSubmitTPDUs rnd recipient msg =
     rbind (prepareSMSParts rnd recipient msg) (collect (part_tpdu msg))"

section \<open>Splitting UCS-2\<close>

text \<open>Units mean the text they encode.\<close>

definition units_mean :: "u16 list \<Rightarrow> runes \<Rightarrow> bool" where
  "units_mean units t \<longleftrightarrow> list_all scalar t \<and> units = utf16_Encode t"

definition between_pair :: "u16 list \<Rightarrow> nat \<Rightarrow> bool" where
  "between_pair units c \<longleftrightarrow> 0 < c \<and> c < length units \<and> high_surrogate (units ! (c - 1)) \<and> low_surrogate (units ! c)"

lemma ucs2_count_between: "\<not> between_pair units (ucs2_count units maximum)"
proof -
  define n where "n = (if maximum > length units then length units else maximum)"
  have c: "ucs2_count units maximum = (if n < length units \<and> 0 < n \<and> high_surrogate (units ! (n - 1)) \<and>
      low_surrogate (units ! n) then n - 1 else n)"
    by (simp add: ucs2_count_def Let_def n_def)
  show ?thesis
  proof (cases "n < length units \<and> 0 < n \<and> high_surrogate (units ! (n - 1)) \<and> low_surrogate (units ! n)")
    case True
    then have "ucs2_count units maximum = n - 1" using c by simp
    moreover have "\<not> low_surrogate (units ! (n - 1))"
      using True by (auto simp: high_surrogate_def low_surrogate_def)
    ultimately show ?thesis by (simp add: between_pair_def)
  next
    case False
    then have "ucs2_count units maximum = n" unfolding c by (rule if_not_P)
    then show ?thesis using False by (simp add: between_pair_def)
  qed
qed

lemma units_cut:
  "list_all scalar t \<Longrightarrow> \<not> between_pair (utf16_Encode t) c \<Longrightarrow>
   \<exists>t1 t2. take c (utf16_Encode t) = utf16_Encode t1 \<and> drop c (utf16_Encode t) = utf16_Encode t2 \<and> t = t1 @ t2"
proof (induction t arbitrary: c)
  case (Cons r t)
  let ?us = "utf16_Encode t"
  have e: "utf16_Encode (r # s) = utf16_units r @ utf16_Encode s" for s by (simp add: utf16_Encode_def)
  have sc: "scalar r" "list_all scalar t" using Cons.prems(1) by simp_all
  show ?case
  proof (cases "c = 0")
    case True
    show ?thesis by (rule exI [of _ "[]"], rule exI [of _ "r # t"]) (simp add: True utf16_Encode_def)
  next
    case False
    from sc(1) show ?thesis
    proof (cases rule: scalar_units)
      case (one u)
      obtain c' where c: "c = Suc c'" using False by (cases c) auto
      have "\<not> between_pair ?us c'"
        using Cons.prems(2) by (cases c') (auto simp: between_pair_def e one(1) c)
      from Cons.IH [OF sc(2) this] obtain t1 t2
        where t: "take c' ?us = utf16_Encode t1" "drop c' ?us = utf16_Encode t2" "t = t1 @ t2" by blast
      show ?thesis
      proof (rule exI [of _ "r # t1"], rule exI [of _ t2], intro conjI)
        show "r # t = (r # t1) @ t2" by (simp add: t(3))
      qed (simp_all add: e one(1) c t(1,2))
    next
      case (two u v)
      have "c \<noteq> 1" using Cons.prems(2) two by (auto simp: between_pair_def e)
      then obtain c' where c: "c = Suc (Suc c')" using False by (cases c; cases "c - 1") auto
      have "\<not> between_pair ?us c'"
        using Cons.prems(2) by (cases c') (auto simp: between_pair_def e two(1) c)
      from Cons.IH [OF sc(2) this] obtain t1 t2
        where t: "take c' ?us = utf16_Encode t1" "drop c' ?us = utf16_Encode t2" "t = t1 @ t2" by blast
      show ?thesis
      proof (rule exI [of _ "r # t1"], rule exI [of _ t2], intro conjI)
        show "r # t = (r # t1) @ t2" by (simp add: t(3))
      qed (simp_all add: e two(1) c t(1,2))
    qed
  qed
qed (simp add: utf16_Encode_def)

lemma utf16_units_not_Nil [simp]: "utf16_units r \<noteq> []"
  by (simp add: utf16_units_def)

interpretation ucs: part_split ucs2_count splitUCS2 units_mean
proof unfold_locales
  fix units :: "u16 list" and maximum t
  show "splitUCS2 units maximum =
      (if units = [] then Some [] else if ucs2_count units maximum = 0 then None
       else map_option (\<lambda>rest. take (ucs2_count units maximum) units # rest)
         (splitUCS2 (drop (ucs2_count units maximum) units) maximum))"
    by (rule splitUCS2.simps)
  show "ucs2_count units maximum \<le> maximum" by (simp add: ucs2_count_def Let_def)
  show "0 < ucs2_count units maximum" if "2 \<le> maximum" "units \<noteq> []"
    using that by (auto simp: ucs2_count_def Let_def)
  show "maximum \<le> Suc (ucs2_count units maximum) \<or> ucs2_count units maximum = length units"
    by (auto simp: ucs2_count_def Let_def)
  show "t = []" if "units_mean [] t"
    using that by (cases t) (auto simp: units_mean_def utf16_Encode_def)
  assume m: "units_mean units t"
  from units_cut [of t "ucs2_count units maximum"] m ucs2_count_between [of units maximum]
  show "\<exists>t1 t2. units_mean (take (ucs2_count units maximum) units) t1 \<and>
      units_mean (drop (ucs2_count units maximum) units) t2 \<and> t = t1 @ t2"
    by (auto simp: units_mean_def)
qed

lemmas splitUCS2_terminates = ucs.split_terminates

section \<open>The recipient\<close>

definition recipient_digits :: "string \<Rightarrow> string" where
  "recipient_digits r = TrimPrefix r ''+''"

definition recipient_ok :: "string \<Rightarrow> bool" where
  "recipient_ok r \<longleftrightarrow> recipient_digits r \<noteq> [] \<and> length (recipient_digits r) \<le> 20 \<and>
     list_all is_digit (recipient_digits r)"

definition type_of_address :: "string \<Rightarrow> byte" where
  "type_of_address r = (if HasPrefix r ''+'' then 0x91 else 0x81)"

lemma normalize_ok: "normalizeSMSRecipient v = Inr r \<Longrightarrow> recipient_ok r"
  by (auto simp: normalizeSMSRecipient_def recipient_ok_def recipient_digits_def Let_def list_all_iff list_ex_iff
      split: option.splits if_splits)

lemma recipient_prefix: "r = (if HasPrefix r ''+'' then ''+'' else []) @ recipient_digits r"
proof (cases "HasPrefix r ''+''")
  case True
  then have "take 1 r = ''+''" by (simp add: HasPrefix_def)
  then have "''+'' @ drop 1 r = r" by (metis append_take_drop_id)
  then show ?thesis using True by (simp add: recipient_digits_def TrimPrefix_def)
qed (simp add: recipient_digits_def TrimPrefix_def)

lemma semi_octets_total:
  "list_all is_digit ds \<Longrightarrow> \<exists>octets. semi_octets ds = Some octets \<and> length octets = (length ds + 1) div 2"
  by (induction ds rule: semi_octets.induct) auto

section \<open>The units that are sent\<close>

definition submit_octets :: "string \<Rightarrow> bytes" where
  "submit_octets r = the (semi_octets (recipient_digits r))"

lemma encodeSemiOctets_ok: "recipient_ok r \<Longrightarrow> encodeSemiOctets (TrimPrefix r ''+'') = Inr (submit_octets r) \<and>
    length (submit_octets r) = (length (recipient_digits r) + 1) div 2 \<and>
    semi_octets (recipient_digits r) = Some (submit_octets r)"
  using semi_octets_total [of "recipient_digits r"]
  by (auto simp: encodeSemiOctets_def recipient_ok_def submit_octets_def recipient_digits_def)

text \<open>A SUBMIT unit with a coding scheme, a length and user data; \<^term>\<open>udhi\<close> tells whether they begin with
  a header.\<close>

definition submit_unit :: "string \<Rightarrow> bool \<Rightarrow> byte \<Rightarrow> nat \<Rightarrow> bytes \<Rightarrow> bytes" where
  "submit_unit r udhi dcs udl ud =
     [if udhi then 0x61 else 0x21, 0x00, of_nat (length (recipient_digits r)), type_of_address r] @
     submit_octets r @ [0x00, dcs, of_nat udl] @ ud"

definition header_septets :: "bytes \<Rightarrow> nat" where
  "header_septets udh = (if udh \<noteq> [] then (length udh * 8 + 6) div 7 else 0)"

definition gsm7_user_data :: "bytes \<Rightarrow> bytes \<Rightarrow> bytes" where
  "gsm7_user_data udh septets = copy_over (packSeptets septets (header_septets udh * 7)) udh"

lemma first_octets: "(0x21 OR 0x40 :: byte) = 0x61"
  by simp

lemma encode_gsm7_unit:
  assumes "recipient_ok r" "udh = [] \<or> unat (udh ! 0) + 1 = length udh"
    and "header_septets udh + length septets \<le> 160"
  shows "encodeSubmitPDUWithHeader r (Some septets) u udh =
    Inr (submit_result (0 # submit_unit r (udh \<noteq> []) 0x00 (header_septets udh + length septets)
      (gsm7_user_data udh septets)))"
  using encodeSemiOctets_ok [OF assms(1)] assms(2,3)
  by (auto simp: encodeSubmitPDUWithHeader_def Let_def submit_unit_def gsm7_user_data_def header_septets_def
      type_of_address_def recipient_digits_def)

lemma encode_ucs2_unit:
  assumes "recipient_ok r" "udh = [] \<or> unat (udh ! 0) + 1 = length udh" "length udh + length units \<le> 140"
  shows "encodeSubmitPDUWithHeader r None (Some units) udh =
    Inr (submit_result (0 # submit_unit r (udh \<noteq> []) 0x08 (length udh + length units) (udh @ units)))"
  using encodeSemiOctets_ok [OF assms(1)] assms(2,3)
  by (auto simp: encodeSubmitPDUWithHeader_def Let_def submit_unit_def type_of_address_def recipient_digits_def)

lemma part_tpdu_pdu:
  assumes "ps_encoding part \<noteq> SMSEncodingGSM7Text" "ps_payload part = fst (submit_result (0 # tpdu))" "tpdu \<noteq> []"
  shows "part_tpdu msg part = Inr \<lparr>To = ps_to part, Encoding = ps_encoding part, TPDU = tpdu,
    Part = ps_part part, Total = ps_total part, ConcatReference = ps_concatReference part\<rparr>"
proof -
  have d: "DecodeString (ps_payload part) = Some (0 # tpdu)"
    by (simp add: assms(2) submit_result_def Decode_Encode(2) del: EncodeToString.simps)
  show ?thesis using assms(1,3) by (cases tpdu) (simp_all add: part_tpdu_def d)
qed

lemma submit_unit_not_Nil [simp]: "submit_unit r udhi dcs udl ud \<noteq> []"
  by (simp add: submit_unit_def)

text \<open>The unit of segment \<^term>\<open>i\<close> of \<^term>\<open>n\<close> in either alphabet.\<close>

definition gsm7_tpdu :: "string \<Rightarrow> byte \<Rightarrow> nat \<Rightarrow> nat \<times> bytes \<Rightarrow> submit_tpdu" where
  "gsm7_tpdu r reference n ix = (case ix of (i, seg) \<Rightarrow>
     \<lparr>To = r, Encoding = SMSEncodingGSM7PDU,
      TPDU = submit_unit r True 0x00 (7 + length seg) (gsm7_user_data (concatUDH reference n (i + 1)) seg),
      Part = i + 1, Total = n, ConcatReference = Some (unat reference)\<rparr>)"

definition ucs2_tpdu :: "string \<Rightarrow> byte \<Rightarrow> nat \<Rightarrow> nat \<times> u16 list \<Rightarrow> submit_tpdu" where
  "ucs2_tpdu r reference n ix = (case ix of (i, seg) \<Rightarrow>
     \<lparr>To = r, Encoding = SMSEncodingUCS2PDU,
      TPDU = submit_unit r True 0x08 (6 + 2 * length seg) (concatUDH reference n (i + 1) @ encodeUCS2Units seg),
      Part = i + 1, Total = n, ConcatReference = Some (unat reference)\<rparr>)"

lemma concatUDH_simps [simp]: "concatUDH reference n i \<noteq> []" "unat (concatUDH reference n i ! 0) = 5"
  "length (concatUDH reference n i) = 6" "header_septets (concatUDH reference n i) = 7"
  by (simp_all add: concatUDH_def header_septets_def)

lemma length_encodeUCS2Units [simp]: "length (encodeUCS2Units us) = 2 * length us"
  by (induction us) simp_all

lemma segment_gsm7:
  assumes "recipient_ok r" "length seg \<le> 153"
  shows "rbind (segment_part r SMSEncodingGSM7PDU reference n (i, Some seg, None)) (part_tpdu msg) =
    Inr (gsm7_tpdu r reference n (i, seg))"
    "\<exists>p. segment_part r SMSEncodingGSM7PDU reference n (i, Some seg, None) = Inr p"
proof -
  have e: "encodeSubmitPDUWithHeader r (Some seg) None (concatUDH reference n (i + 1)) =
      Inr (submit_result (0 # submit_unit r True 0x00 (7 + length seg)
        (gsm7_user_data (concatUDH reference n (i + 1)) seg)))"
    using encode_gsm7_unit [OF assms(1), of "concatUDH reference n (i + 1)" seg] assms(2) by simp
  then show "\<exists>p. segment_part r SMSEncodingGSM7PDU reference n (i, Some seg, None) = Inr p"
    by (simp add: segment_part_def)
  show "rbind (segment_part r SMSEncodingGSM7PDU reference n (i, Some seg, None)) (part_tpdu msg) =
      Inr (gsm7_tpdu r reference n (i, seg))"
    using e by (simp add: segment_part_def pdu_part_def gsm7_tpdu_def
      part_tpdu_pdu [where tpdu = "submit_unit r True 0x00 (7 + length seg)
        (gsm7_user_data (concatUDH reference n (i + 1)) seg)"])
qed

lemma segment_ucs2:
  assumes "recipient_ok r" "length seg \<le> 67"
  shows "rbind (segment_part r SMSEncodingUCS2PDU reference n (i, None, Some (encodeUCS2Units seg))) (part_tpdu msg) =
    Inr (ucs2_tpdu r reference n (i, seg))"
    "\<exists>p. segment_part r SMSEncodingUCS2PDU reference n (i, None, Some (encodeUCS2Units seg)) = Inr p"
proof -
  have e: "encodeSubmitPDUWithHeader r None (Some (encodeUCS2Units seg)) (concatUDH reference n (i + 1)) =
      Inr (submit_result (0 # submit_unit r True 0x08 (6 + 2 * length seg)
        (concatUDH reference n (i + 1) @ encodeUCS2Units seg)))"
    using encode_ucs2_unit [OF assms(1), of "concatUDH reference n (i + 1)" "encodeUCS2Units seg"] assms(2) by simp
  then show "\<exists>p. segment_part r SMSEncodingUCS2PDU reference n (i, None, Some (encodeUCS2Units seg)) = Inr p"
    by (simp add: segment_part_def)
  show "rbind (segment_part r SMSEncodingUCS2PDU reference n (i, None, Some (encodeUCS2Units seg))) (part_tpdu msg) =
      Inr (ucs2_tpdu r reference n (i, seg))"
    using e by (simp add: segment_part_def pdu_part_def ucs2_tpdu_def
      part_tpdu_pdu [where tpdu = "submit_unit r True 0x08 (6 + 2 * length seg)
        (concatUDH reference n (i + 1) @ encodeUCS2Units seg)"])
qed

lemma collect_two:
  assumes "\<And>x. x \<in> set xs \<Longrightarrow> \<exists>p. f x = Inr p" "\<And>x. x \<in> set xs \<Longrightarrow> rbind (f x) g = Inr (h x)"
  obtains ps where "collect f xs = Inr ps" "length ps = length xs" "collect g ps = Inr (List.map h xs)"
proof -
  have "\<exists>ps. collect f xs = Inr ps \<and> length ps = length xs \<and> collect g ps = Inr (List.map h xs)"
    using assms
  proof (induction xs)
    case (Cons x xs)
    then obtain p where p: "f x = Inr p" by auto
    then have "g p = Inr (h x)" using Cons.prems(2) [of x] by simp
    moreover obtain ps where "collect f xs = Inr ps" "length ps = length xs" "collect g ps = Inr (List.map h xs)"
      using Cons.IH Cons.prems by auto
    ultimately show ?case using p by (intro exI [of _ "p # ps"]) simp
  qed simp
  then show thesis using that by blast
qed

lemma parts_needed:
  assumes "concat parts = units" "list_all (\<lambda>p. p \<noteq> [] \<and> length p \<le> m) parts"
  shows "length units \<le> m * length parts"
  using assms
proof (induction parts arbitrary: units)
  case (Cons p parts)
  have "length (concat parts) \<le> m * length parts" using Cons.IH [OF refl] Cons.prems(2) by simp
  then show ?case using Cons.prems by auto
qed simp

lemma prepared_parts:
  assumes "\<And>rf. \<exists>ps. prepareSMSPartsWithReference v msg rf = Inr ps \<and> length ps = n \<and>
      collect (part_tpdu msg) ps = Inr (h rf)" and "1 < n"
  shows "PrepareSMSSubmitTPDUs (Some reference) v msg = Inr (h reference)"
proof -
  obtain ps0 ps where "prepareSMSPartsWithReference v msg 0 = Inr ps0" "length ps0 = n"
    "prepareSMSPartsWithReference v msg reference = Inr ps" "collect (part_tpdu msg) ps = Inr (h reference)"
    using assms(1) [of 0] assms(1) [of reference] by blast
  then show ?thesis using assms(2) by (simp add: PrepareSMSSubmitTPDUs_def prepareSMSParts_def)
qed

text \<open>The units of a GSM-7 text: one without a header, or one for each part.\<close>

lemma prepare_gsm7:
  assumes r: "normalizeSMSRecipient v = Inr r" and ne: "msg \<noteq> []" "0 \<notin> set msg"
    and enc: "encodeGSM7 msg = Some septets"
  shows "length septets \<le> 160 \<Longrightarrow> PrepareSMSSubmitTPDUs rnd v msg =
      Inr [\<lparr>To = r, Encoding = SMSEncodingGSM7PDU,
        TPDU = submit_unit r False 0x00 (length septets) (gsm7_user_data [] septets),
        Part = 1, Total = 1, ConcatReference = None\<rparr>]"
    and "160 < length septets \<Longrightarrow> splitGSM7 septets 153 = Some segments \<Longrightarrow> length segments \<le> 255 \<Longrightarrow>
      PrepareSMSSubmitTPDUs (Some reference) v msg =
      Inr (List.map (gsm7_tpdu r reference (length segments)) (enumerate 0 segments))"
proof -
  note ok = normalize_ok [OF r]
  have e1: "encodeSubmitPDU r (Some septets) None = Inr (submit_result (0 # submit_unit r False 0x00
      (length septets) (gsm7_user_data [] septets)))" if "length septets \<le> 160"
    using encode_gsm7_unit [OF ok, of "[]" septets None] that by (simp add: encodeSubmitPDU_def header_septets_def)
  show "PrepareSMSSubmitTPDUs rnd v msg = Inr [\<lparr>To = r, Encoding = SMSEncodingGSM7PDU,
        TPDU = submit_unit r False 0x00 (length septets) (gsm7_user_data [] septets),
        Part = 1, Total = 1, ConcatReference = None\<rparr>]" if l: "length septets \<le> 160"
  proof (cases "canSendDirectGSM7 msg")
    case True
    then have "prepareSMSParts rnd v msg = Inr [text_part r msg]"
      using r ne enc l by (simp add: prepareSMSParts_def prepareSMSPartsWithReference_def)
    moreover have "DecodeString (fst (submit_result (0 # tpdu))) = Some (0 # tpdu)" for tpdu
      by (simp add: submit_result_def Decode_Encode(2) del: EncodeToString.simps)
    ultimately show ?thesis
      using enc e1 [OF l] submit_unit_not_Nil
      by (simp add: PrepareSMSSubmitTPDUs_def part_tpdu_def text_part_def case_prod_beta Suc_le_eq)
  next
    case False
    have parts: "prepareSMSParts rnd v msg = Inr [pdu_part r SMSEncodingGSM7PDU (submit_result (0 # submit_unit r False 0x00
        (length septets) (gsm7_user_data [] septets))) 1 1 None]"
      using r ne enc l False e1 [OF l] by (simp add: prepareSMSParts_def prepareSMSPartsWithReference_def)
    show ?thesis
      by (simp add: PrepareSMSSubmitTPDUs_def parts pdu_part_def
        part_tpdu_pdu [where tpdu = "submit_unit r False 0x00 (length septets) (gsm7_user_data [] septets)"])
  qed
  assume l: "160 < length septets" and sp: "splitGSM7 septets 153 = Some segments" and n: "length segments \<le> 255"
  note parts = gsm.split_parts [OF sp]
  have "1 < length segments" using parts_needed [of segments septets 153] parts l by (cases "length segments \<le> 1") auto
  have short: "length seg \<le> 153" if "(i, seg) \<in> set (enumerate 0 segments)" for i seg
    using that parts by (auto simp: list_all_length in_set_enumerate_eq)
  have "\<exists>ps. prepareSMSPartsWithReference v msg rf = Inr ps \<and> length ps = length segments \<and>
      collect (part_tpdu msg) ps = Inr (List.map (gsm7_tpdu r rf (length segments)) (enumerate 0 segments))" for rf
  proof -
    obtain ps where "collect (segment_part r SMSEncodingGSM7PDU rf (length segments) \<circ> (\<lambda>(i, seg). (i, Some seg, None)))
        (enumerate 0 segments) = Inr ps" "length ps = length (enumerate 0 segments)"
      "collect (part_tpdu msg) ps = Inr (List.map (gsm7_tpdu r rf (length segments)) (enumerate 0 segments))"
      by (rule collect_two [where f = "segment_part r SMSEncodingGSM7PDU rf (length segments) \<circ> (\<lambda>(i, seg). (i, Some seg, None))"
          and xs = "enumerate 0 segments" and g = "part_tpdu msg" and h = "gsm7_tpdu r rf (length segments)"])
        (auto simp: segment_gsm7 [OF ok] short)
    then show ?thesis
      using r ne enc l sp n by (simp add: prepareSMSPartsWithReference_def enumerate_map collect_comp)
  qed
  then show "PrepareSMSSubmitTPDUs (Some reference) v msg =
      Inr (List.map (gsm7_tpdu r reference (length segments)) (enumerate 0 segments))"
    by (rule prepared_parts) fact
qed

text \<open>The units of any other text.\<close>

lemma prepare_ucs2:
  assumes r: "normalizeSMSRecipient v = Inr r" and ne: "msg \<noteq> []" "0 \<notin> set msg"
    and enc: "encodeGSM7 msg = None"
  shows "length (utf16_Encode msg) \<le> 70 \<Longrightarrow> PrepareSMSSubmitTPDUs rnd v msg =
      Inr [\<lparr>To = r, Encoding = SMSEncodingUCS2PDU,
        TPDU = submit_unit r False 0x08 (2 * length (utf16_Encode msg)) (encodeUCS2Units (utf16_Encode msg)),
        Part = 1, Total = 1, ConcatReference = None\<rparr>]"
    and "70 < length (utf16_Encode msg) \<Longrightarrow> splitUCS2 (utf16_Encode msg) 67 = Some segments \<Longrightarrow>
      length segments \<le> 255 \<Longrightarrow> PrepareSMSSubmitTPDUs (Some reference) v msg =
      Inr (List.map (ucs2_tpdu r reference (length segments)) (enumerate 0 segments))"
proof -
  note ok = normalize_ok [OF r]
  show "PrepareSMSSubmitTPDUs rnd v msg = Inr [\<lparr>To = r, Encoding = SMSEncodingUCS2PDU,
        TPDU = submit_unit r False 0x08 (2 * length (utf16_Encode msg)) (encodeUCS2Units (utf16_Encode msg)),
        Part = 1, Total = 1, ConcatReference = None\<rparr>]" if l: "length (utf16_Encode msg) \<le> 70"
  proof -
    let ?tpdu = "submit_unit r False 0x08 (2 * length (utf16_Encode msg)) (encodeUCS2Units (utf16_Encode msg))"
    have "encodeSubmitPDU r None (Some (encodeUCS2Units (utf16_Encode msg))) = Inr (submit_result (0 # ?tpdu))"
      using encode_ucs2_unit [OF ok, of "[]" "encodeUCS2Units (utf16_Encode msg)"] l by (simp add: encodeSubmitPDU_def)
    then have parts: "prepareSMSParts rnd v msg = Inr [pdu_part r SMSEncodingUCS2PDU (submit_result (0 # ?tpdu)) 1 1 None]"
      using r ne enc l by (simp add: prepareSMSParts_def prepareSMSPartsWithReference_def)
    show ?thesis
      by (simp add: PrepareSMSSubmitTPDUs_def parts pdu_part_def part_tpdu_pdu [where tpdu = ?tpdu])
  qed
  assume l: "70 < length (utf16_Encode msg)" and sp: "splitUCS2 (utf16_Encode msg) 67 = Some segments"
    and n: "length segments \<le> 255"
  note parts = ucs.split_parts [OF sp]
  have "1 < length segments"
    using parts_needed [of segments "utf16_Encode msg" 67] parts l by (cases "length segments \<le> 1") auto
  have short: "length seg \<le> 67" if "(i, seg) \<in> set (enumerate 0 segments)" for i seg
    using that parts by (auto simp: list_all_length in_set_enumerate_eq)
  have "\<exists>ps. prepareSMSPartsWithReference v msg rf = Inr ps \<and> length ps = length segments \<and>
      collect (part_tpdu msg) ps = Inr (List.map (ucs2_tpdu r rf (length segments)) (enumerate 0 segments))" for rf
  proof -
    let ?seg = "\<lambda>(i, seg). (i, None, Some (encodeUCS2Units seg))"
    obtain ps where "collect (segment_part r SMSEncodingUCS2PDU rf (length segments) \<circ> ?seg)
        (enumerate 0 segments) = Inr ps" "length ps = length (enumerate 0 segments)"
      "collect (part_tpdu msg) ps = Inr (List.map (ucs2_tpdu r rf (length segments)) (enumerate 0 segments))"
      by (rule collect_two [where f = "segment_part r SMSEncodingUCS2PDU rf (length segments) \<circ> ?seg"
          and xs = "enumerate 0 segments" and g = "part_tpdu msg" and h = "ucs2_tpdu r rf (length segments)"])
        (auto simp: segment_ucs2 [OF ok] short)
    then show ?thesis
      using r ne enc l sp n by (simp add: prepareSMSPartsWithReference_def Let_def enumerate_map collect_comp)
  qed
  then show "PrepareSMSSubmitTPDUs (Some reference) v msg =
      Inr (List.map (ucs2_tpdu r reference (length segments)) (enumerate 0 segments))"
    by (rule prepared_parts) fact
qed

text \<open>What a successful preparation has returned.\<close>

lemma prepared_Inl: "prepareSMSPartsWithReference v msg 0 = Inl e \<Longrightarrow> PrepareSMSSubmitTPDUs rnd v msg = Inl e"
  by (simp add: PrepareSMSSubmitTPDUs_def prepareSMSParts_def)

lemma prepared_no_reference:
  assumes "PrepareSMSSubmitTPDUs None v msg = Inr tpdus" "PrepareSMSSubmitTPDUs (Some 0) v msg = Inr tpdus'"
  shows "length tpdus' \<le> 1"
proof -
  obtain ps where ps: "prepareSMSPartsWithReference v msg 0 = Inr ps" "length ps \<le> 1"
    using assms(1) by (auto simp: PrepareSMSSubmitTPDUs_def prepareSMSParts_def split: sum.splits if_splits)
  then have "collect (part_tpdu msg) ps = Inr tpdus'"
    using assms(2) by (simp add: PrepareSMSSubmitTPDUs_def prepareSMSParts_def)
  then have "list_all2 (\<lambda>p t. part_tpdu msg p = Inr t) ps tpdus'" by (simp only: collect_Inr_iff)
  then have "length ps = length tpdus'" by (rule list_all2_lengthD)
  with ps(2) show ?thesis by simp
qed

lemma prepare_cases:
  assumes p: "PrepareSMSSubmitTPDUs rnd v msg = Inr tpdus"
  obtains r where "normalizeSMSRecipient v = Inr r" "recipient_ok r" "msg \<noteq> []" "0 \<notin> set msg"
    and "(\<exists>septets. encodeGSM7 msg = Some septets \<and> length septets \<le> 160 \<and>
        tpdus = [\<lparr>To = r, Encoding = SMSEncodingGSM7PDU,
          TPDU = submit_unit r False 0x00 (length septets) (gsm7_user_data [] septets),
          Part = 1, Total = 1, ConcatReference = None\<rparr>]) \<or>
      (\<exists>septets segments reference. encodeGSM7 msg = Some septets \<and> splitGSM7 septets 153 = Some segments \<and>
        1 < length segments \<and> length segments \<le> 255 \<and> rnd = Some reference \<and>
        tpdus = List.map (gsm7_tpdu r reference (length segments)) (enumerate 0 segments)) \<or>
      (encodeGSM7 msg = None \<and> length (utf16_Encode msg) \<le> 70 \<and>
        tpdus = [\<lparr>To = r, Encoding = SMSEncodingUCS2PDU,
          TPDU = submit_unit r False 0x08 (2 * length (utf16_Encode msg)) (encodeUCS2Units (utf16_Encode msg)),
          Part = 1, Total = 1, ConcatReference = None\<rparr>]) \<or>
      (\<exists>segments reference. encodeGSM7 msg = None \<and> splitUCS2 (utf16_Encode msg) 67 = Some segments \<and>
        1 < length segments \<and> length segments \<le> 255 \<and> rnd = Some reference \<and>
        tpdus = List.map (ucs2_tpdu r reference (length segments)) (enumerate 0 segments))"
proof -
  obtain parts0 where p0: "prepareSMSPartsWithReference v msg 0 = Inr parts0"
    using p prepared_Inl [of v msg _ rnd] by (cases "prepareSMSPartsWithReference v msg 0") auto
  then obtain r where r: "normalizeSMSRecipient v = Inr r" and ne: "msg \<noteq> []" "0 \<notin> set msg"
    by (auto simp: prepareSMSPartsWithReference_def rbind_Inr_iff split: if_splits)
  have ref: "\<exists>reference. rnd = Some reference" if "PrepareSMSSubmitTPDUs (Some 0) v msg = Inr ts" "1 < length ts" for ts
    using prepared_no_reference [OF _ that(1)] p that(2) by (cases rnd) auto
  show thesis
  proof (cases "encodeGSM7 msg")
    case (Some septets)
    show ?thesis
    proof (cases "length septets \<le> 160")
      case True
      then show ?thesis
        using that [OF r normalize_ok [OF r] ne] Some p prepare_gsm7(1) [OF r ne Some True, of rnd] by simp
    next
      case False
      obtain segments where sp: "splitGSM7 septets 153 = Some segments" using splitGSM7_terminates [of 153] by auto
      have n: "length segments \<le> 255"
        using p0 r ne Some False sp by (auto simp: prepareSMSPartsWithReference_def Let_def split: if_splits)
      have l: "160 < length septets" using False by simp
      have one: "1 < length segments"
        using parts_needed [of segments septets 153] gsm.split_parts [OF sp] l by (cases "length segments \<le> 1") auto
      note q = prepare_gsm7(2) [OF r ne Some l sp n]
      obtain reference where rf: "rnd = Some reference" using ref [OF q] one by auto
      have "tpdus = List.map (gsm7_tpdu r reference (length segments)) (enumerate 0 segments)"
        using p q [of reference] by (simp add: rf)
      then show ?thesis using that [OF r normalize_ok [OF r] ne] Some sp one n rf by simp
    qed
  next
    case None
    show ?thesis
    proof (cases "length (utf16_Encode msg) \<le> 70")
      case True
      then show ?thesis
        using that [OF r normalize_ok [OF r] ne] None p prepare_ucs2(1) [OF r ne None True, of rnd] by simp
    next
      case False
      obtain segments where sp: "splitUCS2 (utf16_Encode msg) 67 = Some segments"
        using splitUCS2_terminates [of 67] by auto
      have n: "length segments \<le> 255"
        using p0 r ne None False sp by (auto simp: prepareSMSPartsWithReference_def Let_def split: if_splits)
      have l: "70 < length (utf16_Encode msg)" using False by simp
      have one: "1 < length segments"
        using parts_needed [of segments "utf16_Encode msg" 67] ucs.split_parts [OF sp] l
        by (cases "length segments \<le> 1") auto
      note q = prepare_ucs2(2) [OF r ne None l sp n]
      obtain reference where rf: "rnd = Some reference" using ref [OF q] one by auto
      have "tpdus = List.map (ucs2_tpdu r reference (length segments)) (enumerate 0 segments)"
        using p q [of reference] by (simp add: rf)
      then show ?thesis using that [OF r normalize_ok [OF r] ne] None sp one n rf by simp
    qed
  qed
qed

end
