(* ===== verification/SMS_Decode.thy ===== *)
theory SMS_Decode
  imports SMS_Submit
begin

text \<open>
  Reading an SMS transfer unit (\<^verbatim>\<open>internal/device/sms_pdu.go\<close>, second half): the cursor, the addresses,
  the user data with its header, the alphabets and their fallbacks, the timestamps and the three kinds
  of messages.

  The code returns the message, filled as far as it got, together with the error; so do the
  definitions.  A parameter record stands for the code that is not part of the repository: the national
  GSM-7 tables and the GB18030 decoder, and the tables of printable and of Han characters.
\<close>

section \<open>Types\<close>

text \<open>\<^verbatim>\<open>Unset\<close> constructors are the zero value of the string types.\<close>

datatype sms_storage_status =
    SMSStatusReceivedUnread | SMSStatusReceivedRead | SMSStatusStoredUnsent | SMSStatusStoredSent
  | SMSStatusUnknown | SMSStatusUnset

datatype sms_direction =
    SMSDirectionReceived | SMSDirectionSubmitted | SMSDirectionStatusReport | SMSDirectionUnknown
  | SMSDirectionUnset

record concat_info =
  ci_Reference :: nat
  ci_Total :: nat
  ci_Sequence :: nat

text \<open>An instant: seconds since 1970 and the offset of its zone.\<close>

record sms_time =
  t_unix :: int
  t_offset :: int

record sms_message =
  m_Index :: nat
  m_Storage :: string
  m_StorageStatus :: sms_storage_status
  m_Direction :: sms_direction
  m_From :: runes
  m_To :: runes
  m_ServiceCenter :: string
  m_Text :: runes
  m_Encoding :: sms_encoding
  m_ServiceCenterTimestamp :: "sms_time option"
  m_DischargeTimestamp :: "sms_time option"
  m_MessageReference :: "nat option"
  m_StatusCode :: "nat option"
  m_DeliveryStatus :: string
  m_Concat :: "concat_info option"
  m_ProtocolID :: nat
  m_DataCodingScheme :: nat
  m_ModemLength :: nat
  m_RawPDU :: string
  m_RawUserData :: string
  m_DecodeError :: string

definition zero_message :: sms_message where
  "zero_message = \<lparr>m_Index = 0, m_Storage = [], m_StorageStatus = SMSStatusUnset,
     m_Direction = SMSDirectionUnset, m_From = [], m_To = [], m_ServiceCenter = [], m_Text = [],
     m_Encoding = SMSEncodingUnset, m_ServiceCenterTimestamp = None, m_DischargeTimestamp = None,
     m_MessageReference = None, m_StatusCode = None, m_DeliveryStatus = [], m_Concat = None,
     m_ProtocolID = 0, m_DataCodingScheme = 0, m_ModemLength = 0, m_RawPDU = [], m_RawUserData = [],
     m_DecodeError = []\<rparr>"

datatype decode_error =
    TPDUEmpty | PDUNotHex | PDUTooShort | SMSCTooLong | UnsupportedMessageType | PDUTruncated
  | GSM7Truncated | GSM7Error gsm7_error | UserDataTruncated | UDHIWithoutHeader | UserDataHeaderTruncated
  | CharsetError | InvalidUTF16Data

record text_env =
  gsm7_national :: "bytes \<Rightarrow> nat option \<Rightarrow> nat option \<Rightarrow> runes \<times> bool"
  gb18030_decode :: "bytes \<Rightarrow> runes option"
  print_ranges :: "nat \<Rightarrow> bool"
  han :: "nat \<Rightarrow> bool"

text \<open>An ASCII string as a text.\<close>

definition runes_of :: "string \<Rightarrow> runes" where
  "runes_of s = List.map of_char s"

section \<open>The cursor\<close>

record pdu_cursor =
  cur_data :: bytes
  cur_index :: nat

definition cursor_byte :: "pdu_cursor \<Rightarrow> decode_error + byte \<times> pdu_cursor" where
  "cursor_byte cur =
     (if cur_index cur \<ge> length (cur_data cur) then Inl PDUTruncated
      else Inr (cur_data cur ! cur_index cur, cur\<lparr>cur_index := cur_index cur + 1\<rparr>))"

definition cursor_bytes :: "nat \<Rightarrow> pdu_cursor \<Rightarrow> decode_error + bytes \<times> pdu_cursor" where
  "cursor_bytes count cur =
     (if cur_index cur + count > length (cur_data cur) then Inl PDUTruncated
      else Inr (slice (cur_index cur) (cur_index cur + count) (cur_data cur),
        cur\<lparr>cur_index := cur_index cur + count\<rparr>))"

section \<open>Addresses\<close>

definition hasZeroGSM7Padding :: "bytes \<Rightarrow> nat \<Rightarrow> bool" where
  "hasZeroGSM7Padding data septetCount \<longleftrightarrow>
     \<not> (septetCount = 0 \<or> septetCount * 7 > length data * 8) \<and>
     list_all (\<lambda>k. \<not> bit (data ! (k div 8)) (k mod 8)) [septetCount * 7..<length data * 8]"

text \<open>The loop over the nibbles; \<^term>\<open>n\<close> is the number of digits still to write.\<close>

fun numeric_loop :: "nat \<Rightarrow> bytes \<Rightarrow> string" where
  "numeric_loop 0 ds = []"
| "numeric_loop (Suc n) [] = []"
| "numeric_loop (Suc n) (d # ds) =
     (if d \<le> 9 then digit_char d # numeric_loop n ds else numeric_loop (Suc n) ds)"

definition octet_nibbles :: "bytes \<Rightarrow> bytes" where
  "octet_nibbles value = concat (List.map (\<lambda>octet. [low_nibble octet, high_nibble octet]) value)"

definition decodeNumericAddress :: "bytes \<Rightarrow> nat \<Rightarrow> byte \<Rightarrow> string" where
  "decodeNumericAddress value digits toa =
     (if toa AND 0x70 = 0x10 then ''+'' else []) @ numeric_loop digits (octet_nibbles value)"

definition alphanumeric :: "byte \<Rightarrow> bool" where
  "alphanumeric toa \<longleftrightarrow> toa AND 0x70 = 0x50"

text \<open>The bytes and the septets of an address: the standard sizes, or the character count some senders
  put into the length when the standard sizes cannot be right.\<close>

definition address_sizes :: "nat \<Rightarrow> byte \<Rightarrow> pdu_cursor \<Rightarrow> nat \<times> nat" where
  "address_sizes len toa cur =
     (if alphanumeric toa then
        let byteCount = (len + 1) div 2; septetCount = len * 4 div 7
        in if byteCount = 0 \<or> cur_index cur + byteCount > length (cur_data cur) \<or>
              \<not> hasZeroGSM7Padding (slice (cur_index cur) (cur_index cur + byteCount) (cur_data cur)) septetCount
           then ((len * 7 + 7) div 8, len)
           else (byteCount, septetCount)
      else ((len + 1) div 2, 0))"

definition readTPAddress :: "pdu_cursor \<Rightarrow> decode_error + runes \<times> pdu_cursor" where
  "readTPAddress cur0 =
     rbind (cursor_byte cur0) (\<lambda>(len, cur1).
     rbind (cursor_byte cur1) (\<lambda>(toa, cur2).
       let (byteCount, septetCount) = address_sizes (unat len) toa cur2
       in rbind (cursor_bytes byteCount cur2) (\<lambda>(value, cur).
            if alphanumeric toa then
              (case unpackSeptets value (int septetCount) 0 of
                 None \<Rightarrow> Inl GSM7Truncated
               | Some septets \<Rightarrow>
                   (case decodeGSM7 septets of
                      (_, Some e) \<Rightarrow> Inl (GSM7Error e)
                    | (msg, None) \<Rightarrow> Inr (msg, cur)))
            else Inr (runes_of (decodeNumericAddress value (unat len) toa), cur))))"

section \<open>User data headers\<close>

text \<open>The loops over the elements of a header; the argument is what is left of it.\<close>

function userDataHeaderLanguage :: "bytes \<Rightarrow> byte \<Rightarrow> nat option" where
  "userDataHeaderLanguage header identifier =
     (case header of
        ident # len # rest \<Rightarrow>
          if unat len > length rest then None
          else if ident = identifier \<and> unat len = 1 then Some (unat (rest ! 0))
          else userDataHeaderLanguage (drop (unat len) rest) identifier
      | _ \<Rightarrow> None)"
  by auto
termination by (relation "measure (\<lambda>(header, identifier). length header)") auto

function hasApplicationPortAddressing :: "bytes \<Rightarrow> bool" where
  "hasApplicationPortAddressing header =
     (case header of
        ident # len # rest \<Rightarrow>
          if unat len > length rest then True
          else if (ident = 0x04 \<and> unat len = 2) \<or> (ident = 0x05 \<and> unat len = 4) then True
          else hasApplicationPortAddressing (drop (unat len) rest)
      | _ \<Rightarrow> False)"
  by auto
termination by (relation "measure length") auto

function parseConcatHeader :: "bytes \<Rightarrow> concat_info option" where
  "parseConcatHeader header =
     (case header of
        ident # len # rest \<Rightarrow>
          if unat len > length rest then None
          else if ident = 0x00 \<and> unat len = 3 then
            Some \<lparr>ci_Reference = unat (rest ! 0), ci_Total = unat (rest ! 1), ci_Sequence = unat (rest ! 2)\<rparr>
          else if ident = 0x08 \<and> unat len = 4 then
            Some \<lparr>ci_Reference = 256 * unat (rest ! 0) + unat (rest ! 1), ci_Total = unat (rest ! 2),
              ci_Sequence = unat (rest ! 3)\<rparr>
          else parseConcatHeader (drop (unat len) rest)
      | _ \<Rightarrow> None)"
  by auto
termination by (relation "measure length") auto

declare userDataHeaderLanguage.simps [simp del] hasApplicationPortAddressing.simps [simp del]
  parseConcatHeader.simps [simp del]

section \<open>Alphabets and texts\<close>

datatype sms_alphabet = AlphabetGSM7 | Alphabet8Bit | AlphabetUCS2 | AlphabetUnknown

definition decodeSMSAlphabet :: "byte \<Rightarrow> sms_alphabet" where
  "decodeSMSAlphabet dcs =
     (if dcs AND 0x80 = 0 then
        if dcs AND 0x20 \<noteq> 0 then AlphabetUnknown
        else
          let group = drop_bit 2 dcs AND 0x03
          in if group = 0 then AlphabetGSM7 else if group = 1 then Alphabet8Bit
             else if group = 2 then AlphabetUCS2 else AlphabetUnknown
      else if dcs AND 0xe0 = 0xc0 then AlphabetGSM7
      else if dcs AND 0xf0 = 0xe0 then AlphabetUCS2
      else if dcs AND 0xf0 = 0xf0 then
        if dcs AND 0x04 \<noteq> 0 then Alphabet8Bit else AlphabetGSM7
      else AlphabetUnknown)"

definition decodeGSM7WithHeader :: "text_env \<Rightarrow> bytes \<Rightarrow> bytes \<Rightarrow> runes \<times> decode_error option" where
  "decodeGSM7WithHeader env septets header =
     (let locking = userDataHeaderLanguage header 0x25; shift = userDataHeaderLanguage header 0x24
      in if locking = None \<and> shift = None
         then (case decodeGSM7 septets of (msg, e) \<Rightarrow> (msg, map_option GSM7Error e))
         else (case gsm7_national env septets locking shift of
           (msg, ok) \<Rightarrow> (msg, if ok then None else Some CharsetError)))"

text \<open>\<^verbatim>\<open>unicode.IsPrint\<close>: a table of properties for Latin-1, ranges beyond.\<close>

definition IsPrint :: "text_env \<Rightarrow> nat \<Rightarrow> bool" where
  "IsPrint env r =
     (if r \<le> 0xff then (0x20 \<le> r \<and> r \<le> 0x7e) \<or> (0xa1 \<le> r \<and> r \<noteq> 0xad) else print_ranges env r)"

definition readable_rune :: "text_env \<Rightarrow> nat \<Rightarrow> bool" where
  "readable_rune env r \<longleftrightarrow> IsPrint env r \<or> r = 10 \<or> r = 13 \<or> r = 9"

definition readableText :: "text_env \<Rightarrow> runes \<Rightarrow> bool" where
  "readableText env msg \<longleftrightarrow>
     msg = [] \<or> length (filter (readable_rune env) msg) * 100 \<ge> length msg * 90"

fun units_of :: "bool \<Rightarrow> bytes \<Rightarrow> u16 list" where
  "units_of littleEndian (a # b # bs) =
     (if littleEndian then be_u16 b a else be_u16 a b) # units_of littleEndian bs"
| "units_of littleEndian bs = []"

definition decodeUTF16Bytes :: "text_env \<Rightarrow> bytes \<Rightarrow> runes \<times> bool" where
  "decodeUTF16Bytes env payload =
     (if payload = [] then ([], True)
      else if odd (length payload) then ([], False)
      else
        let littleEndian = (length payload \<ge> 2 \<and> payload ! 0 = 0xff \<and> payload ! 1 = 0xfe);
            rest = (if (payload ! 0 = 0xfe \<and> payload ! 1 = 0xff) \<or> littleEndian then drop 2 payload else payload);
            msg = utf16_Decode (units_of littleEndian rest)
        in (msg, 0xfffd \<notin> set msg \<and> readableText env msg))"

definition containsNonASCII :: "bytes \<Rightarrow> bool" where
  "containsNonASCII data \<longleftrightarrow> list_ex (\<lambda>b. unat b \<ge> 0x80) data"

definition latin1_ascii :: "byte \<Rightarrow> bool" where
  "latin1_ascii b \<longleftrightarrow> b = 10 \<or> b = 13 \<or> b = 9 \<or> (0x20 \<le> unat b \<and> unat b \<le> 0x7e)"

definition decodeLatin1Text :: "text_env \<Rightarrow> bytes \<Rightarrow> runes \<times> bool" where
  "decodeLatin1Text env payload =
     (if list_ex (\<lambda>b. \<not> latin1_ascii b \<and> unat b < 0xa0) payload then ([], False)
      else
        let ascii = length (filter latin1_ascii payload)
        in if ascii = 0 \<or> ascii * 2 < length payload then ([], False)
           else let msg = List.map unat payload in (msg, readableText env msg))"

definition byte_order_mark :: "bytes \<Rightarrow> bool" where
  "byte_order_mark payload \<longleftrightarrow> length payload \<ge> 2 \<and>
     ((payload ! 0 = 0xfe \<and> payload ! 1 = 0xff) \<or> (payload ! 0 = 0xff \<and> payload ! 1 = 0xfe))"

text \<open>The attempts of \<^verbatim>\<open>decodeTextBytes\<close>, each \<^term>\<open>None\<close> when the code goes on to the next.\<close>

definition try_utf16 :: "text_env \<Rightarrow> bytes \<Rightarrow> (runes \<times> sms_encoding) option" where
  "try_utf16 env payload =
     (if byte_order_mark payload then
        (case decodeUTF16Bytes env payload of (msg, ok) \<Rightarrow> if ok then Some (msg, SMSEncodingUCS2PDU) else None)
      else None)"

definition try_utf8 :: "text_env \<Rightarrow> bytes \<Rightarrow> (runes \<times> sms_encoding) option" where
  "try_utf8 env payload =
     (case utf8_decode payload of
        None \<Rightarrow> None
      | Some msg \<Rightarrow> if readableText env msg then Some (msg, SMSEncodingUTF8PDU) else None)"

definition try_gb18030 :: "text_env \<Rightarrow> bytes \<Rightarrow> (runes \<times> sms_encoding) option" where
  "try_gb18030 env payload =
     (if containsNonASCII payload then
        (case gb18030_decode env payload of
           None \<Rightarrow> None
         | Some msg \<Rightarrow>
             if list_ex (han env) msg \<and> readableText env msg then Some (msg, SMSEncodingGB18030) else None)
      else None)"

definition try_latin1 :: "text_env \<Rightarrow> bytes \<Rightarrow> (runes \<times> sms_encoding) option" where
  "try_latin1 env payload =
     (case decodeLatin1Text env payload of (msg, ok) \<Rightarrow> if ok then Some (msg, SMSEncodingLatin1) else None)"

definition or_else :: "'a option \<Rightarrow> 'a option \<Rightarrow> 'a option" where
  "or_else a b = (case a of None \<Rightarrow> b | Some x \<Rightarrow> Some x)"

definition decodeTextBytes :: "text_env \<Rightarrow> bytes \<Rightarrow> bytes \<Rightarrow> (runes \<times> sms_encoding) option" where
  "decodeTextBytes env payload header =
     (if hasApplicationPortAddressing header \<or> payload = [] then None
      else or_else (try_utf16 env payload) (or_else (try_utf8 env payload)
        (or_else (try_gb18030 env payload) (try_latin1 env payload))))"

section \<open>User data\<close>

text \<open>The text of the user data behind the header.\<close>

definition decode_payload ::
    "text_env \<Rightarrow> sms_alphabet \<Rightarrow> bytes \<Rightarrow> bytes \<Rightarrow> nat \<Rightarrow> nat \<Rightarrow> sms_message \<Rightarrow> sms_message \<times> decode_error option" where
  "decode_payload env alphabet data header headerBytes udl m =
     (let payload = drop headerBytes data in
      case alphabet of
        AlphabetGSM7 \<Rightarrow>
          (let m1 = m\<lparr>m_Encoding := SMSEncodingGSM7PDU\<rparr>;
               headerSeptets = (if headerBytes > 0 then (headerBytes * 8 + 6) div 7 else 0)
           in case unpackSeptets data (int udl - int headerSeptets) (headerSeptets * 7) of
                None \<Rightarrow> (m1, Some GSM7Truncated)
              | Some septets \<Rightarrow>
                  (case decodeGSM7WithHeader env septets header of (msg, e) \<Rightarrow> (m1\<lparr>m_Text := msg\<rparr>, e)))
      | AlphabetUCS2 \<Rightarrow>
          (let m1 = m\<lparr>m_Encoding := SMSEncodingUCS2PDU\<rparr>
           in case decodeUTF16Bytes env payload of (msg, ok) \<Rightarrow>
                if ok then (m1\<lparr>m_Text := msg\<rparr>, None)
                else case decodeTextBytes env payload header of
                  Some (msg', enc) \<Rightarrow> (m1\<lparr>m_Text := msg', m_Encoding := enc\<rparr>, None)
                | None \<Rightarrow> (m1, Some InvalidUTF16Data))
      | _ \<Rightarrow>
          (case decodeTextBytes env payload header of
             Some (msg, enc) \<Rightarrow> (m\<lparr>m_Text := msg, m_Encoding := enc\<rparr>, None)
           | None \<Rightarrow> (m\<lparr>m_Encoding := SMSEncoding8BitPDU,
               m_Text := runes_of (ToUpper (EncodeToString payload))\<rparr>, None)))"

definition decodeUserData ::
    "text_env \<Rightarrow> bytes \<Rightarrow> byte \<Rightarrow> byte \<Rightarrow> nat \<Rightarrow> sms_message \<Rightarrow> sms_message \<times> decode_error option" where
  "decodeUserData env rest firstOctet dcs udl m =
     (let alphabet = decodeSMSAlphabet dcs;
          expectedBytes = (if alphabet = AlphabetGSM7 then (udl * 7 + 7) div 8 else udl)
      in if expectedBytes > length rest then (m, Some UserDataTruncated)
         else
           let data = take expectedBytes rest;
               m1 = m\<lparr>m_RawUserData := ToUpper (EncodeToString data)\<rparr>
           in if firstOctet AND 0x40 \<noteq> 0 then
                if data = [] then (m1, Some UDHIWithoutHeader)
                else let headerBytes = unat (data ! 0) + 1
                  in if headerBytes > length data then (m1, Some UserDataHeaderTruncated)
                     else let header = slice 1 headerBytes data
                       in decode_payload env alphabet data header headerBytes udl
                            (m1\<lparr>m_Concat := parseConcatHeader header\<rparr>)
              else decode_payload env alphabet data [] 0 udl m1)"

section \<open>Timestamps\<close>

datatype timestamp_error = TimestampLength | InvalidSemiOctet | InvalidTimezone | InvalidComponent

definition is_leap :: "int \<Rightarrow> bool" where
  "is_leap y \<longleftrightarrow> (4 dvd y \<and> \<not> 100 dvd y) \<or> 400 dvd y"

text \<open>The days before a year and before a month of a year, counted from 1970.\<close>

definition year_days :: "int \<Rightarrow> int" where
  "year_days y = 365 * (y - 1970) + ((y - 1) div 4 - (y - 1) div 100 + (y - 1) div 400) - 477"

definition month_days :: "int \<Rightarrow> nat \<Rightarrow> int" where
  "month_days y m =
     [0, 31, 59, 90, 120, 151, 181, 212, 243, 273, 304, 334] ! (m - 1) + (if is_leap y \<and> m > 2 then 1 else 0)"

text \<open>\<^verbatim>\<open>time.Date\<close> in a fixed zone for a month from 1 to 12.  A day, hour, minute or second beyond its
  range carries over, as in the code's library.\<close>

definition make_date :: "int \<Rightarrow> nat \<Rightarrow> nat \<Rightarrow> nat \<Rightarrow> nat \<Rightarrow> nat \<Rightarrow> int \<Rightarrow> sms_time" where
  "make_date y m d hour minute second offset =
     \<lparr>t_unix = (year_days y + month_days y m + int d - 1) * 86400 + int hour * 3600 + int minute * 60 +
        int second - offset, t_offset = offset\<rparr>"

definition timestamp_component :: "byte \<Rightarrow> timestamp_error + nat" where
  "timestamp_component octet =
     (let low = unat (low_nibble octet); high = unat (high_nibble octet)
      in if low > 9 \<or> high > 9 then Inl InvalidSemiOctet else Inr (low * 10 + high))"

text \<open>The zone: quarters of an hour in swapped semi-octets with a sign bit.\<close>

definition timestamp_zone :: "byte \<Rightarrow> timestamp_error + int" where
  "timestamp_zone zoneByte =
     (case timestamp_component (zoneByte AND NOT 0x08) of
        Inl _ \<Rightarrow> Inl InvalidTimezone
      | Inr quarters \<Rightarrow>
          if quarters > 56 then Inl InvalidTimezone
          else Inr (if zoneByte AND 0x08 \<noteq> 0 then - (int quarters * 15 * 60) else int quarters * 15 * 60))"

definition timestamp_of_parts :: "nat list \<Rightarrow> int \<Rightarrow> timestamp_error + sms_time" where
  "timestamp_of_parts parts offset =
     (let year = (if parts ! 0 \<ge> 90 then 1900 + int (parts ! 0) else 2000 + int (parts ! 0))
      in if parts ! 1 < 1 \<or> parts ! 1 > 12 \<or> parts ! 2 < 1 \<or> parts ! 2 > 31 \<or>
            parts ! 3 > 23 \<or> parts ! 4 > 59 \<or> parts ! 5 > 60
         then Inl InvalidComponent
         else Inr (make_date year (parts ! 1) (parts ! 2) (parts ! 3) (parts ! 4) (parts ! 5) offset))"

definition decodeSMSTimestamp :: "bytes \<Rightarrow> timestamp_error + sms_time" where
  "decodeSMSTimestamp v =
     (if length v \<noteq> 7 then Inl TimestampLength
      else rbind (collect timestamp_component (take 6 v)) (\<lambda>parts.
           rbind (timestamp_zone (v ! 6)) (\<lambda>offset. timestamp_of_parts parts offset)))"

section \<open>Messages\<close>

definition smsDeliveryStatus :: "byte \<Rightarrow> string" where
  "smsDeliveryStatus status =
     (if unat status \<le> 0x1f then ''delivered''
      else if unat status \<le> 0x3f then ''temporary_error''
      else if unat status \<le> 0x5f then ''permanent_error''
      else if unat status \<le> 0x7f then ''temporary_error_no_retry''
      else ''reserved'')"

text \<open>A step that fails ends with the message as it is then.\<close>

definition or_return ::
    "sms_message \<Rightarrow> decode_error + 'a \<Rightarrow> ('a \<Rightarrow> sms_message \<times> decode_error option) \<Rightarrow>
     sms_message \<times> decode_error option" where
  "or_return m r f = (case r of Inl e \<Rightarrow> (m, Some e) | Inr x \<Rightarrow> f x)"

lemma or_return_simps [simp]: "or_return m (Inl e) f = (m, Some e)" "or_return m (Inr x) f = f x"
  by (simp_all add: or_return_def)

text \<open>A timestamp that cannot be read is left out.\<close>

definition timestamp_of :: "bytes \<Rightarrow> sms_time option \<Rightarrow> sms_time option" where
  "timestamp_of v old = (case decodeSMSTimestamp v of Inl _ \<Rightarrow> old | Inr t \<Rightarrow> Some t)"

definition rest_of :: "pdu_cursor \<Rightarrow> bytes" where
  "rest_of cur = drop (cur_index cur) (cur_data cur)"

definition decodeDeliverPDU ::
    "text_env \<Rightarrow> pdu_cursor \<Rightarrow> byte \<Rightarrow> sms_message \<Rightarrow> sms_message \<times> decode_error option" where
  "decodeDeliverPDU env cur0 firstOctet m0 =
     or_return m0 (readTPAddress cur0) (\<lambda>(address, cur1).
     let m1 = m0\<lparr>m_From := address\<rparr> in
     or_return m1 (cursor_byte cur1) (\<lambda>(pid, cur2).
     or_return m1 (cursor_byte cur2) (\<lambda>(dcs, cur3).
     let m2 = m1\<lparr>m_ProtocolID := unat pid, m_DataCodingScheme := unat dcs\<rparr> in
     or_return m2 (cursor_bytes 7 cur3) (\<lambda>(timestamp, cur4).
     let m3 = m2\<lparr>m_ServiceCenterTimestamp := timestamp_of timestamp (m_ServiceCenterTimestamp m2)\<rparr> in
     or_return m3 (cursor_byte cur4) (\<lambda>(udl, cur5).
     decodeUserData env (rest_of cur5) firstOctet dcs (unat udl) m3)))))"

text \<open>The validity period of a SUBMIT, skipped in the form the first octet announces.\<close>

definition skip_validity :: "byte \<Rightarrow> pdu_cursor \<Rightarrow> decode_error + pdu_cursor" where
  "skip_validity firstOctet cur =
     (let vpf = drop_bit 3 firstOctet AND 0x03
      in if vpf = 2 then rbind (cursor_byte cur) (\<lambda>(_, cur'). Inr cur')
         else if vpf = 1 \<or> vpf = 3 then rbind (cursor_bytes 7 cur) (\<lambda>(_, cur'). Inr cur')
         else Inr cur)"

definition decodeSubmitPDU ::
    "text_env \<Rightarrow> pdu_cursor \<Rightarrow> byte \<Rightarrow> sms_message \<Rightarrow> sms_message \<times> decode_error option" where
  "decodeSubmitPDU env cur0 firstOctet m0 =
     or_return m0 (cursor_byte cur0) (\<lambda>(reference, cur1).
     let m1 = m0\<lparr>m_MessageReference := Some (unat reference)\<rparr> in
     or_return m1 (readTPAddress cur1) (\<lambda>(address, cur2).
     let m2 = m1\<lparr>m_To := address\<rparr> in
     or_return m2 (cursor_byte cur2) (\<lambda>(pid, cur3).
     or_return m2 (cursor_byte cur3) (\<lambda>(dcs, cur4).
     let m3 = m2\<lparr>m_ProtocolID := unat pid, m_DataCodingScheme := unat dcs\<rparr> in
     or_return m3 (skip_validity firstOctet cur4) (\<lambda>cur5.
     or_return m3 (cursor_byte cur5) (\<lambda>(udl, cur6).
     decodeUserData env (rest_of cur6) firstOctet dcs (unat udl) m3))))))"

definition decodeStatusReportPDU :: "pdu_cursor \<Rightarrow> sms_message \<Rightarrow> sms_message \<times> decode_error option" where
  "decodeStatusReportPDU cur0 m0 =
     or_return m0 (cursor_byte cur0) (\<lambda>(reference, cur1).
     let m1 = m0\<lparr>m_MessageReference := Some (unat reference)\<rparr> in
     or_return m1 (readTPAddress cur1) (\<lambda>(address, cur2).
     let m2 = m1\<lparr>m_To := address\<rparr> in
     or_return m2 (cursor_bytes 7 cur2) (\<lambda>(scts, cur3).
     or_return m2 (cursor_bytes 7 cur3) (\<lambda>(discharge, cur4).
     or_return m2 (cursor_byte cur4) (\<lambda>(status, cur5).
     (m2\<lparr>m_StatusCode := Some (unat status), m_DeliveryStatus := smsDeliveryStatus status,
        m_ServiceCenterTimestamp := timestamp_of scts (m_ServiceCenterTimestamp m2),
        m_DischargeTimestamp := timestamp_of discharge (m_DischargeTimestamp m2)\<rparr>, None))))))"

definition decodeSMSPDU :: "text_env \<Rightarrow> string \<Rightarrow> sms_message \<times> decode_error option" where
  "decodeSMSPDU env raw0 =
     (let raw = ToUpper (TrimSpace raw0);
          m = zero_message\<lparr>m_Direction := SMSDirectionUnknown, m_Encoding := SMSEncodingUnknown,
                m_StorageStatus := SMSStatusUnknown, m_RawPDU := raw\<rparr>
      in case DecodeString raw of
           None \<Rightarrow> (m, Some PDUNotHex)
         | Some decoded \<Rightarrow>
             if length decoded < 2 then (m, Some PDUTooShort)
             else
               let smscLength = unat (decoded ! 0)
               in if smscLength > length decoded - 1 then (m, Some SMSCTooLong)
                  else
                    let smsc = slice 1 (1 + smscLength) decoded;
                        m1 = (if length smsc > 1
                          then m\<lparr>m_ServiceCenter :=
                            decodeNumericAddress (drop 1 smsc) ((length smsc - 1) * 2) (smsc ! 0)\<rparr>
                          else m)
                    in or_return m1 (cursor_byte \<lparr>cur_data = decoded, cur_index = 1 + smscLength\<rparr>)
                         (\<lambda>(firstOctet, cur).
                           let kind = firstOctet AND 0x03
                           in if kind = 0 then
                                decodeDeliverPDU env cur firstOctet (m1\<lparr>m_Direction := SMSDirectionReceived\<rparr>)
                              else if kind = 1 then
                                decodeSubmitPDU env cur firstOctet (m1\<lparr>m_Direction := SMSDirectionSubmitted\<rparr>)
                              else if kind = 2 then
                                decodeStatusReportPDU cur (m1\<lparr>m_Direction := SMSDirectionStatusReport\<rparr>)
                              else (m1, Some UnsupportedMessageType)))"

definition DecodeSMSDeliverTPDU :: "text_env \<Rightarrow> bytes \<Rightarrow> sms_message \<times> decode_error option" where
  "DecodeSMSDeliverTPDU env tpdu =
     (if tpdu = [] then (zero_message, Some TPDUEmpty)
      else decodeSMSPDU env (EncodeToString (0 # tpdu)))"


end
