(* ===== verification/RP_Data.thy ===== *)
theory RP_Data
  imports Go_Encoding
begin

text \<open>
  The relay layer of SMS over IMS (\<^verbatim>\<open>messaging/rpdata.go\<close>): the RP-DATA envelopes of
  \<^verbatim>\<open>application/vnd.3gpp.sms\<close> bodies and the addresses in them.

  The lemmas show that an address is decoded to the number it was built from, that the parser finds
  the parts of every well-formed envelope, and that a built envelope respects the size the code states.
\<close>

datatype rp_error =
    RPTruncated | NotRPMTData byte | AddressLengthMissing | AddressTruncated
  | UserDataLengthMissing | UserDataInvalid | SMSCUnavailable | TPDULengthInvalid nat

section \<open>Addresses\<close>

definition decodeRPAddress :: "bytes \<Rightarrow> string" where
  "decodeRPAddress data =
     (if length data < 2 then []
      else
        let toa = data ! 0;
            digits = concat (List.map (\<lambda>octet.
              (if low_nibble octet \<le> 9 then [digit_char (low_nibble octet)] else []) @
              (if high_nibble octet \<le> 9 then [digit_char (high_nibble octet)] else [])) (drop 1 data))
        in if toa AND 0x70 = 0x10 then CHR ''+'' # digits else digits)"

text \<open>\<^term>\<open>at_start\<close> is the code's \<^verbatim>\<open>index == 0\<close>.\<close>

fun keep_e164 :: "bool \<Rightarrow> string \<Rightarrow> string" where
  "keep_e164 at_start [] = []"
| "keep_e164 at_start (c # cs) =
     (if is_digit c \<or> (at_start \<and> c = CHR ''+'') then c # keep_e164 False cs else keep_e164 False cs)"

definition normalizeE164 :: "string \<Rightarrow> string" where
  "normalizeE164 value = keep_e164 True (TrimSpace value)"

text \<open>The loop of \<^verbatim>\<open>encodeRPAddress\<close>, two digits to an octet; the last high nibble of an odd number of
  digits is 15.\<close>

fun encode_digits :: "string \<Rightarrow> rp_error + bytes" where
  "encode_digits [] = Inr []"
| "encode_digits [c] =
     (if \<not> is_digit c then Inl SMSCUnavailable else Inr [push_bit 4 0x0f OR char_digit c])"
| "encode_digits (c # d # cs) =
     (if \<not> is_digit c then Inl SMSCUnavailable
      else if \<not> is_digit d then Inl SMSCUnavailable
      else rbind (encode_digits cs) (\<lambda>rest. Inr ((push_bit 4 (char_digit d) OR char_digit c) # rest)))"

definition encodeRPAddress :: "string \<Rightarrow> rp_error + bytes" where
  "encodeRPAddress v =
     (let value = normalizeE164 v; digits = TrimPrefix value ''+''
      in if length digits < 3 \<or> length digits > 20 then Inl SMSCUnavailable
         else let toa = (if HasPrefix value ''+'' then 0x91 else 0x81)
         in rbind (encode_digits digits) (\<lambda>encoded. Inr (toa # encoded)))"

section \<open>Envelopes\<close>

text \<open>One address field: its bytes and the position behind it.\<close>

definition read_field :: "bytes \<Rightarrow> nat \<Rightarrow> rp_error + bytes \<times> nat" where
  "read_field data pos =
     (if pos \<ge> length data then Inl AddressLengthMissing
      else let len = unat (data ! pos); start = pos + 1
        in if len > length data - start then Inl AddressTruncated
           else Inr (slice start (start + len) data, start + len))"

definition ParseRPMTData :: "bytes \<Rightarrow> rp_error + byte \<times> string \<times> bytes" where
  "ParseRPMTData data =
     (if length data < 6 then Inl RPTruncated
      else if data ! 0 \<noteq> 0x01 then Inl (NotRPMTData (data ! 0))
      else rbind (read_field data 2) (\<lambda>(address, pos1).
           rbind (read_field data pos1) (\<lambda>(_, pos).
             if pos \<ge> length data then Inl UserDataLengthMissing
             else let len = unat (data ! pos); start = pos + 1
               in if len = 0 \<or> len > length data - start then Inl UserDataInvalid
                  else Inr (data ! 1, decodeRPAddress address, slice start (start + len) data))))"

definition BuildRPMOData :: "byte \<Rightarrow> string \<Rightarrow> bytes \<Rightarrow> rp_error + bytes" where
  "BuildRPMOData reference smsc tpdu =
     rbind (encodeRPAddress smsc) (\<lambda>address.
       if length tpdu = 0 \<or> length tpdu > 232 then Inl (TPDULengthInvalid (length tpdu))
       else Inr ([0x00, reference, 0x00, of_nat (length address)] @ address @
         [of_nat (length tpdu)] @ tpdu))"

definition BuildRPAck :: "byte \<Rightarrow> bytes" where
  "BuildRPAck reference = [0x02, reference]"

definition BuildRPError :: "byte \<Rightarrow> byte \<Rightarrow> bytes" where
  "BuildRPError reference cause = [0x04, reference, 0x01, cause AND 0x7f]"

section \<open>Addresses come back\<close>

lemma keep_e164_chars: "c \<in> set (keep_e164 at_start s) \<Longrightarrow> is_digit c \<or> (at_start \<and> c = CHR ''+'')"
  by (induction at_start s rule: keep_e164.induct) (auto split: if_splits)

lemma keep_e164_plus: "c \<in> set (TrimPrefix (keep_e164 True s) ''+'') \<Longrightarrow> is_digit c"
proof (cases s)
  case (Cons d ds)
  assume c: "c \<in> set (TrimPrefix (keep_e164 True s) ''+'')"
  have pl: "\<not> is_digit CHR ''+''" by (simp add: is_digit_def)
  from c Cons show ?thesis
    by (auto simp: TrimPrefix_def HasPrefix_def dest!: keep_e164_chars in_set_dropD split: if_splits)
qed (auto simp: TrimPrefix_def)

definition digits_of :: "bytes \<Rightarrow> string" where
  "digits_of encoded = concat (List.map (\<lambda>octet.
     (if low_nibble octet \<le> 9 then [digit_char (low_nibble octet)] else []) @
     (if high_nibble octet \<le> 9 then [digit_char (high_nibble octet)] else [])) encoded)"

lemma encode_digits_ok: "\<forall>c \<in> set ds. is_digit c \<Longrightarrow>
    \<exists>enc. encode_digits ds = Inr enc \<and> digits_of enc = ds \<and> length enc = (length ds + 1) div 2"
proof (induction ds rule: encode_digits.induct)
  case (2 c)
  have f: "unat (0x0f :: byte) \<le> 15" by simp
  have c: "unat (char_digit c) \<le> 9" using 2 by (simp add: char_digit_le)
  define w where "w = push_bit 4 0x0f OR char_digit c"
  have n: "low_nibble w = char_digit c" "high_nibble w = 0x0f"
    unfolding w_def by (rule nibbles, use c in simp)+ simp
  have "encode_digits [c] = Inr [w]" using 2 by (simp add: w_def)
  then show ?case using 2 c by (simp add: digits_of_def n digit_char_digit word_le_nat_alt)
next
  case (3 c d cs)
  then obtain enc where enc: "encode_digits cs = Inr enc" "digits_of enc = cs" "length enc = (length cs + 1) div 2"
    by auto
  have cd: "unat (char_digit c) \<le> 9" "unat (char_digit d) \<le> 9" using 3 by (simp_all add: char_digit_le)
  have n: "low_nibble (push_bit 4 (char_digit d) OR char_digit c) = char_digit c"
    "high_nibble (push_bit 4 (char_digit d) OR char_digit c) = char_digit d"
    using cd by (auto intro!: nibbles)
  show ?case using 3 enc cd
    by (simp add: digits_of_def n digit_char_digit word_le_nat_alt)
qed (simp add: digits_of_def)

lemma rp_address_roundtrip:
  assumes "encodeRPAddress v = Inr a"
  shows "decodeRPAddress a = normalizeE164 v" "3 \<le> length a" "length a \<le> 11"
proof -
  let ?v = "normalizeE164 v"
  let ?ds = "TrimPrefix ?v ''+''"
  have ds: "\<forall>c \<in> set ?ds. is_digit c" using keep_e164_plus by (auto simp: normalizeE164_def)
  obtain enc where enc: "encode_digits ?ds = Inr enc" "digits_of enc = ?ds" "length enc = (length ?ds + 1) div 2"
    using encode_digits_ok [OF ds] by blast
  have a: "a = (if HasPrefix ?v ''+'' then 0x91 else 0x81) # enc" "3 \<le> length ?ds" "length ?ds \<le> 20"
    using assms enc(1) by (auto simp: encodeRPAddress_def Let_def split: if_splits)
  show "3 \<le> length a" "length a \<le> 11" using a enc(3) by auto
  have "CHR ''+'' # ?ds = ?v" if "HasPrefix ?v ''+''"
    using that by (cases ?v) (auto simp: HasPrefix_def TrimPrefix_def)
  moreover have "?ds = ?v" if "\<not> HasPrefix ?v ''+''" using that by (simp add: TrimPrefix_def)
  moreover have "(0x91 :: byte) AND 0x70 = 0x10" "(0x81 :: byte) AND 0x70 \<noteq> 0x10" by simp_all
  ultimately show "decodeRPAddress a = ?v"
    using a enc(2,3) by (auto simp: decodeRPAddress_def Let_def digits_of_def)
qed

section \<open>Envelopes are parsed\<close>

definition rp_envelope :: "byte \<Rightarrow> byte \<Rightarrow> bytes \<Rightarrow> bytes \<Rightarrow> bytes \<Rightarrow> bytes" where
  "rp_envelope mti reference originator destination tpdu =
     [mti, reference, of_nat (length originator)] @ originator @
     [of_nat (length destination)] @ destination @ [of_nat (length tpdu)] @ tpdu"

lemma read_field_ok: "length field < 256 \<Longrightarrow> length pre = pos \<Longrightarrow>
    read_field (pre @ of_nat (length field) # field @ rest) pos = Inr (field, pos + 1 + length field)"
  by (simp add: read_field_def unat_of_nat_byte nth_append slice_append_right slice_def Let_def)

lemma parse_envelope:
  assumes "length originator < 256" "length destination < 256" "0 < length tpdu" "length tpdu < 256"
  shows "ParseRPMTData (rp_envelope 0x01 reference originator destination tpdu) =
    Inr (reference, decodeRPAddress originator, tpdu)"
proof -
  let ?d = "rp_envelope 0x01 reference originator destination tpdu"
  let ?p = "3 + length originator"
  have f1: "read_field ?d 2 = Inr (originator, ?p)"
    using read_field_ok [OF assms(1), of "[1, reference]" 2] by (simp add: rp_envelope_def)
  have f2: "read_field ?d ?p = Inr (destination, ?p + 1 + length destination)"
    using read_field_ok [OF assms(2), of "[1, reference, of_nat (length originator)] @ originator" ?p]
    by (simp add: rp_envelope_def)
  have f3: "read_field ?d (?p + 1 + length destination) = Inr (tpdu, ?p + 2 + length destination + length tpdu)"
    using read_field_ok [OF assms(4), of "[1, reference, of_nat (length originator)] @ originator @
      [of_nat (length destination)] @ destination" "?p + 1 + length destination" "[]"]
    by (simp add: rp_envelope_def)
  have len: "length ?d = ?p + 2 + length destination + length tpdu" by (simp add: rp_envelope_def)
  show ?thesis
    using f1 f2 f3 assms(3,4) len
    by (auto simp: ParseRPMTData_def read_field_def Let_def rp_envelope_def split: if_splits)
qed

lemma BuildRPMOData_envelope:
  assumes "BuildRPMOData reference smsc tpdu = Inr out"
  obtains address where "encodeRPAddress smsc = Inr address" "0 < length tpdu" "length tpdu \<le> 232"
    "out = rp_envelope 0x00 reference [] address tpdu"
  using assms by (auto simp: BuildRPMOData_def rbind_Inr_iff rp_envelope_def split: if_splits)

section \<open>Properties\<close>

text \<open>A service-centre address the builder accepts is decoded to the normalised number it was
  built from.\<close>

theorem rp_address_decodes:
  "encodeRPAddress v = Inr a \<Longrightarrow> decodeRPAddress a = normalizeE164 v \<and> length a \<le> 11"
  by (simp add: rp_address_roundtrip)

theorem rp_address_decodes_witness:
  "decodeRPAddress [0x91, 0x94, 0x71, 0x10, 0x32, 0xf4] = normalizeE164 '' +49 1701 234''"
proof -
  have "encodeRPAddress '' +49 1701 234'' = Inr [0x91, 0x94, 0x71, 0x10, 0x32, 0xf4]" by code_simp
  from rp_address_decodes [OF this] show ?thesis by simp
qed

text \<open>The envelope \<^verbatim>\<open>BuildRPMOData\<close> builds has the RP-DATA field structure that \<^verbatim>\<open>ParseRPMTData\<close>
  reads: with the message type of the other direction it is parsed to the same reference and TPDU; and
  it fits the 255 octets of an RPDU.\<close>

theorem rp_data_structure:
  assumes "BuildRPMOData reference smsc tpdu = Inr out"
  shows "ParseRPMTData (out[0 := 0x01]) = Inr (reference, [], tpdu) \<and> length out \<le> 248"
proof -
  obtain address where a: "encodeRPAddress smsc = Inr address" "0 < length tpdu" "length tpdu \<le> 232"
    "out = rp_envelope 0x00 reference [] address tpdu" by (rule BuildRPMOData_envelope [OF assms])
  have len: "length address \<le> 11" using rp_address_roundtrip [OF a(1)] by simp
  have "out[0 := 0x01] = rp_envelope 0x01 reference [] address tpdu" by (simp add: a(4) rp_envelope_def)
  moreover have "ParseRPMTData (rp_envelope 0x01 reference [] address tpdu) = Inr (reference, decodeRPAddress [], tpdu)"
    using a len by (intro parse_envelope) auto
  ultimately show ?thesis using a(3,4) len by (simp add: decodeRPAddress_def rp_envelope_def)
qed

theorem rp_data_structure_witness:
  "ParseRPMTData ([0, 9, 0, 3, 0x81, 0x21, 0x43, 2, 7, 8][0 := 0x01]) = Inr (9, [], [7, 8])"
proof -
  have "BuildRPMOData 9 ''1234'' [7, 8] = Inr [0, 9, 0, 3, 0x81, 0x21, 0x43, 2, 7, 8]" by code_simp
  from rp_data_structure [OF this] show ?thesis by simp
qed

end
