(* ===== verification/SMS_Runtime.thy ===== *)
theory SMS_Runtime
  imports SIP_Runtime SMS_Decode RP_Data
begin

text \<open>
  Short messages over the registered connection (\<^verbatim>\<open>imscore/sms_runtime.go\<close> and
  \<^verbatim>\<open>handleIncomingRequest\<close> of \<^verbatim>\<open>transport_runtime.go\<close>): the parts of a message as MESSAGE requests,
  one after the other, and what happens to a MESSAGE of the network between its body and the
  acknowledgement of the relay layer.
\<close>

section \<open>Sending\<close>

definition imsSMSContentType :: string where
  "imsSMSContentType = ''application/vnd.3gpp.sms''"

datatype sms_send_error =
    NoParts
  | TargetMissing
  | TargetInvalid
  | PartNotSubscribed
  | PartNotWritten nat
  | PartUnanswered nat
  | PartRejected nat int

text \<open>What building a message needs besides the part: the configuration, the header of the agreement, the
  client's port, and the syntax check of URIs.\<close>

record message_env =
  me_cfg :: ims_config
  me_verify :: string
  me_port :: int
  me_uri_ok :: "string \<Rightarrow> bool"

definition buildSMSMessage ::
  "message_env \<Rightarrow> string \<Rightarrow> string \<Rightarrow> string \<Rightarrow> string \<Rightarrow> u32 \<Rightarrow> bytes \<Rightarrow> sms_send_error + sip_message" where
  "buildSMSMessage env tag branch peer call_id cseq body =
     (let cfg = me_cfg env;
          trimmed = TrimSpace peer;
          target = (if HasPrefix (ToLower trimmed) ''sip:'' \<or> HasPrefix (ToLower trimmed) ''tel:'' then trimmed
            else ''tel:'' @ trimmed);
          transport = ToUpper (registerTransportName cfg []);
          pani = effectivePANI (Template cfg)
      in if trimmed = [] then Inl TargetMissing
         else if \<not> me_uri_ok env target then Inl TargetInvalid
         else Inr \<lparr>msg_method = ''MESSAGE'', msg_uri = target,
           msg_headers =
             [(''Via'', ''SIP/2.0/'' @ transport @ '' '' @ formatRegisterViaHost (CfgLocalIP cfg) (me_port env) @
                 '';branch='' @ branch),
              (''From'', ''<'' @ CfgPublicURI cfg @ ''>;tag='' @ tag),
              (''To'', ''<'' @ target @ ''>''),
              (''Call-ID'', call_id),
              (''CSeq'', dec (unat cseq) @ '' MESSAGE''),
              (''Max-Forwards'', ''70''),
              (''Route'', ''<sip:'' @ effectiveRouteAddr cfg @ '';lr>'')] @
             (if me_verify env \<noteq> []
              then [(''Security-Verify'', me_verify env), (''Require'', ''sec-agree''), (''Proxy-Require'', ''sec-agree'')]
              else []) @
             [(''P-Preferred-Identity'', ''<'' @ CfgPublicURI cfg @ ''>'')] @
             (if pani \<noteq> [] then [(''P-Access-Network-Info'', pani)] else []) @
             [(''Content-Type'', imsSMSContentType)],
           msg_body = body, msg_destination = effectiveTransportAddr cfg, msg_transport = transport\<rparr>)"

text \<open>What \<^verbatim>\<open>select\<close> picks while waiting for a final response.\<close>

fun waitFinalSIPResponse :: "heartbeat_event list \<Rightarrow> int option" where
  "waitFinalSIPResponse [] = None"
| "waitFinalSIPResponse (Answered (Some code) # es) = (if 200 \<le> code then Some code else waitFinalSIPResponse es)"
| "waitFinalSIPResponse (Answered None # es) = waitFinalSIPResponse es"
| "waitFinalSIPResponse (e # es) = None"

text \<open>What the outside does for a part.\<close>

record part_world =
  pw_tag :: string
  pw_branch :: string
  pw_call_id :: string
  pw_subscribed :: bool
  pw_written :: bool
  pw_events :: "heartbeat_event list"

definition next_cseq :: "u32 \<Rightarrow> u32" where
  "next_cseq n = (if n + 1 = 0 then 1 else n + 1)"

text \<open>The loop over the parts from number \<^term>\<open>i\<close> on: the error, the messages written, and the counter.\<close>

fun send_parts ::
  "message_env \<Rightarrow> string \<Rightarrow> nat \<Rightarrow> (bytes \<times> part_world) list \<Rightarrow> u32 \<Rightarrow>
   sms_send_error option \<times> sip_message list \<times> u32" where
  "send_parts env peer i [] n = (None, [], n)"
| "send_parts env peer i ((body, w) # parts) n =
     (let cseq = next_cseq n
      in case buildSMSMessage env (pw_tag w) (pw_branch w) peer (pw_call_id w) cseq body of
           Inl e \<Rightarrow> (Some e, [], cseq)
         | Inr m \<Rightarrow>
             if TrimSpace (pw_call_id w) = [] \<or> \<not> pw_subscribed w then (Some PartNotSubscribed, [], cseq)
             else if \<not> pw_written w then (Some (PartNotWritten (i + 1)), [], cseq)
             else (case waitFinalSIPResponse (pw_events w) of
                     None \<Rightarrow> (Some (PartUnanswered (i + 1)), [m], cseq)
                   | Some code \<Rightarrow>
                       if code < 200 \<or> 300 \<le> code then (Some (PartRejected (i + 1) code), [m], cseq)
                       else (case send_parts env peer (i + 1) parts cseq of (e, ms, k) \<Rightarrow> (e, m # ms, k))))"

definition sendSMSOnRegisteredTransport ::
  "message_env \<Rightarrow> string \<Rightarrow> (bytes \<times> part_world) list \<Rightarrow> u32 \<Rightarrow> sms_send_error option \<times> sip_message list \<times> u32" where
  "sendSMSOnRegisteredTransport env peer parts n =
     (if parts = [] then (Some NoParts, [], n) else send_parts env peer 0 parts n)"

section \<open>Receiving\<close>

record inbound_sms =
  in_Sender :: runes
  in_Content :: runes
  in_Timestamp :: sms_time
  in_HasTimestamp :: bool
  in_StatusReport :: bool
  in_DeliveryStatus :: string
  in_StatusCode :: byte
  in_ConcatReference :: nat
  in_ConcatTotal :: nat
  in_ConcatSequence :: nat

definition no_sms :: inbound_sms where
  "no_sms = \<lparr>in_Sender = [], in_Content = [], in_Timestamp = \<lparr>t_unix = - 62135596800, t_offset = 0\<rparr>, in_HasTimestamp = False,
     in_StatusReport = False, in_DeliveryStatus = [], in_StatusCode = 0, in_ConcatReference = 0, in_ConcatTotal = 0,
     in_ConcatSequence = 0\<rparr>"

text \<open>The hooks of the configuration; the stores tell whether they kept the message.\<close>

record receive_env =
  texts :: text_env
  unicode_space :: "nat \<Rightarrow> bool"
  has_observer :: bool
  DecodeIncomingRPDU :: "(bytes \<Rightarrow> (byte \<times> string \<times> bytes) option) option"
  DecodeIncomingSMS :: "(bytes \<Rightarrow> (inbound_sms \<times> bool) option) option"
  IncomingSMSMessage :: "(inbound_sms \<Rightarrow> bool) option"
  IncomingSMS :: "(runes \<Rightarrow> runes \<Rightarrow> sms_time \<Rightarrow> bool) option"
  has_ack :: bool

record message_request =
  mr_is_message :: bool
  mr_from :: "string option"
  mr_content_type :: "string option"
  mr_body :: bytes

definition trim_runes :: "(nat \<Rightarrow> bool) \<Rightarrow> runes \<Rightarrow> runes" where
  "trim_runes space rs = rev (dropWhile space (rev (dropWhile space rs)))"

definition sipMessagePeer :: "string option \<Rightarrow> string" where
  "sipMessagePeer from_header =
     (case from_header of
        None \<Rightarrow> []
      | Some raw \<Rightarrow>
          let v = TrimSpace raw
          in TrimSpace (case IndexByte v CHR ''<'' of
               Some i \<Rightarrow>
                 let r = drop (i + 1) v in (case IndexByte r CHR ''>'' of None \<Rightarrow> r | Some k \<Rightarrow> take k r)
             | None \<Rightarrow> (case IndexByte v CHR '';'' of None \<Rightarrow> v | Some k \<Rightarrow> take k v)))"

datatype sms_effect =
    ObserveRequest
  | StoreMessage inbound_sms
  | StoreText runes runes sms_time
  | SendRPAck string byte

definition acknowledge :: "receive_env \<Rightarrow> message_request \<Rightarrow> byte \<Rightarrow> sms_effect list" where
  "acknowledge env req reference =
     (if has_ack env \<and> sipMessagePeer (mr_from req) \<noteq> [] then [SendRPAck (sipMessagePeer (mr_from req)) reference] else [])"

text \<open>What a transfer unit turns out to be.\<close>

datatype decoded_unit = Undecodable | StatusReport | Message runes runes sms_time inbound_sms

definition native_applies :: "bytes \<Rightarrow> bool" where
  "native_applies tpdu \<longleftrightarrow> 0 < length tpdu \<and> (tpdu ! 0 AND 0x03 = 0 \<or> tpdu ! 0 AND 0x03 = 2)"

definition decode_own :: "receive_env \<Rightarrow> sms_time \<Rightarrow> bytes \<Rightarrow> decoded_unit" where
  "decode_own env clock tpdu =
     (case DecodeSMSDeliverTPDU (texts env) tpdu of
        (m, Some e) \<Rightarrow> Undecodable
      | (m, None) \<Rightarrow>
          if m_Direction m = SMSDirectionStatusReport then StatusReport
          else let at = (case m_ServiceCenterTimestamp m of None \<Rightarrow> clock | Some t \<Rightarrow> t);
                   sender = trim_runes (unicode_space env) (m_From m)
          in (case m_Concat m of
                None \<Rightarrow> Message sender (m_Text m) at no_sms
              | Some c \<Rightarrow>
                  if m_ServiceCenterTimestamp m = None then Undecodable
                  else Message sender (m_Text m) at (no_sms\<lparr>in_ConcatReference := ci_Reference c,
                    in_ConcatTotal := ci_Total c, in_ConcatSequence := ci_Sequence c\<rparr>)))"

definition decode_unit :: "receive_env \<Rightarrow> sms_time \<Rightarrow> bytes \<Rightarrow> decoded_unit" where
  "decode_unit env clock tpdu =
     (case DecodeIncomingSMS env of
        None \<Rightarrow> decode_own env clock tpdu
      | Some native \<Rightarrow>
          if \<not> native_applies tpdu then decode_own env clock tpdu
          else (case native tpdu of
                  None \<Rightarrow> Undecodable
                | Some (d, handled) \<Rightarrow>
                    if \<not> handled then decode_own env clock tpdu
                    else if in_StatusReport d then StatusReport
                    else Message (trim_runes (unicode_space env) (in_Sender d)) (in_Content d)
                      (if in_HasTimestamp d then in_Timestamp d else clock) d))"

text \<open>Storing: the effect, and whether the message was kept.\<close>

definition store :: "receive_env \<Rightarrow> inbound_sms \<Rightarrow> sms_effect \<times> bool" where
  "store env m =
     (case IncomingSMSMessage env of
        Some keep \<Rightarrow> (StoreMessage m, keep m)
      | None \<Rightarrow>
          (StoreText (in_Sender m) (in_Content m) (in_Timestamp m),
           case IncomingSMS env of None \<Rightarrow> False | Some keep \<Rightarrow> keep (in_Sender m) (in_Content m) (in_Timestamp m)))"

definition receive_unit ::
  "receive_env \<Rightarrow> sms_time \<Rightarrow> message_request \<Rightarrow> byte \<times> string \<times> bytes \<Rightarrow> sms_effect list" where
  "receive_unit env clock req unit_data =
     (case unit_data of (reference, originator, tpdu) \<Rightarrow>
        (case decode_unit env clock tpdu of
           Undecodable \<Rightarrow> []
         | StatusReport \<Rightarrow> acknowledge env req reference
         | Message sender0 content at base \<Rightarrow>
             let sender = (if sender0 = [] then runes_of originator else sender0);
                 m = base\<lparr>in_Sender := sender, in_Content := content, in_Timestamp := at, in_HasTimestamp := True\<rparr>;
                 (effect, kept) = store env m
             in effect # (if kept then acknowledge env req reference else [])))"

text \<open>The relay layer's unit in the body: reference, originator and transfer unit.\<close>

definition relay_unit :: "receive_env \<Rightarrow> message_request \<Rightarrow> (byte \<times> string \<times> bytes) option" where
  "relay_unit env req =
     (case DecodeIncomingRPDU env of
        Some decode \<Rightarrow> decode (mr_body req)
      | None \<Rightarrow> (case ParseRPMTData (mr_body req) of Inl _ \<Rightarrow> None | Inr u \<Rightarrow> Some u))"

definition handleIncomingRequest :: "receive_env \<Rightarrow> sms_time \<Rightarrow> message_request \<Rightarrow> sms_effect list" where
  "handleIncomingRequest env clock req =
     (if has_observer env then [ObserveRequest] else []) @
     (if \<not> mr_is_message req \<or> (IncomingSMS env = None \<and> IncomingSMSMessage env = None) then []
      else case mr_content_type req of
             None \<Rightarrow> []
           | Some ct \<Rightarrow>
               if \<not> EqualFold (TrimSpace ct) imsSMSContentType then []
               else (case relay_unit env req of
                       None \<Rightarrow> []
                     | Some u \<Rightarrow> receive_unit env clock req u))"

text \<open>The acknowledgement is a message of its own, sent while the life of the service that took the unit lasts.\<close>

definition sendIncomingRPAck ::
  "message_env \<Rightarrow> bool \<Rightarrow> string \<Rightarrow> byte \<Rightarrow> part_world \<Rightarrow> u32 \<Rightarrow>
   sms_send_error option \<times> sip_message list \<times> u32" where
  "sendIncomingRPAck env current target reference w n =
     (if \<not> current then (None, [], n)
      else sendSMSOnRegisteredTransport env target [(BuildRPAck reference, w)] n)"

section \<open>Parts go out one after the other\<close>

definition part_accepted :: "part_world \<Rightarrow> bool" where
  "part_accepted w = (case waitFinalSIPResponse (pw_events w) of None \<Rightarrow> False | Some code \<Rightarrow> 200 \<le> code \<and> code < 300)"

definition cseq_of :: "sip_message \<Rightarrow> string option" where
  "cseq_of m = map_of (msg_headers m) ''CSeq''"

definition part_number :: "u32 \<Rightarrow> nat \<Rightarrow> u32" where
  "part_number n i = (next_cseq ^^ Suc i) n"

lemma part_number_Suc: "part_number (next_cseq n) i = part_number n (Suc i)"
  by (simp add: part_number_def funpow_swap1)

lemma part_number_0: "part_number n 0 = next_cseq n" by (simp add: part_number_def)

lemma part_number_nonzero: "part_number n i \<noteq> 0"
  by (simp add: part_number_def next_cseq_def)

lemma built_message:
  "buildSMSMessage env tag branch peer call_id cseq body = Inr m \<Longrightarrow>
   msg_body m = body \<and> cseq_of m = Some (dec (unat cseq) @ '' MESSAGE'')"
  by (auto simp: buildSMSMessage_def Let_def cseq_of_def split: if_splits)

definition sent_in_order :: "(bytes \<times> part_world) list \<Rightarrow> u32 \<Rightarrow> sms_send_error option \<times> sip_message list \<times> u32 \<Rightarrow> bool" where
  "sent_in_order parts n r \<longleftrightarrow>
     (case r of (e, ms, k) \<Rightarrow>
        List.map msg_body ms = take (length ms) (List.map fst parts) \<and>
        List.map cseq_of ms = List.map (\<lambda>i. Some (dec (unat (part_number n i)) @ '' MESSAGE'')) [0..<length ms] \<and>
        list_all part_accepted (take (length ms - 1) (List.map snd parts)) \<and>
        (e = None \<longleftrightarrow> length ms = length parts \<and> list_all part_accepted (List.map snd parts)))"

lemma sent_in_order_Cons:
  assumes "sent_in_order parts (next_cseq n) (e, ms, k)" "part_accepted w"
    and "msg_body m = body" "cseq_of m = Some (dec (unat (next_cseq n)) @ '' MESSAGE'')"
  shows "sent_in_order ((body, w) # parts) n (e, m # ms, k)"
proof -
  have "[0..<Suc (length ms)] = 0 # List.map Suc [0..<length ms]" by (simp add: map_Suc_upt upt_conv_Cons del: upt_Suc)
  then show ?thesis using assms
    by (cases ms) (auto simp: sent_in_order_def part_number_0 part_number_Suc o_def simp del: upt_Suc)
qed

lemma send_parts_in_order: "sent_in_order parts n (send_parts env peer i parts n)"
proof (induction parts arbitrary: n i)
  case Nil
  then show ?case by (simp add: sent_in_order_def)
next
  case (Cons p parts)
  obtain body w where p: "p = (body, w)" by (cases p)
  show ?case
  proof (cases "buildSMSMessage env (pw_tag w) (pw_branch w) peer (pw_call_id w) (next_cseq n) body")
    case (Inl e)
    then show ?thesis by (simp add: p sent_in_order_def)
  next
    case (Inr m)
    note m = built_message [OF Inr]
    obtain e ms k where r: "send_parts env peer (i + 1) parts (next_cseq n) = (e, ms, k)" by (metis prod_cases3)
    have c: "sent_in_order parts (next_cseq n) (e, ms, k)" using Cons.IH [of "next_cseq n" "i + 1"] r by simp
    show ?thesis
    proof (cases "waitFinalSIPResponse (pw_events w)")
      case None
      then show ?thesis using Inr m by (simp add: p sent_in_order_def part_accepted_def part_number_0 Let_def)
    next
      case (Some code)
      then show ?thesis using Inr m r sent_in_order_Cons [OF c, of w m body]
        by (simp add: p sent_in_order_def part_accepted_def part_number_0 Let_def)
    qed
  qed
qed

text \<open>C37: The parts of a message go out in their order, each with the next CSeq, and a part is only written when
  the network has accepted all before it; the sender reports success exactly when there are parts and every
  one was written and accepted.\<close>

theorem parts_sent_in_order:
  "case sendSMSOnRegisteredTransport env peer parts n of (e, ms, k) \<Rightarrow>
     List.map msg_body ms = take (length ms) (List.map fst parts) \<and>
     List.map cseq_of ms = List.map (\<lambda>i. Some (dec (unat (part_number n i)) @ '' MESSAGE'')) [0..<length ms] \<and>
     list_all part_accepted (take (length ms - 1) (List.map snd parts)) \<and>
     (e = None \<longleftrightarrow> parts \<noteq> [] \<and> length ms = length parts \<and> list_all part_accepted (List.map snd parts))"
proof (cases "parts = []")
  case True
  then show ?thesis by (simp add: sendSMSOnRegisteredTransport_def)
next
  case False
  then show ?thesis using send_parts_in_order [of parts n env peer 0]
    by (auto simp: sendSMSOnRegisteredTransport_def sent_in_order_def split: prod.splits)
qed

section \<open>Stored, then acknowledged\<close>

definition is_ack :: "sms_effect \<Rightarrow> bool" where
  "is_ack e = (case e of SendRPAck target reference \<Rightarrow> True | _ \<Rightarrow> False)"

definition is_store :: "sms_effect \<Rightarrow> bool" where
  "is_store e = (case e of StoreMessage m \<Rightarrow> True | StoreText sender content at \<Rightarrow> True | _ \<Rightarrow> False)"

definition kept_by :: "receive_env \<Rightarrow> sms_effect \<Rightarrow> bool" where
  "kept_by env e =
     (case e of
        StoreMessage m \<Rightarrow> (case IncomingSMSMessage env of None \<Rightarrow> False | Some keep \<Rightarrow> keep m)
      | StoreText sender content at \<Rightarrow> (case IncomingSMS env of None \<Rightarrow> False | Some keep \<Rightarrow> keep sender content at)
      | _ \<Rightarrow> False)"

lemmas effect_kinds = is_ack_def is_store_def kept_by_def

lemma store_effect: "store env m = (e, kept) \<Longrightarrow> is_store e \<and> \<not> is_ack e \<and> (kept \<longleftrightarrow> kept_by env e)"
  by (auto simp: store_def effect_kinds split: option.splits)

lemma acknowledge_cases:
  "acknowledge env req reference = [] \<or>
   acknowledge env req reference = [SendRPAck (sipMessagePeer (mr_from req)) reference] \<and> sipMessagePeer (mr_from req) \<noteq> []"
  by (simp add: acknowledge_def)

text \<open>The effects of a unit: none, an acknowledgement of a report, or a store with or without one.\<close>

lemma unit_effects:
  "receive_unit env clock req (reference, originator, tpdu) =
     (case decode_unit env clock tpdu of
        Undecodable \<Rightarrow> []
      | StatusReport \<Rightarrow> acknowledge env req reference
      | Message sender content at base \<Rightarrow>
          let e = fst (store env (base\<lparr>in_Sender := if sender = [] then runes_of originator else sender, in_Content := content,
            in_Timestamp := at, in_HasTimestamp := True\<rparr>))
          in e # (if kept_by env e then acknowledge env req reference else []))"
  using store_effect by (auto simp: receive_unit_def Let_def split: decoded_unit.split prod.split)

text \<open>The unit a request carries when it is a short message for this client.\<close>

definition unit_of :: "receive_env \<Rightarrow> message_request \<Rightarrow> (byte \<times> string \<times> bytes) option" where
  "unit_of env req =
     (if \<not> mr_is_message req \<or> (IncomingSMS env = None \<and> IncomingSMSMessage env = None) then None
      else case mr_content_type req of
             None \<Rightarrow> None
           | Some ct \<Rightarrow> if EqualFold (TrimSpace ct) imsSMSContentType then relay_unit env req else None)"

lemma request_effects:
  "handleIncomingRequest env clock req = (if has_observer env then [ObserveRequest] else []) @
     (case unit_of env req of None \<Rightarrow> [] | Some u \<Rightarrow> receive_unit env clock req u)"
  by (auto simp: handleIncomingRequest_def unit_of_def split: option.splits)

lemma ack_position:
  assumes "handleIncomingRequest env clock req = pre @ SendRPAck target reference # post"
  shows "\<exists>originator tpdu. unit_of env req = Some (reference, originator, tpdu) \<and> target = sipMessagePeer (mr_from req) \<and>
    target \<noteq> [] \<and> post = [] \<and> list_all (\<lambda>e. \<not> is_ack e) pre \<and>
    (decode_unit env clock tpdu = StatusReport \<or> (pre \<noteq> [] \<and> kept_by env (last pre)))"
proof -
  let ?obs = "if has_observer env then [ObserveRequest] else []"
  obtain ref originator tpdu where u: "unit_of env req = Some (ref, originator, tpdu)"
    using assms unfolding request_effects
    by (cases "unit_of env req") (auto simp: Cons_eq_append_conv split: if_splits)
  have w: "?obs @ receive_unit env clock req (ref, originator, tpdu) = pre @ SendRPAck target reference # post"
    using assms u by (simp add: request_effects)
  have obs: "list_all (\<lambda>e. \<not> is_ack e) ?obs" by (simp add: effect_kinds)
  show ?thesis
  proof (cases "decode_unit env clock tpdu")
    case Undecodable
    then show ?thesis using w by (auto simp: unit_effects Cons_eq_append_conv split: if_splits)
  next
    case StatusReport
    then show ?thesis using w u acknowledge_cases [of env req ref]
      by (auto simp: unit_effects Cons_eq_append_conv append_eq_Cons_conv effect_kinds split: if_splits)
  next
    case (Message sender content at base)
    obtain e where e: "receive_unit env clock req (ref, originator, tpdu) =
        e # (if kept_by env e then acknowledge env req ref else [])" "\<not> is_ack e"
      using Message store_effect [OF prod.collapse [symmetric]] by (auto simp: unit_effects Let_def)
    have "e \<noteq> SendRPAck target reference" using e(2) by (auto simp: is_ack_def)
    then show ?thesis using w u e acknowledge_cases [of env req ref] obs
      by (auto simp: Cons_eq_append_conv append_eq_Cons_conv is_ack_def split: if_splits)
  qed
qed

text \<open>C35: The network is told that a message arrived only after it was kept: an acknowledgement of the relay
  layer is the last thing a request causes and the only one, it names the reference of the unit received and goes
  to the sender of the request, and right before it either a store reported that it kept the message, or the unit
  was a status report.\<close>

theorem acknowledged_only_when_kept:
  assumes "handleIncomingRequest env clock req = pre @ SendRPAck target reference # post"
  shows "post = [] \<and> list_all (\<lambda>e. \<not> is_ack e) pre \<and> target = sipMessagePeer (mr_from req) \<and> target \<noteq> [] \<and>
    (case relay_unit env req of
       None \<Rightarrow> False
     | Some (ref, originator, tpdu) \<Rightarrow>
         ref = reference \<and> (decode_unit env clock tpdu = StatusReport \<or> (pre \<noteq> [] \<and> kept_by env (last pre))))"
  using ack_position [OF assms] by (auto simp: unit_of_def split: if_splits option.splits)

text \<open>A store that keeps what has a text, the platform decoding the units.\<close>

definition sample_phone :: receive_env where
  "sample_phone = \<lparr>texts = \<lparr>gsm7_national = (\<lambda>_ _ _. ([], False)), gb18030_decode = (\<lambda>_. None),
     print_ranges = (\<lambda>_. False), han = (\<lambda>_. False)\<rparr>, unicode_space = (\<lambda>r. r = 32), has_observer = True, DecodeIncomingRPDU = None,
     DecodeIncomingSMS = Some (\<lambda>tpdu. Some (no_sms\<lparr>in_Content := [65]\<rparr>, True)), IncomingSMSMessage = None,
     IncomingSMS = Some (\<lambda>sender content at. content \<noteq> []), has_ack = True\<rparr>"

text \<open>A message of the letter A from 888, in a relay unit numbered 42.\<close>

definition sample_request :: message_request where
  "sample_request = \<lparr>mr_is_message = True, mr_from = Some ''<sip:smsc@ims.test>;tag=9'',
     mr_content_type = Some ''application/vnd.3gpp.sms'',
     mr_body = [1, 42, 0, 0, 17, 0, 3, 0x81, 0x88, 0xf8, 0, 8, 0x62, 0x90, 0x60, 0, 0, 0, 0, 2, 0, 0x41]\<rparr>"

lemma sample_unit:
  "relay_unit sample_phone sample_request =
     Some (42, [], [0, 3, 0x81, 0x88, 0xf8, 0, 8, 0x62, 0x90, 0x60, 0, 0, 0, 0, 2, 0, 0x41])"
proof -
  have "ParseRPMTData [1, 42, 0, 0, 17, 0, 3, 0x81, 0x88, 0xf8, 0, 8, 0x62, 0x90, 0x60, 0, 0, 0, 0, 2, 0, 0x41] =
      Inr (42, [], [0, 3, 0x81, 0x88, 0xf8, 0, 8, 0x62, 0x90, 0x60, 0, 0, 0, 0, 2, 0, 0x41])" by code_simp
  then show ?thesis by (simp add: relay_unit_def sample_phone_def sample_request_def)
qed

lemma sample_decoded:
  "decode_unit sample_phone clock [0, 3, 0x81, 0x88, 0xf8, 0, 8, 0x62, 0x90, 0x60, 0, 0, 0, 0, 2, 0, 0x41] =
     Message [] [65] clock (no_sms\<lparr>in_Content := [65]\<rparr>)"
  by (simp add: decode_unit_def sample_phone_def native_applies_def no_sms_def trim_runes_def)

lemma sample_checks:
  "sipMessagePeer (mr_from sample_request) = ''sip:smsc@ims.test''"
  "EqualFold (TrimSpace ''application/vnd.3gpp.sms'') imsSMSContentType"
  by code_simp+

lemma sample_effects:
  "handleIncomingRequest sample_phone clock sample_request =
     [ObserveRequest, StoreText [] [65] clock] @ SendRPAck ''sip:smsc@ims.test'' 42 # []"
proof -
  have "unit_of sample_phone sample_request = relay_unit sample_phone sample_request"
    using sample_checks(2) by (simp add: unit_of_def sample_phone_def sample_request_def)
  then show ?thesis
    using sample_checks(1)
    by (simp add: request_effects sample_unit unit_effects sample_decoded)
      (simp add: sample_phone_def store_def kept_by_def acknowledge_def runes_of_def)
qed

theorem acknowledged_only_when_kept_witness:
  "handleIncomingRequest sample_phone \<lparr>t_unix = 9, t_offset = 0\<rparr> sample_request =
     [ObserveRequest, StoreText [] [65] \<lparr>t_unix = 9, t_offset = 0\<rparr>] @ SendRPAck ''sip:smsc@ims.test'' 42 # [] \<and>
   kept_by sample_phone (last [ObserveRequest, StoreText [] [65] \<lparr>t_unix = 9, t_offset = 0\<rparr>])"
  using acknowledged_only_when_kept [OF sample_effects, of "\<lparr>t_unix = 9, t_offset = 0\<rparr>"]
    sample_effects [of "\<lparr>t_unix = 9, t_offset = 0\<rparr>"]
  by (simp add: sample_unit sample_decoded)

text \<open>C36: A message of the network that arrives in an RP-DATA unit and can be decoded is stored exactly once, under
  the sender of the message or, when that is empty, the originator the relay layer names; it is acknowledged if and only
  if the store kept it, and nothing else is stored.\<close>

theorem delivered_message_stored_once:
  assumes "mr_is_message req" "mr_content_type req = Some ct" "EqualFold (TrimSpace ct) imsSMSContentType"
    and "IncomingSMS env \<noteq> None \<or> IncomingSMSMessage env \<noteq> None" "DecodeIncomingRPDU env = None"
    and "mr_body req = rp_envelope 0x01 reference originator destination tpdu"
    and "length originator < 256" "length destination < 256" "0 < length tpdu" "length tpdu < 256"
    and "decode_unit env clock tpdu = Message sender content at base"
    and "has_ack env" "sipMessagePeer (mr_from req) = peer" "peer \<noteq> []"
  shows "\<exists>e. filter is_store (handleIncomingRequest env clock req) = [e] \<and>
    filter is_ack (handleIncomingRequest env clock req) = (if kept_by env e then [SendRPAck peer reference] else []) \<and>
    (let who = (if sender = [] then runes_of (decodeRPAddress originator) else sender)
     in case e of
          StoreMessage m \<Rightarrow> in_Sender m = who \<and> in_Content m = content \<and> in_Timestamp m = at \<and>
            (in_ConcatReference m, in_ConcatTotal m, in_ConcatSequence m) =
            (in_ConcatReference base, in_ConcatTotal base, in_ConcatSequence base)
        | StoreText s c t \<Rightarrow> s = who \<and> c = content \<and> t = at
        | _ \<Rightarrow> False)"
proof -
  have u: "unit_of env req = Some (reference, decodeRPAddress originator, tpdu)"
    using assms(1-6) parse_envelope [OF assms(7-10), of reference] by (auto simp: unit_of_def relay_unit_def)
  define m where "m = base\<lparr>in_Sender := if sender = [] then runes_of (decodeRPAddress originator) else sender,
    in_Content := content, in_Timestamp := at, in_HasTimestamp := True\<rparr>"
  define e where "e = fst (store env m)"
  have eff: "handleIncomingRequest env clock req = (if has_observer env then [ObserveRequest] else []) @ e #
      (if kept_by env e then [SendRPAck peer reference] else [])"
    using assms(11-14) by (simp add: request_effects u unit_effects Let_def e_def m_def acknowledge_def)
  have "is_store e" "\<not> is_ack e" using store_effect [OF prod.collapse [symmetric], of env m] by (simp_all add: e_def)
  moreover have "is_ack (SendRPAck peer reference)" "\<not> is_store (SendRPAck peer reference)"
    "\<not> is_ack ObserveRequest" "\<not> is_store ObserveRequest" by (simp_all add: effect_kinds)
  moreover have "e = (if IncomingSMSMessage env = None then StoreText (in_Sender m) (in_Content m) (in_Timestamp m) else StoreMessage m)"
    by (auto simp: e_def store_def split: option.split)
  ultimately show ?thesis by (intro exI [of _ e]) (auto simp: eff m_def Let_def)
qed

theorem delivered_message_stored_once_witness:
  "filter is_ack (handleIncomingRequest sample_phone \<lparr>t_unix = 9, t_offset = 0\<rparr> sample_request) =
     [SendRPAck ''sip:smsc@ims.test'' 42]"
proof -
  let ?t = "\<lparr>t_unix = 9, t_offset = 0\<rparr>"
  have b: "mr_body sample_request = rp_envelope 0x01 42 [] [] [0, 3, 0x81, 0x88, 0xf8, 0, 8, 0x62, 0x90, 0x60, 0, 0, 0, 0, 2, 0, 0x41]"
    by (simp add: sample_request_def rp_envelope_def)
  obtain e where e: "filter is_store (handleIncomingRequest sample_phone ?t sample_request) = [e]"
    "filter is_ack (handleIncomingRequest sample_phone ?t sample_request) =
       (if kept_by sample_phone e then [SendRPAck ''sip:smsc@ims.test'' 42] else [])"
    using delivered_message_stored_once [OF _ _ sample_checks(2) _ _ b _ _ _ _ sample_decoded _ sample_checks(1), of ?t]
    by (auto simp: sample_request_def sample_phone_def)
  have "e = StoreText [] [65] ?t" using e(1) by (simp add: sample_effects is_store_def)
  then show ?thesis using e(2) by (simp add: kept_by_def sample_phone_def)
qed

end
