(* ===== verification/Socks5.thy ===== *)
theory Socks5
  imports Go_Addr
begin

text \<open>
  The SOCKS5 client of the tunnel (\<^verbatim>\<open>socks5/socks5.go\<close>): the handshakes of a UDP association and of a
  TCP connection through a proxy, and the header of relayed datagrams.

  A control connection is the bytes the proxy still has to say, what the client has written, and whether
  it is open; a read beyond the bytes ends with an error, as that from a closed proxy does, and in
  \<^verbatim>\<open>NewUDPRelay\<close>, which sets a deadline, that from a silent one.  Dialling, resolving, deadlines and whether a write succeeds are arguments.
\<close>

section \<open>The control connection\<close>

record control =
  pending :: bytes
  written :: "bytes list"
  is_open :: bool

datatype socks_error =
    DialFailed
  | DeadlineFailed
  | WriteFailed
  | ReadFailed
  | GreetingRefused byte
  | CommandRefused byte
  | UnsupportedATYP byte
  | ResolveFailed
  | RelayPortZero
  | RelayDialFailed
  | DomainTooLong
  | DestinationMissing
  | RelayClosed
  | PacketTooShort nat
  | FragmentUnsupported byte
  | HeaderTooShort
  | DataOutOfRange

text \<open>What happens outside: writes are numbered.\<close>

record proxy_env =
  reachable :: bool
  deadline_set :: bool
  deadline_cleared :: bool
  write_ok :: "nat \<Rightarrow> bool"
  remote_addr :: string
  resolve :: "string \<Rightarrow> (bytes \<times> int) option"
  udp_dialled :: "string \<Rightarrow> bytes \<times> int \<Rightarrow> bool"

text \<open>A step on the connection; an error closes it.\<close>

type_synonym 'a exchange = "control \<Rightarrow> (socks_error + 'a) \<times> control"

definition give_up :: "socks_error \<Rightarrow> 'a exchange" where
  "give_up e t = (Inl e, t\<lparr>is_open := False\<rparr>)"

definition and_then :: "'a exchange \<Rightarrow> ('a \<Rightarrow> 'b exchange) \<Rightarrow> 'b exchange" where
  "and_then m f t = (case m t of (Inl e, t1) \<Rightarrow> (Inl e, t1) | (Inr x, t1) \<Rightarrow> f x t1)"

definition yield_result :: "'a \<Rightarrow> 'a exchange" where
  "yield_result x t = (Inr x, t)"

definition tcp_write :: "proxy_env \<Rightarrow> bytes \<Rightarrow> unit exchange" where
  "tcp_write env data t =
     (if write_ok env (length (written t)) then (Inr (), t\<lparr>written := written t @ [data]\<rparr>) else give_up WriteFailed t)"

text \<open>\<^verbatim>\<open>io.ReadFull\<close>.\<close>

definition read_full :: "nat \<Rightarrow> bytes exchange" where
  "read_full n t =
     (if length (pending t) < n then give_up ReadFailed (t\<lparr>pending := []\<rparr>)
      else (Inr (take n (pending t)), t\<lparr>pending := drop n (pending t)\<rparr>))"

section \<open>Handshakes\<close>

definition greet :: "proxy_env \<Rightarrow> unit exchange" where
  "greet env =
     and_then (tcp_write env [0x05, 0x01, 0x00]) (\<lambda>_.
     and_then (read_full 2) (\<lambda>resp.
       if resp ! 0 \<noteq> 0x05 \<or> resp ! 1 \<noteq> 0x00 then give_up (GreetingRefused (resp ! 1)) else yield_result ()))"

text \<open>The first four bytes of a reply; the result is the type of the address behind them.\<close>

definition read_reply :: "byte exchange" where
  "read_reply =
     and_then (read_full 4) (\<lambda>rep. if rep ! 1 \<noteq> 0x00 then give_up (CommandRefused (rep ! 1)) else yield_result (rep ! 3))"

definition byte_string :: "bytes \<Rightarrow> string" where
  "byte_string bs = List.map (\<lambda>b. char_of (unat b)) bs"

definition read_port :: "string \<Rightarrow> (string \<times> string) exchange" where
  "read_port host = and_then (read_full 2) (\<lambda>p. yield_result (host, dec (unat (get_u16 0 p))))"

definition read_relay :: "byte \<Rightarrow> (string \<times> string) exchange" where
  "read_relay atyp =
     (if atyp = 0x01 then and_then (read_full 4) (\<lambda>a. read_port (ip_string a))
      else if atyp = 0x03 then
        and_then (read_full 1) (\<lambda>l. and_then (read_full (unat (l ! 0))) (\<lambda>d. read_port (byte_string d)))
      else if atyp = 0x04 then and_then (read_full 16) (\<lambda>a. read_port (ip_string a))
      else give_up (UnsupportedATYP atyp))"

text \<open>An unspecified address or port is replaced by that of the proxy.\<close>

definition relay_address :: "proxy_env \<Rightarrow> string \<times> string \<Rightarrow> string" where
  "relay_address env relay =
     (let (proxy_host, proxy_port) = (case SplitHostPort (remote_addr env) of None \<Rightarrow> ([], []) | Some hp \<Rightarrow> hp);
          host = (if fst relay = ''0.0.0.0'' \<or> fst relay = ''::'' then proxy_host else fst relay);
          port = (if snd relay = ''0'' then proxy_port else snd relay)
      in JoinHostPort host port)"

record udp_relay =
  relay_to :: "bytes \<times> int"
  relay_network :: string
  relay_closed :: bool

definition dial_relay :: "proxy_env \<Rightarrow> string \<Rightarrow> udp_relay exchange" where
  "dial_relay env addr =
     (case resolve env addr of
        None \<Rightarrow> give_up ResolveFailed
      | Some (ip, port) \<Rightarrow>
          if port = 0 then give_up RelayPortZero
          else let network = (if ip \<noteq> [] \<and> To4 ip = None then ''udp6'' else ''udp4'')
          in if \<not> udp_dialled env network (ip, port) then give_up RelayDialFailed
             else if \<not> deadline_cleared env then give_up DeadlineFailed
             else yield_result \<lparr>relay_to = (ip, port), relay_network = network, relay_closed = False\<rparr>)"

text \<open>The control connection before the handshake, when the proxy will say \<^term>\<open>bs\<close>.\<close>

definition connected :: "bytes \<Rightarrow> control" where
  "connected bs = \<lparr>pending = bs, written = [], is_open = True\<rparr>"

definition NewUDPRelay :: "proxy_env \<Rightarrow> bytes \<Rightarrow> (socks_error + udp_relay) \<times> control option" where
  "NewUDPRelay env bs =
     (if \<not> reachable env then (Inl DialFailed, None)
      else if \<not> deadline_set env then (Inl DeadlineFailed, Some ((connected bs)\<lparr>is_open := False\<rparr>))
      else case and_then (greet env) (\<lambda>_.
             and_then (tcp_write env [0x05, 0x03, 0x00, 0x01, 0, 0, 0, 0, 0, 0]) (\<lambda>_.
             and_then read_reply (\<lambda>atyp.
             and_then (read_relay atyp) (\<lambda>relay. dial_relay env (relay_address env relay))))) (connected bs) of
           (r, t) \<Rightarrow> (r, Some t))"

section \<open>Relayed datagrams\<close>

definition SendTo :: "bytes \<Rightarrow> bytes option \<Rightarrow> int \<Rightarrow> udp_relay \<Rightarrow> socks_error + bytes" where
  "SendTo data dstIP dport r =
     (case dstIP of
        None \<Rightarrow> Inl DestinationMissing
      | Some ip \<Rightarrow>
          if relay_closed r then Inl RelayClosed
          else (case To4 ip of
                  Some v4 \<Rightarrow> Inr ([0x00, 0x00, 0x00, 0x01] @ v4 @ put_u16 0 (of_int dport) [0, 0] @ data)
                | None \<Rightarrow>
                    let v6 = (case To16 ip of Some a \<Rightarrow> a | None \<Rightarrow> replicate 16 0)
                    in Inr ([0x00, 0x00, 0x00, 0x04] @ v6 @ put_u16 0 (of_int dport) [0, 0] @ data)))"

definition SendToDomain :: "bytes \<Rightarrow> bytes \<Rightarrow> int \<Rightarrow> udp_relay \<Rightarrow> socks_error + bytes" where
  "SendToDomain data domain dport r =
     (if relay_closed r then Inl RelayClosed
      else if 255 < length domain then Inl DomainTooLong
      else Inr ([0x00, 0x00, 0x00, 0x03, of_nat (length domain)] @ domain @ put_u16 0 (of_int dport) [0, 0] @ data))"

text \<open>A datagram of the proxy: its data, the address of its source, nil for a name, and the port.\<close>

definition ReadFrom :: "udp_relay \<Rightarrow> bytes \<Rightarrow> socks_error + bytes \<times> bytes option \<times> int" where
  "ReadFrom r buf =
     (let n = length buf;
          deliver = (\<lambda>addrLen ip port. let dataStart = 4 + addrLen + 2
            in if n < dataStart then Inl DataOutOfRange else Inr (drop dataStart buf, ip, int (unat (port :: u16))))
      in if relay_closed r then Inl RelayClosed
         else if n < 10 then Inl (PacketTooShort n)
         else if buf ! 2 \<noteq> 0 then Inl (FragmentUnsupported (buf ! 2))
         else if buf ! 3 = 0x01 then
           (if n < 10 then Inl HeaderTooShort else deliver 4 (Some (slice 4 8 buf)) (get_u16 8 buf))
         else if buf ! 3 = 0x03 then
           (if n < 5 then Inl HeaderTooShort
            else let domainLen = unat (buf ! 4)
            in if n < 4 + 1 + domainLen + 2 then Inl HeaderTooShort
               else deliver (1 + domainLen) None (get_u16 (5 + domainLen) buf))
         else if buf ! 3 = 0x04 then
           (if n < 22 then Inl HeaderTooShort else deliver 16 (Some (slice 4 20 buf)) (get_u16 20 buf))
         else Inl (UnsupportedATYP (buf ! 3)))"

definition Close :: "udp_relay \<Rightarrow> udp_relay" where
  "Close r = r\<lparr>relay_closed := True\<rparr>"

text \<open>\<^verbatim>\<open>SOCKS5Conn\<close>: a relay with a fixed destination, an address or a name.\<close>

record socks_conn =
  conn_relay :: udp_relay
  dstIP :: "bytes option"
  dstDomain :: bytes
  conn_port :: int

definition NewSOCKS5Conn ::
  "proxy_env \<Rightarrow> bytes option \<Rightarrow> int \<Rightarrow> bytes \<Rightarrow> (socks_error + socks_conn) \<times> control option" where
  "NewSOCKS5Conn env ip port bs =
     (case NewUDPRelay env bs of (r, t) \<Rightarrow>
       (rbind r (\<lambda>relay. Inr \<lparr>conn_relay = relay, dstIP = ip, dstDomain = [], conn_port = port\<rparr>), t))"

definition NewSOCKS5ConnByDomain ::
  "proxy_env \<Rightarrow> bytes \<Rightarrow> int \<Rightarrow> bytes \<Rightarrow> (socks_error + socks_conn) \<times> control option" where
  "NewSOCKS5ConnByDomain env domain port bs =
     (case NewUDPRelay env bs of (r, t) \<Rightarrow>
       (rbind r (\<lambda>relay. Inr \<lparr>conn_relay = relay, dstIP = None, dstDomain = domain, conn_port = port\<rparr>), t))"

definition conn_write :: "socks_conn \<Rightarrow> bytes \<Rightarrow> socks_error + bytes" where
  "conn_write c data =
     (if dstDomain c \<noteq> [] then SendToDomain data (dstDomain c) (conn_port c) (conn_relay c)
      else SendTo data (dstIP c) (conn_port c) (conn_relay c))"

definition conn_read :: "socks_conn \<Rightarrow> bytes \<Rightarrow> socks_error + bytes" where
  "conn_read c buf = rbind (ReadFrom (conn_relay c) buf) (\<lambda>(data, ip, port). Inr data)"

section \<open>TCP connections\<close>

definition connect_request :: "bytes \<Rightarrow> int \<Rightarrow> bytes" where
  "connect_request ip port =
     (case To4 ip of
        Some v4 \<Rightarrow> [0x05, 0x01, 0x00, 0x01] @ v4 @ put_u16 0 (of_int port) [0, 0]
      | None \<Rightarrow> [0x05, 0x01, 0x00, 0x04] @ (case To16 ip of Some a \<Rightarrow> a | None \<Rightarrow> replicate 16 0) @
          put_u16 0 (of_int port) [0, 0])"

definition connect_domain_request :: "bytes \<Rightarrow> int \<Rightarrow> bytes" where
  "connect_domain_request domain port =
     [0x05, 0x01, 0x00, 0x03, of_nat (length domain)] @ domain @ put_u16 0 (of_int port) [0, 0]"

definition discard_bound :: "byte \<Rightarrow> unit exchange" where
  "discard_bound atyp =
     (if atyp = 0x01 then and_then (read_full (4 + 2)) (\<lambda>_. yield_result ())
      else if atyp = 0x03 then
        and_then (read_full 1) (\<lambda>l. and_then (read_full (unat (l ! 0) + 2)) (\<lambda>_. yield_result ()))
      else if atyp = 0x04 then and_then (read_full (16 + 2)) (\<lambda>_. yield_result ())
      else give_up (UnsupportedATYP atyp))"

definition connect_with :: "proxy_env \<Rightarrow> bytes \<Rightarrow> unit exchange" where
  "connect_with env req =
     and_then (tcp_write env req) (\<lambda>_. and_then read_reply discard_bound)"

definition NewSOCKS5TCPConn :: "proxy_env \<Rightarrow> bytes \<Rightarrow> int \<Rightarrow> bytes \<Rightarrow> (socks_error + unit) \<times> control option" where
  "NewSOCKS5TCPConn env ip port bs =
     (if \<not> reachable env then (Inl DialFailed, None)
      else case and_then (greet env) (\<lambda>_. connect_with env (connect_request ip port)) (connected bs) of
             (r, t) \<Rightarrow> (r, Some t))"

definition NewSOCKS5TCPConnByDomain ::
  "proxy_env \<Rightarrow> bytes \<Rightarrow> int \<Rightarrow> bytes \<Rightarrow> (socks_error + unit) \<times> control option" where
  "NewSOCKS5TCPConnByDomain env domain port bs =
     (if \<not> reachable env then (Inl DialFailed, None)
      else case and_then (greet env) (\<lambda>_.
             if 255 < length domain then give_up DomainTooLong
             else connect_with env (connect_domain_request domain port)) (connected bs) of
             (r, t) \<Rightarrow> (r, Some t))"

section \<open>Errors close the connection\<close>

definition closes :: "'a exchange \<Rightarrow> bool" where
  "closes m \<longleftrightarrow> (\<forall>t e t'. m t = (Inl e, t') \<longrightarrow> \<not> is_open t') \<and> (\<forall>t x t'. m t = (Inr x, t') \<longrightarrow> is_open t' = is_open t)"

named_theorems closing

lemma closes_give_up [closing]: "closes (give_up e)"
  by (simp add: closes_def give_up_def)

lemma closes_yield [closing]: "closes (yield_result x)"
  by (simp add: closes_def yield_result_def)

lemma closes_then [closing]: "closes m \<Longrightarrow> (\<And>x. closes (f x)) \<Longrightarrow> closes (and_then m f)"
  unfolding closes_def and_then_def by (auto split: prod.splits sum.splits)

lemma closes_write [closing]: "closes (tcp_write env data)"
  by (auto simp: closes_def tcp_write_def give_up_def split: if_splits)

lemma closes_read [closing]: "closes (read_full n)"
  by (auto simp: closes_def read_full_def give_up_def split: if_splits)

lemma closes_if [closing]: "closes a \<Longrightarrow> closes b \<Longrightarrow> closes (if c then a else b)"
  by simp

lemma closes_greet [closing]: "closes (greet env)"
  unfolding greet_def by (intro closing)

lemma closes_reply [closing]: "closes read_reply"
  unfolding read_reply_def by (intro closing)

lemma closes_relay [closing]: "closes (read_relay atyp)"
  unfolding read_relay_def read_port_def by (intro closing)

lemma closes_dial [closing]: "closes (dial_relay env addr)"
  by (auto simp: dial_relay_def Let_def intro: closing split: option.split)

lemma closes_discard [closing]: "closes (discard_bound atyp)"
  unfolding discard_bound_def by (intro closing)

lemma closes_connect [closing]: "closes (connect_with env req)"
  unfolding connect_with_def by (intro closing)

lemma closed_on_error:
  assumes "closes m" "m (connected bs) = (r, t)"
  shows "is_open t \<longleftrightarrow> (\<exists>x. r = Inr x)"
  using assms by (cases r) (auto simp: closes_def connected_def)

definition opened :: "(socks_error + 'a) \<times> control option \<Rightarrow> bool option" where
  "opened result = map_option is_open (snd result)"

definition succeeded :: "(socks_error + 'a) \<times> control option \<Rightarrow> bool" where
  "succeeded result = (case fst result of Inl _ \<Rightarrow> False | Inr _ \<Rightarrow> True)"

text \<open>C38: Every way a handshake can fail, the greeting, the command, an address of unknown type, the resolver,
  a deadline or a name that is too long, closes the control connection; a handshake that succeeds leaves it
  open.\<close>

theorem handshakes_close:
  "opened (NewUDPRelay env bs) = (if reachable env then Some (succeeded (NewUDPRelay env bs)) else None) \<and>
   opened (NewSOCKS5TCPConn env ip port bs) =
     (if reachable env then Some (succeeded (NewSOCKS5TCPConn env ip port bs)) else None) \<and>
   opened (NewSOCKS5TCPConnByDomain env domain port bs) =
     (if reachable env then Some (succeeded (NewSOCKS5TCPConnByDomain env domain port bs)) else None)"
proof -
  have "closes (and_then (greet env) (\<lambda>_.
      and_then (tcp_write env [0x05, 0x03, 0x00, 0x01, 0, 0, 0, 0, 0, 0]) (\<lambda>_.
      and_then read_reply (\<lambda>atyp.
      and_then (read_relay atyp) (\<lambda>relay. dial_relay env (relay_address env relay))))))"
    "closes (and_then (greet env) (\<lambda>_. connect_with env (connect_request ip port)))"
    "closes (and_then (greet env) (\<lambda>_. if 255 < length domain then give_up DomainTooLong
       else connect_with env (connect_domain_request domain port)))"
    by (intro closing)+
  from this [THEN closed_on_error] show ?thesis
    unfolding NewUDPRelay_def NewSOCKS5TCPConn_def NewSOCKS5TCPConnByDomain_def opened_def succeeded_def
    by (auto split: prod.splits sum.splits)
qed

section \<open>The tunnel\<close>

text \<open>The address of a reply as the protocol lays it out.\<close>

datatype socks_address = Address4 bytes | Name bytes | Address6 bytes

fun address_ok :: "socks_address \<Rightarrow> bool" where
  "address_ok (Address4 a) \<longleftrightarrow> length a = 4"
| "address_ok (Name d) \<longleftrightarrow> length d < 256"
| "address_ok (Address6 a) \<longleftrightarrow> length a = 16"

fun address_type :: "socks_address \<Rightarrow> byte" where
  "address_type (Address4 a) = 0x01"
| "address_type (Name d) = 0x03"
| "address_type (Address6 a) = 0x04"

fun address_bytes :: "socks_address \<Rightarrow> bytes" where
  "address_bytes (Address4 a) = a"
| "address_bytes (Name d) = of_nat (length d) # d"
| "address_bytes (Address6 a) = a"

fun address_text :: "socks_address \<Rightarrow> string" where
  "address_text (Address4 a) = ip_string a"
| "address_text (Name d) = byte_string d"
| "address_text (Address6 a) = ip_string a"

text \<open>What a proxy that agrees says: its method, and a reply with an address and a port.\<close>

definition agreeing :: "byte \<Rightarrow> byte \<Rightarrow> socks_address \<Rightarrow> u16 \<Rightarrow> bytes" where
  "agreeing version reserved addr port =
     [0x05, 0x00] @ [version, 0x00, reserved, address_type addr] @ address_bytes addr @ put_u16 0 port [0, 0]"

lemma read_full_append: "length xs = n \<Longrightarrow> pending t = xs @ ys \<Longrightarrow> read_full n t = (Inr xs, t\<lparr>pending := ys\<rparr>)"
  by (simp add: read_full_def)

lemma write_all: "write_ok env = (\<lambda>_. True) \<Longrightarrow> tcp_write env d t = (Inr (), t\<lparr>written := written t @ [d]\<rparr>)"
  by (simp add: tcp_write_def)

lemma greet_agreed:
  assumes "write_ok env = (\<lambda>_. True)"
  shows "greet env (connected ([0x05, 0x00] @ bs)) = (Inr (), \<lparr>pending = bs, written = [[0x05, 0x01, 0x00]], is_open = True\<rparr>)"
  by (simp add: greet_def and_then_def write_all [OF assms] read_full_def connected_def yield_result_def)

lemma reply_agreed:
  "pending t = [v, 0x00, r, a] @ bs \<Longrightarrow> read_reply t = (Inr a, t\<lparr>pending := bs\<rparr>)"
  by (simp add: read_reply_def and_then_def read_full_def yield_result_def)

lemma discard_agreed:
  assumes "address_ok addr" "pending t = address_bytes addr @ put_u16 0 port [0, 0] @ bs"
  shows "discard_bound (address_type addr) t = (Inr (), t\<lparr>pending := bs\<rparr>)"
  using assms by (cases addr)
    (simp_all add: discard_bound_def and_then_def read_full_def yield_result_def unat_of_nat_byte)

lemma relay_agreed:
  assumes "address_ok addr" "pending t = address_bytes addr @ put_u16 0 port [0, 0] @ bs"
  shows "read_relay (address_type addr) t = (Inr (address_text addr, dec (unat port)), t\<lparr>pending := bs\<rparr>)"
proof -
  have p: "read_port host (t\<lparr>pending := put_u16 0 port [0, 0] @ bs\<rparr>) = (Inr (host, dec (unat port)), t\<lparr>pending := bs\<rparr>)" for host
    by (simp add: read_port_def and_then_def read_full_def yield_result_def del: dec.simps)
  show ?thesis
    using assms p by (cases addr)
      (simp_all add: read_relay_def and_then_def read_full_def unat_of_nat_byte del: dec.simps)
qed

text \<open>C39: Through a proxy that agrees, a TCP connection to an address or to a name of at most 255 bytes is
  established with exactly two messages, the greeting and the request, and the whole reply and nothing
  else is consumed: the first byte the tunnel delivers is the first one behind the reply, whatever kind of
  address the proxy names.\<close>

theorem tunnel_starts_after_reply:
  assumes "reachable env" "write_ok env = (\<lambda>_. True)" "address_ok addr"
  shows "NewSOCKS5TCPConn env ip port (agreeing v r addr p @ tunnel) =
      (Inr (), Some \<lparr>pending = tunnel, written = [[0x05, 0x01, 0x00], connect_request ip port], is_open = True\<rparr>) \<and>
    NewSOCKS5TCPConnByDomain env domain port (agreeing v r addr p @ tunnel) =
      (if length domain \<le> 255
       then (Inr (), Some \<lparr>pending = tunnel, written = [[0x05, 0x01, 0x00], connect_domain_request domain port], is_open = True\<rparr>)
       else (Inl DomainTooLong, Some \<lparr>pending = drop 2 (agreeing v r addr p) @ tunnel, written = [[0x05, 0x01, 0x00]], is_open = False\<rparr>))"
proof -
  let ?bs = "[v, 0x00, r, address_type addr] @ address_bytes addr @ put_u16 0 p [0, 0] @ tunnel"
  have a: "agreeing v r addr p @ tunnel = [0x05, 0x00] @ ?bs" by (simp add: agreeing_def)
  let ?t = "\<lparr>pending = ?bs, written = [[0x05, 0x01, 0x00]], is_open = True\<rparr>"
  have c: "connect_with env req ?t = (Inr (), \<lparr>pending = tunnel, written = [[0x05, 0x01, 0x00], req], is_open = True\<rparr>)" for req
    unfolding connect_with_def
    by (simp add: and_then_def write_all [OF assms(2)] reply_agreed discard_agreed [OF assms(3)])
  have g: "and_then (greet env) f (connected ([0x05, 0x00] @ ?bs)) = f () ?t" for f :: "unit \<Rightarrow> unit exchange"
    unfolding and_then_def greet_agreed [OF assms(2)] by simp
  have d: "drop 2 (agreeing v r addr p) @ tunnel = ?bs" by (simp add: agreeing_def)
  show ?thesis
    unfolding a d NewSOCKS5TCPConn_def NewSOCKS5TCPConnByDomain_def g
    using assms(1) by (simp add: c [simplified] give_up_def)
qed

section \<open>The relay\<close>

lemma relay_established:
  assumes "reachable env" "deadline_set env" "write_ok env = (\<lambda>_. True)" "address_ok addr"
  shows "NewUDPRelay env (agreeing v r addr p @ tail) =
    (case dial_relay env (relay_address env (address_text addr, dec (unat p)))
       \<lparr>pending = tail, written = [[0x05, 0x01, 0x00], [0x05, 0x03, 0x00, 0x01, 0, 0, 0, 0, 0, 0]], is_open = True\<rparr> of
     (x, t) \<Rightarrow> (x, Some t))"
proof -
  let ?bs = "[v, 0x00, r, address_type addr] @ address_bytes addr @ put_u16 0 p [0, 0] @ tail"
  have a: "agreeing v r addr p @ tail = [0x05, 0x00] @ ?bs" by (simp add: agreeing_def)
  have "and_then (greet env) f (connected ([0x05, 0x00] @ ?bs)) =
      f () \<lparr>pending = ?bs, written = [[0x05, 0x01, 0x00]], is_open = True\<rparr>" for f :: "unit \<Rightarrow> udp_relay exchange"
    unfolding and_then_def greet_agreed [OF assms(3)] by simp
  then show ?thesis
    unfolding a NewUDPRelay_def
    using assms(1,2) by (simp add: and_then_def write_all [OF assms(3)] reply_agreed relay_agreed [OF assms(4)] del: dec.simps)
qed

lemma of_int_port: "0 \<le> port \<Longrightarrow> port < 65536 \<Longrightarrow> uint (of_int port :: u16) = port"
  by (simp add: uint_word_of_int_eq take_bit_int_eq_self)

lemma get_port: "get_u16 (length xs) (xs @ put_u16 0 v [0, 0] @ ys) = v"
  using be_u16_split [of v] by (simp add: get_u16_def put_u16_def nth_append)

text \<open>A datagram sent through the relay and returned by the proxy under the same header is read as it
  was sent: the data, the destination in its shortest form, and the port; a name comes back without its text.\<close>

theorem relayed_datagram_read:
  assumes "0 \<le> port" "port < 65536" "length ip = 4 \<or> length ip = 16" "10 \<le> length domain + length data + 7"
  shows "rbind (SendTo data (Some ip) port r) (ReadFrom r) =
      (if relay_closed r then Inl RelayClosed
       else Inr (data, Some (case To4 ip of Some v4 \<Rightarrow> v4 | None \<Rightarrow> ip), port)) \<and>
    rbind (SendToDomain data domain port r) (ReadFrom r) =
      (if relay_closed r then Inl RelayClosed
       else if 255 < length domain then Inl DomainTooLong
       else Inr (data, None, port))"
proof (intro conjI)
  let ?p = "put_u16 0 (of_int port) [0, 0]"
  have l: "length ?p = 2" by simp
  show "rbind (SendTo data (Some ip) port r) (ReadFrom r) =
      (if relay_closed r then Inl RelayClosed
       else Inr (data, Some (case To4 ip of Some v4 \<Rightarrow> v4 | None \<Rightarrow> ip), port))"
  proof (cases "To4 ip")
    case None
    then have i: "length ip = 16" using assms(3) by (auto simp: To4_def)
    then have t: "To16 ip = Some ip" by (simp add: To16_def)
    have "get_u16 20 ([0x00, 0x00, 0x00, 0x04] @ ip @ ?p @ data) = of_int port"
      using get_port [of "[0x00, 0x00, 0x00, 0x04] @ ip" "of_int port" data] i by simp
    then show ?thesis
      using None i t by (simp add: SendTo_def ReadFrom_def Let_def slice_def of_int_port assms)
  next
    case (Some v4)
    then have i: "length v4 = 4" by (auto simp: To4_def slice_def split: if_splits)
    have "get_u16 8 ([0x00, 0x00, 0x00, 0x01] @ v4 @ ?p @ data) = of_int port"
      using get_port [of "[0x00, 0x00, 0x00, 0x01] @ v4" "of_int port" data] i by simp
    then show ?thesis
      using Some i by (simp add: SendTo_def ReadFrom_def Let_def slice_def of_int_port assms)
  qed
  let ?h = "[0x00, 0x00, 0x00, 0x03, of_nat (length domain)] @ domain"
  have "length ?h = 5 + length domain" by simp
  then have "get_u16 (5 + length domain) (?h @ ?p @ data) = of_int port"
    using get_port [of ?h "of_int port" data] by (simp only:)
  moreover have "length (?h @ ?p) = 7 + length domain" by simp
  then have "drop (7 + length domain) ((?h @ ?p) @ data) = data" by (metis append_eq_conv_conj)
  ultimately show "rbind (SendToDomain data domain port r) (ReadFrom r) =
      (if relay_closed r then Inl RelayClosed
       else if 255 < length domain then Inl DomainTooLong
       else Inr (data, None, port))"
    using assms(4) by (simp add: SendToDomain_def ReadFrom_def Let_def unat_of_nat_byte of_int_port assms(1,2))
qed

definition sample_proxy :: proxy_env where
  "sample_proxy = \<lparr>reachable = True, deadline_set = True, deadline_cleared = True, write_ok = (\<lambda>_. True),
     remote_addr = ''192.0.2.1:1080'', resolve = (\<lambda>_. Some ([192, 0, 2, 1], 4000)), udp_dialled = (\<lambda>_ _. True)\<rparr>"

theorem tunnel_starts_after_reply_witness:
  "NewSOCKS5TCPConn sample_proxy [192, 0, 2, 7] 4500 (agreeing 5 0 (Address4 [0, 0, 0, 0]) 0 @ [1, 2, 3]) =
     (Inr (), Some \<lparr>pending = [1, 2, 3], written = [[5, 1, 0], connect_request [192, 0, 2, 7] 4500], is_open = True\<rparr>)"
proof -
  have "reachable sample_proxy" "write_ok sample_proxy = (\<lambda>_. True)" "address_ok (Address4 [0, 0, 0, 0])"
    by (simp_all add: sample_proxy_def)
  from tunnel_starts_after_reply [OF this] show ?thesis by simp
qed

theorem relayed_datagram_read_witness:
  "rbind (SendTo [7] (Some [192, 0, 2, 7]) 500 \<lparr>relay_to = ([], 1), relay_network = [], relay_closed = False\<rparr>)
     (ReadFrom \<lparr>relay_to = ([], 1), relay_network = [], relay_closed = False\<rparr>) = Inr ([7], Some [192, 0, 2, 7], 500)"
  using relayed_datagram_read [of 500 "[192, 0, 2, 7]" "[1, 2]" "[7]" "\<lparr>relay_to = ([], 1), relay_network = [], relay_closed = False\<rparr>"]
  by (simp add: To4_def)

end
