(* ===== verification/Proxy_Transport.thy ===== *)
theory Proxy_Transport
  imports Socks5
begin

text \<open>
  The transport of the tunnel through the proxy (\<^verbatim>\<open>proxy.go\<close>): IKE and ESP share one relay, and what
  comes back is told apart by its content.

  The channels are the packets handed to them, in order; a full channel blocks the reader, so that nothing is
  dropped.  The channel of events has room for four.
\<close>

section \<open>State and operations\<close>

record proxy_transport =
  px_relay :: udp_relay
  px_host :: string
  px_port :: int
  px_ike :: "bytes list"
  px_esp :: "bytes list"
  px_events :: "string list"
  px_closed :: bool

datatype proxy_error = RemoteInvalid | PortInvalid | RelayFailed socks_error

definition newReaderSWUProxyTransportFactory ::
  "proxy_env \<Rightarrow> string \<Rightarrow> bytes \<Rightarrow> proxy_error + proxy_transport" where
  "newReaderSWUProxyTransportFactory env remote bs =
     (case SplitHostPort remote of
        None \<Rightarrow> Inl RemoteInvalid
      | Some (host, port_text) \<Rightarrow>
          (case Atoi port_text of
             None \<Rightarrow> Inl PortInvalid
           | Some port \<Rightarrow>
               if port < 1 \<or> 65535 < port then Inl PortInvalid
               else (case fst (NewUDPRelay env bs) of
                       Inl e \<Rightarrow> Inl (RelayFailed e)
                     | Inr relay \<Rightarrow>
                         Inr \<lparr>px_relay = relay, px_host = host, px_port = port, px_ike = [], px_esp = [], px_events = [],
                           px_closed = False\<rparr>)))"

definition Stop :: "proxy_transport \<Rightarrow> proxy_transport" where
  "Stop t = (if px_closed t then t else t\<lparr>px_closed := True, px_relay := Close (px_relay t)\<rparr>)"

definition SetRemotePort :: "int \<Rightarrow> proxy_transport \<Rightarrow> proxy_transport" where
  "SetRemotePort port t = (if 0 < port \<and> port \<le> 65535 then t\<lparr>px_port := port\<rparr> else t)"

definition name_bytes :: "string \<Rightarrow> bytes" where
  "name_bytes s = List.map (\<lambda>c. of_nat (of_char c)) s"

text \<open>What goes to the relay.\<close>

definition px_send :: "bytes \<Rightarrow> proxy_transport \<Rightarrow> socks_error + bytes" where
  "px_send data t =
     (case ParseIP (px_host t) of
        Some ip \<Rightarrow> SendTo data (Some ip) (px_port t) (px_relay t)
      | None \<Rightarrow> SendToDomain data (name_bytes (px_host t)) (px_port t) (px_relay t))"

definition SendIKE :: "bytes \<Rightarrow> proxy_transport \<Rightarrow> socks_error + bytes" where
  "SendIKE data t = px_send (if px_port t = 4500 then replicate 4 0 @ data else data) t"

definition SendESP :: "bytes \<Rightarrow> proxy_transport \<Rightarrow> socks_error + bytes" where
  "SendESP data t = px_send data t"

definition SendNATKeepalive :: "proxy_transport \<Rightarrow> socks_error + bytes" where
  "SendNATKeepalive t = px_send [0xff] t"

definition without_marker :: "bytes \<Rightarrow> bytes" where
  "without_marker data = (if 4 \<le> length data \<and> get_u32 0 data = 0 then drop 4 data else data)"

definition isIKE :: "bytes \<Rightarrow> bool" where
  "isIKE packet \<longleftrightarrow> 28 \<le> length packet \<and> drop_bit 4 (packet ! 17) = 2 \<and> 34 \<le> packet ! 18 \<and> packet ! 18 \<le> 37 \<and>
     unat (get_u32 24 packet) = length packet"

definition deliver_packet :: "bytes \<Rightarrow> proxy_transport \<Rightarrow> proxy_transport" where
  "deliver_packet data t =
     (if data = [] \<or> data = [255] then t
      else if isIKE (without_marker data) then t\<lparr>px_ike := px_ike t @ [without_marker data]\<rparr>
      else t\<lparr>px_esp := px_esp t @ [data]\<rparr>)"

text \<open>A round of \<^verbatim>\<open>readLoop\<close>: a datagram and whether the transport is stopped while its packet waits for the
  channel, or an error of the socket.  The result tells whether the loop goes on.\<close>

datatype relay_input = Arrives bytes bool | SocketTimeout | SocketBroken

definition relay_lost :: "proxy_transport \<Rightarrow> bool \<times> proxy_transport" where
  "relay_lost t =
     (if px_closed t then (False, t)
      else (False, if length (px_events t) < 4
        then t\<lparr>px_events := px_events t @ [''SOCKS5 relay disconnected'']\<rparr> else t))"

definition read_round :: "relay_input \<Rightarrow> proxy_transport \<Rightarrow> bool \<times> proxy_transport" where
  "read_round input t =
     (case input of
        SocketTimeout \<Rightarrow> (\<not> px_closed t, t)
      | SocketBroken \<Rightarrow> relay_lost t
      | Arrives datagram stopped \<Rightarrow>
          (case ReadFrom (px_relay t) (take 65535 datagram) of
             Inl e \<Rightarrow> relay_lost t
           | Inr (data, src, port) \<Rightarrow>
               let t1 = (if 0 < port then SetRemotePort port t else t)
               in if data = [] \<or> data = [255] then (True, t1)
                  else if stopped then (False, t1) else (True, deliver_packet data t1)))"

fun readLoop :: "relay_input list \<Rightarrow> proxy_transport \<Rightarrow> proxy_transport" where
  "readLoop [] t = t"
| "readLoop (i # is) t = (case read_round i t of (goes_on, t1) \<Rightarrow> if goes_on then readLoop is t1 else t1)"

section \<open>What one side sends the other side reads\<close>

definition relayed :: "socks_error + bytes \<Rightarrow> bytes \<Rightarrow> int \<Rightarrow> bool" where
  "relayed sent data port =
     (case sent of
        Inl e \<Rightarrow> False
      | Inr wire \<Rightarrow> length wire \<le> length data + 262 \<and>
          (case ReadFrom \<lparr>relay_to = ([], 0), relay_network = [], relay_closed = False\<rparr> wire of
             Inl e \<Rightarrow> False
           | Inr (d, src, p) \<Rightarrow> d = data \<and> p = port))"

lemma ReadFrom_open: "\<not> relay_closed r \<Longrightarrow> \<not> relay_closed r' \<Longrightarrow> ReadFrom r w = ReadFrom r' w"
  by (simp add: ReadFrom_def)

lemma SendTo_relayed:
  assumes "0 \<le> port" "port < 65536" "\<not> relay_closed r"
  shows "relayed (SendTo data (Some ip) port r) data port"
proof (cases "To4 ip")
  case None
  define a where "a = (case To16 ip of Some a \<Rightarrow> a | None \<Rightarrow> replicate 16 0)"
  have a: "length a = 16" by (auto simp: a_def To16_def v4InV6Prefix_def split: option.split)
  have "get_u16 20 ([0x00, 0x00, 0x00, 0x04] @ a @ put_u16 0 (of_int port) [0, 0] @ data) = of_int port"
    using get_port [of "[0x00, 0x00, 0x00, 0x04] @ a" "of_int port" data] a by simp
  then show ?thesis
    using None a assms by (simp add: relayed_def SendTo_def ReadFrom_def Let_def slice_def of_int_port a_def [symmetric])
next
  case (Some v4)
  then have i: "length v4 = 4" by (auto simp: To4_def slice_def split: if_splits)
  have "get_u16 8 ([0x00, 0x00, 0x00, 0x01] @ v4 @ put_u16 0 (of_int port) [0, 0] @ data) = of_int port"
    using get_port [of "[0x00, 0x00, 0x00, 0x01] @ v4" "of_int port" data] i by simp
  then show ?thesis
    using Some i assms by (simp add: relayed_def SendTo_def ReadFrom_def Let_def slice_def of_int_port)
qed

lemma SendToDomain_relayed:
  assumes "0 \<le> port" "port < 65536" "\<not> relay_closed r" "length domain \<le> 255" "3 \<le> length domain + length data"
  shows "relayed (SendToDomain data domain port r) data port"
proof -
  let ?p = "put_u16 0 (of_int port) [0, 0]"
  let ?h = "[0x00, 0x00, 0x00, 0x03, of_nat (length domain)] @ domain"
  have "length ?h = 5 + length domain" by simp
  then have "get_u16 (5 + length domain) (?h @ ?p @ data) = of_int port"
    using get_port [of ?h "of_int port" data] by (simp only:)
  moreover have "length (?h @ ?p) = 7 + length domain" by simp
  then have "drop (7 + length domain) ((?h @ ?p) @ data) = data" by (metis append_eq_conv_conj)
  ultimately show ?thesis
    using assms by (simp add: relayed_def SendToDomain_def ReadFrom_def Let_def unat_of_nat_byte of_int_port)
qed

definition remote_ok :: "proxy_transport \<Rightarrow> bool" where
  "remote_ok t \<longleftrightarrow> 0 < px_port t \<and> px_port t \<le> 65535 \<and> \<not> relay_closed (px_relay t) \<and>
     2 \<le> length (px_host t) \<and> length (px_host t) \<le> 255"

lemma px_send_relayed: "remote_ok t \<Longrightarrow> data \<noteq> [] \<Longrightarrow> relayed (px_send data t) data (px_port t)"
proof -
  assume t: "remote_ok t" and d: "data \<noteq> []"
  from d have "Suc 0 \<le> length data" by (cases data) auto
  then have "3 \<le> length (name_bytes (px_host t)) + length data" "length (name_bytes (px_host t)) \<le> 255"
    using t by (auto simp: remote_ok_def name_bytes_def)
  then show ?thesis
    using t SendTo_relayed SendToDomain_relayed by (auto simp: px_send_def remote_ok_def split: option.split)
qed

text \<open>Reading what was sent amounts to telling the packet apart.\<close>

lemma sent_is_read:
  assumes "remote_ok t" "data \<noteq> []" "length data \<le> 65000" "\<not> relay_closed (px_relay t')"
  shows "\<exists>wire. px_send data t = Inr wire \<and>
    read_round (Arrives wire False) t' = (True, deliver_packet data (t'\<lparr>px_port := px_port t\<rparr>))"
proof -
  have r: "relayed (px_send data t) data (px_port t)" by (rule px_send_relayed [OF assms(1,2)])
  then obtain wire src where w: "px_send data t = Inr wire" "length wire \<le> length data + 262"
    "ReadFrom \<lparr>relay_to = ([], 0), relay_network = [], relay_closed = False\<rparr> wire = Inr (data, src, px_port t)"
    by (auto simp: relayed_def split: sum.splits)
  have "ReadFrom (px_relay t') wire = Inr (data, src, px_port t)"
    using w(3) ReadFrom_open [OF assms(4), of "\<lparr>relay_to = ([], 0), relay_network = [], relay_closed = False\<rparr>" wire] by simp
  then have "read_round (Arrives wire False) t' = (True, deliver_packet data (t'\<lparr>px_port := px_port t\<rparr>))"
    using w(2) assms(1,3)
    by (simp add: read_round_def SetRemotePort_def remote_ok_def deliver_packet_def Let_def)
  then show ?thesis using w(1) by blast
qed

datatype tunnel_packet = IKE bytes | ESP bytes | Keepalive

fun send_packet :: "proxy_transport \<Rightarrow> tunnel_packet \<Rightarrow> socks_error + bytes" where
  "send_packet t (IKE m) = SendIKE m t"
| "send_packet t (ESP p) = SendESP p t"
| "send_packet t Keepalive = SendNATKeepalive t"

text \<open>An IKE message has the header of version 2 with its own length, and a non-zero initiator SPI; an ESP packet
  must not look like one.\<close>

fun packet_ok :: "tunnel_packet \<Rightarrow> bool" where
  "packet_ok (IKE m) \<longleftrightarrow> isIKE m \<and> get_u32 0 m \<noteq> 0 \<and> length m \<le> 60000"
| "packet_ok (ESP p) \<longleftrightarrow> p \<noteq> [] \<and> p \<noteq> [255] \<and> \<not> isIKE (without_marker p) \<and> length p \<le> 60000"
| "packet_ok Keepalive \<longleftrightarrow> True"

definition ike_of :: "tunnel_packet list \<Rightarrow> bytes list" where
  "ike_of ps = concat (List.map (\<lambda>p. case p of IKE m \<Rightarrow> [m] | _ \<Rightarrow> []) ps)"

definition esp_of :: "tunnel_packet list \<Rightarrow> bytes list" where
  "esp_of ps = concat (List.map (\<lambda>p. case p of ESP m \<Rightarrow> [m] | _ \<Rightarrow> []) ps)"

lemma packet_read:
  assumes "remote_ok t" "packet_ok p" "\<not> relay_closed (px_relay t')"
  shows "\<exists>wire. send_packet t p = Inr wire \<and> read_round (Arrives wire False) t' =
    (True, t'\<lparr>px_port := px_port t, px_ike := px_ike t' @ ike_of [p], px_esp := px_esp t' @ esp_of [p]\<rparr>)"
proof (cases p)
  case (IKE m)
  define d where "d = (if px_port t = 4500 then replicate 4 0 @ m else m)"
  have m: "isIKE m" "get_u32 0 m \<noteq> 0" "length m \<le> 60000" "28 \<le> length m"
    using assms(2) by (auto simp: IKE isIKE_def)
  have "get_u32 0 (replicate 4 0 @ m) = 0" by (simp add: get_u32_def be_u32_def numeral_eq_Suc)
  then have "without_marker d = m" using m(2) by (simp add: d_def without_marker_def)
  moreover have "28 \<le> length d" "length d \<le> 65000" using m(3,4) by (simp_all add: d_def)
  moreover from this have "d \<noteq> []" "d \<noteq> [255]" by auto
  ultimately have "deliver_packet d t1 = t1\<lparr>px_ike := px_ike t1 @ [m]\<rparr>" for t1
    using m(1) by (simp add: deliver_packet_def)
  then show ?thesis
    using sent_is_read [OF assms(1) \<open>d \<noteq> []\<close> \<open>length d \<le> 65000\<close> assms(3)]
    by (simp add: IKE SendIKE_def d_def ike_of_def esp_of_def)
next
  case (ESP m)
  have "m \<noteq> []" "length m \<le> 65000" using assms(2) by (auto simp: ESP)
  then show ?thesis using sent_is_read [OF assms(1) _ _ assms(3), of m] assms(2)
    by (simp add: ESP SendESP_def deliver_packet_def ike_of_def esp_of_def)
next
  case Keepalive
  then show ?thesis using sent_is_read [OF assms(1) _ _ assms(3), of "[255]"]
    by (simp add: SendNATKeepalive_def deliver_packet_def ike_of_def esp_of_def)
qed

lemma packets_read:
  "remote_ok t \<Longrightarrow> list_all packet_ok ps \<Longrightarrow> \<not> relay_closed (px_relay t') \<Longrightarrow>
   \<exists>wires. List.map (send_packet t) ps = List.map Inr wires \<and>
     readLoop (List.map (\<lambda>w. Arrives w False) wires) t' =
       t'\<lparr>px_port := if ps = [] then px_port t' else px_port t, px_ike := px_ike t' @ ike_of ps, px_esp := px_esp t' @ esp_of ps\<rparr>"
proof (induction ps arbitrary: t')
  case Nil
  then show ?case by (simp add: ike_of_def esp_of_def)
next
  case (Cons p ps)
  let ?t = "t'\<lparr>px_port := px_port t, px_ike := px_ike t' @ ike_of [p], px_esp := px_esp t' @ esp_of [p]\<rparr>"
  from Cons.prems obtain wire where w: "send_packet t p = Inr wire" "read_round (Arrives wire False) t' = (True, ?t)"
    using packet_read [of t p t'] by auto
  from Cons.IH [of ?t] Cons.prems obtain wires where ws: "List.map (send_packet t) ps = List.map Inr wires"
    "readLoop (List.map (\<lambda>w. Arrives w False) wires) ?t =
       ?t\<lparr>px_port := if ps = [] then px_port ?t else px_port t, px_ike := px_ike ?t @ ike_of ps, px_esp := px_esp ?t @ esp_of ps\<rparr>"
    by auto
  have "List.map (send_packet t) (p # ps) = List.map Inr (wire # wires)" using w(1) ws(1) by simp
  moreover have "readLoop (List.map (\<lambda>w. Arrives w False) (wire # wires)) t' =
      t'\<lparr>px_port := px_port t, px_ike := px_ike t' @ ike_of (p # ps), px_esp := px_esp t' @ esp_of (p # ps)\<rparr>"
    using w(2) ws(2) by (simp add: ike_of_def esp_of_def)
  ultimately show ?case by (intro exI [of _ "wire # wires"]) simp
qed


definition sample_transport :: "string \<Rightarrow> proxy_transport" where
  "sample_transport host = \<lparr>px_relay = \<lparr>relay_to = ([], 1), relay_network = ''udp4'', relay_closed = False\<rparr>,
     px_host = host, px_port = 4500, px_ike = [], px_esp = [], px_events = [], px_closed = False\<rparr>"

definition sample_ike :: bytes where
  "sample_ike = [1, 0, 0, 0, 0, 0, 0, 0, 0, 0, 0, 0, 0, 0, 0, 0, 33, 32, 34, 8, 0, 0, 0, 0, 0, 0, 0, 28]"


section \<open>One datagram of the wrong form ends the tunnel\<close>

text \<open>A datagram whose header the relay cannot read counts as a lost relay, also a keepalive from a source with a short
  name.\<close>

lemma malformed_datagram_ends:
  "readLoop (Arrives [0, 0, 0, 3, 1, 97, 17, 148, 255] False # is) (sample_transport host) =
   (sample_transport host)\<lparr>px_events := [''SOCKS5 relay disconnected'']\<rparr>"
  by (simp add: read_round_def ReadFrom_def Let_def sample_transport_def relay_lost_def)

end
