(* ===== verification/Channel.thy ===== *)
theory Channel
  imports Transport
begin

text \<open>
  Two ends of the ipsec-3gpp channel: what one transport protects, the transport of the peer restores,
  packet by packet and over a whole session; and what a transport never lets through.  The statements
  are about the definitions of \<^verbatim>\<open>Transport\<close>; nothing of the code is modelled here.
\<close>

section \<open>Datagrams with a canonical header\<close>

definition ip_header_wf :: "bytes \<Rightarrow> bool" where
  "ip_header_wf h \<longleftrightarrow> ipv4_header_wf h \<or> ipv6_header_wf h"

definition ip_rewrite :: "bytes \<Rightarrow> nat \<Rightarrow> byte \<Rightarrow> bytes" where
  "ip_rewrite h n proto =
     (if ip_version h = 4 then v4_rewrite h (length h + n) proto else v6_rewrite h n proto)"

definition header_proto :: "bytes \<Rightarrow> byte" where
  "header_proto h = (if ip_version h = 4 then h ! 9 else h ! 6)"

definition header_src :: "bytes \<Rightarrow> bytes" where
  "header_src h = (if ip_version h = 4 then slice 12 16 h else slice 8 24 h)"

definition header_dst :: "bytes \<Rightarrow> bytes" where
  "header_dst h = (if ip_version h = 4 then slice 16 20 h else slice 24 40 h)"

definition parsed_of :: "bytes \<Rightarrow> bytes \<Rightarrow> parsedIPPacket" where
  "parsed_of h p =
     \<lparr>ip_header = h, transportPayload = p, ip_src = header_src h, ip_dst = header_dst h,
      srcPort = fst (transport_ports (header_proto h) p),
      dstPort = snd (transport_ports (header_proto h) p), nextHeader = header_proto h\<rparr>"

text \<open>A whole datagram: the header has the lengths and, for IPv4, the checksum that belong to the
  payload, and is not marked as a fragment.\<close>

definition datagram :: "bytes \<Rightarrow> bytes \<Rightarrow> bool" where
  "datagram h p \<longleftrightarrow> ip_header_wf h \<and> length h + length p \<le> 65535 \<and>
     ip_rewrite h (length p) (header_proto h) = h \<and>
     (ip_version h = 4 \<longrightarrow> get_u16 6 h AND 0x3fff = 0) \<and> \<not> isIPv6ExtensionHeader (header_proto h)"

lemma versions: "ipv4_header_wf h \<Longrightarrow> ip_version h = 4" "ipv6_header_wf h \<Longrightarrow> ip_version h = 6"
  by (simp_all add: ipv4_header_wf_def ipv6_header_wf_def)

lemma rewrite_version [simp]: "ip_header_wf h \<Longrightarrow> ip_version (ip_rewrite h n proto) = ip_version h"
proof -
  assume "ip_header_wf h"
  then have "ip_rewrite h n proto ! 0 = h ! 0"
    by (auto simp: ip_header_wf_def ip_rewrite_def versions v4_rewrite_nth(3) v6_rewrite_nth(3))
  then show ?thesis by (simp add: ip_version_def)
qed

lemma ip_rewrite_props:
  assumes wf: "ip_header_wf h"
  shows "ip_header_wf (ip_rewrite h n proto)" "length (ip_rewrite h n proto) = length h"
    "header_proto (ip_rewrite h n proto) = proto" "header_src (ip_rewrite h n proto) = header_src h"
    "header_dst (ip_rewrite h n proto) = header_dst h"
    "ip_rewrite (ip_rewrite h n proto) n' proto' = ip_rewrite h n' proto'"
proof -
  note d = ip_header_wf_def ip_rewrite_def header_proto_def header_src_def header_dst_def
  show "ip_header_wf (ip_rewrite h n proto)" using wf by (auto simp: d versions)
  show "length (ip_rewrite h n proto) = length h" by (simp add: d)
  show "header_proto (ip_rewrite h n proto) = proto"
    using wf rewrite_version [OF wf, of n proto] v4_rewrite_nth(1) [of h] v6_rewrite_nth(1) [of h]
    by (auto simp: d versions)
  show "header_src (ip_rewrite h n proto) = header_src h" "header_dst (ip_rewrite h n proto) = header_dst h"
    using wf rewrite_version [OF wf, of n proto]
    by (auto simp: d versions v4_rewrite_slice v6_rewrite_slice)
  show "ip_rewrite (ip_rewrite h n proto) n' proto' = ip_rewrite h n' proto'"
    using wf rewrite_version [OF wf, of n proto]
    by (auto simp: d versions v4_rewrite_twice v6_rewrite_twice)
qed

lemma rebuild_fits:
  assumes wf: "ip_header_wf h" and len: "length p \<le> 65535" "ip_version h = 4 \<longrightarrow> length h + length p \<le> 65535"
    and final: "\<not> isIPv6ExtensionHeader proto"
  shows "replaceIPPayload h p proto = Inr (ip_rewrite h (length p) proto @ p)"
    and "parseIPPacket (ip_rewrite h (length p) proto @ p) = Inr (parsed_of (ip_rewrite h (length p) proto) p)"
proof -
  show "replaceIPPayload h p proto = Inr (ip_rewrite h (length p) proto @ p)"
    using wf len replaceIPPayload_v4 [of h p proto] replaceIPPayload_v6 [of h p proto]
    by (auto simp: ip_header_wf_def ip_rewrite_def versions)
  show "parseIPPacket (ip_rewrite h (length p) proto @ p) = Inr (parsed_of (ip_rewrite h (length p) proto) p)"
  proof (cases "ipv4_header_wf h")
    case True
    let ?h = "v4_rewrite h (length h + length p) proto"
    have "unat (get_u16 2 ?h) = length ?h + length p"
      using len True by (simp add: versions v4_rewrite_nth(2) [OF True] unat_of_nat_u16 del: of_nat_add)
    then show ?thesis
      using parse_v4 [of ?h p] True
      by (simp add: ip_rewrite_def versions parsed_of_def header_proto_def header_src_def
          header_dst_def Let_def)
  next
    case False
    then have v6: "ipv6_header_wf h" using wf by (simp add: ip_header_wf_def)
    let ?h = "v6_rewrite h (length p) proto"
    have "unat (get_u16 4 ?h) = length p"
      using len by (simp add: v6_rewrite_nth(2) [OF v6] unat_of_nat_u16)
    moreover have "\<not> isIPv6ExtensionHeader (?h ! 6)" using final by (simp add: v6_rewrite_nth(1) [OF v6])
    moreover have "ip_version ?h = 6" using v6 by (simp add: versions(2))
    ultimately show ?thesis
      using parse_v6 [of ?h p] v6
      by (simp add: ip_rewrite_def versions parsed_of_def header_proto_def header_src_def
          header_dst_def Let_def)
  qed
qed

lemma rebuild:
  assumes "ip_header_wf h" "length h + length p \<le> 65535" "\<not> isIPv6ExtensionHeader proto"
  shows "replaceIPPayload h p proto = Inr (ip_rewrite h (length p) proto @ p)"
    and "parseIPPacket (ip_rewrite h (length p) proto @ p) = Inr (parsed_of (ip_rewrite h (length p) proto) p)"
  using rebuild_fits [of h p proto] assms by simp_all

lemma datagram_parse: "datagram h p \<Longrightarrow> parseIPPacket (h @ p) = Inr (parsed_of h p)"
  using rebuild(2) [of h p "header_proto h"] by (simp add: datagram_def)

lemma datagram_whole:
  assumes d: "datagram h p" shows "process now r (h @ p) = (Inr (Some (h @ p)), r)"
proof -
  have wf: "ip_header_wf h" and len: "length h + length p \<le> 65535"
    and can: "ip_rewrite h (length p) (header_proto h) = h"
    using d by (auto simp: datagram_def)
  have ne: "h @ p \<noteq> []" "ip_version (h @ p) = ip_version h"
    using wf by (auto simp: ip_header_wf_def ipv4_header_wf_def ipv6_header_wf_def ip_version_def nth_append)
  have "classify (h @ p) = Inr None"
  proof (cases "ipv4_header_wf h")
    case True
    then have "20 \<le> length h" "ip_version h = 4" by (simp_all add: ipv4_header_wf_def)
    moreover then have "get_u16 6 (h @ p) = get_u16 6 h" by (simp add: get_u16_def nth_append)
    ultimately show ?thesis using d ne by (simp add: classify_def classify_v4_def datagram_def)
  next
    case False
    then have v6: "ipv6_header_wf h" using wf by (simp add: ip_header_wf_def)
    then have l: "length h = 40" "ip_version h = 6" by (simp_all add: ipv6_header_wf_def)
    have "get_u16 4 h = of_nat (length p)"
      using can v6_rewrite_nth(2) [OF v6, of "length p" "header_proto h"] l(2) by (simp add: ip_rewrite_def)
    moreover have "get_u16 4 (h @ p) = get_u16 4 h" "(h @ p) ! 6 = h ! 6"
      using l by (simp_all add: get_u16_def nth_append)
    moreover have "\<not> isIPv6ExtensionHeader (h ! 6)" using d l(2) by (simp add: datagram_def header_proto_def)
    moreover then have "h ! 6 \<noteq> 44" by (auto simp: isIPv6ExtensionHeader_def)
    moreover have "unat (of_nat (length p) :: u16) = length p" using len by (simp add: unat_of_nat_u16)
    ultimately show ?thesis
      using ne l by (simp add: classify_def classify_v6_def find_fragment_header.simps)
  qed
  then show ?thesis by (simp add: process_def)
qed

lemma datagram_rewrite:
  assumes d: "datagram h p" and len: "length h + length q \<le> 65535" and f: "\<not> isIPv6ExtensionHeader proto"
  shows "datagram (ip_rewrite h (length q) proto) q"
proof -
  have wf: "ip_header_wf h" using d by (simp add: datagram_def)
  have "get_u16 6 (ip_rewrite h (length q) proto) = get_u16 6 h" if "ip_version h = 4"
    using that wf v4_rewrite_nth(3) [of h 6] v4_rewrite_nth(3) [of h 7]
    by (auto simp: ip_rewrite_def ip_header_wf_def versions get_u16_def)
  then show ?thesis
    using d len f wf by (simp add: datagram_def ip_rewrite_props)
qed

section \<open>Peers\<close>

text \<open>Flow \<^term>\<open>i\<close> of the sender and flow \<^term>\<open>j\<close> of the receiver: mirrored selectors, the same keys,
  and no sequence number the sender has still to use is spent.\<close>

definition peers :: "transport \<Rightarrow> transport \<Rightarrow> nat \<Rightarrow> nat \<Rightarrow> bool" where
  "peers t1 t2 i j \<longleftrightarrow>
     i < length (outbound t1) \<and> j < length (outbound t2) \<and>
     LocalIP (t_policy t2) = RemoteIP (t_policy t1) \<and> RemoteIP (t_policy t2) = LocalIP (t_policy t1) \<and>
     LocalPort (tf_flow (outbound t2 ! j)) = RemotePort (tf_flow (outbound t1 ! i)) \<and>
     RemotePort (tf_flow (outbound t2 ! j)) = LocalPort (tf_flow (outbound t1 ! i)) \<and>
     sa_ok (tf_sa (outbound t1 ! i)) \<and> sa_match (tf_sa (outbound t1 ! i)) (tf_sa (outbound t2 ! j)) \<and>
     map_of (inbound t2) (SPI (tf_sa (outbound t1 ! i))) = Some j \<and>
     rw_ok (tf_replay (outbound t2 ! j)) \<and>
     (\<forall>q. unat (SequenceNumber (tf_sa (outbound t1 ! i))) < unat q \<longrightarrow> \<not> dead (tf_replay (outbound t2 ! j)) q)"

definition sent :: "transport \<Rightarrow> nat \<Rightarrow> nat" where
  "sent t i = unat (SequenceNumber (tf_sa (outbound t ! i)))"

text \<open>A TCP or UDP datagram the sender's flow \<^term>\<open>i\<close> is meant for.\<close>

definition protects :: "transport \<Rightarrow> nat \<Rightarrow> bytes \<times> bytes \<Rightarrow> bool" where
  "protects t i hp \<longleftrightarrow> (case hp of (h, p) \<Rightarrow> datagram h p \<and> 4 \<le> length p \<and>
     length h + length p + 53 \<le> 65535 \<and> matchOutbound t (parsed_of h p) = Some i)"

lemma match_from_Some: "match_from pol q k fs = Some i \<Longrightarrow>
    k \<le> i \<and> i < k + length fs \<and> ipEqual (ip_src q) (LocalIP pol) \<and> ipEqual (ip_dst q) (RemoteIP pol) \<and>
    int (srcPort q) = LocalPort (tf_flow (fs ! (i - k))) \<and> int (dstPort q) = RemotePort (tf_flow (fs ! (i - k)))"
proof (induction fs arbitrary: k)
  case (Cons f fs)
  show ?case
  proof (cases "match_from pol q (Suc k) fs = Some i")
    case True
    then show ?thesis using Cons.IH [OF True] by (auto simp: nth_Cons' Suc_diff_le)
  next
    case False
    then show ?thesis using Cons.prems by (auto split: if_splits)
  qed
qed simp

lemma matchOutbound_Some:
  assumes "matchOutbound t q = Some i"
  shows "tcp_or_udp (nextHeader q)" "i < length (outbound t)" "ipEqual (ip_src q) (LocalIP (t_policy t))"
    "ipEqual (ip_dst q) (RemoteIP (t_policy t))" "int (srcPort q) = LocalPort (tf_flow (outbound t ! i))"
    "int (dstPort q) = RemotePort (tf_flow (outbound t ! i))"
  using assms match_from_Some [of "t_policy t" q 0 "outbound t" i]
  by (auto simp: matchOutbound_def split: if_splits)

lemma match_from_frame: "List.map tf_flow fs = List.map tf_flow gs \<Longrightarrow>
    match_from pol q k fs = match_from pol q k gs"
proof (induction fs arbitrary: gs k)
  case (Cons f fs)
  then obtain g gs' where "gs = g # gs'" "tf_flow f = tf_flow g" "List.map tf_flow fs = List.map tf_flow gs'"
    by (cases gs) auto
  then show ?case using Cons.IH by simp
qed simp

lemma channel_step:
  assumes cr: "crypto_ok cr" and rnd: "rnd_ok rnd" and ps: "peers t1 t2 i j"
    and pr: "protects t1 i (h, p)" and n: "sent t1 i < 4294967295"
  obtains out t1' t2' h' where
    "outbound_whole cr rnd (h @ p) t1 = (Inr (Some (h' @ out)), t1')"
    "datagram h' out" "header_proto h' = ipProtoESP"
    "inbound_whole cr (h' @ out) t2 = (Inr (Some (h @ p)), t2')"
    "peers t1' t2' i j" "sent t1' i = sent t1 i + 1" "\<And>hp. protects t1' i hp = protects t1 i hp"
    "h' = ip_rewrite h (length out) ipProtoESP"
proof -
  let ?f1 = "outbound t1 ! i" and ?f2 = "outbound t2 ! j"
  let ?sa = "tf_sa ?f1"
  let ?seq = "ucast (SequenceNumber ?sa + 1) :: u32"
  have d: "datagram h p" "4 \<le> length p" "length h + length p + 53 \<le> 65535"
    and m: "matchOutbound t1 (parsed_of h p) = Some i"
    using pr by (auto simp: protects_def)
  have wf: "ip_header_wf h" and can: "ip_rewrite h (length p) (header_proto h) = h"
    and fin: "\<not> isIPv6ExtensionHeader (header_proto h)" using d(1) by (auto simp: datagram_def)
  have ij: "i < length (outbound t1)" "j < length (outbound t2)" using ps by (auto simp: peers_def)
  have sn: "SequenceNumber ?sa < 0xFFFFFFFF" using n by (simp add: sent_def word_less_nat_alt)
  obtain out where out: "encapsulateTransport cr rnd p (Some ?sa) (header_proto h) =
       (Inr out, Some (?sa\<lparr>SequenceNumber := SequenceNumber ?sa + 1\<rparr>))"
    "parseESPSPISeq out = Inr (SPI ?sa, ?seq)"
    "decapsulateTransport cr out (cloneSAForInbound (Some (tf_sa ?f2)) (SPI ?sa)) = Inr (p, header_proto h)"
    "length out \<le> length p + 53"
    using esp_roundtrip [OF cr _ rnd _ sn, of "tf_sa ?f2" p "header_proto h" "SPI ?sa"] ps
    by (auto simp: peers_def)
  have esp: "\<not> isIPv6ExtensionHeader ipProtoESP" by (simp add: isIPv6ExtensionHeader_def)
  have len: "length h + length out \<le> 65535" using out(4) d(3) by simp
  let ?h = "ip_rewrite h (length out) ipProtoESP"
  note hp = ip_rewrite_props [OF wf, of "length out" ipProtoESP]
  define t1' where "t1' = (set_sa i (Some (?sa\<lparr>SequenceNumber := SequenceNumber ?sa + 1\<rparr>)) t1)
    \<lparr>outboundPackets := outboundPackets t1 + 1\<rparr>"
  have o1: "outbound_whole cr rnd (h @ p) t1 = (Inr (Some (?h @ out)), t1')"
    using datagram_parse [OF d(1)] m out(1) rebuild(1) [OF wf len esp]
    by (simp add: outbound_whole_def parsed_of_def t1'_def set_sa_def Let_def)
  have dg: "datagram ?h out" by (rule datagram_rewrite [OF d(1) len esp])
  have u: "unat (SequenceNumber ?sa + 1) = sent t1 i + 1"
    using n by (simp add: sent_def unat_word_ariths)
  have us: "unat ?seq = sent t1 i + 1"
    using n u by (simp add: unsigned_ucast_eq take_bit_nat_eq_self_iff)
  let ?w = "tf_replay ?f2"
  have live: "\<not> dead ?w ?seq" and rw: "rw_ok ?w" using ps us by (auto simp: peers_def sent_def)
  then have ck: "Check ?w ?seq = (True, ?w)"
    using Check_iff [OF rw, of ?seq] Check_passes_frame [of ?w ?seq] by (metis prod.collapse)
  have ac: "Accept ?w ?seq = (True, Update ?w ?seq)" using rw live by (rule Accept_live_Update)
  have twice: "set_replay j w' (set_replay j w t) = set_replay j w' t" if "j < length (outbound t)" for w w' t
    using that by (simp add: set_replay_def)
  note ms = matchOutbound_Some [OF m]
  have ports: "int (unat (get_u16 0 p)) = LocalPort (tf_flow ?f1)" "int (unat (get_u16 2 p)) = RemotePort (tf_flow ?f1)"
    using ms(1,5,6) d(2) by (auto simp: parsed_of_def transport_ports_def tcp_or_udp_def)
  have sel: "\<not> selector_bad (t_policy t2) (tf_flow ?f2) (parsed_of ?h out) p (header_proto h)"
    using ps ms(1,3,4) ports d(2) hp(4,5) by (auto simp: selector_bad_def parsed_of_def peers_def)
  define t2' where "t2' = (set_replay j (Update ?w ?seq) t2)\<lparr>inboundPackets := inboundPackets t2 + 1\<rparr>"
  have rp: "replaceIPPayload ?h p (header_proto h) = Inr (h @ p)"
    using rebuild(1) [OF hp(1) _ fin, of p] d(3) hp(2,6) can by simp
  have "inbound_esp cr (parsed_of ?h out) (SPI ?sa) ?seq j t2 = (Inr (Some (h @ p)), t2')"
    using ck ac sel out(3) rp ij(2)
    by (simp add: inbound_esp_def Let_def parsed_of_def twice t2'_def)
      (simp add: set_replay_def)
  then have o2: "inbound_whole cr (?h @ out) t2 = (Inr (Some (h @ p)), t2')"
    using datagram_parse [OF dg] ps out(2) hp(3)
    by (simp add: inbound_whole_def peers_def parsed_of_def)
  have s1: "sent t1' i = sent t1 i + 1" using u ij by (simp add: t1'_def set_sa_def sent_def)
  have o1': "outbound t1' ! i = ?f1\<lparr>tf_sa := ?sa\<lparr>SequenceNumber := SequenceNumber ?sa + 1\<rparr>\<rparr>"
    "length (outbound t1') = length (outbound t1)" "t_policy t1' = t_policy t1"
    "List.map tf_flow (outbound t1') = List.map tf_flow (outbound t1)"
    using ij by (simp_all add: t1'_def set_sa_def map_list_update_same)
  have o2': "outbound t2' ! j = ?f2\<lparr>tf_replay := Update ?w ?seq\<rparr>" "t_policy t2' = t_policy t2"
    "length (outbound t2') = length (outbound t2)" "inbound t2' = inbound t2"
    using ij by (simp_all add: t2'_def)
  have "\<not> dead (Update ?w ?seq) q" if "sent t1 i + 1 < unat q" for q
    using Update_keeps_fresh [OF rw live, of q] ps us that
    by (auto simp: peers_def sent_def word_less_nat_alt)
  moreover have "sa_ok (?sa\<lparr>SequenceNumber := SequenceNumber ?sa + 1\<rparr>) = sa_ok ?sa" by (simp add: sa_ok_def)
  ultimately have "peers t1' t2' i j"
    using ps u Update_ok [OF rw, of ?seq] by (simp add: peers_def o1' o2' sent_def)
  moreover have "protects t1' i hp = protects t1 i hp" for hp
    using o1'(3,4) match_from_frame [of "outbound t1'" "outbound t1"]
    by (simp add: protects_def matchOutbound_def)
  ultimately show thesis using that o1 dg hp(3) o2 s1 by blast
qed

section \<open>A session\<close>

text \<open>The sender passes the packets to its transport one after the other, each with the random source
  and the clocks of its turn; what leaves is given to the receiver at once.  The result is what the
  receiver's transform returns for every packet that left.\<close>

type_synonym turn = "(nat \<Rightarrow> bytes option) \<times> int \<times> int \<times> bytes \<times> bytes"

fun session :: "crypto \<Rightarrow> transport \<Rightarrow> transport \<Rightarrow> turn list \<Rightarrow> (transport_error + bytes option) list" where
  "session cr t1 t2 [] = []"
| "session cr t1 t2 ((rnd, now1, now2, h, p) # rest) =
     (let r1 = TransformOutbound cr rnd now1 (h @ p) (Some t1); t1' = the (snd r1)
      in case fst r1 of
           Inr (Some out) \<Rightarrow>
             (let r2 = TransformInbound cr now2 out (Some t2)
              in fst r2 # session cr t1' (the (snd r2)) rest)
         | _ \<Rightarrow> session cr t1' t2 rest)"

lemma TransformOutbound_datagram:
  "datagram h p \<Longrightarrow> TransformOutbound cr rnd now (h @ p) (Some t) =
     map_prod (\<lambda>x. x) Some (outbound_whole cr rnd (h @ p) t)"
  using datagram_whole [of h p now "outFragments t"]
  by (auto simp: TransformOutbound_def datagram_def ip_header_wf_def ipv4_header_wf_def ipv6_header_wf_def)

lemma TransformInbound_datagram:
  "datagram h p \<Longrightarrow> TransformInbound cr now (h @ p) (Some t) =
     map_prod (\<lambda>x. x) Some (inbound_whole cr (h @ p) t)"
  using datagram_whole [of h p now "inFragments t"]
  by (auto simp: TransformInbound_def datagram_def ip_header_wf_def ipv4_header_wf_def ipv6_header_wf_def)

lemma session_delivers_all:
  assumes "crypto_ok cr" "peers t1 t2 i j" "sent t1 i + length turns < 4294967296"
    and "\<forall>(rnd, now1, now2, hp) \<in> set turns. rnd_ok rnd \<and> protects t1 i hp"
  shows "session cr t1 t2 turns = List.map (\<lambda>(rnd, now1, now2, h, p). Inr (Some (h @ p))) turns"
  using assms(2-)
proof (induction turns arbitrary: t1 t2)
  case (Cons turn turns)
  obtain rnd now1 now2 h p where turn: "turn = (rnd, now1, now2, h, p)" by (cases turn) auto
  have rnd: "rnd_ok rnd" and pr: "protects t1 i (h, p)" and n: "sent t1 i < 4294967295"
    using Cons.prems by (auto simp: turn)
  from channel_step [OF assms(1) rnd Cons.prems(1) pr n]
  obtain out t1' t2' h' where st: "outbound_whole cr rnd (h @ p) t1 = (Inr (Some (h' @ out)), t1')"
    "datagram h' out" "inbound_whole cr (h' @ out) t2 = (Inr (Some (h @ p)), t2')"
    "peers t1' t2' i j" "sent t1' i = sent t1 i + 1" "\<And>hp. protects t1' i hp = protects t1 i hp"
    by metis
  have "datagram h p" using pr by (simp add: protects_def)
  then have "session cr t1 t2 (turn # turns) = Inr (Some (h @ p)) # session cr t1' t2' turns"
    using st by (simp add: turn TransformOutbound_datagram TransformInbound_datagram Let_def)
  moreover have "session cr t1' t2' turns = List.map (\<lambda>(rnd, now1, now2, h, p). Inr (Some (h @ p))) turns"
    using Cons.prems st(5,6) by (intro Cons.IH [OF st(4)]) auto
  ultimately show ?case by (simp add: turn)
qed simp

section \<open>Two transports built from mirrored policies\<close>

definition mirror_flow :: "flow \<Rightarrow> flow" where
  "mirror_flow f = f\<lparr>OutboundSPI := InboundSPI f, InboundSPI := OutboundSPI f,
     LocalPort := RemotePort f, RemotePort := LocalPort f\<rparr>"

definition mirror_policy :: "policy \<Rightarrow> policy" where
  "mirror_policy pol = pol\<lparr>LocalIP := RemoteIP pol, RemoteIP := LocalIP pol,
     LocalPortC := RemotePortC pol, LocalPortS := RemotePortS pol,
     RemotePortC := LocalPortC pol, RemotePortS := LocalPortS pol,
     FlowC := mirror_flow (FlowC pol), FlowS := mirror_flow (FlowS pol)\<rparr>"

lemma newSAForFlow_ok:
  assumes "newSAForFlow f = Inr sa"
  shows "sa_ok sa" "SPI sa = OutboundSPI f" "SequenceNumber sa = 0"
    "newSAForFlow (mirror_flow f) = Inr (sa\<lparr>SPI := InboundSPI f\<rparr>)"
proof -
  obtain ks enc integ where k: "DeriveSecureChannelKeys f = Inr ks" "encrypterForFlow (EncAlg f) = Inr enc"
    "integrityForFlow (AuthAlg f) = Inr integ"
    and sa: "sa = NewSecurityAssociationCBC (OutboundSPI f) (Some enc) (EncKey ks) (Some integ) (AuthKey ks)"
    using assms by (auto simp: newSAForFlow_def rbind_Inr_iff split: sum.splits)
  have "length (EncKey ks) = enc_key_size (canonicalEncAlg (EncAlg f))"
    using k(1) by (auto simp: DeriveSecureChannelKeys_def rbind_Inr_iff deriveEncKey_length)
  then have "cipher_key_ok enc (EncKey ks)"
    using k(2) by (auto simp: encrypterForFlow_def Let_def cipher_key_ok_def enc_key_size_def
        aes_key_ok_def des3_key_ok_def split: if_splits)
  then show "sa_ok sa" by (simp add: sa_ok_def sa NewSecurityAssociationCBC_def)
  show "SPI sa = OutboundSPI f" "SequenceNumber sa = 0" by (simp_all add: sa NewSecurityAssociationCBC_def)
  have "DeriveSecureChannelKeys (mirror_flow f) = Inr ks" "EncAlg (mirror_flow f) = EncAlg f"
    "AuthAlg (mirror_flow f) = AuthAlg f"
    using k(1) by (simp_all add: DeriveSecureChannelKeys_def mirror_flow_def)
  then show "newSAForFlow (mirror_flow f) = Inr (sa\<lparr>SPI := InboundSPI f\<rparr>)"
    using k by (simp add: newSAForFlow_def sa NewSecurityAssociationCBC_def mirror_flow_def)
qed

lemma NewTransport_outbound: "NewTransport pol = Inr t \<Longrightarrow>
    t_policy t = pol \<and> (\<exists>a b. outbound t = [a, b] \<and> tf_flow a = FlowC pol \<and> tf_flow b = FlowS pol)"
  by (auto simp: NewTransport_def newTransportFlow_def rbind_Inr_iff split: sum.splits)

lemma newTransportFlow_total:
  assumes "known_algorithms f" "16 \<le> length (CK f)" "16 \<le> length (IK f)"
  shows "\<exists>tf. newTransportFlow f = Inr tf"
proof -
  obtain ks where "DeriveSecureChannelKeys f = Inr ks" using derive_keys_total [OF assms] by blast
  moreover have "\<exists>enc. encrypterForFlow (EncAlg f) = Inr enc" "\<exists>integ. integrityForFlow (AuthAlg f) = Inr integ"
    using assms(1) by (auto simp: known_algorithms_def encrypterForFlow_def integrityForFlow_def Let_def)
  ultimately show ?thesis by (auto simp: newTransportFlow_def newSAForFlow_def)
qed

lemma NewTransport_total:
  assumes "known_algorithms (FlowC pol)" "16 \<le> length (CK (FlowC pol))" "16 \<le> length (IK (FlowC pol))"
    and "known_algorithms (FlowS pol)" "16 \<le> length (CK (FlowS pol))" "16 \<le> length (IK (FlowS pol))"
    and "LocalIP pol \<noteq> []" "RemoteIP pol \<noteq> []" "(length (LocalIP pol) = 4) = (length (RemoteIP pol) = 4)"
  shows "\<exists>t. NewTransport pol = Inr t"
  using newTransportFlow_total [OF assms(1-3)] newTransportFlow_total [OF assms(4-6)] assms(7-)
  by (auto simp: NewTransport_def normalizeIPPair_def)

lemma mirror_peers:
  assumes t1: "NewTransport pol = Inr t1" and spi: "OutboundSPI (FlowC pol) \<noteq> OutboundSPI (FlowS pol)"
    and i: "i < 2"
  obtains t2 where "NewTransport (mirror_policy pol) = Inr t2" "peers t1 t2 i i" "sent t1 i = 0"
proof -
  obtain pr sac sas where e: "normalizeIPPair (LocalIP pol) (RemoteIP pol) = Inr pr"
    "newSAForFlow (FlowC pol) = Inr sac" "newSAForFlow (FlowS pol) = Inr sas"
    and t1': "t_policy t1 = pol"
      "outbound t1 = [\<lparr>tf_flow = FlowC pol, tf_sa = sac, tf_replay = Some (NewReplayWindow default_replay_window_size)\<rparr>,
         \<lparr>tf_flow = FlowS pol, tf_sa = sas, tf_replay = Some (NewReplayWindow default_replay_window_size)\<rparr>]"
    using t1 by (auto simp: NewTransport_def rbind_Inr_iff newTransportFlow_def split: sum.splits)
  note c = newSAForFlow_ok [OF e(2)] and s = newSAForFlow_ok [OF e(3)]
  have pr': "normalizeIPPair (RemoteIP pol) (LocalIP pol) = Inr (RemoteIP pol, LocalIP pol)"
    using e(1) by (auto simp: normalizeIPPair_def split: if_splits)
  define t2 where "t2 = projr (NewTransport (mirror_policy pol))"
  have n2: "NewTransport (mirror_policy pol) = Inr t2"
    using c(4) s(4) pr' by (simp add: t2_def NewTransport_def mirror_policy_def newTransportFlow_def)
  then have t2': "t_policy t2 = mirror_policy pol"
      "outbound t2 = [\<lparr>tf_flow = mirror_flow (FlowC pol), tf_sa = sac\<lparr>SPI := InboundSPI (FlowC pol)\<rparr>,
           tf_replay = Some (NewReplayWindow default_replay_window_size)\<rparr>,
         \<lparr>tf_flow = mirror_flow (FlowS pol), tf_sa = sas\<lparr>SPI := InboundSPI (FlowS pol)\<rparr>,
           tf_replay = Some (NewReplayWindow default_replay_window_size)\<rparr>]"
      "inbound t2 = AList.update (OutboundSPI (FlowS pol)) 1 (AList.update (OutboundSPI (FlowC pol)) 0 [])"
    using c(4) s(4) pr' by (auto simp: NewTransport_def mirror_policy_def newTransportFlow_def mirror_flow_def)
  have live: "\<not> dead (Some (NewReplayWindow default_replay_window_size)) q" if "0 < unat q" for q
    using that by (auto simp: dead_def NewReplayWindow_def Let_def default_replay_window_size_def)
  have inv: "rw_inv (NewReplayWindow default_replay_window_size)"
    using NewReplayWindow_ok [of default_replay_window_size] by simp
  have "peers t1 t2 i i \<and> sent t1 i = 0"
  proof (cases "i = 0")
    case True
    then show ?thesis
      using c spi live inv by (simp add: peers_def sent_def t1' t2' mirror_policy_def mirror_flow_def)
  next
    case False
    with i have "i = Suc 0" by simp
    then show ?thesis
      using s spi live inv by (simp add: peers_def sent_def t1' t2' mirror_policy_def mirror_flow_def)
  qed
  then show thesis using that n2 by blast
qed

section \<open>What a transport never lets through\<close>

lemma parsed_header_wf: "parseIPPacket w = Inr q \<Longrightarrow> ip_header_wf (ip_header q)"
proof -
  assume p: "parseIPPacket w = Inr q"
  have nb: "unat (w ! 0 AND 15) \<le> 15" by (rule nibble_le_15)
  have v: "ip_version (take n w) = ip_version w" if "0 < n" for n
    using that by (simp add: ip_version_def)
  consider "ip_version w = 4" "parseIPv4Packet w = Inr q" | "ip_version w = 6" "parseIPv6Packet w = Inr q"
    using p by (auto simp: parseIPPacket_def split: if_splits)
  then show ?thesis
  proof cases
    case 1
    let ?ihl = "unat (w ! 0 AND 15) * 4"
    have h: "ip_header q = take ?ihl w" "20 \<le> ?ihl" "?ihl \<le> length w"
      using 1(2) by (auto simp: parseIPv4Packet_def Let_def min_def split: if_splits)
    have "ipv4_header_wf (take ?ihl w)"
      using h(2,3) v [of ?ihl] 1(1) unfolding ipv4_header_wf_def by simp
    then show ?thesis by (simp add: ip_header_wf_def h(1))
  next
    case 2
    have h: "ip_header q = take 40 w" "40 \<le> length w"
      using 2(2) by (auto simp: parseIPv6Packet_def Let_def rbind_Inr_iff split: if_splits)
    have "ipv6_header_wf (take 40 w)" using h(2) v [of 40] 2(1) by (simp add: ipv6_header_wf_def)
    then show ?thesis by (simp add: ip_header_wf_def h(1))
  qed
qed

lemma rebuilt_parse:
  assumes wf: "ip_header_wf h" and r: "replaceIPPayload h p proto = Inr out"
    and final: "\<not> isIPv6ExtensionHeader proto"
  shows "parseIPPacket out = Inr (parsed_of (ip_rewrite h (length p) proto) p)"
    "out = ip_rewrite h (length p) proto @ p"
proof -
  have "length p \<le> 65535" "ip_version h = 4 \<longrightarrow> length h + length p \<le> 65535"
    using r wf by (auto simp: replaceIPPayload_def Let_def ip_header_wf_def ipv6_header_wf_def split: if_splits)
  from rebuild_fits [OF wf this final] r
  show "parseIPPacket out = Inr (parsed_of (ip_rewrite h (length p) proto) p)"
    "out = ip_rewrite h (length p) proto @ p" by auto
qed

text \<open>A whole packet from a protected local port leaves encrypted or not at all.\<close>

lemma outbound_protected:
  assumes e: "outbound_whole cr rnd whole t = (Inr (Some out), t')"
    and p: "parseIPPacket whole = Inr q" "tcp_or_udp (nextHeader q)"
    and src: "ipEqual (ip_src q) (LocalIP (t_policy t))"
      "list_ex (\<lambda>f. int (srcPort q) = LocalPort (tf_flow f)) (outbound t)"
  obtains q' i where "parseIPPacket out = Inr q'" "nextHeader q' = ipProtoESP"
    "matchOutbound t q = Some i" "ip_src q' = header_src (ip_header q)"
    "fst (encapsulateTransport cr rnd (transportPayload q) (Some (tf_sa (outbound t ! i))) (nextHeader q)) =
       Inr (transportPayload q')"
proof -
  obtain i where m: "matchOutbound t q = Some i"
    using e p src by (cases "matchOutbound t q") (auto simp: outbound_whole_def)
  then obtain esp sap where en: "encapsulateTransport cr rnd (transportPayload q)
      (Some (tf_sa (outbound t ! i))) (nextHeader q) = (Inr esp, sap)"
    "replaceIPPayload (ip_header q) esp ipProtoESP = Inr out"
    using e p(1) by (auto simp: outbound_whole_def Let_def split: prod.splits sum.splits)
  have wf: "ip_header_wf (ip_header q)" using p(1) by (rule parsed_header_wf)
  have "\<not> isIPv6ExtensionHeader ipProtoESP" by (simp add: isIPv6ExtensionHeader_def)
  from rebuilt_parse(1) [OF wf en(2) this] show thesis
    using that m en(1) by (simp add: parsed_of_def ip_rewrite_props [OF wf])
qed

text \<open>A packet for a protected local port is handed on only when it came in as ESP from the peer, under
  a known SPI and with a valid digest.\<close>

lemma inbound_protected:
  assumes e: "inbound_whole cr whole t = (Inr (Some out), t')"
    and q: "parseIPPacket out = Inr q" "tcp_or_udp (nextHeader q)" "ipEqual (ip_dst q) (LocalIP (t_policy t))"
      "list_ex (\<lambda>f. int (dstPort q) = LocalPort (tf_flow f)) (outbound t)"
  obtains w spi seq i plain proto where "parseIPPacket whole = Inr w" "nextHeader w = ipProtoESP"
    "parseESPSPISeq (transportPayload w) = Inr (spi, seq)" "map_of (inbound t) spi = Some i"
    "ipEqual (ip_src w) (RemoteIP (t_policy t))"
    "decapsulateTransport cr (transportPayload w) (cloneSAForInbound (Some (tf_sa (outbound t ! i))) spi) =
       Inr (plain, proto)"
proof -
  obtain w where w: "parseIPPacket whole = Inr w"
    using e by (auto simp: inbound_whole_def split: sum.splits)
  have esp: "nextHeader w = ipProtoESP"
  proof (rule ccontr)
    assume ne: "nextHeader w \<noteq> ipProtoESP"
    then have "out = whole" using e w by (auto simp: inbound_whole_def split: if_splits)
    then have "q = w" using w q(1) by simp
    then show False using e w ne q(2-) by (simp add: inbound_whole_def)
  qed
  obtain spi seq i where s: "parseESPSPISeq (transportPayload w) = Inr (spi, seq)"
    "map_of (inbound t) spi = Some i" "inbound_esp cr w spi seq i t = (Inr (Some out), t')"
    using e w esp by (auto simp: inbound_whole_def split: sum.splits option.splits prod.splits)
  then obtain plain proto where d: "decapsulateTransport cr (transportPayload w)
      (cloneSAForInbound (Some (tf_sa (outbound t ! i))) spi) = Inr (plain, proto)"
    "\<not> selector_bad (t_policy t) (tf_flow (outbound t ! i)) w plain proto"
    by (auto simp: inbound_esp_def Let_def split: prod.splits if_splits sum.splits)
  then have "ipEqual (ip_src w) (RemoteIP (t_policy t))" by (simp add: selector_bad_def)
  then show thesis using that w esp s(1,2) d(1) by blast
qed

end
