(* ===== verification/Reassembly.thy ===== *)
theory Reassembly
  imports Fragments
begin

text \<open>
  Reassembly is independent of the order of arrival: the fragments of one datagram, delivered in
  any order within the lifetime of a set, give nothing until the last one arrives and then the
  datagram. The abstract specification is a list of pieces of a payload (\<open>pieces_of\<close>); the set
  the code keeps after some of them holds exactly those bytes (\<open>set_holds\<close>).
\<close>

section \<open>The pieces of a payload\<close>

definition cover_of :: "fragment list \<Rightarrow> nat \<Rightarrow> bool" where
  "cover_of fs i \<longleftrightarrow> (\<exists>f \<in> set fs. fr_offset f \<le> i \<and> i < fr_end f)"

definition piece_of :: "fragment_key \<Rightarrow> bytes \<Rightarrow> bytes \<Rightarrow> bytes \<Rightarrow> fragment \<Rightarrow> bool" where
  "piece_of k m h p f \<longleftrightarrow>
     fr_key f = k \<and> fr_metadata f = m \<and> fr_payload f \<noteq> [] \<and> fr_end f \<le> length p \<and>
     fr_payload f = slice (fr_offset f) (fr_end f) p \<and> fr_more f = (fr_end f < length p) \<and>
     (fr_offset f = 0 \<longrightarrow> fr_header f = h) \<and> fragment_ok f \<and> \<not> fragment_bounds_bad f"

definition pieces_of :: "fragment_key \<Rightarrow> bytes \<Rightarrow> bytes \<Rightarrow> bytes \<Rightarrow> fragment list \<Rightarrow> bool" where
  "pieces_of k m h p fs \<longleftrightarrow>
     p \<noteq> [] \<and> length h + length p \<le> 65535 \<and> (\<forall>f \<in> set fs. piece_of k m h p f) \<and>
     (\<forall>f \<in> set fs. \<forall>g \<in> set fs. f \<noteq> g \<longrightarrow> fr_end f \<le> fr_offset g \<or> fr_end g \<le> fr_offset f) \<and>
     (\<forall>i < length p. cover_of fs i)"

definition set_holds ::
  "fragment_key \<Rightarrow> bytes \<Rightarrow> bytes \<Rightarrow> bytes \<Rightarrow> int \<Rightarrow> fragment list \<Rightarrow> fragment_set \<Rightarrow> bool" where
  "set_holds k m h p t0 seen s \<longleftrightarrow>
     set_inv k s \<and> (\<forall>i. fs_covered s i \<longleftrightarrow> cover_of seen i) \<and>
     (\<forall>i. fs_covered s i \<longrightarrow> fs_payload s i = p ! i) \<and> fs_maxEnd s \<le> length p \<and>
     fs_total s = (if \<exists>f \<in> set seen. \<not> fr_more f then int (length p) else -1) \<and>
     fs_header s = (if \<exists>f \<in> set seen. fr_offset f = 0 then Some h else None) \<and>
     fs_metadata s = m \<and> fs_created s = t0"

lemma set_holds_new: "set_holds k m h p t0 [] (new_fragment_set t0 m)"
  by (simp add: set_holds_def cover_of_def) (simp add: new_fragment_set_def)

lemma fr_payload_nth:
  assumes "piece_of k m h p f" "fr_offset f \<le> i" "i < fr_end f"
  shows "fr_payload f ! (i - fr_offset f) = p ! i"
proof -
  have "slice (fr_offset f) (fr_end f) p ! (i - fr_offset f) = p ! (fr_offset f + (i - fr_offset f))"
    using assms by (intro nth_slice) (auto simp: piece_of_def)
  then show ?thesis
    using assms by (simp add: piece_of_def)
qed

lemma fr_end_pos: "piece_of k m h p f \<Longrightarrow> fr_offset f < fr_end f"
  by (simp add: piece_of_def fr_end_def)

lemma no_conflict:
  assumes fs: "pieces_of k m h p fs" and holds: "set_holds k m h p t0 seen s"
    and sub: "set seen \<subseteq> set fs" and f: "f \<in> set fs" "f \<notin> set seen"
  shows "set_conflict f s = None"
proof -
  have pf: "piece_of k m h p f" using fs f(1) by (simp add: pieces_of_def)
  have "\<not> fs_covered s i" if "fr_offset f \<le> i" "i < fr_end f" for i
  proof
    assume "fs_covered s i"
    then obtain g where g: "g \<in> set seen" "fr_offset g \<le> i" "i < fr_end g"
      using holds by (auto simp: set_holds_def cover_of_def)
    then have "fr_end f \<le> fr_offset g \<or> fr_end g \<le> fr_offset f"
      using fs f sub by (auto simp: pieces_of_def)
    with g that show False by linarith
  qed
  then have "\<not> range_covered s (fr_offset f) (fr_end f)"
    by (auto simp: range_covered_def list_ex_iff)
  with pf holds show ?thesis
    by (auto simp: set_conflict_def set_holds_def piece_of_def)
qed

lemma store_holds:
  assumes fs: "pieces_of k m h p fs" and holds: "set_holds k m h p t0 seen s"
    and sub: "set seen \<subseteq> set fs" and f: "f \<in> set fs" "f \<notin> set seen"
  shows "set_holds k m h p t0 (f # seen) (store_fragment f s)"
proof -
  have pf: "piece_of k m h p f" using fs f(1) by (simp add: pieces_of_def)
  have "set_inv k (store_fragment f s)"
    using set_inv_store [of f s] holds pf no_conflict [OF assms]
    by (simp add: set_holds_def piece_of_def)
  moreover have "fs_maxEnd (store_fragment f s) \<le> length p"
    using holds pf by (simp add: set_holds_def piece_of_def store_fragment_def Let_def)
  moreover have "fs_payload (store_fragment f s) i = p ! i" if "fs_covered (store_fragment f s) i" for i
    using holds that fr_payload_nth [OF pf] by (auto simp: set_holds_def store_fragment_def Let_def)
  ultimately show ?thesis
    using holds pf
    by (auto simp: set_holds_def store_fragment_def Let_def cover_of_def piece_of_def)
qed

section \<open>When the set is complete\<close>

lemma complete_iff:
  assumes fs: "pieces_of k m h p fs" and holds: "set_holds k m h p t0 seen s"
    and sub: "set seen \<subseteq> set fs"
  shows "fs_count s = length p \<longleftrightarrow> set seen = set fs"
proof -
  let ?C = "{i. fs_covered s i}"
  have inv: "set_inv k s" and top: "fs_maxEnd s \<le> length p"
    using holds by (simp_all add: set_holds_def)
  then have cnt: "fs_count s = card ?C" and inC: "?C \<subseteq> {..<length p}"
    by (auto simp: set_inv_def intro: less_le_trans)
  show ?thesis
  proof
    assume eq: "set seen = set fs"
    then have "?C = {..<length p}"
      using inC fs holds by (auto simp: set_holds_def pieces_of_def cover_of_def)
    then show "fs_count s = length p" by (simp add: cnt)
  next
    assume "fs_count s = length p"
    then have all: "?C = {..<length p}"
      using inC cnt by (intro card_subset_eq) auto
    show "set seen = set fs"
    proof (rule ccontr)
      assume "set seen \<noteq> set fs"
      then obtain g where g: "g \<in> set fs" "g \<notin> set seen" using sub by auto
      have pg: "piece_of k m h p g" using fs g(1) by (simp add: pieces_of_def)
      have "fr_offset g \<in> {..<length p}"
        using fr_end_pos [OF pg] pg by (auto simp: piece_of_def)
      then have "fs_covered s (fr_offset g)" unfolding all [symmetric] by simp
      then obtain f where f: "f \<in> set seen" "fr_offset f \<le> fr_offset g" "fr_offset g < fr_end f"
        using holds by (auto simp: set_holds_def cover_of_def)
      then have "f \<in> set fs" "f \<noteq> g" using g sub by auto
      then have "fr_end f \<le> fr_offset g \<or> fr_end g \<le> fr_offset f"
        using fs g(1) unfolding pieces_of_def by blast
      with f fr_end_pos [OF pg] show False by linarith
    qed
  qed
qed

lemma complete_contents:
  assumes fs: "pieces_of k m h p fs" and holds: "set_holds k m h p t0 seen s"
    and all: "set seen = set fs"
  shows "fs_header s = Some h" "fs_total s = int (length p)"
    "list_all (fs_covered s) [0..<length p]" "map (fs_payload s) [0..<length p] = p"
proof -
  have ne: "p \<noteq> []" and cov: "\<forall>i < length p. cover_of fs i"
    using fs by (auto simp: pieces_of_def)
  have "cover_of fs 0" "cover_of fs (length p - 1)" using cov ne by simp_all
  then obtain f g where "f \<in> set fs" "fr_offset f = 0"
    and g: "g \<in> set fs" "length p - 1 < fr_end g"
    by (auto simp: cover_of_def)
  then show "fs_header s = Some h" using holds all by (auto simp: set_holds_def)
  have "\<not> fr_more g" using g fs by (auto simp: pieces_of_def piece_of_def)
  with g show "fs_total s = int (length p)" using holds all by (auto simp: set_holds_def)
  have c: "\<forall>i < length p. fs_covered s i" using cov holds all by (auto simp: set_holds_def cover_of_def)
  then show "list_all (fs_covered s) [0..<length p]" by (simp add: list_all_iff)
  show "map (fs_payload s) [0..<length p] = p"
    by (rule nth_equalityI) (use c holds in \<open>auto simp: set_holds_def\<close>)
qed

section \<open>One arrival\<close>

text \<open>The set found for the datagram, or the fresh one when there is room for it.\<close>

definition set_for :: "int \<Rightarrow> reassembler \<Rightarrow> fragment_key \<Rightarrow> bytes \<Rightarrow> fragment_set \<Rightarrow> bool" where
  "set_for now r k m s \<longleftrightarrow>
     map_of (expire_sets now r) k = Some s \<or>
     (map_of (expire_sets now r) k = None \<and> length (expire_sets now r) < max_fragment_sets \<and>
      s = new_fragment_set now m)"

lemma absorb_step:
  assumes fs: "pieces_of k m h p fs" and holds: "set_holds k m h p t0 seen s"
    and sub: "set seen \<subseteq> set fs" and f: "f \<in> set fs" "f \<notin> set seen"
    and s: "set_for now r k m s"
  shows "absorb now r f =
    (if set (f # seen) = set fs
     then (reassembled_packet h p, AList.delete k (expire_sets now r))
     else (Inr None, AList.update k (store_fragment f s) (expire_sets now r)))"
proof -
  let ?r = "expire_sets now r" and ?new = "store_fragment f s"
  have pf: "piece_of k m h p f" using fs f(1) by (simp add: pieces_of_def)
  have key: "fr_key f = k" "fr_metadata f = m" using pf by (auto simp: piece_of_def)
  have found: "(case map_of ?r k of Some s \<Rightarrow> s | None \<Rightarrow> new_fragment_set now m) = s"
    and room: "\<not> (map_of ?r k = None \<and> max_fragment_sets \<le> length ?r)"
    using s by (auto simp: set_for_def split: option.splits)
  have free: "set_conflict f s = None" by (rule no_conflict [OF fs holds sub f])
  have new: "set_holds k m h p t0 (f # seen) ?new" by (rule store_holds [OF fs holds sub f])
  have sub': "set (f # seen) \<subseteq> set fs" using sub f by simp
  note cnt = complete_iff [OF fs new sub']
  have unfolded: "absorb now r f =
      (case fs_header ?new of
         None \<Rightarrow> (Inr None, AList.update k ?new ?r)
       | Some header \<Rightarrow>
           if fs_total ?new < 0 \<or> int (fs_count ?new) \<noteq> fs_total ?new
           then (Inr None, AList.update k ?new ?r)
           else if int (length header) + fs_total ?new > 65535
           then (Inl ReassembledTooLong, AList.delete k ?r)
           else if \<not> list_all (fs_covered ?new) [0..<nat (fs_total ?new)]
           then (Inr None, AList.update k ?new ?r)
           else (reassembled_packet header (map (fs_payload ?new) [0..<nat (fs_total ?new)]),
                 AList.delete k ?r))"
    by (simp only: absorb_def Let_def key found room free if_False option.case)
  show ?thesis
  proof (cases "set (f # seen) = set fs")
    case True
    have "length h + length p \<le> 65535" using fs by (simp add: pieces_of_def)
    with True cnt complete_contents [OF fs new True] show ?thesis
      by (simp add: unfolded)
  next
    case False
    then have "int (fs_count ?new) \<noteq> int (length p)" using cnt by simp
    moreover have "fs_total ?new < 0 \<or> fs_total ?new = int (length p)"
      using new by (simp add: set_holds_def)
    ultimately show ?thesis
      using False by (auto simp: unfolded split: option.splits)
  qed
qed

section \<open>A whole datagram, in any order\<close>

text \<open>\<open>delivers p f\<close>: the reassembler sees the packet as the fragment, and the packet is not an
  atomic IPv6 fragment.\<close>

definition delivers :: "bytes \<Rightarrow> fragment \<Rightarrow> bool" where
  "delivers packet f \<longleftrightarrow>
     classify packet = Inr (Some f) \<and> \<not> fragment_bounds_bad f \<and>
     \<not> (ip_version packet = 6 \<and> fr_offset f = 0 \<and> \<not> fr_more f)"

lemma process_delivers: "delivers packet f \<Longrightarrow> process now r packet = absorb now r f"
  by (auto simp: process_def delivers_def)

lemma map_of_expire:
  "distinct (map fst r) \<Longrightarrow>
   map_of (expire_sets now r) k =
     (case map_of r k of None \<Rightarrow> None
      | Some s \<Rightarrow> if now - fs_created s > fragment_lifetime then None else Some s)"
proof (induction r)
  case (Cons x r)
  obtain k' s where x: "x = (k', s)" by (cases x)
  show ?case
  proof (cases "k = k'")
    case True
    then have "map_of r k = None" using Cons.prems x by (simp add: map_of_eq_None_iff)
    with True Cons show ?thesis by (auto simp: x expire_sets_def)
  next
    case False
    with Cons show ?thesis by (auto simp: x expire_sets_def)
  qed
qed (simp add: expire_sets_def)

lemma distinct_expire: "distinct (map fst r) \<Longrightarrow> distinct (map fst (expire_sets now r))"
  by (simp add: expire_sets_def distinct_map_filter)

fun outputs_pending :: "nat \<Rightarrow> (frag_error + bytes option) \<Rightarrow> (frag_error + bytes option) list" where
  "outputs_pending 0 res = []"
| "outputs_pending (Suc n) res = replicate n (Inr None) @ [res]"

lemma run_rest:
  assumes "pieces_of k m h p fs"
  shows "set_holds k m h p t0 seen s \<Longrightarrow> map_of r k = Some s \<Longrightarrow> distinct (map fst r) \<Longrightarrow>
    set seen \<union> set todo = set fs \<Longrightarrow> set seen \<inter> set todo = {} \<Longrightarrow> distinct todo \<Longrightarrow>
    list_all2 (\<lambda>(t, packet) f. delivers packet f \<and> t - t0 \<le> fragment_lifetime) tps todo \<Longrightarrow>
    todo \<noteq> [] \<Longrightarrow>
    fst (process_run r tps) = outputs_pending (length todo) (reassembled_packet h p) \<and>
    map_of (snd (process_run r tps)) k = None"
proof (induction todo arbitrary: tps r seen s)
  case (Cons f todo)
  from Cons.prems(7) obtain t packet rest where tps: "tps = (t, packet) # rest"
    and d: "delivers packet f" "t - t0 \<le> fragment_lifetime"
    and rest: "list_all2 (\<lambda>(t, packet) f. delivers packet f \<and> t - t0 \<le> fragment_lifetime) rest todo"
    by (auto simp: list_all2_Cons2)
  let ?r = "expire_sets t r" and ?new = "store_fragment f s"
  have "fs_created s = t0" using Cons.prems(1) by (simp add: set_holds_def)
  then have look: "map_of ?r k = Some s" using Cons.prems(2,3) d(2) by (simp add: map_of_expire)
  have f: "f \<in> set fs" "f \<notin> set seen" and sub: "set seen \<subseteq> set fs" using Cons.prems(4,5) by auto
  have step: "process t r packet =
      (if set (f # seen) = set fs then (reassembled_packet h p, AList.delete k ?r)
       else (Inr None, AList.update k ?new ?r))"
    using absorb_step [OF assms Cons.prems(1) sub f] look
    by (simp add: process_delivers [OF d(1)] set_for_def)
  show ?case
  proof (cases "todo = []")
    case True
    then have "set (f # seen) = set fs" using Cons.prems(4) by auto
    with True rest show ?thesis by (simp add: tps step delete_conv)
  next
    case False
    then obtain g todo' where todo: "todo = g # todo'" by (cases todo) auto
    then have "g \<in> set fs" "g \<notin> set (f # seen)" using Cons.prems(4,5,6) by auto
    then have ne: "set (f # seen) \<noteq> set fs" by auto
    have "fst (process_run (AList.update k ?new ?r) rest)
        = outputs_pending (length todo) (reassembled_packet h p) \<and>
      map_of (snd (process_run (AList.update k ?new ?r) rest)) k = None"
    proof (rule Cons.IH [of "f # seen" ?new])
      show "set_holds k m h p t0 (f # seen) ?new"
        by (rule store_holds [OF assms Cons.prems(1) sub f])
      show "map_of (AList.update k ?new ?r) k = Some ?new" by (simp add: update_conv)
      show "distinct (map fst (AList.update k ?new ?r))"
        using Cons.prems(3) by (intro distinct_update distinct_expire)
    qed (use Cons.prems rest todo in auto)
    with ne todo show ?thesis by (simp add: tps step case_prod_beta)
  qed
qed simp

lemma reassemble_any_order:
  assumes fs: "pieces_of k m h p (f # todo)" "distinct (f # todo)"
    and r: "map_of r k = None" "distinct (map fst r)" "length (expire_sets t0 r) < max_fragment_sets"
    and d: "delivers packet f"
      "list_all2 (\<lambda>(t, packet) f. delivers packet f \<and> t - t0 \<le> fragment_lifetime) tps todo"
  shows "fst (process_run r ((t0, packet) # tps)) =
      outputs_pending (length (f # todo)) (reassembled_packet h p) \<and>
    map_of (snd (process_run r ((t0, packet) # tps))) k = None"
proof -
  let ?r = "expire_sets t0 r" and ?s = "new_fragment_set t0 m"
  have look: "map_of ?r k = None" using r(1,2) by (simp add: map_of_expire)
  have new: "set_holds k m h p t0 [f] (store_fragment f ?s)"
    by (rule store_holds [OF fs(1) set_holds_new]) auto
  have step: "process t0 r packet =
      (if set [f] = set (f # todo) then (reassembled_packet h p, AList.delete k ?r)
       else (Inr None, AList.update k (store_fragment f ?s) ?r))"
    using absorb_step [OF fs(1) set_holds_new, of f t0 r] look r(3)
    by (simp add: process_delivers [OF d(1)] set_for_def)
  show ?thesis
  proof (cases "todo = []")
    case True
    with d(2) show ?thesis by (simp add: step delete_conv)
  next
    case False
    then obtain g todo' where todo: "todo = g # todo'" by (cases todo) auto
    then have ne: "set [f] \<noteq> set (f # todo)" using fs(2) by auto
    let ?u = "AList.update k (store_fragment f ?s) ?r"
    have "fst (process_run ?u tps) = outputs_pending (length todo) (reassembled_packet h p) \<and>
        map_of (snd (process_run ?u tps)) k = None"
    proof (rule run_rest [OF fs(1) new])
      show "map_of ?u k = Some (store_fragment f ?s)" by (simp add: update_conv)
      show "distinct (map fst ?u)" using r(2) by (intro distinct_update distinct_expire)
    qed (use fs(2) d(2) False in auto)
    moreover have "process t0 r packet = (Inr None, ?u)" by (simp only: step ne if_False)
    ultimately show ?thesis using todo by (simp add: case_prod_beta)
  qed
qed

section \<open>The fragments the sender makes are pieces of the payload\<close>

function fragment_offsets :: "nat \<Rightarrow> nat \<Rightarrow> nat \<Rightarrow> nat list" where
  "fragment_offsets chunk len offset =
     (if offset < len \<and> 0 < chunk then offset # fragment_offsets chunk len (offset + chunk) else [])"
  by pat_completeness auto
termination
  by (relation "measure (\<lambda>(chunk, len, offset). len - offset)") auto

declare fragment_offsets.simps [simp del]

lemma fragment_loop_offsets:
  "fragment_loop build chunk len offset =
   map (\<lambda>a. build a (min (a + chunk) len)) (fragment_offsets chunk len offset)"
proof (induction chunk len offset rule: fragment_offsets.induct)
  case (1 chunk len offset)
  then show ?case
    by (simp add: fragment_loop.simps [of build chunk len offset]
        fragment_offsets.simps [of chunk len offset])
qed

lemma fragment_offsets_bounds:
  "a \<in> set (fragment_offsets chunk len offset) \<Longrightarrow>
   offset \<le> a \<and> a < len \<and> (\<exists>j. a = offset + j * chunk)"
proof (induction chunk len offset rule: fragment_offsets.induct)
  case (1 chunk len offset)
  show ?case
  proof (cases "a = offset")
    case True
    with "1.prems" show ?thesis
      by (subst (asm) fragment_offsets.simps) (auto split: if_splits intro: exI [of _ 0])
  next
    case False
    with "1.prems" have c: "offset < len \<and> 0 < chunk" "a \<in> set (fragment_offsets chunk len (offset + chunk))"
      by (auto simp: fragment_offsets.simps [of chunk len offset] split: if_splits)
    then obtain j where "a = offset + chunk + j * chunk" "offset + chunk \<le> a" "a < len"
      using "1.IH" by blast
    then have "a = offset + Suc j * chunk" by simp
    with c \<open>a < len\<close> \<open>offset + chunk \<le> a\<close> show ?thesis by (intro conjI exI [of _ "Suc j"]) auto
  qed
qed

lemma fragment_offsets_distinct: "distinct (fragment_offsets chunk len offset)"
proof (induction chunk len offset rule: fragment_offsets.induct)
  case (1 chunk len offset)
  then show ?case
    by (subst fragment_offsets.simps) (auto dest: fragment_offsets_bounds)
qed

lemma fragment_offsets_cover:
  "0 < chunk \<Longrightarrow> offset \<le> i \<Longrightarrow> i < len \<Longrightarrow>
   \<exists>a \<in> set (fragment_offsets chunk len offset). a \<le> i \<and> i < min (a + chunk) len"
proof (induction chunk len offset rule: fragment_offsets.induct)
  case (1 chunk len offset)
  have eq: "fragment_offsets chunk len offset = offset # fragment_offsets chunk len (offset + chunk)"
    using "1.prems" by (simp add: fragment_offsets.simps [of chunk len offset])
  show ?case
  proof (cases "i < offset + chunk")
    case True
    with "1.prems" show ?thesis by (auto simp: eq)
  next
    case False
    then have "\<exists>a \<in> set (fragment_offsets chunk len (offset + chunk)). a \<le> i \<and> i < min (a + chunk) len"
      using "1.prems" by (intro "1.IH") auto
    then show ?thesis by (auto simp: eq)
  qed
qed

lemma fragment_offsets_apart:
  assumes "a \<in> set (fragment_offsets chunk len 0)" "b \<in> set (fragment_offsets chunk len 0)" "a \<noteq> b"
  shows "min (a + chunk) len \<le> b \<or> min (b + chunk) len \<le> a"
proof -
  obtain i j where "a = i * chunk" "b = j * chunk"
    using assms fragment_offsets_bounds by (metis add_0)
  moreover from this have "i < j \<or> j < i" using assms(3) by auto
  then have "Suc i * chunk \<le> j * chunk \<or> Suc j * chunk \<le> i * chunk"
    by (metis Suc_leI mult_le_mono1)
  ultimately show ?thesis by auto
qed

lemma fragment_chunk_dvd: "8 dvd fragment_chunk hl fh"
  by (simp add: fragment_chunk_def)

lemma fragment_chunk_pos: "hl \<le> 60 \<Longrightarrow> fh \<le> 8 \<Longrightarrow> 1208 \<le> fragment_chunk hl fh \<and>
    fragment_chunk hl fh + hl + fh \<le> fragment_mtu"
  by (simp add: fragment_chunk_def fragment_mtu_def) linarith

text \<open>Pieces built from the offsets of a payload.\<close>

lemma pieces_of_offsets:
  assumes p: "p \<noteq> []" "length h + length p \<le> 65535" and chunk: "0 < chunk"
    and piece: "\<And>a. a \<in> set (fragment_offsets chunk (length p) 0) \<Longrightarrow> piece_of k m h p (piece a) \<and>
      fr_offset (piece a) = a \<and> fr_end (piece a) = min (a + chunk) (length p)"
    and perm: "set as = set (fragment_offsets chunk (length p) 0)"
  shows "pieces_of k m h p (map piece as)"
proof -
  have "cover_of (map piece as) i" if "i < length p" for i
    using fragment_offsets_cover [OF chunk le0 that] piece perm by (auto simp: cover_of_def)
  moreover have "fr_end (piece a) \<le> fr_offset (piece b) \<or> fr_end (piece b) \<le> fr_offset (piece a)"
    if "a \<in> set as" "b \<in> set as" "piece a \<noteq> piece b" for a b
    using that fragment_offsets_apart [of a chunk "length p" b] piece perm by auto
  ultimately show ?thesis
    using p piece perm unfolding pieces_of_def by auto
qed

section \<open>The flag words of the fragments\<close>

lemma flag_constants:
  "(0x1fff :: u16) = mask 13" "(0x3fff :: u16) = mask 14" "(0xfff8 :: u16) = NOT (mask 3)"
  by (simp_all add: mask_eq_exp_minus_1)

lemma bit_0x2000: "bit (0x2000 :: int) n \<longleftrightarrow> n = 13"
proof -
  have eq: "(0x2000 :: int) = 2 ^ 13" by simp
  show ?thesis unfolding eq bit_exp_iff by auto
qed

lemma flags_v4:
  assumes "unat (w :: u16) < 8192"
  shows "w AND 0x1fff = w" "(w OR 0x2000) AND 0x1fff = w" "w AND 0x2000 = 0"
    "(w OR 0x2000) AND 0x2000 = 0x2000" "w AND 0x3fff = w" "(w OR 0x2000) AND 0x3fff \<noteq> 0"
proof -
  have "w < 2 ^ 13" using assms by (simp add: word_less_nat_alt)
  then have "take_bit 13 w = w" by (metis less_mask_eq take_bit_eq_mask)
  then have small: "n < 13" if "bit w n" for n using that by (metis bit_take_bit_iff)
  show "w AND 0x1fff = w" "(w OR 0x2000) AND 0x1fff = w" "w AND 0x2000 = 0"
    "(w OR 0x2000) AND 0x2000 = 0x2000" "w AND 0x3fff = w"
    unfolding flag_constants
    by (rule bit_word_eqI, auto simp: bit_simps bit_0x2000 dest: small)+
  have "bit ((w OR 0x2000) AND 0x3fff) 13"
    unfolding flag_constants by (simp add: bit_simps bit_0x2000)
  then show "(w OR 0x2000) AND 0x3fff \<noteq> 0" by auto
qed

lemma flags_v6:
  assumes "8 dvd a"
  shows "(of_nat a :: u16) AND 0xfff8 = of_nat a" "((of_nat a :: u16) OR 1) AND 0xfff8 = of_nat a"
    "(of_nat a :: u16) AND 1 = 0" "((of_nat a :: u16) OR 1) AND 1 = 1"
proof -
  obtain q where q: "a = 8 * q" using assms by (elim dvdE)
  have w: "(of_nat a :: u16) = push_bit 3 (of_nat q)" by (simp add: q push_bit_eq_mult)
  show "(of_nat a :: u16) AND 0xfff8 = of_nat a" "((of_nat a :: u16) OR 1) AND 0xfff8 = of_nat a"
    "(of_nat a :: u16) AND 1 = 0" "((of_nat a :: u16) OR 1) AND 1 = 1"
    unfolding flag_constants w by (rule bit_word_eqI, auto simp: bit_simps)+
qed

section \<open>IPv6: fragments of a protected packet and their reassembly\<close>

definition piece_v6 :: "u32 \<Rightarrow> bytes \<Rightarrow> bytes \<Rightarrow> nat \<Rightarrow> nat \<Rightarrow> fragment" where
  "piece_v6 ident h p chunk a =
     (let b = min (a + chunk) (length p);
          header = (put_u16 4 (of_nat (8 + b - a)) h)[6 := ipProtoESP]
      in \<lparr>fr_key = Key6 (slice 8 24 h) (slice 24 40 h) ident, fr_header = header,
          fr_payload = slice a b p, fr_offset = a, fr_more = (b < length p),
          fr_metadata = fragment_metadata_v6 header\<rparr>)"

lemma classify_fragment_v6:
  assumes wf: "ipv6_header_wf h" and p: "length p \<le> 65535"
    and a: "8 dvd a" "a < b" "b \<le> length p" "b - a \<le> 65527"
  shows "classify (fragment_v6 ident h p a b) = Inr (Some
    \<lparr>fr_key = Key6 (slice 8 24 h) (slice 24 40 h) ident,
     fr_header = (put_u16 4 (of_nat (8 + b - a)) h)[6 := ipProtoESP],
     fr_payload = slice a b p, fr_offset = a, fr_more = (b < length p),
     fr_metadata = fragment_metadata_v6 ((put_u16 4 (of_nat (8 + b - a)) h)[6 := ipProtoESP])\<rparr>)"
proof -
  define fl where "fl = (if b < length p then (of_nat a :: u16) OR 1 else of_nat a)"
  define n where "n = 8 + b - a"
  define nh where "nh = put_u16 4 (of_nat n) (h[6 := 44])"
  define fh where "fh = put_u32 4 ident (put_u16 2 fl ((replicate 8 0)[0 := ipProtoESP]))"
  define pk where "pk = nh @ fh @ slice a b p"
  have len: "length h = 40" "ip_version h = 6" using wf by (auto simp: ipv6_header_wf_def)
  have eq: "fragment_v6 ident h p a b = pk"
    by (simp add: fragment_v6_def Let_def pk_def nh_def fh_def fl_def n_def)
  have l: "length nh = 40" "length fh = 8" using len by (simp_all add: nh_def fh_def)
  have h: "nh ! 0 = h ! 0" "nh ! 6 = 44" "get_u16 4 nh = of_nat n"
    "slice 8 24 nh = slice 8 24 h" "slice 24 40 nh = slice 24 40 h"
    using len by (auto simp: nh_def get_put_u16 intro!: slice_eqI)
  have f: "fh ! 0 = ipProtoESP" "get_u16 2 fh = fl" "get_u32 4 fh = ident"
    using get_put_u16 [of 2 "(replicate 8 0)[0 := ipProtoESP]" fl]
    by (auto simp: fh_def get_u16_def)
  have pkl: "length pk = 40 + n" "pk \<noteq> []" using l a by (auto simp: pk_def n_def)
  have i: "ip_version pk = 6" "pk ! 6 = 44" "get_u16 4 pk = of_nat n"
    "slice 8 24 pk = slice 8 24 h" "slice 24 40 pk = slice 24 40 h" "take 40 pk = nh"
    using h l len(2) by (auto simp: pk_def ip_version_def nth_append get_u16_def slice_append_left)
  have fr: "pk ! 40 = ipProtoESP" "get_u16 42 pk = fl" "get_u32 44 pk = ident"
    using f l by (auto simp: pk_def nth_append get_u16_def get_u32_def)
  have nn: "unat (of_nat n :: u16) = n" using a by (intro unat_of_nat_u16) (simp add: n_def)
  have sl: "slice 48 (40 + n) pk = slice a b p"
    using l a by (simp add: pk_def n_def slice_append_right slice_0_take)
  have off: "unat (fl AND 0xfff8) = a" "(fl AND 1 \<noteq> 0) = (b < length p)"
    using flags_v6 [OF a(1)] a(2,3) p by (auto simp: fl_def unat_of_nat_u16)
  have find: "find_fragment_header pk m 44 40 6 = Inr (Some (40, 6))" for m
    by (simp add: find_fragment_header.simps)
  have hd: "nh[6 := ipProtoESP] = (put_u16 4 (of_nat n) h)[6 := ipProtoESP]"
    unfolding nh_def by (rule nth_equalityI) (use len in \<open>auto simp: put_u16_def nth_list_update\<close>)
  have "8 < n" using a by (simp add: n_def)
  then have "classify_v6 pk = Inr (Some
    \<lparr>fr_key = Key6 (slice 8 24 h) (slice 24 40 h) ident, fr_header = nh[6 := ipProtoESP],
     fr_payload = slice a b p, fr_offset = a, fr_more = (b < length p),
     fr_metadata = fragment_metadata_v6 (nh[6 := ipProtoESP])\<rparr>)"
    by (simp add: classify_v6_def Let_def i nn find fr pkl sl off)
  then show ?thesis
    by (simp only: eq classify_def i pkl if_False if_True hd n_def) simp
qed

lemma metadata_v6_length: "length h = 40 \<Longrightarrow>
    fragment_metadata_v6 ((put_u16 4 v h)[6 := q]) = fragment_metadata_v6 (h[6 := q])"
proof -
  assume len: "length h = 40"
  have "((put_u16 4 v h)[6 := q])[4 := 0, 5 := 0, 7 := 0] = (h[6 := q])[4 := 0, 5 := 0, 7 := 0]"
    by (rule nth_equalityI) (use len in \<open>auto simp: put_u16_def nth_list_update\<close>)
  then show ?thesis by (simp only: fragment_metadata_v6_def)
qed

lemma piece_v6_ok:
  assumes wf: "ipv6_header_wf h" and p: "length h + length p \<le> 65535"
    and chunk: "8 dvd chunk" "0 < chunk" "chunk \<le> 65527" "chunk < length p"
    and a: "a \<in> set (fragment_offsets chunk (length p) 0)"
  shows "delivers (fragment_v6 ident h p a (min (a + chunk) (length p))) (piece_v6 ident h p chunk a)"
    and "piece_of (Key6 (slice 8 24 h) (slice 24 40 h) ident)
      (fragment_metadata_v6 (h[6 := ipProtoESP]))
      ((put_u16 4 (of_nat (8 + chunk)) h)[6 := ipProtoESP]) p (piece_v6 ident h p chunk a)"
    and "fr_offset (piece_v6 ident h p chunk a) = a"
    and "fr_end (piece_v6 ident h p chunk a) = min (a + chunk) (length p)"
proof -
  let ?b = "min (a + chunk) (length p)"
  have len: "length h = 40" "ip_version h = 6" using wf by (auto simp: ipv6_header_wf_def)
  have al: "a < length p" "8 dvd a" using fragment_offsets_bounds [OF a] chunk(1) by auto
  have c: "classify (fragment_v6 ident h p a ?b) = Inr (Some (piece_v6 ident h p chunk a))"
    using classify_fragment_v6 [OF wf _ al(2), of p ?b ident] p al(1) chunk
    by (simp add: piece_v6_def Let_def)
  show fo: "fr_offset (piece_v6 ident h p chunk a) = a"
    by (simp add: piece_v6_def Let_def)
  have lp: "length (fr_payload (piece_v6 ident h p chunk a)) = ?b - a"
    by (simp add: piece_v6_def Let_def)
  then show fe: "fr_end (piece_v6 ident h p chunk a) = ?b"
    using al by (simp add: fr_end_def fo)
  have mult: "?b < length p \<Longrightarrow> (?b - a) mod 8 = 0" using chunk(1) by auto
  have good: "\<not> fragment_bounds_bad (piece_v6 ident h p chunk a)"
    using fe lp mult al p len chunk(2)
    by (auto simp: fragment_bounds_bad_def) (auto simp: piece_v6_def Let_def)
  have more: "fr_more (piece_v6 ident h p chunk a) = (?b < length p)"
    by (simp add: piece_v6_def Let_def)
  show "delivers (fragment_v6 ident h p a ?b) (piece_v6 ident h p chunk a)"
    using c good chunk(4) by (auto simp: delivers_def fo more)
  show "piece_of (Key6 (slice 8 24 h) (slice 24 40 h) ident)
      (fragment_metadata_v6 (h[6 := ipProtoESP]))
      ((put_u16 4 (of_nat (8 + chunk)) h)[6 := ipProtoESP]) p (piece_v6 ident h p chunk a)"
    using classify_ok [OF c] good al chunk(2,4) lp fe more fo metadata_v6_length [OF len(1)]
    by (auto simp: piece_of_def) (auto simp: piece_v6_def Let_def min_def)
qed

lemma run_offsets:
  assumes pieces: "pieces_of k m h p (map piece as)" and dist: "distinct (map piece as)" "as \<noteq> []"
    and r: "map_of r k = None" "distinct (map fst r)" "length (expire_sets (hd ts) r) < max_fragment_sets"
    and ts: "length ts = length as" "\<forall>t \<in> set ts. t - hd ts \<le> fragment_lifetime"
    and d: "\<And>a. a \<in> set as \<Longrightarrow> delivers (build a) (piece a)"
  shows "fst (process_run r (zip ts (map build as))) =
      outputs_pending (length as) (reassembled_packet h p)"
    and "map_of (snd (process_run r (zip ts (map build as)))) k = None"
proof -
  obtain a as' where as: "as = a # as'" using dist(2) by (cases as) auto
  obtain t ts' where ts': "ts = t # ts'" using ts(1) as by (cases ts) auto
  have "list_all2 (\<lambda>(t', packet) f. delivers packet f \<and> t' - t \<le> fragment_lifetime)
      (zip ts' (map build as')) (map piece as')"
    using ts d by (auto simp: as ts' list_all2_conv_all_nth)
  then have "fst (process_run r ((t, build a) # zip ts' (map build as'))) =
      outputs_pending (length (piece a # map piece as')) (reassembled_packet h p) \<and>
    map_of (snd (process_run r ((t, build a) # zip ts' (map build as')))) k = None"
    using pieces dist r d [of a] by (intro reassemble_any_order) (auto simp: as ts')
  then show "fst (process_run r (zip ts (map build as))) =
      outputs_pending (length as) (reassembled_packet h p)"
    and "map_of (snd (process_run r (zip ts (map build as)))) k = None"
    by (simp_all add: as ts')
qed

text \<open>Every arrival order of a list is given by a permutation of its indexes.\<close>

definition arrival_order :: "nat list \<Rightarrow> nat \<Rightarrow> bool" where
  "arrival_order idx n \<longleftrightarrow> distinct idx \<and> set idx = {..<n}"

lemma arrival_offsets:
  assumes "arrival_order idx (length os)" "distinct os"
  shows "set (map ((!) os) idx) = set os" "distinct (map ((!) os) idx)" "length idx = length os"
proof -
  have "(!) os ` {..<length os} = set os"
    using nth_image [of "length os" os] by (simp add: lessThan_atLeast0)
  then show "set (map ((!) os) idx) = set os"
    using assms(1) by (simp add: arrival_order_def)
  have "inj_on ((!) os) {..<length os}"
    using assms(2) by (intro inj_on_nth) auto
  then show "distinct (map ((!) os) idx)"
    using assms by (simp add: arrival_order_def distinct_map)
  show "length idx = length os"
    using assms(1) by (metis arrival_order_def card_lessThan distinct_card)
qed

lemma map_arrival: "set idx \<subseteq> {..<length os} \<Longrightarrow> map ((!) (map f os)) idx = map f (map ((!) os) idx)"
  by auto

lemma outputs_pending_eq: "0 < n \<Longrightarrow> outputs_pending n res = replicate (n - 1) (Inr None) @ [res]"
  by (cases n) auto

lemma reassembled_v6_eq:
  assumes wf: "ipv6_header_wf h" and esp: "h ! 6 = ipProtoESP" and len: "get_u16 4 h = of_nat (length p)"
  shows "reassembled_packet ((put_u16 4 v h)[6 := ipProtoESP]) p = Inr (Some (h @ p))"
proof -
  have l: "length h = 40" "ip_version h = 6" using wf by (auto simp: ipv6_header_wf_def)
  let ?h = "(put_u16 4 v h)[6 := ipProtoESP]"
  have "(put_u16 4 (of_nat (length p)) ?h) = put_u16 4 (of_nat (length p)) (h[6 := ipProtoESP])"
    by (rule nth_equalityI) (use l in \<open>auto simp: put_u16_def nth_list_update\<close>)
  also have "h[6 := ipProtoESP] = h" by (simp only: list_update_id flip: esp)
  also have "put_u16 4 (of_nat (length p)) h = h" by (simp only: put_get_u16 flip: len)
  finally have "put_u16 4 (of_nat (length p)) (?h @ p) = h @ p" using l by (simp add: put_u16_append)
  moreover have "ip_version ?h = 6" using l by (simp add: ip_version_def)
  moreover have "checked_v6 (h @ p) = Inr (Some (h @ p))"
    using l esp by (simp add: checked_v6_def validateReassembledIPv6_def nth_append
        validateReassembledExtensions.simps isIPv6ExtensionHeader_def)
  ultimately show ?thesis
    using l by (simp add: reassembled_v6)
qed

lemma fragment_v6_list:
  assumes wf: "ipv6_header_wf h" and esp: "h ! 6 = ipProtoESP"
    and len: "unat (get_u16 4 h) = length p" and big: "fragment_mtu < length (h @ p)"
  shows "fragmentProtectedPacket c (h @ p) =
    (Inr (map (\<lambda>a. fragment_v6 (c + 1) h p a (min (a + 1232) (length p)))
      (fragment_offsets 1232 (length p) 0)), c + 1)"
proof -
  have "parseIPPacket (h @ p) = Inr \<lparr>ip_header = h, transportPayload = p, ip_src = slice 8 24 h,
      ip_dst = slice 24 40 h, srcPort = fst (transport_ports (h ! 6) p),
      dstPort = snd (transport_ports (h ! 6) p), nextHeader = h ! 6\<rparr>"
    using parse_v6 [OF wf len] esp by (simp add: isIPv6ExtensionHeader_def Let_def)
  moreover have "ip_version (h @ p) = 6" "length h = 40"
    using wf by (auto simp: ipv6_header_wf_def ip_version_def nth_append)
  ultimately show ?thesis
    using big esp
    by (simp add: fragmentProtectedPacket_def Let_def fragment_loop_offsets fragment_chunk_def
        fragment_mtu_def)
qed

lemma fr_offset_piece_v6: "fr_offset (piece_v6 ident h p chunk a) = a"
  by (simp add: piece_v6_def Let_def)

lemma inj_piece_v6: "inj_on (piece_v6 ident h p chunk) A"
  by (rule inj_on_inverseI [where g = fr_offset]) (rule fr_offset_piece_v6)

lemma reassembly_v6:
  assumes wf: "ipv6_header_wf h" and esp: "h ! 6 = ipProtoESP"
    and len: "unat (get_u16 4 h) = length p" and size: "fragment_mtu < length (h @ p)" "length (h @ p) \<le> 65535"
    and frs: "fst (fragmentProtectedPacket c (h @ p)) = Inr frs"
    and order: "arrival_order idx (length frs)"
    and ts: "length ts = length idx" "\<forall>t \<in> set ts. t - hd ts \<le> fragment_lifetime"
    and r: "map_of r (Key6 (slice 8 24 h) (slice 24 40 h) (c + 1)) = None" "distinct (map fst r)"
      "length (expire_sets (hd ts) r) < max_fragment_sets"
  shows "fst (process_run r (zip ts (map ((!) frs) idx))) =
      replicate (length frs - 1) (Inr None) @ [Inr (Some (h @ p))]"
    and "1 < length frs" and "\<forall>f \<in> set frs. length f \<le> fragment_mtu"
proof -
  let ?os = "fragment_offsets 1232 (length p) 0"
  let ?build = "\<lambda>a. fragment_v6 (c + 1) h p a (min (a + 1232) (length p))"
  let ?piece = "piece_v6 (c + 1) h p 1232"
  let ?as = "map ((!) ?os) idx"
  have l: "length h = 40" using wf by (auto simp: ipv6_header_wf_def)
  have frs': "frs = map ?build ?os" using frs fragment_v6_list [OF wf esp len size(1)] by simp
  have lp: "1232 < length p" "length h + length p \<le> 65535" "p \<noteq> []"
    using size l by (auto simp: fragment_mtu_def)
  note order' = arrival_offsets [OF order [unfolded frs' length_map] fragment_offsets_distinct]
  have ne: "?os \<noteq> []" using lp by (simp add: fragment_offsets.simps [of 1232 "length p" 0])
  note piece = piece_v6_ok [OF wf lp(2), of 1232, simplified, OF lp(1)]
  have pieces: "pieces_of (Key6 (slice 8 24 h) (slice 24 40 h) (c + 1))
      (fragment_metadata_v6 (h[6 := ipProtoESP]))
      ((put_u16 4 (of_nat (8 + 1232)) h)[6 := ipProtoESP]) p (map ?piece ?as)"
    by (rule pieces_of_offsets [OF lp(3) _ _ _ order'(1)]) (use lp l piece in auto)
  have "inj_on ?piece (set ?as)" by (rule inj_piece_v6)
  with order'(2) have dist: "distinct (map ?piece ?as)" by (simp only: distinct_map)
  have wrd: "get_u16 4 h = of_nat (length p)" by (simp flip: len)
  have "fst (process_run r (zip ts (map ?build ?as))) = outputs_pending (length ?as)
      (reassembled_packet ((put_u16 4 (of_nat (8 + 1232)) h)[6 := ipProtoESP]) p)"
    by (rule run_offsets [OF pieces dist]) (use ne order' ts r piece(1) in auto)
  also have "\<dots> = outputs_pending (length ?as) (Inr (Some (h @ p)))"
    by (simp only: reassembled_v6_eq [OF wf esp wrd])
  also have "\<dots> = replicate (length frs - 1) (Inr None) @ [Inr (Some (h @ p))]"
    using ne order'(3) by (simp add: outputs_pending_eq frs')
  also have "map ?build ?as = map ((!) frs) idx"
    unfolding frs' by (rule map_arrival [symmetric]) (use order in \<open>simp add: frs' arrival_order_def\<close>)
  finally show "fst (process_run r (zip ts (map ((!) frs) idx))) =
      replicate (length frs - 1) (Inr None) @ [Inr (Some (h @ p))]" .
  show "1 < length frs"
    using lp by (simp add: frs' fragment_offsets.simps [of 1232 "length p" 0]
        fragment_offsets.simps [of 1232 "length p" 1232])
  show "\<forall>f \<in> set frs. length f \<le> fragment_mtu"
    using l by (auto simp: frs' fragment_v6_def Let_def fragment_mtu_def)
qed

end
