(* ===== verification/Dataplane.thy ===== *)
theory Dataplane
  imports Channel Reassembly
begin

text \<open>
  The packet boundary between the IMS network stack and the SWu tunnel
  (\<^verbatim>\<open>ipsec3gpp/transforming_dataplane.go\<close>): installing and clearing a transport, sending, the
  receive pump with its bounded channels, and closing.

  The pump is one goroutine; its steps, the consumer's reads and the calls of the other methods
  interleave, which the step relation \<open>dp_step\<close> describes.  The channels of the code are bounded queues.
  The tunnel below is an argument: what its \<^verbatim>\<open>SendInnerPacket\<close> answers for a packet.  The packets it
  hands up are the events of the pump.
\<close>

section \<open>State\<close>

text \<open>Where the pump is: at the select, holding a transformed packet that waits for room in the
  channel, or returned.\<close>

datatype pump = Waiting | Holding bytes | Stopped

record dataplane =
  dp_transport :: "transport option"
  dp_inbound :: "bytes list"
  dp_errors :: "transport_error list"
  dp_closed :: bool
  dp_pump :: pump
  dp_outboundPackets :: u64
  dp_inboundPackets :: u64
  dp_inboundDropped :: u64
  dp_fragmentID :: u32

definition inbound_capacity :: nat where "inbound_capacity = 512"

definition errors_capacity :: nat where "errors_capacity = 16"

datatype dp_error =
    RequiresSource | NoReceiveChannel | DataplaneNil | NilTransport | NetClosed
  | DPTransform transport_error | DPFragment ip_error | DPSource

record dataplane_stats =
  dps_OutboundPackets :: u64
  dps_InboundPackets :: u64
  dps_InboundDropped :: u64

text \<open>\<^term>\<open>src\<close> tells whether the source is non-nil, \<^term>\<open>rx\<close> whether its receive channel is;
  \<^term>\<open>ident\<close> is the value of the package's fragment identifier.\<close>

definition NewTransformingDataplane :: "bool \<Rightarrow> bool \<Rightarrow> u32 \<Rightarrow> dp_error + dataplane" where
  "NewTransformingDataplane src rx ident =
     (if \<not> src then Inl RequiresSource
      else if \<not> rx then Inl NoReceiveChannel
      else Inr \<lparr>dp_transport = None, dp_inbound = [], dp_errors = [], dp_closed = False,
        dp_pump = Waiting, dp_outboundPackets = 0, dp_inboundPackets = 0, dp_inboundDropped = 0,
        dp_fragmentID = ident\<rparr>)"

section \<open>Methods\<close>

definition Install :: "transport option \<Rightarrow> dataplane option \<Rightarrow> dp_error option \<times> dataplane option" where
  "Install tp dp = (case dp of None \<Rightarrow> (Some DataplaneNil, None) | Some d \<Rightarrow>
     case tp of None \<Rightarrow> (Some NilTransport, Some d) | Some t \<Rightarrow>
     if dp_closed d then (Some NetClosed, Some d) else (None, Some (d\<lparr>dp_transport := Some t\<rparr>)))"

definition Clear :: "dataplane option \<Rightarrow> dataplane option" where
  "Clear dp = map_option (\<lambda>d. d\<lparr>dp_transport := None\<rparr>) dp"

definition Installed :: "dataplane option \<Rightarrow> bool" where
  "Installed dp \<longleftrightarrow> (case dp of None \<Rightarrow> False | Some d \<Rightarrow> dp_transport d \<noteq> None)"

definition DataplaneStats :: "dataplane option \<Rightarrow> dataplane_stats" where
  "DataplaneStats dp = (case dp of
     None \<Rightarrow> \<lparr>dps_OutboundPackets = 0, dps_InboundPackets = 0, dps_InboundDropped = 0\<rparr>
   | Some d \<Rightarrow> \<lparr>dps_OutboundPackets = dp_outboundPackets d, dps_InboundPackets = dp_inboundPackets d,
       dps_InboundDropped = dp_inboundDropped d\<rparr>)"

text \<open>A closed dataplane and a full channel both lose the report.\<close>

definition reportError :: "transport_error \<Rightarrow> dataplane \<Rightarrow> dataplane" where
  "reportError e d =
     (if \<not> dp_closed d \<and> length (dp_errors d) < errors_capacity
      then d\<lparr>dp_errors := dp_errors d @ [e]\<rparr> else d)"

text \<open>The loop over the packets to send: the packets the source has taken, and whether it refused one.\<close>

fun send_all :: "(bytes \<Rightarrow> bool) \<Rightarrow> bytes list \<Rightarrow> bytes list \<times> bool" where
  "send_all accepts [] = ([], True)"
| "send_all accepts (packet # packets) =
     (if \<not> accepts packet then ([], False)
      else let (taken, ok) = send_all accepts packets in (packet # taken, ok))"

definition hand_over ::
    "(bytes \<Rightarrow> bool) \<Rightarrow> bytes list \<Rightarrow> dataplane \<Rightarrow> dp_error option \<times> bytes list \<times> dataplane" where
  "hand_over accepts packets d =
     (let (taken, ok) = send_all accepts packets
      in (if ok then None else Some DPSource, taken,
          d\<lparr>dp_outboundPackets := dp_outboundPackets d + of_nat (length taken)\<rparr>))"

definition is_udp :: "bytes \<Rightarrow> bool" where
  "is_udp packet = (case parseIPPacket packet of Inl _ \<Rightarrow> False | Inr q \<Rightarrow> nextHeader q = ipProtoUDP)"

text \<open>\<^verbatim>\<open>SendInnerPacket\<close>: the error it returns, the packets the source has taken, the new state.\<close>

definition SendInnerPacket ::
    "crypto \<Rightarrow> (nat \<Rightarrow> bytes option) \<Rightarrow> int \<Rightarrow> (bytes \<Rightarrow> bool) \<Rightarrow> bytes \<Rightarrow> dataplane option \<Rightarrow>
     dp_error option \<times> bytes list \<times> dataplane option" where
  "SendInnerPacket cr rnd now accepts packet dp =
     (case dp of None \<Rightarrow> (Some NetClosed, [], None) | Some d \<Rightarrow>
      if dp_closed d then (Some NetClosed, [], Some d)
      else case dp_transport d of
        None \<Rightarrow> (case hand_over accepts [packet] d of (e, taken, d') \<Rightarrow> (e, taken, Some d'))
      | Some t \<Rightarrow>
          (case TransformOutbound cr rnd now packet (Some t) of (r, tp) \<Rightarrow>
           let d1 = d\<lparr>dp_transport := tp\<rparr>
           in case r of
             Inl e \<Rightarrow> (Some (DPTransform e), [], Some (reportError e d1))
           | Inr None \<Rightarrow> (None, [], Some d1)
           | Inr (Some out) \<Rightarrow>
               if \<not> is_udp packet
               then (case hand_over accepts [out] d1 of (e, taken, d') \<Rightarrow> (e, taken, Some d'))
               else (case fragmentProtectedPacket (dp_fragmentID d1) out of
                   (Inl e, ident) \<Rightarrow> (Some (DPFragment e), [], Some (d1\<lparr>dp_fragmentID := ident\<rparr>))
                 | (Inr packets, ident) \<Rightarrow>
                     (case hand_over accepts packets (d1\<lparr>dp_fragmentID := ident\<rparr>) of
                        (e, taken, d') \<Rightarrow> (e, taken, Some d')))))"

section \<open>The pump and the other parties\<close>

text \<open>What the pump does with a packet it has received.\<close>

definition pump_receive :: "crypto \<Rightarrow> int \<Rightarrow> bytes \<Rightarrow> dataplane \<Rightarrow> dataplane" where
  "pump_receive cr now packet d =
     (if packet = [] then d
      else case dp_transport d of
        None \<Rightarrow> d\<lparr>dp_pump := Holding packet\<rparr>
      | Some t \<Rightarrow>
          (case TransformInbound cr now packet (Some t) of (r, tp) \<Rightarrow>
           let d1 = d\<lparr>dp_transport := tp\<rparr>
           in case r of
             Inl e \<Rightarrow> reportError e (d1\<lparr>dp_inboundDropped := dp_inboundDropped d1 + 1\<rparr>)
           | Inr None \<Rightarrow> d1
           | Inr (Some inp) \<Rightarrow> d1\<lparr>dp_pump := Holding inp\<rparr>))"

text \<open>The events: the pump takes a packet, finds the source closed, enqueues what it holds, or sees
  that the dataplane was closed; a consumer reads a packet or an error; the methods are called.\<close>

datatype event =
    Receive int bytes | SourceEnds | Enqueue | PumpSeesClosed
  | ReadPacket bytes | ReadError transport_error
  | DoInstall transport | DoClear | DoClose
  | DoSend "nat \<Rightarrow> bytes option" int "bytes \<Rightarrow> bool" bytes

inductive dp_step :: "crypto \<Rightarrow> dataplane \<Rightarrow> event \<Rightarrow> dataplane \<Rightarrow> bool" for cr where
  receive: "dp_pump d = Waiting \<Longrightarrow> dp_step cr d (Receive now packet) (pump_receive cr now packet d)"
| source_ends: "dp_pump d = Waiting \<Longrightarrow> dp_step cr d SourceEnds (d\<lparr>dp_pump := Stopped\<rparr>)"
| enqueue: "dp_pump d = Holding packet \<Longrightarrow> length (dp_inbound d) < inbound_capacity \<Longrightarrow>
    dp_step cr d Enqueue (d\<lparr>dp_pump := Waiting, dp_inbound := dp_inbound d @ [packet],
      dp_inboundPackets := dp_inboundPackets d + 1\<rparr>)"
| sees_closed: "dp_closed d \<Longrightarrow> dp_pump d \<noteq> Stopped \<Longrightarrow>
    dp_step cr d PumpSeesClosed (d\<lparr>dp_pump := Stopped\<rparr>)"
| read_packet: "dp_inbound d = packet # rest \<Longrightarrow> dp_step cr d (ReadPacket packet) (d\<lparr>dp_inbound := rest\<rparr>)"
| read_error: "dp_errors d = e # rest \<Longrightarrow> dp_step cr d (ReadError e) (d\<lparr>dp_errors := rest\<rparr>)"
| install: "Install (Some t) (Some d) = (None, Some d') \<Longrightarrow> dp_step cr d (DoInstall t) d'"
| clear: "Clear (Some d) = Some d' \<Longrightarrow> dp_step cr d DoClear d'"
| close: "dp_step cr d DoClose (d\<lparr>dp_closed := True\<rparr>)"
| send: "SendInnerPacket cr rnd now accepts packet (Some d) = (e, taken, Some d') \<Longrightarrow>
    dp_step cr d (DoSend rnd now accepts packet) d'"

inductive_cases dp_step_E: "dp_step cr d ev d'"

section \<open>Invariants of every run\<close>

definition dp_inv :: "dataplane \<Rightarrow> bool" where
  "dp_inv d \<longleftrightarrow> length (dp_inbound d) \<le> inbound_capacity \<and> length (dp_errors d) \<le> errors_capacity \<and>
     (\<forall>t. dp_transport d = Some t \<longrightarrow> tr_inv t)"

lemma set_sa_simps [simp]: "inbound (set_sa i sap t) = inbound t"
  "List.map tf_replay (outbound (set_sa i sap t)) = List.map tf_replay (outbound t)"
  by (simp_all add: set_sa_def map_list_update_same split: option.splits)

lemma tr_inv_same_windows:
  assumes "tr_inv t" "inbound t' = inbound t" "List.map tf_replay (outbound t') = List.map tf_replay (outbound t)"
  shows "tr_inv t'"
proof -
  have w: "(\<forall>f \<in> set fs. rw_ok (tf_replay f)) = (\<forall>w \<in> set (List.map tf_replay fs). rw_ok w)" for fs by simp
  have "length (outbound t') = length (outbound t)" using arg_cong [OF assms(3), of length] by simp
  then show ?thesis using assms unfolding tr_inv_def w by simp
qed

lemma outbound_whole_inv: "tr_inv t \<Longrightarrow> tr_inv (snd (outbound_whole cr rnd whole t))"
proof (rule tr_inv_same_windows [of t])
  show "inbound (snd (outbound_whole cr rnd whole t)) = inbound t"
    by (simp add: outbound_whole_def Let_def pass_outbound_def count_error_def
        split: sum.splits option.splits prod.splits)
  show "List.map tf_replay (outbound (snd (outbound_whole cr rnd whole t))) = List.map tf_replay (outbound t)"
    by (simp add: outbound_whole_def Let_def pass_outbound_def count_error_def
        split: sum.splits option.splits prod.splits)
qed simp_all

lemma TransformOutbound_inv: "tr_inv t \<Longrightarrow>
    \<exists>t'. snd (TransformOutbound cr rnd now packet (Some t)) = Some t' \<and> tr_inv t'"
  by (auto simp: TransformOutbound_def Let_def outbound_whole_inv split: prod.splits sum.splits option.splits)

lemma TransformInbound_inv: "tr_inv t \<Longrightarrow>
    \<exists>t'. snd (TransformInbound cr now packet (Some t)) = Some t' \<and> tr_inv t'"
  using rx.step_ok [of t cr "(now, packet)"]
  by (cases rule: TransformInbound_cases [of cr now packet t]) (auto simp: rx_step_def Let_def)

lemma dp_inv_reportError: "dp_inv d \<Longrightarrow> dp_inv (reportError e d)"
  by (auto simp: reportError_def dp_inv_def)

lemma reportError_frame [simp]: "dp_pump (reportError e d) = dp_pump d" "dp_inbound (reportError e d) = dp_inbound d"
  "dp_closed (reportError e d) = dp_closed d" "dp_transport (reportError e d) = dp_transport d"
  by (simp_all add: reportError_def)

lemma pump_receive_inv: "dp_inv d \<Longrightarrow> dp_inv (pump_receive cr now packet d)"
proof -
  assume inv: "dp_inv d"
  show ?thesis
  proof (cases "packet = [] \<or> dp_transport d = None")
    case False
    then obtain t where t: "dp_transport d = Some t" "tr_inv t" "packet \<noteq> []" using inv by (auto simp: dp_inv_def)
    from TransformInbound_inv [OF t(2), of cr now packet]
    obtain r t' where "TransformInbound cr now packet (Some t) = (r, Some t')" "tr_inv t'"
      by (cases "TransformInbound cr now packet (Some t)") auto
    moreover have "dp_inv (d\<lparr>dp_transport := Some t', dp_inboundDropped := n\<rparr>)"
      "dp_inv (d\<lparr>dp_transport := Some t', dp_pump := pm\<rparr>)" for n pm
      using inv \<open>tr_inv t'\<close> by (auto simp: dp_inv_def)
    moreover have "dp_inv (d\<lparr>dp_transport := Some t'\<rparr>)" using inv \<open>tr_inv t'\<close> by (auto simp: dp_inv_def)
    ultimately show ?thesis
      using t by (simp add: pump_receive_def Let_def dp_inv_reportError split: sum.splits option.splits)
  qed (use inv in \<open>auto simp: pump_receive_def dp_inv_def\<close>)
qed

lemma hand_over_frame: "hand_over accepts ps d = (e, taken, d') \<Longrightarrow>
    dp_inv d' = dp_inv d \<and> dp_pump d' = dp_pump d \<and> dp_inbound d' = dp_inbound d \<and>
    dp_closed d' = dp_closed d \<and> dp_transport d' = dp_transport d"
  by (auto simp: hand_over_def Let_def dp_inv_def split: prod.splits)

lemma SendInnerPacket_frame:
  assumes inv: "dp_inv d" and e: "SendInnerPacket cr rnd now accepts packet (Some d) = (e, taken, dp')"
  obtains d' where "dp' = Some d'" "dp_inv d'" "dp_pump d' = dp_pump d" "dp_inbound d' = dp_inbound d"
    "dp_closed d' = dp_closed d"
proof (cases "dp_closed d \<or> dp_transport d = None")
  case True
  then show thesis
    using that [of d] that e inv by (auto simp: SendInnerPacket_def dest: hand_over_frame split: prod.splits if_splits)
next
  case False
  then obtain t where t: "dp_transport d = Some t" "tr_inv t" "\<not> dp_closed d" using inv by (auto simp: dp_inv_def)
  from TransformOutbound_inv [OF t(2), of cr rnd now packet]
  obtain r t' where r: "TransformOutbound cr rnd now packet (Some t) = (r, Some t')" "tr_inv t'"
    by (cases "TransformOutbound cr rnd now packet (Some t)") auto
  let ?d = "d\<lparr>dp_transport := Some t'\<rparr>"
  have d: "dp_inv ?d" "dp_inv (?d\<lparr>dp_fragmentID := k\<rparr>)" for k using inv r(2) by (auto simp: dp_inv_def)
  have "\<exists>d'. dp' = Some d' \<and> dp_inv d' \<and> dp_pump d' = dp_pump d \<and> dp_inbound d' = dp_inbound d \<and>
      dp_closed d' = dp_closed d"
    using e t r d dp_inv_reportError [OF d(1)]
    by (auto simp: SendInnerPacket_def Let_def dest!: hand_over_frame
        split: sum.splits option.splits prod.splits if_splits)
  then show thesis using that by blast
qed

lemma dp_step_inv: "dp_step cr d ev d' \<Longrightarrow> dp_inv d \<Longrightarrow> (\<And>t. ev = DoInstall t \<Longrightarrow> tr_inv t) \<Longrightarrow> dp_inv d'"
proof (induction rule: dp_step.induct)
  case (send rnd now accepts packet d e taken d')
  then show ?case by (metis SendInnerPacket_frame option.inject)
next
  case (receive d now packet)
  then show ?case by (simp add: pump_receive_inv)
qed (auto simp: pump_receive_inv Install_def Clear_def dp_inv_def split: if_splits)

section \<open>Order and loss\<close>

definition held :: "dataplane \<Rightarrow> bytes list" where
  "held d = (case dp_pump d of Holding packet \<Rightarrow> [packet] | _ \<Rightarrow> [])"

definition produced :: "event \<Rightarrow> dataplane \<Rightarrow> bytes list" where
  "produced ev d' = (case ev of Receive now packet \<Rightarrow> held d' | _ \<Rightarrow> [])"

fun packets_read :: "event list \<Rightarrow> bytes list" where
  "packets_read [] = []"
| "packets_read (ev # evs) = (case ev of ReadPacket packet \<Rightarrow> [packet] | _ \<Rightarrow> []) @ packets_read evs"

text \<open>A run with the packets the pump has produced, in order.\<close>

inductive dp_run :: "crypto \<Rightarrow> dataplane \<Rightarrow> event list \<Rightarrow> bytes list \<Rightarrow> dataplane \<Rightarrow> bool" for cr d where
  start: "dp_run cr d [] [] d"
| step: "dp_run cr d evs outs d' \<Longrightarrow> dp_step cr d' ev d'' \<Longrightarrow>
    dp_run cr d (evs @ [ev]) (outs @ produced ev d'') d''"

lemma packets_read_append: "packets_read (evs @ evs') = packets_read evs @ packets_read evs'"
  by (induction evs) auto

lemma pump_receive_frame: "dp_inbound (pump_receive cr now packet d) = dp_inbound d"
  "dp_closed (pump_receive cr now packet d) = dp_closed d"
  "dp_pump d = Waiting \<Longrightarrow> dp_pump (pump_receive cr now packet d) \<noteq> Stopped"
  by (simp_all add: pump_receive_def Let_def split: option.splits prod.splits sum.splits)

definition in_order :: "event list \<Rightarrow> bytes list \<Rightarrow> dataplane \<Rightarrow> bool" where
  "in_order evs outs d \<longleftrightarrow> outs = packets_read evs @ dp_inbound d @ held d \<or>
     (dp_pump d = Stopped \<and> dp_closed d \<and> (\<exists>packet. outs = packets_read evs @ dp_inbound d @ [packet]))"

lemma in_order_step:
  "dp_step cr d ev d' \<Longrightarrow> dp_inv d \<Longrightarrow> in_order evs outs d \<Longrightarrow> in_order (evs @ [ev]) (outs @ produced ev d') d'"
proof (induction rule: dp_step.induct)
  case (receive d now packet)
  then show ?case
    by (auto simp: in_order_def produced_def packets_read_append pump_receive_frame held_def)
next
  case (send rnd now accepts packet d e taken d')
  from SendInnerPacket_frame [OF send(2,1)]
  have "dp_pump d' = dp_pump d" "dp_inbound d' = dp_inbound d" "dp_closed d' = dp_closed d" by auto
  with send show ?case by (auto simp: in_order_def produced_def packets_read_append held_def)
qed (auto simp: in_order_def produced_def packets_read_append held_def Install_def Clear_def
      split: pump.splits if_splits)

lemma dp_run_ok:
  assumes "dp_run cr d evs outs d'" "dp_inv d" "dp_pump d = Waiting" "dp_inbound d = []"
    and "\<forall>t. DoInstall t \<in> set evs \<longrightarrow> tr_inv t"
  shows "dp_inv d' \<and> in_order evs outs d'"
  using assms
proof (induction rule: dp_run.induct)
  case start
  then show ?case by (simp add: in_order_def held_def)
next
  case (step evs outs d' ev d'')
  then have "dp_inv d'" "in_order evs outs d'" by auto
  then show ?case using in_order_step dp_step_inv step by (metis in_set_conv_decomp)
qed

text \<open>Once the dataplane is closed, it stays closed, the pump can always stop, and nothing is sent.\<close>

lemma closed_step: "dp_step cr d ev d' \<Longrightarrow> dp_inv d \<Longrightarrow> dp_closed d \<Longrightarrow> dp_closed d' \<and>
    (dp_pump d = Stopped \<longrightarrow> dp_pump d' = Stopped)"
proof (induction rule: dp_step.induct)
  case (send rnd now accepts packet d e taken d')
  from SendInnerPacket_frame [OF send(2,1)]
  have "dp_pump d' = dp_pump d" "dp_closed d' = dp_closed d" by auto
  with send(3) show ?case by simp
qed (auto simp: pump_receive_frame Install_def Clear_def split: if_splits)

lemma closed_can_stop: "dp_closed d \<Longrightarrow> dp_pump d \<noteq> Stopped \<Longrightarrow>
    dp_step cr d PumpSeesClosed (d\<lparr>dp_pump := Stopped\<rparr>)"
  by (rule dp_step.sees_closed)

section \<open>Fragments below the transform\<close>

text \<open>A receiver fed with packets one after the other.\<close>

fun rx_run :: "crypto \<Rightarrow> transport \<Rightarrow> (int \<times> bytes) list \<Rightarrow> (transport_error + bytes option) list \<times> transport" where
  "rx_run cr t [] = ([], t)"
| "rx_run cr t ((now, packet) # rest) =
     (let (r, tp) = TransformInbound cr now packet (Some t); (rs, t') = rx_run cr (the tp) rest
      in (r # rs, t'))"

lemma rx_run_reassembly:
  assumes "fst (process_run (inFragments t) ps) = replicate n (Inr None) @ [Inr (Some whole)]"
    and "\<forall>(now, packet) \<in> set ps. packet \<noteq> []"
  obtains fs where "fst (rx_run cr t ps) =
    replicate n (Inr None) @ [fst (inbound_whole cr whole (t\<lparr>inFragments := fs\<rparr>))]"
proof -
  have "\<exists>fs. fst (rx_run cr t ps) = replicate n (Inr None) @ [fst (inbound_whole cr whole (t\<lparr>inFragments := fs\<rparr>))]"
    using assms
  proof (induction ps arbitrary: t n)
    case (Cons p ps)
    obtain now packet where p: "p = (now, packet)" "packet \<noteq> []" using Cons.prems(2) by (cases p) auto
    obtain r fs where pr: "process now (inFragments t) packet = (r, fs)"
      by (cases "process now (inFragments t) packet")
    show ?case
    proof (cases n)
      case 0
      then have "ps = []" "r = Inr (Some whole)"
        using Cons.prems(1) pr by (cases ps; auto simp: p case_prod_beta)+
      then show ?thesis
        using pr p 0 by (intro exI [of _ fs], cases "inbound_whole cr whole (t\<lparr>inFragments := fs\<rparr>)")
          (auto simp: TransformInbound_def)
    next
      case (Suc m)
      then have r: "r = Inr None" and rest: "fst (process_run fs ps) = replicate m (Inr None) @ [Inr (Some whole)]"
        using Cons.prems(1) pr by (auto simp: p case_prod_beta)
      from Cons.IH [of "t\<lparr>inFragments := fs\<rparr>" m] rest Cons.prems(2)
      obtain fs' where "fst (rx_run cr (t\<lparr>inFragments := fs\<rparr>) ps) =
          replicate m (Inr None) @ [fst (inbound_whole cr whole (t\<lparr>inFragments := fs'\<rparr>))]" by auto
      then show ?thesis
        using pr p r Suc by (auto simp: TransformInbound_def case_prod_beta)
    qed
  qed simp
  then show thesis using that by blast
qed

lemma peers_inFragments [simp]: "peers t1 (t2\<lparr>inFragments := fs\<rparr>) i j = peers t1 t2 i j"
  by (simp add: peers_def)

lemma inFragments_id: "t\<lparr>inFragments := inFragments t\<rparr> = t"
  by simp

lemma send_all_accepted: "(\<And>x. accepts x) \<Longrightarrow> send_all accepts ps = (ps, True)"
  by (induction ps) auto

text \<open>Where the fragments of the packet with identifier \<^term>\<open>ident\<close> can be collected.\<close>

definition room_for :: "reassembler \<Rightarrow> bytes \<Rightarrow> u32 \<Rightarrow> bool" where
  "room_for r h ident \<longleftrightarrow> map_of r (Key6 (slice 8 24 h) (slice 24 40 h) ident) = None \<and>
     distinct (map fst r) \<and> length r < max_fragment_sets"

lemma expire_length: "length (expire_sets now r) \<le> length r"
  by (simp add: expire_sets_def)

lemma fragment_v6_not_Nil: "length h = 40 \<Longrightarrow> fragment_v6 ident h p a b \<noteq> []"
proof -
  assume "length h = 40"
  then have "40 \<le> length (fragment_v6 ident h p a b)" by (simp add: fragment_v6_def Let_def)
  then show ?thesis by auto
qed

lemma fragments_restore:
  assumes d: "datagram h out" and v6: "ip_version h = 6" and esp: "header_proto h = ipProtoESP"
    and fr: "fst (fragmentProtectedPacket c (h @ out)) = Inr frs"
    and order: "arrival_order idx (length frs)"
    and ts: "length ts = length idx" "\<forall>t \<in> set ts. t - hd ts \<le> fragment_lifetime"
    and room: "room_for (inFragments t) h (c + 1)"
  obtains fs where "fst (rx_run cr t (zip ts (map ((!) frs) idx))) =
      replicate (length frs - 1) (Inr None) @ [fst (inbound_whole cr (h @ out) (t\<lparr>inFragments := fs\<rparr>))]"
    "\<forall>f \<in> set frs. length f \<le> fragment_mtu"
proof -
  have wf: "ipv6_header_wf h" using d v6 by (auto simp: datagram_def ip_header_wf_def versions)
  then have l: "length h = 40" by (simp add: ipv6_header_wf_def)
  have p: "h ! 6 = ipProtoESP" using esp v6 by (simp add: header_proto_def)
  have tot: "length (h @ out) \<le> 65535" using d by (simp add: datagram_def)
  have can: "v6_rewrite h (length out) (header_proto h) = h" using d v6 by (simp add: datagram_def ip_rewrite_def)
  have "get_u16 4 h = of_nat (length out)"
    using v6_rewrite_nth(2) [OF wf, of "length out" "header_proto h"] by (simp only: can)
  then have len: "unat (get_u16 4 h) = length out" using tot by (simp add: unat_of_nat_u16)
  show thesis
  proof (cases "length (h @ out) \<le> fragment_mtu")
    case True
    then have frs: "frs = [h @ out]" using fr by (simp add: fragmentProtectedPacket_def)
    then have "set idx = {0}" "distinct idx" using order by (auto simp: arrival_order_def)
    moreover then have "length idx = 1" using distinct_card [of idx] by simp
    ultimately have idx: "idx = [0]" by (cases idx) auto
    obtain t0 where "ts = [t0]" using ts(1) idx by (cases ts) auto
    then have "fst (rx_run cr t (zip ts (map ((!) frs) idx))) = [fst (inbound_whole cr (h @ out) t)]"
      using TransformInbound_datagram [OF d, of cr t0 t] by (simp add: frs idx case_prod_beta)
    then show thesis using that [of "inFragments t"] True by (simp add: frs)
  next
    case False
    have lt: "length (expire_sets (hd ts) (inFragments t)) < max_fragment_sets"
      using room expire_length [of "hd ts" "inFragments t"] by (simp add: room_for_def)
    note re = reassembly_v6 [OF wf p len _ tot fr order ts, of "inFragments t"]
    have run: "fst (process_run (inFragments t) (zip ts (map ((!) frs) idx))) =
        replicate (length frs - 1) (Inr None) @ [Inr (Some (h @ out))]"
      using re(1) False room lt by (simp add: room_for_def)
    have "frs = map (\<lambda>a. fragment_v6 (c + 1) h out a (min (a + 1232) (length out)))
        (fragment_offsets 1232 (length out) 0)"
      using fr fragment_v6_list [OF wf p len, of c] False by simp
    then have ne: "\<forall>f \<in> set frs. f \<noteq> []" by (simp add: fragment_v6_not_Nil [OF l])
    have sub: "set (map ((!) frs) idx) \<subseteq> set frs"
      using order nth_mem [of _ frs] unfolding arrival_order_def set_map by blast
    have "packet \<noteq> []" if "(now, packet) \<in> set (zip ts (map ((!) frs) idx))" for now packet
      by (rule ne [rule_format], rule subsetD [OF sub], rule set_zip_rightD [OF that])
    then have "\<forall>(now, packet) \<in> set (zip ts (map ((!) frs) idx)). packet \<noteq> []" by blast
    then obtain fs where "fst (rx_run cr t (zip ts (map ((!) frs) idx))) =
      replicate (length frs - 1) (Inr None) @ [fst (inbound_whole cr (h @ out) (t\<lparr>inFragments := fs\<rparr>))]"
      by (rule rx_run_reassembly [OF run])
    moreover have "\<forall>f \<in> set frs. length f \<le> fragment_mtu"
      using re(3) False room lt by (simp add: room_for_def)
    ultimately show thesis by (rule that)
  qed
qed

lemma inbound_whole_frame:
  "fst (inbound_whole cr whole (t\<lparr>inFragments := fs\<rparr>)) = fst (inbound_whole cr whole t)"
  by (simp add: inbound_whole_def inbound_esp_def set_replay_def Let_def
      split: sum.splits option.splits prod.splits)

lemma send_receive_v6:
  assumes cr: "crypto_ok cr" and rnd: "rnd_ok rnd" and ps: "peers t1 t2 i j"
    and pr: "protects t1 i (h, p)" and n: "sent t1 i < 4294967295"
    and udp: "ip_version h = 6" "header_proto h = ipProtoUDP"
    and d: "dp_transport d = Some t1" "\<not> dp_closed d" and acc: "\<And>x. accepts x"
    and s: "SendInnerPacket cr rnd now accepts (h @ p) (Some d) = (e, taken, dp')"
    and order: "arrival_order idx (length taken)"
    and ts: "length ts = length idx" "\<forall>t \<in> set ts. t - hd ts \<le> fragment_lifetime"
    and room: "room_for (inFragments t2) h (dp_fragmentID d + 1)"
  shows "e = None \<and> (\<forall>f \<in> set taken. length f \<le> fragment_mtu) \<and>
    fst (rx_run cr t2 (zip ts (map ((!) taken) idx))) =
      replicate (length taken - 1) (Inr None) @ [Inr (Some (h @ p))]"
proof -
  have dg: "datagram h p" and wf: "ip_header_wf h" using pr by (auto simp: protects_def datagram_def)
  obtain out t1' t2' h' where st: "outbound_whole cr rnd (h @ p) t1 = (Inr (Some (h' @ out)), t1')"
    "datagram h' out" "header_proto h' = ipProtoESP"
    "inbound_whole cr (h' @ out) t2 = (Inr (Some (h @ p)), t2')"
    "h' = ip_rewrite h (length out) ipProtoESP"
    by (rule channel_step [OF cr rnd ps pr n]) blast
  have u: "is_udp (h @ p)" using datagram_parse [OF dg] udp(2) by (simp add: is_udp_def parsed_of_def)
  have hh: "ip_version h' = 6" "slice 8 24 h' = slice 8 24 h" "slice 24 40 h' = slice 24 40 h"
    using udp(1) wf st(5) by (auto simp: ip_rewrite_def ip_header_wf_def versions v6_rewrite_slice)
  have parse: "parseIPPacket (h' @ out) = Inr (parsed_of h' out)" by (rule datagram_parse [OF st(2)])
  obtain frs k where fr: "fragmentProtectedPacket (dp_fragmentID d) (h' @ out) = (Inr frs, k)"
    by (cases "nextHeader (parsed_of h' out) \<noteq> ipProtoESP"; cases "length (h' @ out) \<le> fragment_mtu")
      (simp_all add: fragmentProtectedPacket_def parse Let_def)
  have out: "e = None" "taken = frs"
    using s d st(1) u fr send_all_accepted [of accepts] acc
    by (auto simp: SendInnerPacket_def TransformOutbound_datagram [OF dg] hand_over_def)
  obtain fs where f: "fst (rx_run cr t2 (zip ts (map ((!) frs) idx))) =
      replicate (length frs - 1) (Inr None) @ [fst (inbound_whole cr (h' @ out) (t2\<lparr>inFragments := fs\<rparr>))]"
    "\<forall>f \<in> set frs. length f \<le> fragment_mtu"
  proof (rule fragments_restore [OF st(2) hh(1) st(3), of "dp_fragmentID d" frs idx ts t2])
    show "fst (fragmentProtectedPacket (dp_fragmentID d) (h' @ out)) = Inr frs" by (simp add: fr)
    show "room_for (inFragments t2) h' (dp_fragmentID d + 1)" using room by (simp add: room_for_def hh)
  qed (use order ts out in auto)
  have "fst (inbound_whole cr (h' @ out) (t2\<lparr>inFragments := fs\<rparr>)) = fst (inbound_whole cr (h' @ out) t2)"
    by (simp add: inbound_whole_frame)
  then show ?thesis using out f st(4) by simp
qed

end
