(* ===== verification/Samples.thy ===== *)
theory Samples
  imports Dataplane Mechanism
begin

text \<open>
  Concrete values on which the properties about the ESP transport are evaluated: stand-ins for the
  cryptographic functions, a policy with its flows, and an IPv6 UDP datagram of its first flow.
\<close>

definition digest_of :: "bytes \<Rightarrow> bytes \<Rightarrow> byte" where
  "digest_of key data = foldr (+) key (foldr (+) data 0)"

definition sample_crypto :: crypto where
  "sample_crypto =
     \<lparr>aes_encrypt = (\<lambda>key block. rev block), aes_decrypt = (\<lambda>key block. rev block),
      des3_encrypt = (\<lambda>key block. rev block), des3_decrypt = (\<lambda>key block. rev block),
      hmac_sha1 = (\<lambda>key data. replicate 20 (digest_of key data)),
      hmac_md5 = (\<lambda>key data. replicate 16 (digest_of key data))\<rparr>"

definition sample_rnd :: "nat \<Rightarrow> bytes option" where
  "sample_rnd n = Some (replicate n 7)"

definition sample_local :: bytes where
  "sample_local = [0x20, 0x01, 0x0d, 0xb8, 0, 0, 0, 0, 0, 0, 0, 0, 0, 0, 0, 1]"

definition sample_remote :: bytes where
  "sample_remote = [0x20, 0x01, 0x0d, 0xb8, 0, 0, 0, 0, 0, 0, 0, 0, 0, 0, 0, 2]"

definition sample_flow :: "u32 \<Rightarrow> u32 \<Rightarrow> int \<Rightarrow> int \<Rightarrow> flow" where
  "sample_flow spi_out spi_in lport rport =
     \<lparr>OutboundSPI = spi_out, InboundSPI = spi_in, LocalPort = lport, RemotePort = rport,
      AuthAlg = ''hmac-sha-1-96'', EncAlg = ''aes-cbc'', CK = replicate 16 3, IK = replicate 16 5\<rparr>"

definition sample_policy :: policy where
  "sample_policy =
     \<lparr>LocalIP = sample_local, RemoteIP = sample_remote, LocalPortC = 5062, LocalPortS = 5063,
      RemotePortC = 6000, RemotePortS = 6001,
      FlowC = sample_flow 1001 2001 5062 6001, FlowS = sample_flow 1002 2002 5063 6000\<rparr>"

definition sample_header :: bytes where
  "sample_header = [0x60, 0, 0, 0, 0, 8, 17, 64] @ sample_local @ sample_remote"

definition sample_payload :: bytes where
  "sample_payload = [0x13, 0xc6, 0x17, 0x71, 0, 8, 0, 0]"

definition sample_sender :: transport where
  "sample_sender = projr (NewTransport sample_policy)"

definition sample_receiver :: transport where
  "sample_receiver = projr (NewTransport (mirror_policy sample_policy))"

lemma sample_crypto_ok: "crypto_ok sample_crypto"
  by (simp add: crypto_ok_def sample_crypto_def)

lemma sample_rnd_ok: "rnd_ok sample_rnd"
  by (simp add: rnd_ok_def sample_rnd_def)

lemma sample_known: "known_algorithms (sample_flow a b c d)"
proof -
  have "canonicalEncAlg ''aes-cbc'' = ''aes-cbc''" "canonicalAuthAlg ''hmac-sha-1-96'' = ''hmac-sha-1-96''"
    by code_simp+
  then show ?thesis by (simp add: known_algorithms_def sample_flow_def)
qed

lemma sample_transports: "NewTransport sample_policy = Inr sample_sender"
  "NewTransport (mirror_policy sample_policy) = Inr sample_receiver"
proof -
  have k: "known_algorithms (mirror_flow (sample_flow a b c d))" for a b c d
    using sample_known [of a b c d] by (simp add: known_algorithms_def mirror_flow_def)
  have len: "length (CK (sample_flow a b c d)) = 16" "length (IK (sample_flow a b c d)) = 16"
    "length (CK (mirror_flow (sample_flow a b c d))) = 16" "length (IK (mirror_flow (sample_flow a b c d))) = 16"
    for a b c d by (simp_all add: sample_flow_def mirror_flow_def)
  have "\<exists>t. NewTransport sample_policy = Inr t"
    by (rule NewTransport_total)
      (simp_all add: sample_policy_def sample_known len sample_local_def sample_remote_def)
  then show "NewTransport sample_policy = Inr sample_sender" by (auto simp: sample_sender_def)
  have "\<exists>t. NewTransport (mirror_policy sample_policy) = Inr t"
    by (rule NewTransport_total)
      (simp_all add: sample_policy_def mirror_policy_def k len sample_local_def sample_remote_def)
  then show "NewTransport (mirror_policy sample_policy) = Inr sample_receiver" by (auto simp: sample_receiver_def)
qed

lemma sample_datagram: "datagram sample_header sample_payload"
  by (simp add: datagram_def ip_header_wf_def ipv4_header_wf_def ipv6_header_wf_def sample_header_def
      sample_payload_def ip_version_def sample_local_def sample_remote_def ip_rewrite_def v6_rewrite_def
      header_proto_def isIPv6ExtensionHeader_def put_u16_def)

lemma sample_protects: "protects sample_sender 0 (sample_header, sample_payload)"
proof -
  obtain a b where o: "t_policy sample_sender = sample_policy" "outbound sample_sender = [a, b]"
    "tf_flow a = FlowC sample_policy" using NewTransport_outbound [OF sample_transports(1)] by blast
  have "header_src sample_header = sample_local" "header_dst sample_header = sample_remote"
    "header_proto sample_header = 17"
    by (simp_all add: header_src_def header_dst_def header_proto_def ip_version_def slice_def
        sample_header_def sample_local_def sample_remote_def)
  moreover have "transport_ports 17 sample_payload = (5062, 6001)"
    by (simp add: transport_ports_def sample_payload_def unat_get_u16)
  ultimately have "matchOutbound sample_sender (parsed_of sample_header sample_payload) = Some 0"
    by (simp add: matchOutbound_def parsed_of_def tcp_or_udp_def o sample_policy_def sample_flow_def)
  then show ?thesis
    using sample_datagram
    by (simp add: protects_def sample_header_def sample_payload_def sample_local_def sample_remote_def)
qed

lemma sample_peers: "peers sample_sender sample_receiver 0 0" "sent sample_sender 0 = 0"
proof -
  have "OutboundSPI (FlowC sample_policy) \<noteq> OutboundSPI (FlowS sample_policy)"
    by (simp add: sample_policy_def sample_flow_def)
  then obtain t2 where "NewTransport (mirror_policy sample_policy) = Inr t2"
    "peers sample_sender t2 0 0" "sent sample_sender 0 = 0"
    using mirror_peers [OF sample_transports(1), of 0] by auto
  then show "peers sample_sender sample_receiver 0 0" "sent sample_sender 0 = 0"
    using sample_transports(2) by auto
qed

end
