(* ===== verification/SMS_Transfer.thy ===== *)
theory SMS_Transfer
  imports SMS_Decode RP_Data
begin

text \<open>
  From the sender to the receiver: the units \<^verbatim>\<open>PrepareSMSSubmitTPDUs\<close> builds are read back by
  \<^verbatim>\<open>DecodeSMSDeliverTPDU\<close>, and the relay layer carries them.

  The first part reads the pieces of a unit one after the other; \<open>cur_at pre post\<close> is a cursor that has
  read \<^term>\<open>pre\<close>.
\<close>

section \<open>Reading a unit\<close>

definition cur_at :: "bytes \<Rightarrow> bytes \<Rightarrow> pdu_cursor" where
  "cur_at pre post = \<lparr>cur_data = pre @ post, cur_index = length pre\<rparr>"

lemma cursor_byte_at [simp]: "cursor_byte (cur_at pre (b # post)) = Inr (b, cur_at (pre @ [b]) post)"
  by (simp add: cursor_byte_def cur_at_def)

lemma cursor_bytes_at:
  "length v = n \<Longrightarrow> cursor_bytes n (cur_at pre (v @ post)) = Inr (v, cur_at (pre @ v) post)"
  by (auto simp: cursor_bytes_def cur_at_def slice_def)

lemma rest_of_at [simp]: "rest_of (cur_at pre post) = post"
  by (simp add: rest_of_def cur_at_def)

lemma numeric_semi_octets:
  "list_all is_digit ds \<Longrightarrow> numeric_loop (length ds) (octet_nibbles (the (semi_octets ds))) = ds"
proof (induction ds rule: semi_octets.induct)
  case (2 c)
  have d: "unat (char_digit c) \<le> 9" using 2 by (simp add: char_digit_le)
  have "low_nibble (240 OR char_digit c) = char_digit c" "high_nibble (240 OR char_digit c) = 15"
    using nibbles [of "char_digit c" 15] d by simp_all
  then show ?case using 2 d by (simp add: octet_nibbles_def digit_char_digit word_le_nat_alt)
next
  case (3 c d ds)
  have d: "unat (char_digit c) \<le> 9" "unat (char_digit d) \<le> 9" using 3(2) by (simp_all add: char_digit_le)
  obtain octets where "semi_octets ds = Some octets" using semi_octets_total 3(2) by fastforce
  then show ?case
    using 3 d by (simp add: octet_nibbles_def nibbles digit_char_digit word_le_nat_alt)
qed (simp add: octet_nibbles_def)

lemma numeric_address:
  assumes "recipient_ok r"
  shows "decodeNumericAddress (submit_octets r) (length (recipient_digits r)) (type_of_address r) = r"
proof -
  have "numeric_loop (length (recipient_digits r)) (octet_nibbles (submit_octets r)) = recipient_digits r"
    using assms numeric_semi_octets [of "recipient_digits r"] by (simp add: recipient_ok_def submit_octets_def)
  then have "decodeNumericAddress (submit_octets r) (length (recipient_digits r)) (type_of_address r) =
      (if HasPrefix r ''+'' then ''+'' else []) @ recipient_digits r"
    by (simp add: decodeNumericAddress_def type_of_address_def)
  also have "\<dots> = r" by (rule recipient_prefix [symmetric])
  finally show ?thesis .
qed

lemma not_alphanumeric [simp]: "\<not> alphanumeric (type_of_address r)"
  by (simp add: alphanumeric_def type_of_address_def)

lemma read_address:
  assumes "recipient_ok r"
  shows "readTPAddress (cur_at pre ([of_nat (length (recipient_digits r)), type_of_address r] @ submit_octets r @ post)) =
    Inr (runes_of r, cur_at (pre @ [of_nat (length (recipient_digits r)), type_of_address r] @ submit_octets r) post)"
proof -
  have "length (recipient_digits r) < 256" using assms by (simp add: recipient_ok_def)
  then have u: "unat (of_nat (length (recipient_digits r)) :: byte) = length (recipient_digits r)"
    by (rule unat_of_nat_byte)
  have l: "length (submit_octets r) = (length (recipient_digits r) + 1) div 2" using encodeSemiOctets_ok [OF assms] by simp
  show ?thesis
    by (simp add: readTPAddress_def address_sizes_def u cursor_bytes_at [OF l [simplified]] numeric_address [OF assms])
qed

text \<open>The message a SUBMIT unit is read into before its user data.\<close>

definition submit_message :: "string \<Rightarrow> byte \<Rightarrow> bytes \<Rightarrow> sms_message" where
  "submit_message r dcs tpdu = zero_message\<lparr>m_Direction := SMSDirectionSubmitted, m_Encoding := SMSEncodingUnknown,
     m_StorageStatus := SMSStatusUnknown, m_RawPDU := ToUpper (EncodeToString (0 # tpdu)),
     m_MessageReference := Some 0, m_To := runes_of r, m_ProtocolID := 0, m_DataCodingScheme := unat dcs\<rparr>"

lemma submit_first_octets:
  "(0x61 :: byte) AND 3 = 1" "(0x21 :: byte) AND 3 = 1" "drop_bit 3 (0x61 :: byte) AND 3 = 0"
  "drop_bit 3 (0x21 :: byte) AND 3 = 0" "(0x61 :: byte) AND 0x40 \<noteq> 0" "(0x21 :: byte) AND 0x40 = 0"
  by code_simp+

lemma decode_submit_unit:
  assumes "recipient_ok r" "udl < 256"
  shows "DecodeSMSDeliverTPDU env (submit_unit r udhi dcs udl ud) =
    decodeUserData env ud (if udhi then 0x61 else 0x21) dcs udl (submit_message r dcs (submit_unit r udhi dcs udl ud))"
proof -
  let ?tpdu = "submit_unit r udhi dcs udl ud"
  let ?f = "if udhi then 0x61 else 0x21 :: byte"
  define addr where "addr = [of_nat (length (recipient_digits r)), type_of_address r] @ submit_octets r"
  define m where "m = zero_message\<lparr>m_Direction := SMSDirectionUnknown, m_Encoding := SMSEncodingUnknown,
      m_StorageStatus := SMSStatusUnknown, m_RawPDU := ToUpper (EncodeToString (0 # ?tpdu))\<rparr>"
  have u: "unat (of_nat udl :: byte) = udl" using assms(2) by (rule unat_of_nat_byte)
  have t: "?tpdu = ?f # 0 # addr @ 0 # dcs # of_nat udl # ud" by (simp add: submit_unit_def addr_def)
  have addr: "readTPAddress (cur_at pre (addr @ post)) = Inr (runes_of r, cur_at (pre @ addr) post)" for pre post
    using read_address [OF assms(1)] by (simp add: addr_def)
  have raw: "ToUpper (TrimSpace (EncodeToString (0 # ?tpdu))) = ToUpper (EncodeToString (0 # ?tpdu))"
    by (simp only: TrimSpace_hex)
  have cur: "\<lparr>cur_data = 0 # ?tpdu, cur_index = 1\<rparr> = cur_at [0] ?tpdu" by (simp add: cur_at_def)
  have "DecodeSMSDeliverTPDU env ?tpdu = decodeSMSPDU env (EncodeToString (0 # ?tpdu))"
    by (simp add: DecodeSMSDeliverTPDU_def del: EncodeToString.simps)
  also have "\<dots> = or_return m (cursor_byte (cur_at [0] ?tpdu)) (\<lambda>(firstOctet, cur).
      if firstOctet AND 3 = 0 then decodeDeliverPDU env cur firstOctet (m\<lparr>m_Direction := SMSDirectionReceived\<rparr>)
      else if firstOctet AND 3 = 1 then decodeSubmitPDU env cur firstOctet (m\<lparr>m_Direction := SMSDirectionSubmitted\<rparr>)
      else if firstOctet AND 3 = 2 then decodeStatusReportPDU cur (m\<lparr>m_Direction := SMSDirectionStatusReport\<rparr>)
      else (m, Some UnsupportedMessageType))"
    unfolding decodeSMSPDU_def Let_def raw Decode_Encode(2) m_def cur [symmetric]
    by (simp add: slice_def Suc_le_eq)
  also have "\<dots> = decodeSubmitPDU env (cur_at [0, ?f] (0 # addr @ 0 # dcs # of_nat udl # ud)) ?f
      (m\<lparr>m_Direction := SMSDirectionSubmitted\<rparr>)"
    by (simp add: t submit_first_octets)
  also have "\<dots> = decodeUserData env ud ?f dcs udl
      (m\<lparr>m_Direction := SMSDirectionSubmitted, m_MessageReference := Some 0, m_To := runes_of r, m_ProtocolID := 0,
         m_DataCodingScheme := unat dcs\<rparr>)"
    by (simp add: decodeSubmitPDU_def addr skip_validity_def submit_first_octets u)
  also have "m\<lparr>m_Direction := SMSDirectionSubmitted, m_MessageReference := Some 0, m_To := runes_of r, m_ProtocolID := 0,
         m_DataCodingScheme := unat dcs\<rparr> = submit_message r dcs ?tpdu"
    by (simp add: m_def submit_message_def)
  finally show ?thesis .
qed

section \<open>Reading GSM-7 user data\<close>

lemma alphabet_codes: "decodeSMSAlphabet 0 = AlphabetGSM7" "decodeSMSAlphabet 8 = AlphabetUCS2"
  by code_simp+

lemma length_packSeptets: "length (packSeptets septets startBit) =
    (if septets = [] then 0 else (startBit + length septets * 7 + 7) div 8)"
  by (simp add: packSeptets_def)

lemma small_septets:
  assumes "septets_mean septets t"
  shows "list_all (\<lambda>s. unat s < 128) septets"
proof -
  have "decodeGSM7 septets = (t, None) \<Longrightarrow> list_all (\<lambda>s. unat s < 128) septets"
  proof (induction septets arbitrary: t rule: decodeGSM7.induct)
    case (2 code rest)
    show ?case
    proof (cases "code = 0x1b")
      case False
      then show ?thesis using 2(1,3) by (auto split: if_splits prod.splits)
    next
      case True
      then obtain x r character where "rest = x # r" "map_of gsm7ExtensionAlphabet x = Some character"
        using 2(3) by (cases rest) (auto split: option.splits)
      then show ?thesis
        using 2(2,3) True extension_pairs [of x character] map_of_SomeD [of gsm7ExtensionAlphabet x character]
        by (auto split: prod.splits)
    qed
  qed simp
  with assms show ?thesis by (simp add: septets_mean_def)
qed

lemma decode_gsm7_plain:
  assumes "septets_mean septets t"
  shows "decodeUserData env (gsm7_user_data [] septets) 0x21 0x00 (length septets) m =
    (m\<lparr>m_RawUserData := ToUpper (EncodeToString (packSeptets septets 0)), m_Encoding := SMSEncodingGSM7PDU,
       m_Text := t\<rparr>, None)"
proof -
  have ud: "gsm7_user_data [] septets = packSeptets septets 0"
    by (simp add: gsm7_user_data_def copy_over_def header_septets_def)
  have len: "(length septets * 7 + 7) div 8 = length (packSeptets septets 0)"
    by (simp add: length_packSeptets)
  have un: "unpackSeptets (packSeptets septets 0) (int (length septets)) 0 = Some septets"
    using unpack_pack [OF small_septets [OF assms], of 0] by (auto simp: packSeptets_def unpackSeptets_def)
  have lang: "userDataHeaderLanguage [] x = None" for x by (simp add: userDataHeaderLanguage.simps)
  have "decodeGSM7 septets = (t, None)" using assms by (simp add: septets_mean_def)
  then show ?thesis
    by (simp add: decodeUserData_def alphabet_codes ud len submit_first_octets decode_payload_def un
        decodeGSM7WithHeader_def lang Let_def)
qed

lemma concat_header_read:
  assumes "n < 256" "i < 256"
  shows "parseConcatHeader (drop 1 (concatUDH reference n i)) =
      Some \<lparr>ci_Reference = unat reference, ci_Total = n, ci_Sequence = i\<rparr>"
    and "userDataHeaderLanguage (drop 1 (concatUDH reference n i)) 0x25 = None"
    and "userDataHeaderLanguage (drop 1 (concatUDH reference n i)) 0x24 = None"
proof -
  have l: "unat (3 :: byte) = 3" by simp
  show "parseConcatHeader (drop 1 (concatUDH reference n i)) =
      Some \<lparr>ci_Reference = unat reference, ci_Total = n, ci_Sequence = i\<rparr>"
    using assms by (subst parseConcatHeader.simps) (simp add: concatUDH_def l unat_of_nat_byte)
  have "userDataHeaderLanguage [] x = None" for x by (simp add: userDataHeaderLanguage.simps)
  then have "userDataHeaderLanguage (drop 1 (concatUDH reference n i)) x = None" for x
    by (subst userDataHeaderLanguage.simps) (simp add: concatUDH_def l)
  then show "userDataHeaderLanguage (drop 1 (concatUDH reference n i)) 0x25 = None"
    "userDataHeaderLanguage (drop 1 (concatUDH reference n i)) 0x24 = None" by blast+
qed

lemma decode_gsm7_part:
  assumes t: "septets_mean seg t" and ne: "seg \<noteq> []" and n: "n < 256" "i < 256"
  shows "decodeUserData env (gsm7_user_data (concatUDH reference n i) seg) 0x61 0x00 (7 + length seg) m =
    (m\<lparr>m_RawUserData := ToUpper (EncodeToString (gsm7_user_data (concatUDH reference n i) seg)),
       m_Concat := Some \<lparr>ci_Reference = unat reference, ci_Total = n, ci_Sequence = i\<rparr>,
       m_Encoding := SMSEncodingGSM7PDU, m_Text := t\<rparr>, None)"
proof -
  let ?udh = "concatUDH reference n i"
  let ?data = "gsm7_user_data ?udh seg"
  have lp: "length (packSeptets seg 49) = (49 + length seg * 7 + 7) div 8" using ne by (simp add: length_packSeptets)
  moreover have "1 \<le> length seg" using ne by (simp add: Suc_le_eq)
  ultimately have six: "6 < length (packSeptets seg 49)" by linarith
  have data: "?data = ?udh @ drop 6 (packSeptets seg 49)"
    using six by (simp add: gsm7_user_data_def copy_over_def)
  then have len: "length ?data = length (packSeptets seg 49)" using six by simp
  have exp: "(56 + length seg * 7) div 8 = length ?data" unfolding len lp by simp
  have hb: "unat (?data ! 0) = 5" by (simp add: data nth_append)
  have hdr: "slice (Suc 0) 6 ?data = drop 1 ?udh" by (simp add: data slice_def)
  have "unpackSeptets (?udh @ drop (length ?udh) (packSeptets seg 49)) (int (length seg)) 49 = Some seg"
  proof (rule unpack_pack_gen [OF _ ne _ small_septets [OF t]])
    fix k :: nat assume "49 \<le> k"
    then have "6 \<le> k div 8" by linarith
    then show "gbit (?udh @ drop (length ?udh) (packSeptets seg 49)) k = gbit (packSeptets seg 49) k"
      using six by (simp add: gbit_def nth_append)
  qed (use six in simp)
  then have un: "unpackSeptets ?data (int (length seg)) 49 = Some seg" by (simp add: data)
  have "decodeGSM7 seg = (t, None)" using t by (simp add: septets_mean_def)
  moreover have "?data \<noteq> []" using six len by auto
  ultimately show ?thesis
    using six
    by (simp add: decodeUserData_def alphabet_codes exp hb hdr submit_first_octets decode_payload_def un len
        decodeGSM7WithHeader_def concat_header_read [OF n, unfolded One_nat_def] Let_def)
qed

section \<open>Reading UCS-2 user data\<close>

text \<open>A character no part of a text may begin with or contain for the receiver to tell it from a byte
  order mark and from invalid data.\<close>

definition plain_rune :: "text_env \<Rightarrow> nat \<Rightarrow> bool" where
  "plain_rune env r \<longleftrightarrow> scalar r \<and> readable_rune env r \<and> r \<noteq> 0xfffd \<and> r \<noteq> 0xfeff \<and> r \<noteq> 0xfffe"

lemma units_of_encode [simp]: "units_of False (encodeUCS2Units us) = us"
  by (induction us) (simp_all add: be_u16_split)

lemma encodeUCS2Units_Nil [simp]: "encodeUCS2Units us = [] \<longleftrightarrow> us = []"
  by (cases us) simp_all

lemma first_unit_plain:
  assumes "list_all (plain_rune env) t" "utf16_Encode t = u # us"
  shows "u \<noteq> 0xfeff" "u \<noteq> 0xfffe"
proof -
  have "unat u \<noteq> 0xfeff \<and> unat u \<noteq> 0xfffe"
  proof (cases t)
    case (Cons r t')
    then have r: "scalar r" "r \<noteq> 0xfeff" "r \<noteq> 0xfffe" using assms(1) by (simp_all add: plain_rune_def)
    from r(1) show ?thesis
      by (cases rule: scalar_units) (use r assms(2) Cons in \<open>auto simp: utf16_Encode_def high_surrogate_def\<close>)
  qed (use assms(2) in \<open>simp add: utf16_Encode_def\<close>)
  then show "u \<noteq> 0xfeff" "u \<noteq> 0xfffe" by auto
qed

lemma decode_utf16_plain:
  assumes "list_all (plain_rune env) t"
  shows "decodeUTF16Bytes env (encodeUCS2Units (utf16_Encode t)) = (t, True)"
proof (cases "utf16_Encode t")
  case Nil
  then have "t = []" by (cases t) (simp_all add: utf16_Encode_def)
  then show ?thesis by (simp add: decodeUTF16Bytes_def utf16_Encode_def)
next
  case (Cons u us)
  let ?p = "encodeUCS2Units (utf16_Encode t)"
  have p: "?p = ucast (drop_bit 8 u) # ucast u # encodeUCS2Units us" by (simp add: Cons)
  have no: "\<not> (?p ! 0 = 0xfe \<and> ?p ! 1 = 0xff)" "\<not> (?p ! 0 = 0xff \<and> ?p ! 1 = 0xfe)"
  proof -
    have "be_u16 (?p ! 0) (?p ! 1) = u" by (simp add: p be_u16_split)
    moreover have "be_u16 0xfe 0xff = 0xfeff" "be_u16 0xff 0xfe = 0xfffe" by code_simp+
    ultimately show "\<not> (?p ! 0 = 0xfe \<and> ?p ! 1 = 0xff)" "\<not> (?p ! 0 = 0xff \<and> ?p ! 1 = 0xfe)"
      using first_unit_plain [OF assms Cons] by auto
  qed
  have sc: "list_all scalar t" and rd: "list_all (readable_rune env) t" and fd: "0xfffd \<notin> set t"
    using assms by (auto simp: list_all_iff plain_rune_def)
  have "filter (readable_rune env) t = t" using rd by (simp add: list_all_iff)
  then have rt: "readableText env t" by (simp add: readableText_def)
  have dec: "utf16_Decode (units_of False ?p) = t" by (simp add: utf16_roundtrip [OF sc])
  have ne: "(?p = []) = False" "odd (length ?p) = False" by (simp_all add: Cons)
  have bom: "(2 \<le> length ?p \<and> ?p ! 0 = 0xff \<and> ?p ! 1 = 0xfe) = False" "(?p ! 0 = 0xfe \<and> ?p ! 1 = 0xff) = False"
    using no by blast+
  show ?thesis
    unfolding decodeUTF16Bytes_def Let_def by (simp only: ne bom dec rt fd if_False simp_thms)
qed

lemma decode_ucs2_plain:
  assumes "list_all (plain_rune env) t"
  shows "decodeUserData env (encodeUCS2Units (utf16_Encode t)) 0x21 0x08 (2 * length (utf16_Encode t)) m =
    (m\<lparr>m_RawUserData := ToUpper (EncodeToString (encodeUCS2Units (utf16_Encode t))),
       m_Encoding := SMSEncodingUCS2PDU, m_Text := t\<rparr>, None)"
  by (simp add: decodeUserData_def alphabet_codes submit_first_octets decode_payload_def
      decode_utf16_plain [OF assms] Let_def)

lemma decode_ucs2_part:
  assumes "list_all (plain_rune env) t" and n: "n < 256" "i < 256"
  shows "decodeUserData env (concatUDH reference n i @ encodeUCS2Units (utf16_Encode t)) 0x61 0x08
      (6 + 2 * length (utf16_Encode t)) m =
    (m\<lparr>m_RawUserData := ToUpper (EncodeToString (concatUDH reference n i @ encodeUCS2Units (utf16_Encode t))),
       m_Concat := Some \<lparr>ci_Reference = unat reference, ci_Total = n, ci_Sequence = i\<rparr>,
       m_Encoding := SMSEncodingUCS2PDU, m_Text := t\<rparr>, None)"
proof -
  let ?udh = "concatUDH reference n i"
  have hb: "unat ((?udh @ p) ! 0) = 5" "slice (Suc 0) 6 (?udh @ p) = drop 1 ?udh" "drop 6 (?udh @ p) = p"
    "?udh @ p \<noteq> []" for p :: bytes
    by (simp_all add: nth_append slice_def)
  show ?thesis
    by (simp add: decodeUserData_def alphabet_codes submit_first_octets decode_payload_def hb
        decode_utf16_plain [OF assms(1)] concat_header_read(1) [OF n, unfolded One_nat_def] Let_def)
qed

section \<open>Sent units come back\<close>

text \<open>What the receiver makes of one unit.\<close>

definition reads_as :: "text_env \<Rightarrow> string \<Rightarrow> concat_info option \<Rightarrow> runes \<Rightarrow> submit_tpdu \<Rightarrow> bool" where
  "reads_as env r ci t unit \<longleftrightarrow> (case DecodeSMSDeliverTPDU env (TPDU unit) of (m, e) \<Rightarrow>
     e = None \<and> m_Direction m = SMSDirectionSubmitted \<and> m_To m = runes_of r \<and> m_Text m = t \<and> m_Concat m = ci)"

lemma reads_gsm7_single:
  assumes "recipient_ok r" "septets_mean septets t" "length septets \<le> 160"
    and "TPDU u = submit_unit r False 0x00 (length septets) (gsm7_user_data [] septets)"
  shows "reads_as env r None t u"
  using assms(3) unfolding reads_as_def assms(4)
  by (simp add: decode_submit_unit [OF assms(1)] decode_gsm7_plain [OF assms(2)] submit_message_def zero_message_def)

lemma reads_gsm7_part:
  assumes "recipient_ok r" "septets_mean seg t" "seg \<noteq> []" "length seg \<le> 153" "n < 256" "i < n"
  shows "reads_as env r (Some \<lparr>ci_Reference = unat reference, ci_Total = n, ci_Sequence = i + 1\<rparr>) t
    (gsm7_tpdu r reference n (i, seg))"
  using assms(3-) decode_gsm7_part [OF assms(2,3), of n "i + 1"]
  by (simp add: reads_as_def gsm7_tpdu_def decode_submit_unit [OF assms(1)] submit_message_def)

lemma reads_ucs2_single:
  assumes "recipient_ok r" "list_all (plain_rune env) t" "length (utf16_Encode t) \<le> 70"
    and "TPDU u = submit_unit r False 0x08 (2 * length (utf16_Encode t)) (encodeUCS2Units (utf16_Encode t))"
  shows "reads_as env r None t u"
  using assms(3) unfolding reads_as_def assms(4)
  by (simp add: decode_submit_unit [OF assms(1)] decode_ucs2_plain [OF assms(2)] submit_message_def zero_message_def)

lemma reads_ucs2_part:
  assumes "recipient_ok r" "list_all (plain_rune env) t" "length (utf16_Encode t) \<le> 67" "n < 256" "i < n"
  shows "reads_as env r (Some \<lparr>ci_Reference = unat reference, ci_Total = n, ci_Sequence = i + 1\<rparr>) t
    (ucs2_tpdu r reference n (i, utf16_Encode t))"
  using assms(3-) decode_ucs2_part [OF assms(2), of n "i + 1"]
  by (simp add: reads_as_def ucs2_tpdu_def decode_submit_unit [OF assms(1)] submit_message_def)

definition part_info :: "submit_tpdu \<Rightarrow> concat_info option" where
  "part_info u = map_option (\<lambda>reference. \<lparr>ci_Reference = reference, ci_Total = Total u, ci_Sequence = Part u\<rparr>)
     (ConcatReference u)"

lemma list_all2_enumerate:
  assumes "length xs = length ys" "\<And>i. i < length ys \<Longrightarrow> Q (f (i, xs ! i)) (ys ! i)"
  shows "list_all2 Q (List.map f (enumerate 0 xs)) ys"
  using assms by (simp add: list_all2_conv_all_nth nth_enumerate_eq)

lemma units_read:
  assumes p: "PrepareSMSSubmitTPDUs rnd v msg = Inr units"
    and plain: "encodeGSM7 msg \<noteq> None \<or> list_all (plain_rune env) msg"
  obtains r ts where "normalizeSMSRecipient v = Inr r" "concat ts = msg"
    "list_all2 (\<lambda>u t. reads_as env r (part_info u) t u) units ts"
proof (rule prepare_cases [OF p], elim disjE exE conjE)
  fix r septets
  assume r: "normalizeSMSRecipient v = Inr r" "recipient_ok r" and enc: "encodeGSM7 msg = Some septets"
    and l: "length septets \<le> 160"
    and u: "units = [\<lparr>To = r, Encoding = SMSEncodingGSM7PDU,
      TPDU = submit_unit r False 0x00 (length septets) (gsm7_user_data [] septets),
      Part = 1, Total = 1, ConcatReference = None\<rparr>]"
  have "septets_mean septets msg" using decode_encode_GSM7 [OF enc] by (simp add: septets_mean_def)
  from reads_gsm7_single [OF r(2) this l] show thesis
    using that [OF r(1), of "[msg]"] u by (simp add: part_info_def)
next
  fix r septets segments reference
  assume r: "normalizeSMSRecipient v = Inr r" "recipient_ok r" and enc: "encodeGSM7 msg = Some septets"
    and sp: "splitGSM7 septets 153 = Some segments" and n: "length segments \<le> 255"
    and u: "units = List.map (gsm7_tpdu r reference (length segments)) (enumerate 0 segments)"
  have "septets_mean septets msg" using decode_encode_GSM7 [OF enc] by (simp add: septets_mean_def)
  then obtain ts where ts: "list_all2 septets_mean segments ts" "concat ts = msg" using gsm.split_means [OF sp] by blast
  have "list_all2 (\<lambda>u t. reads_as env r (part_info u) t u) units ts"
    unfolding u
  proof (rule list_all2_enumerate)
    show "length segments = length ts" using ts(1) by (rule list_all2_lengthD)
    fix i assume i: "i < length ts"
    then have "septets_mean (segments ! i) (ts ! i)" "i < length segments"
      using ts(1) by (simp_all add: list_all2_conv_all_nth)
    moreover then have "segments ! i \<noteq> [] \<and> length (segments ! i) \<le> 153"
      using gsm.split_parts [OF sp] by (simp add: list_all_length)
    ultimately show "reads_as env r (part_info (gsm7_tpdu r reference (length segments) (i, segments ! i))) (ts ! i)
        (gsm7_tpdu r reference (length segments) (i, segments ! i))"
      using reads_gsm7_part [OF r(2), of "segments ! i" "ts ! i" "length segments" i env reference] n
      by (simp add: part_info_def gsm7_tpdu_def)
  qed
  then show thesis using that [OF r(1) ts(2)] by blast
next
  fix r
  assume r: "normalizeSMSRecipient v = Inr r" "recipient_ok r" and enc: "encodeGSM7 msg = None"
    and l: "length (utf16_Encode msg) \<le> 70"
    and u: "units = [\<lparr>To = r, Encoding = SMSEncodingUCS2PDU,
      TPDU = submit_unit r False 0x08 (2 * length (utf16_Encode msg)) (encodeUCS2Units (utf16_Encode msg)),
      Part = 1, Total = 1, ConcatReference = None\<rparr>]"
  have "list_all (plain_rune env) msg" using plain enc by simp
  from reads_ucs2_single [OF r(2) this l] show thesis
    using that [OF r(1), of "[msg]"] u by (simp add: part_info_def)
next
  fix r segments reference
  assume r: "normalizeSMSRecipient v = Inr r" "recipient_ok r" and enc: "encodeGSM7 msg = None"
    and sp: "splitUCS2 (utf16_Encode msg) 67 = Some segments" and n: "length segments \<le> 255"
    and u: "units = List.map (ucs2_tpdu r reference (length segments)) (enumerate 0 segments)"
  have pl: "list_all (plain_rune env) msg" using plain enc by simp
  then have "units_mean (utf16_Encode msg) msg" by (simp add: units_mean_def list_all_iff plain_rune_def)
  then obtain ts where ts: "list_all2 units_mean segments ts" "concat ts = msg" using ucs.split_means [OF sp] by blast
  have "list_all2 (\<lambda>u t. reads_as env r (part_info u) t u) units ts"
    unfolding u
  proof (rule list_all2_enumerate)
    show "length segments = length ts" using ts(1) by (rule list_all2_lengthD)
    fix i assume i: "i < length ts"
    then have m: "segments ! i = utf16_Encode (ts ! i)" "i < length segments"
      using ts(1) by (simp_all add: list_all2_conv_all_nth units_mean_def)
    then have l: "length (utf16_Encode (ts ! i)) \<le> 67"
      using ucs.split_parts [OF sp] by (simp add: list_all_length) (metis m(1))
    have "set (ts ! i) \<subseteq> set msg" using nth_mem [OF i] ts(2) by auto
    then have "list_all (plain_rune env) (ts ! i)" using pl by (auto simp: list_all_iff)
    then show "reads_as env r (part_info (ucs2_tpdu r reference (length segments) (i, segments ! i))) (ts ! i)
        (ucs2_tpdu r reference (length segments) (i, segments ! i))"
      using reads_ucs2_part [OF r(2) _ l, of env "length segments" i reference] n m
      by (simp add: part_info_def ucs2_tpdu_def)
  qed
  then show thesis using that [OF r(1) ts(2)] by blast
qed

section \<open>Sizes\<close>

lemma length_gsm7_user_data:
  assumes "header_septets udh + length septets \<le> 160"
  shows "length (gsm7_user_data udh septets) \<le> 140"
proof -
  have "length (packSeptets septets (header_septets udh * 7)) \<le> 140"
  proof (cases "septets = []")
    case False
    have "(header_septets udh * 7 + length septets * 7 + 7) div 8 \<le> 1127 div 8"
      by (rule div_le_mono) (use assms in linarith)
    then show ?thesis using False by (simp add: length_packSeptets)
  qed (simp add: length_packSeptets)
  then show ?thesis by (simp add: gsm7_user_data_def copy_over_def)
qed

lemma length_submit_unit:
  assumes "recipient_ok r" "length ud \<le> 140"
  shows "0 < length (submit_unit r udhi dcs udl ud) \<and> length (submit_unit r udhi dcs udl ud) \<le> 157"
proof -
  have "(length (recipient_digits r) + 1) div 2 \<le> 21 div 2"
    by (rule div_le_mono) (use assms(1) in \<open>simp add: recipient_ok_def\<close>)
  then have "length (submit_octets r) \<le> 10" using encodeSemiOctets_ok [OF assms(1)] by simp
  then show ?thesis using assms(2) by (simp add: submit_unit_def)
qed

lemma parts_numbered: "List.map (\<lambda>x. Suc (fst x)) (enumerate 0 xs) = [1..<length xs + 1]"
proof -
  have "List.map (\<lambda>x. Suc (fst x)) (enumerate 0 xs) = List.map Suc (List.map fst (enumerate 0 xs))"
    by (simp only: list.map_comp comp_def)
  moreover have "[1..<length xs + 1] = List.map Suc [0..<length xs]" by (simp add: map_Suc_upt del: upt_Suc)
  ultimately show ?thesis by (simp only: map_fst_enumerate add_0)
qed

lemma enumerate_Nil [simp]: "enumerate n xs = [] \<longleftrightarrow> xs = []"
  by (cases xs) simp_all

lemma units_shape:
  assumes p: "PrepareSMSSubmitTPDUs rnd v msg = Inr units"
  shows "units \<noteq> [] \<and> length units \<le> 255 \<and> List.map Part units = [1..<length units + 1] \<and>
    list_all (\<lambda>u. Total u = length units \<and> 0 < length (TPDU u) \<and> length (TPDU u) \<le> 157) units"
proof (rule prepare_cases [OF p], elim disjE exE conjE)
  fix r septets
  assume r: "recipient_ok r" and l: "length septets \<le> 160"
    and u: "units = [\<lparr>To = r, Encoding = SMSEncodingGSM7PDU,
      TPDU = submit_unit r False 0x00 (length septets) (gsm7_user_data [] septets),
      Part = 1, Total = 1, ConcatReference = None\<rparr>]"
  have "length (gsm7_user_data [] septets) \<le> 140" by (rule length_gsm7_user_data) (simp add: header_septets_def l)
  then show ?thesis using length_submit_unit [OF r] by (simp add: u)
next
  fix r septets segments reference
  assume r: "recipient_ok r" and sp: "splitGSM7 septets 153 = Some segments" and n: "1 < length segments" "length segments \<le> 255"
    and u: "units = List.map (gsm7_tpdu r reference (length segments)) (enumerate 0 segments)"
  have "length (gsm7_user_data (concatUDH reference n i) seg) \<le> 140" if "seg \<in> set segments" for seg n i
    using gsm.split_parts [OF sp] that by (intro length_gsm7_user_data) (auto simp: list_all_iff)
  moreover have "Part \<circ> gsm7_tpdu r reference (length segments) = (\<lambda>x. Suc (fst x))"
    by (auto simp: gsm7_tpdu_def)
  ultimately show ?thesis
    using n length_submit_unit [OF r] parts_numbered [of segments]
    by (auto simp: u list_all_length nth_enumerate_eq gsm7_tpdu_def)
next
  fix r
  assume r: "recipient_ok r" and l: "length (utf16_Encode msg) \<le> 70"
    and u: "units = [\<lparr>To = r, Encoding = SMSEncodingUCS2PDU,
      TPDU = submit_unit r False 0x08 (2 * length (utf16_Encode msg)) (encodeUCS2Units (utf16_Encode msg)),
      Part = 1, Total = 1, ConcatReference = None\<rparr>]"
  show ?thesis using length_submit_unit [OF r, of "encodeUCS2Units (utf16_Encode msg)"] l by (simp add: u)
next
  fix r segments reference
  assume r: "recipient_ok r" and sp: "splitUCS2 (utf16_Encode msg) 67 = Some segments"
    and n: "1 < length segments" "length segments \<le> 255"
    and u: "units = List.map (ucs2_tpdu r reference (length segments)) (enumerate 0 segments)"
  have "length (concatUDH reference n i @ encodeUCS2Units seg) \<le> 140" if "seg \<in> set segments" for seg n i
    using ucs.split_parts [OF sp] that by (auto simp: list_all_iff)
  moreover have "Part \<circ> ucs2_tpdu r reference (length segments) = (\<lambda>x. Suc (fst x))"
    by (auto simp: ucs2_tpdu_def)
  ultimately show ?thesis
    using n length_submit_unit [OF r] parts_numbered [of segments]
    by (auto simp: u list_all_length nth_enumerate_eq ucs2_tpdu_def)
qed

text \<open>A text is sent unless it is too long.\<close>

lemma prepare_succeeds:
  assumes r: "normalizeSMSRecipient v = Inr r" and ne: "msg \<noteq> []" "0 \<notin> set msg"
    and short: "case encodeGSM7 msg of Some septets \<Rightarrow> length septets \<le> 38760
      | None \<Rightarrow> length (utf16_Encode msg) \<le> 16830"
  shows "\<exists>units. PrepareSMSSubmitTPDUs (Some reference) v msg = Inr units"
proof (cases "encodeGSM7 msg")
  case (Some septets)
  show ?thesis
  proof (cases "length septets \<le> 160")
    case True
    then show ?thesis using prepare_gsm7(1) [OF r ne Some True] by blast
  next
    case False
    obtain segments where sp: "splitGSM7 septets 153 = Some segments" using splitGSM7_terminates [of 153] by auto
    have "length segments \<le> 255" by (rule gsm.split_few [OF sp]) (use short Some in simp)
    then show ?thesis using prepare_gsm7(2) [OF r ne Some _ sp] False by auto
  qed
next
  case None
  show ?thesis
  proof (cases "length (utf16_Encode msg) \<le> 70")
    case True
    then show ?thesis using prepare_ucs2(1) [OF r ne None True] by blast
  next
    case False
    obtain segments where sp: "splitUCS2 (utf16_Encode msg) 67 = Some segments"
      using splitUCS2_terminates [of 67] by auto
    have "length segments \<le> 255" by (rule ucs.split_few [OF sp]) (use short None in simp)
    then show ?thesis using prepare_ucs2(2) [OF r ne None _ sp] False by auto
  qed
qed

section \<open>Timestamps\<close>

lemma year_days_range:
  assumes "1990 \<le> y" "y \<le> 2089" shows "7304 \<le> year_days y" "year_days y \<le> 43466"
proof -
  have "1989 div 4 \<le> (y - 1) div 4" "(y - 1) div 4 \<le> 2088 div 4" "1989 div 100 \<le> (y - 1) div 100"
    "(y - 1) div 100 \<le> 2088 div 100" "1989 div 400 \<le> (y - 1) div 400" "(y - 1) div 400 \<le> 2088 div 400"
    by (rule zdiv_mono1; use assms in simp)+
  then show "7304 \<le> year_days y" "year_days y \<le> 43466" using assms by (simp_all add: year_days_def)
qed

lemma month_days_range:
  assumes "1 \<le> m" "m \<le> 12" shows "0 \<le> month_days y m \<and> month_days y m \<le> 335"
proof -
  have "list_all (\<lambda>d. 0 \<le> d \<and> d \<le> 334) [0, 31, 59, 90, 120, 151, 181, 212, 243, 273, 304, 334 :: int]" by simp
  moreover have "m - 1 < length [0, 31, 59, 90, 120, 151, 181, 212, 243, 273, 304, 334 :: int]" using assms by simp
  ultimately obtain d where d: "d = [0, 31, 59, 90, 120, 151, 181, 212, 243, 273, 304, 334 :: int] ! (m - 1)"
    "0 \<le> d" "d \<le> 334"
    by (simp only: list_all_length)
  have "month_days y m = d + (if is_leap y \<and> m > 2 then 1 else 0)" by (simp only: month_days_def d(1))
  then show ?thesis using d(2,3) by simp
qed

lemma unix_bounds:
  fixes y m d h n s z :: int
  assumes "7304 \<le> y" "y \<le> 43466" "0 \<le> m" "m \<le> 335" "1 \<le> d" "d \<le> 31" "0 \<le> h" "h \<le> 23" "0 \<le> n" "n \<le> 59"
    and "0 \<le> s" "s \<le> 60" "- 50400 \<le> z" "z \<le> 50400"
  shows "630979200 \<le> (y + m + d - 1) * 86400 + h * 3600 + n * 60 + s - z \<and>
    (y + m + d - 1) * 86400 + h * 3600 + n * 60 + s - z < 3787344000"
proof -
  have "7304 * 86400 \<le> (y + m + d - 1) * 86400" "(y + m + d - 1) * 86400 \<le> 43831 * 86400" using assms by simp_all
  then show ?thesis using assms by simp
qed

section \<open>Properties\<close>

text \<open>C13: What the phone sends can be read: for every text the sender accepts, in GSM-7 or, for other
  texts, when its characters are printable and none looks like a byte order mark, each unit is decoded
  without an error to a submission to the normalised recipient, with the concatenation header of its
  part, and the decoded texts concatenate to the text.\<close>

theorem sent_text_is_received:
  assumes "PrepareSMSSubmitTPDUs rnd v msg = Inr units"
    and "encodeGSM7 msg \<noteq> None \<or> list_all (plain_rune env) msg"
  shows "\<exists>r. normalizeSMSRecipient v = Inr r \<and>
    list_all (\<lambda>u. case DecodeSMSDeliverTPDU env (TPDU u) of (m, e) \<Rightarrow>
      e = None \<and> m_Direction m = SMSDirectionSubmitted \<and> m_To m = runes_of r \<and> m_Concat m = part_info u) units \<and>
    concat (List.map (\<lambda>u. m_Text (fst (DecodeSMSDeliverTPDU env (TPDU u)))) units) = msg"
proof -
  obtain r ts where r: "normalizeSMSRecipient v = Inr r" "concat ts = msg"
    "list_all2 (\<lambda>u t. reads_as env r (part_info u) t u) units ts" by (rule units_read [OF assms])
  from r(3) have "list_all (\<lambda>u. case DecodeSMSDeliverTPDU env (TPDU u) of (m, e) \<Rightarrow>
      e = None \<and> m_Direction m = SMSDirectionSubmitted \<and> m_To m = runes_of r \<and> m_Concat m = part_info u) units"
    "List.map (\<lambda>u. m_Text (fst (DecodeSMSDeliverTPDU env (TPDU u)))) units = ts"
    by (induction rule: list_all2_induct) (simp_all add: reads_as_def case_prod_beta)
  then show ?thesis using r by blast
qed

definition sample_env :: text_env where
  "sample_env = \<lparr>gsm7_national = (\<lambda>_ _ _. ([], False)), gb18030_decode = (\<lambda>_. None),
     print_ranges = (\<lambda>_. True), han = (\<lambda>_. False)\<rparr>"

theorem sent_text_is_received_witness:
  "\<exists>units. PrepareSMSSubmitTPDUs (Some 7) ''+49 170'' (replicate 400 97) = Inr units \<and>
    concat (List.map (\<lambda>u. m_Text (fst (DecodeSMSDeliverTPDU sample_env (TPDU u)))) units) = replicate 400 97"
proof -
  have e1: "gsm7Encoder 97 = Some [0x61]" by code_simp
  have enc: "encodeGSM7 (replicate n 97) = Some (replicate n 0x61)" for n
    by (induction n) (simp_all add: e1)
  have r: "normalizeSMSRecipient ''+49 170'' = Inr ''+49170''" by code_simp
  obtain units where u: "PrepareSMSSubmitTPDUs (Some 7) ''+49 170'' (replicate 400 97) = Inr units"
    using prepare_succeeds [OF r, of "replicate 400 97" 7] by (auto simp: enc)
  then show ?thesis using sent_text_is_received [OF u, of sample_env] enc [of 400] by blast
qed

text \<open>C14: The parts of a message are numbered from 1, at most 255, all with the number of parts, and
  every unit is small enough for the relay layer, which accepts it for every valid service centre.\<close>

theorem units_fit_relay:
  assumes "PrepareSMSSubmitTPDUs rnd v msg = Inr units" "encodeRPAddress smsc = Inr address"
  shows "length units \<le> 255 \<and> List.map Part units = [1..<length units + 1] \<and>
    list_all (\<lambda>u. Total u = length units \<and> (\<exists>out. BuildRPMOData reference smsc (TPDU u) = Inr out \<and>
      (\<exists>envelope. out = envelope @ TPDU u))) units"
proof -
  have "\<exists>out. BuildRPMOData reference smsc tpdu = Inr out \<and> (\<exists>envelope. out = envelope @ tpdu)"
    if "0 < length tpdu" "length tpdu \<le> 157" for tpdu
  proof -
    have "BuildRPMOData reference smsc tpdu = Inr (([0x00, reference, 0x00, of_nat (length address)] @ address @
        [of_nat (length tpdu)]) @ tpdu)" using that assms(2) by (simp add: BuildRPMOData_def)
    then show ?thesis by blast
  qed
  then show ?thesis using units_shape [OF assms(1)] by (simp add: list_all_iff)
qed

theorem units_fit_relay_witness:
  "\<exists>units. PrepareSMSSubmitTPDUs None ''12345'' [72, 8364] = Inr units \<and> List.map Part units = [1..<length units + 1]"
proof -
  have enc: "encodeGSM7 [72, 8364] = Some [0x48, 0x1b, 0x65]" by code_simp
  have r: "normalizeSMSRecipient ''12345'' = Inr ''12345''" by code_simp
  obtain units where u: "PrepareSMSSubmitTPDUs None ''12345'' [72, 8364] = Inr units"
    using prepare_gsm7(1) [OF r _ _ enc, of None] by auto
  have "encodeRPAddress '' +49 1701 234'' = Inr [0x91, 0x94, 0x71, 0x10, 0x32, 0xf4]" by code_simp
  from units_fit_relay [OF u this, of 1] show ?thesis using u by blast
qed

text \<open>C15: A non-empty text without NUL to a valid recipient is always sent when it has at most 38760
  septets, or 16830 UTF-16 units when it is not GSM-7.\<close>

theorem long_texts_are_sent:
  assumes "normalizeSMSRecipient v = Inr r" "msg \<noteq> []" "0 \<notin> set msg"
    and "case encodeGSM7 msg of Some septets \<Rightarrow> length septets \<le> 38760 | None \<Rightarrow> length (utf16_Encode msg) \<le> 16830"
  shows "\<exists>units. PrepareSMSSubmitTPDUs (Some reference) v msg = Inr units"
  by (rule prepare_succeeds [OF assms])

theorem long_texts_are_sent_witness:
  "\<exists>units. PrepareSMSSubmitTPDUs (Some 9) ''12345'' [0x4e2d, 0x1f600] = Inr units"
proof (rule long_texts_are_sent)
  show "normalizeSMSRecipient ''12345'' = Inr ''12345''" by code_simp
  have "gsm7Encoder 0x4e2d = None" by (simp add: gsm7Encoder_def gsm7_pairs_def gsm7ExtensionAlphabet_def gsm7DefaultAlphabet_def map_of_eq_None_iff upt_rec)
  then have "encodeGSM7 [0x4e2d, 0x1f600] = None" by simp
  then show "case encodeGSM7 [0x4e2d, 0x1f600] of Some septets \<Rightarrow> length septets \<le> 38760
      | None \<Rightarrow> length (utf16_Encode [0x4e2d, 0x1f600]) \<le> 16830"
    by (simp add: utf16_Encode_def utf16_units_def)
qed simp_all

text \<open>A timestamp the decoder accepts lies between 1989 and 2090 and its zone within 14 hours, in
  quarters of an hour.\<close>

theorem timestamp_bounds:
  assumes "decodeSMSTimestamp v = Inr t"
  shows "630979200 \<le> t_unix t \<and> t_unix t < 3787344000 \<and> \<bar>t_offset t\<bar> \<le> 50400 \<and> 900 dvd t_offset t"
proof -
  obtain parts offset where p: "length v = 7" "collect timestamp_component (take 6 v) = Inr parts"
    "timestamp_zone (v ! 6) = Inr offset" "timestamp_of_parts parts offset = Inr t"
    using assms by (auto simp: decodeSMSTimestamp_def rbind_Inr_iff split: if_splits)
  obtain year where q: "1 \<le> parts ! 1" "parts ! 1 \<le> 12" "1 \<le> parts ! 2" "parts ! 2 \<le> 31" "parts ! 3 \<le> 23"
    "parts ! 4 \<le> 59" "parts ! 5 \<le> 60"
    "year = (if parts ! 0 \<ge> 90 then 1900 + int (parts ! 0) else 2000 + int (parts ! 0))"
    "t = make_date year (parts ! 1) (parts ! 2) (parts ! 3) (parts ! 4) (parts ! 5) offset"
    using p(4) unfolding timestamp_of_parts_def Let_def by (simp split: if_splits del: One_nat_def)
  have off: "\<bar>offset\<bar> \<le> 50400 \<and> 900 dvd offset"
    using p(3) by (auto simp: timestamp_zone_def split: sum.splits if_splits)
  have "list_all2 (\<lambda>x y. timestamp_component x = Inr y) (take 6 v) parts" using p(2) by (simp only: collect_Inr_iff)
  then have "timestamp_component (v ! 0) = Inr (parts ! 0)" using p(1) by (auto simp: list_all2_conv_all_nth)
  then have "parts ! 0 \<le> 99" by (auto simp: timestamp_component_def Let_def split: if_splits)
  then have y: "1990 \<le> year" "year \<le> 2089" using q(8) by auto
  note d = year_days_range [OF y] month_days_range [OF q(1,2), of year]
  have u: "t_unix t = (year_days year + month_days year (parts ! 1) + int (parts ! 2) - 1) * 86400 +
      int (parts ! 3) * 3600 + int (parts ! 4) * 60 + int (parts ! 5) - offset" and z: "t_offset t = offset"
    by (simp_all add: q(9) make_date_def)
  have r: "int (parts ! 2) \<le> 31" "1 \<le> int (parts ! 2)" "int (parts ! 3) \<le> 23" "int (parts ! 4) \<le> 59"
    "int (parts ! 5) \<le> 60" "0 \<le> int (parts ! 3)" "0 \<le> int (parts ! 4)" "0 \<le> int (parts ! 5)"
    using q by simp_all
  have o: "- 50400 \<le> offset" "offset \<le> 50400" using off by (simp_all add: abs_le_iff)
  have "630979200 \<le> t_unix t \<and> t_unix t < 3787344000" unfolding u by (rule unix_bounds) (use d r o in simp_all)
  moreover note z
  ultimately show ?thesis using off by simp
qed

theorem timestamp_bounds_witness:
  "\<exists>t. decodeSMSTimestamp [0x62, 0x10, 0x20, 0x30, 0x40, 0x50, 0x4a] = Inr t \<and> \<bar>t_offset t\<bar> \<le> 50400"
proof -
  have "decodeSMSTimestamp [0x62, 0x10, 0x20, 0x30, 0x40, 0x50, 0x4a] = Inr \<lparr>t_unix = 1767344645, t_offset = - 21600\<rparr>"
    by code_simp
  from timestamp_bounds [OF this] show ?thesis using \<open>decodeSMSTimestamp _ = _\<close> by simp
qed

text \<open>An alphanumeric sender in the standard form, whose length counts the useful semi-octets of its
  packed septets, is read completely, and the cursor stands right behind it: the fields that follow are
  not shifted.\<close>

theorem alphanumeric_sender_read:
  assumes "septets_mean septets t" "septets \<noteq> []" "(7 * length septets + 3) div 4 < 256" "alphanumeric toa"
  shows "readTPAddress (cur_at pre ([of_nat ((7 * length septets + 3) div 4), toa] @ packSeptets septets 0 @ post)) =
    Inr (t, cur_at (pre @ [of_nat ((7 * length septets + 3) div 4), toa] @ packSeptets septets 0) post)"
proof -
  let ?n = "length septets" and ?len = "(7 * length septets + 3) div 4" and ?p = "packSeptets septets 0"
  let ?cur = "cur_at (pre @ [of_nat ?len, toa]) (?p @ post)"
  have u: "unat (of_nat ?len :: byte) = ?len" using assms(3) by (rule unat_of_nat_byte)
  have lp: "length ?p = (7 * ?n + 7) div 8" using assms(2) by (simp add: length_packSeptets mult.commute)
  have bytes: "(?len + 1) div 2 = length ?p" unfolding lp by presburger
  have sept: "?len * 4 div 7 = ?n" by presburger
  have fits: "7 * ?n \<le> 8 * length ?p" unfolding lp by linarith
  have sl: "slice (cur_index ?cur) (cur_index ?cur + length ?p) (cur_data ?cur) = ?p"
    by (simp add: cur_at_def slice_def)
  have "\<not> gbit ?p k" if k: "?n * 7 \<le> k" "k < length ?p * 8" for k
  proof -
    have "gbit ?p k = gbit (pack_loop (replicate (length ?p) 0) 0 septets) k"
      using assms(2) by (simp add: packSeptets_def)
    then show ?thesis using fits k by (subst (asm) gbit_pack_loop) (auto simp: gbit_def)
  qed
  then have pad: "hasZeroGSM7Padding ?p ?n"
    using fits assms(2) by (auto simp: hasZeroGSM7Padding_def list_all_iff gbit_def)
  have "length ?p \<noteq> 0" using fits assms(2) by auto
  moreover have "cur_index ?cur + length ?p \<le> length (cur_data ?cur)" by (simp add: cur_at_def)
  ultimately have sizes: "address_sizes ?len toa ?cur = (length ?p, ?n)"
    unfolding address_sizes_def Let_def bytes sept sl using pad assms(4) by simp
  have un: "unpackSeptets ?p (int ?n) 0 = Some septets"
    using unpack_pack [OF small_septets [OF assms(1)], of 0] assms(2) by simp
  have dec: "decodeGSM7 septets = (t, None)" using assms(1) by (simp add: septets_mean_def)
  show ?thesis
    using assms(4) sizes
    by (simp add: readTPAddress_def u cursor_bytes_at [OF refl] un dec)
qed

theorem alphanumeric_sender_read_witness:
  "readTPAddress (cur_at [] ([of_nat ((7 * length [0x4f, 0x4b, 0x58 :: byte] + 3) div 4), 0xd0] @
      packSeptets [0x4f, 0x4b, 0x58] 0 @ [0, 0])) =
    Inr ([79, 75, 88], cur_at ([] @ [of_nat ((7 * length [0x4f, 0x4b, 0x58 :: byte] + 3) div 4), 0xd0] @
      packSeptets [0x4f, 0x4b, 0x58] 0) [0, 0])"
proof (rule alphanumeric_sender_read)
  show "septets_mean [0x4f, 0x4b, 0x58] [79, 75, 88]" unfolding septets_mean_def by code_simp
  show "alphanumeric 0xd0" by (simp add: alphanumeric_def)
qed simp_all

definition header_element :: "byte \<times> bytes \<Rightarrow> bytes" where
  "header_element e = (case e of (ident, v) \<Rightarrow> ident # of_nat (length v) # v)"

definition concat_element :: "byte \<times> bytes \<Rightarrow> concat_info option" where
  "concat_element e = (case e of (ident, v) \<Rightarrow>
     if ident = 0 \<and> length v = 3 then
       Some \<lparr>ci_Reference = unat (v ! 0), ci_Total = unat (v ! 1), ci_Sequence = unat (v ! 2)\<rparr>
     else if ident = 8 \<and> length v = 4 then
       Some \<lparr>ci_Reference = unat (be_u16 (v ! 0) (v ! 1)), ci_Total = unat (v ! 2), ci_Sequence = unat (v ! 3)\<rparr>
     else None)"

text \<open>However long the header and whatever its elements, the concatenation element the receiver
  reports is the first one of the header; a header without one has no concatenation information.\<close>

theorem concat_header_found:
  assumes "list_all (\<lambda>(ident, v). length v < 256) elements"
  shows "parseConcatHeader (concat (List.map header_element elements)) =
    (case List.map_filter concat_element elements of [] \<Rightarrow> None | info # _ \<Rightarrow> Some info)"
  using assms
proof (induction elements)
  case Nil
  then show ?case by (simp add: parseConcatHeader.simps map_filter_simps)
next
  case (Cons e elements)
  obtain ident v where e: "e = (ident, v)" by (cases e)
  have u: "unat (of_nat (length v) :: byte) = length v"
    using Cons.prems by (intro unat_of_nat_byte) (simp add: e)
  have ih: "parseConcatHeader (concat (List.map header_element elements)) =
    (case List.map_filter concat_element elements of [] \<Rightarrow> None | info # _ \<Rightarrow> Some info)"
    using Cons by simp
  show ?case
    by (subst parseConcatHeader.simps)
      (auto simp: e header_element_def u concat_element_def map_filter_simps unat_be_u16 nth_append
        Cons.prems simp flip: ih)
qed

theorem concat_header_found_witness:
  "parseConcatHeader (concat (List.map header_element [(0x24, [1]), (8, [1, 2, 3, 2])])) =
   (case List.map_filter concat_element [(0x24, [1]), (8, [1, 2, 3, 2])] of [] \<Rightarrow> None | info # _ \<Rightarrow> Some info)"
  by (rule concat_header_found) simp

end
