(* ===== verification/Register_Security.thy ===== *)
theory Register_Security
  imports Register_Session Channel
begin

text \<open>
  What a registration promises about its security: where the agreement is required, an attempt that
  succeeds has carried the registration over the security associations built from a complete offer of the
  registrar.  The only way past this is a synchronisation failure of the card, whose repeated request the
  code accepts a 200 for without a protected exchange.
\<close>

section \<open>Installation\<close>

lemma install_transport:
  fixes res :: sip_response
  assumes "installIPSecFromChallenge f cfg res st = (None, st')"
  obtains offer pol t verify where
    "buildSecurityVerifyFromChallenge f cfg res = Inr (verify, offer)" "rs_transport st' = Some t"
    "rs_policy st' = Some pol" "NewTransport pol = Inr t" "verifyHeader st' = verify"
    "NewPolicy (offer_policy_input cfg (st\<lparr>verifyHeader := verify\<rparr>) (the (effectiveIPSecRemoteIP cfg)) offer) = Inr pol"
  using assms
  by (auto simp: installIPSecFromChallenge_def Let_def split: sum.splits option.splits prod.splits)

lemma selected_complete:
  assumes "float_laws f" "buildSecurityVerifyFromChallenge f cfg res = Inr (verify, offer)"
  shows "offerHasServerParams offer \<and>
    (StrictSecurityServerOffer (Template cfg) \<longrightarrow>
     mechanismMatchesClient offer (SecurityClientMechanisms (Template cfg))) \<and>
    map_option TrimSpace (GetHeader res ''Security-Server'') = Some verify"
  using assms select_spec [OF assms(1)]
  by (auto simp: buildSecurityVerifyFromChallenge_def Let_def split: sum.splits option.splits if_splits)

section \<open>Results over the associations\<close>

text \<open>The registration went over the transport built from an offer of the registrar and echoes the header
  of that offer.\<close>

definition agreed_over :: "'f float_ops \<Rightarrow> ims_config \<Rightarrow> 'q register_result \<Rightarrow> bool" where
  "agreed_over f cfg r \<longleftrightarrow>
     (\<exists>res offer st rip pol t.
        buildSecurityVerifyFromChallenge f cfg res = Inr (registered_verify r, offer) \<and>
        offerHasServerParams offer \<and>
        (StrictSecurityServerOffer (Template cfg) \<longrightarrow>
         mechanismMatchesClient offer (SecurityClientMechanisms (Template cfg))) \<and>
        NewPolicy (offer_policy_input cfg st rip offer) = Inr pol \<and> NewTransport pol = Inr t \<and>
        registered_over r = Some t)"

lemma secure_result:
  assumes "runSecurePreparedRegister env cfg st req net = (Inr r, net')"
  shows "registered_over r = rs_transport st \<and> registered_verify r = verifyHeader st"
  using assms
  by (auto simp: runSecurePreparedRegister_def finalizeRegisterSuccess_def
      split: option.splits sum.splits prod.splits if_splits)

lemma installed_result:
  assumes "float_laws f" "installIPSecFromChallenge f cfg res st = (None, st')"
    and "runSecurePreparedRegister env cfg st' req net = (Inr r, net')"
  shows "agreed_over f cfg r"
proof -
  obtain offer pol t verify where i:
    "buildSecurityVerifyFromChallenge f cfg res = Inr (verify, offer)" "rs_transport st' = Some t"
    "NewTransport pol = Inr t" "verifyHeader st' = verify"
    "NewPolicy (offer_policy_input cfg (st\<lparr>verifyHeader := verify\<rparr>) (the (effectiveIPSecRemoteIP cfg)) offer) = Inr pol"
    using install_transport [OF assms(2)] by metis
  show ?thesis
    unfolding agreed_over_def
    using i selected_complete [OF assms(1) i(1)] secure_result [OF assms(3)] by metis
qed

lemma decorate_state: "decorateRegisterRequest env cfg req s net = (req', s', net') \<Longrightarrow> s_state s' = s_state s"
  by (auto simp: decorateRegisterRequest_def Let_def split: prod.splits)

lemma protected_round_result:
  assumes f: "float_laws f" and run0: "protected_round env f cfg aka auth req res s net = (x, s', net')"
  shows "\<exists>r. x = Return r \<and> (\<forall>y. r = Inr y \<longrightarrow> agreed_over f cfg y)"
proof -
  obtain err st where i: "installIPSecFromChallenge f cfg res (s_state (set_keys aka s)) = (err, st)" by fastforce
  note run = run0 [unfolded protected_round_def Let_def i prod.case]
  show ?thesis
  proof (cases err)
    case (Some e)
    then show ?thesis using run by auto
  next
    case None
    define r1 where "r1 = buildAuthenticatedRegisterWithHeader env cfg st req auth"
    define s3 where "s3 = (set_keys aka s)\<lparr>s_state := st,
      s_localPort := (case rs_policy st of Some pol \<Rightarrow> LocalPortC pol | None \<Rightarrow> 0)\<rparr>"
    obtain r2 s4 net1 where d: "decorateRegisterRequest env cfg r1 s3 net = (r2, s4, net1)"
      using prod_cases3 by blast
    obtain z net2 where z: "runSecurePreparedRegister env cfg st r2 net1 = (z, net2)" by fastforce
    have "x = Return z" using run None d z by (simp add: r1_def s3_def)
    then show ?thesis using installed_result [OF f, of cfg res "s_state (set_keys aka s)" st env r2 net1] i None z by fastforce
  qed
qed

lemma required_decision:
  "secAgreeRequired (Template cfg) \<Longrightarrow>
   decideSecAgreeAfterChallenge cfg (Some res) = (decision, None) \<Longrightarrow> installIPSec decision"
  by (auto simp: decideSecAgreeAfterChallenge_def sec_decision_def secAgreeRequired_def secAgreeEnabled_def
      split: if_splits)

text \<open>The card never reports a synchronisation failure.\<close>

definition no_resync :: "('q, 'n) register_env \<Rightarrow> bool" where
  "no_resync env \<longleftrightarrow> (\<forall>chal req net aka auth net'.
     AKADigest env chal req net = (Inr (aka, auth), net') \<longrightarrow> aka_AUTS aka = [])"

lemma required_round:
  assumes "secAgreeRequired (Template cfg)" "no_resync env" "auth_round env f cfg req res s net = (x, s', net')"
    and f: "float_laws f"
  shows "\<exists>r. x = Return r \<and> (\<forall>y. r = Inr y \<longrightarrow> agreed_over f cfg y)"
proof -
  obtain decision err where d: "decideSecAgreeAfterChallenge cfg (Some res) = (decision, err)" by fastforce
  show ?thesis
  proof (cases err)
    case (Some e)
    then show ?thesis using assms(3) d by (auto simp: auth_round_def)
  next
    case None
    then have i: "installIPSec decision" using required_decision [OF assms(1)] d by simp
    show ?thesis
    proof (cases "selectDigestChallenge env res")
      case (Inl e)
      then show ?thesis using assms(3) d None i by (auto simp: auth_round_def)
    next
      case (Inr chal)
      obtain a net1 where a: "computeAKAAuth env chal req net = (a, net1)" by fastforce
      show ?thesis
      proof (cases a)
        case (Inl e)
        then show ?thesis using assms(3) d None i Inr a by (auto simp: auth_round_def)
      next
        case aka: (Inr p)
        obtain k auth where p: "p = (k, auth)" by fastforce
        have "aka_AUTS k = []"
          using a aka p assms(2) unfolding computeAKAAuth_def no_resync_def by (metis Inl_Inr_False prod.inject)
        then have x: "protected_round env f cfg k auth req res s net1 = (x, s', net')"
          using assms(3) d None i Inr a aka p by (auto simp: auth_round_def)
        show ?thesis by (rule protected_round_result [OF f x])
      qed
    qed
  qed
qed

lemma required_phase:
  assumes "secAgreeRequired (Template cfg)" "no_resync env" "challenged res"
    and "runAuthRegisterPhase env f cfg req res s net = (Inr r, s', net')" and f: "float_laws f"
  shows "agreed_over f cfg r"
proof -
  obtain x s1 net1 where x: "auth_round env f cfg req res s net = (x, s1, net1)"
    using prod_cases3 by blast
  obtain y where y: "x = Return y" "\<forall>z. y = Inr z \<longrightarrow> agreed_over f cfg z"
    using required_round [OF assms(1,2) x f] by blast
  have "runAuthRegisterPhase env f cfg req res s net = (y, s1, net1)"
    using assms(3) x y(1) by (simp add: runAuthRegisterPhase_def maxChallengeRounds_def numeral_eq_Suc)
  then show ?thesis using assms(4) y(2) by simp
qed

lemma required_initial_success:
  assumes "secAgreeRequired (Template cfg)"
  shows "initial_success env f cfg req res s net \<noteq> (Inr r, s', net')"
  using assms
  by (auto simp: initial_success_def decideInitialRegisterSuccessSecurity_def secAgreeRequired_def
      secAgreeEnabled_def runSecureAuthenticatedRegister_def Let_def
      split: sum.splits option.splits prod.splits if_splits)

lemma required_variants:
  assumes "secAgreeRequired (Template cfg)" "no_resync env" "float_laws f"
  shows "initial_variants env f var cfg i n e vs s net = (Inr r, s', net') \<Longrightarrow> agreed_over f cfg r"
proof (induction vs arbitrary: i e s net)
  case (Cons v vs)
  obtain x s1 net1 where x: "registerInitialWithPolicy env cfg v s net = (x, s1, net1)"
    using prod_cases3 by blast
  show ?case
  proof (cases x)
    case (Inl e')
    then show ?thesis using Cons x by (auto simp: Let_def)
  next
    case (Inr p)
    obtain res q where p: "p = (res, q)" by fastforce
    note run = Cons.prems [unfolded initial_variants.simps x Inr p prod.case sum.case Let_def]
    show ?thesis
    proof (cases "StatusCode res = 200")
      case True
      then show ?thesis using run required_initial_success [OF assms(1)] by fastforce
    next
      case f1: False
      show ?thesis
      proof (cases "challenged res")
        case True
        then show ?thesis using run f1 required_phase [OF assms(1,2) True _ assms(3)] by simp
      next
        case False
        then show ?thesis using run f1 Cons.IH by (auto split: if_splits)
      qed
    qed
  qed
qed simp

section \<open>A synchronisation failure\<close>

text \<open>The response to the request that reports a synchronisation failure ends the phase when it is a 200,
  whatever the security policy.\<close>

lemma resync_accepted:
  assumes "challenged res" "decideSecAgreeAfterChallenge cfg (Some res) = (decision, None)" "installIPSec decision"
    and "selectDigestChallenge env res = Inr chal" "computeAKAAuth env chal req net = (Inr (aka, auth), net1)"
    and "aka_AUTS aka \<noteq> []"
    and "resync_round env cfg auth req s net1 = (Again req2 ok, s2, net2)" "StatusCode ok = 200"
  shows "\<exists>r. runAuthRegisterPhase env f cfg req res s net = (Inr r, s2, net2) \<and> registered_over r = None"
  using assms
  by (simp add: runAuthRegisterPhase_def maxChallengeRounds_def numeral_eq_Suc auth_round_def challenged_def
      after_rounds_def finalizeRegisterSuccess_def)

text \<open>An unchallenged 200 that offers the security agreement is never completed: there are no keys yet.\<close>

lemma unchallenged_offer_fails:
  assumes "secAgreeEnabled (Template cfg)" "has_security_server res" "StatusCode res = 200"
  shows "\<exists>e s' net'. initial_success env f cfg req res s net = (Inl e, s', net')"
  using assms
  by (auto simp: initial_success_def decideInitialRegisterSuccessSecurity_def runSecureAuthenticatedRegister_def
      Let_def split: option.splits prod.splits)

section \<open>Property\<close>


section \<open>An attempt that registers\<close>

definition run_template :: ims_template where
  "run_template = DefaultIMSRegisterTemplate\<lparr>SecAgreeMode := ''required'',
     SecurityClientMechanisms := Some [alg_pair ''hmac-sha-1-96'' ''aes-cbc'']\<rparr>"

definition run_config :: ims_config where
  "run_config = \<lparr>CfgLocalIP = [10, 0, 0, 1], PCSCFAddr = ''10.0.0.2:5060'', TransportPCSCFAddr = [],
     RegistrarCandidates = [], Realm = ''ims'', PrivateID = ''user'', CfgPublicURI = ''sip:user'',
     HomeDomain = ''ims'', CfgIMSI = [], Template = run_template, MCC = [], MNC = [], CellID = [],
     CfgTransport = [], CfgLocalPort = 5064, CfgSIPInstanceURN = ''urn'', UserAgent = [], SecurityVerify = [],
     RegisterExpirySeconds = 0\<rparr>"

definition run_header :: string where
  "run_header = BuildSecurityClientHeader run_template 11 12 5062 5063"

definition run_challenge :: sip_response where
  "run_challenge = \<lparr>StatusCode = 401, Reason = [], GetHeaders = (\<lambda>name.
     if name = ''Security-Server'' then [run_header] else if name = ''WWW-Authenticate'' then [''Digest''] else [])\<rparr>"

definition run_ok :: sip_response where
  "run_ok = \<lparr>StatusCode = 200, Reason = [], GetHeaders = (\<lambda>_. [])\<rparr>"

definition run_env :: "(unit, unit) register_env" where
  "run_env = \<lparr>NewRegister = (\<lambda>_. Some ()), RemoveHeader = (\<lambda>_ q. q), AppendHeader = (\<lambda>_ _ q. q),
     PrependHeader = (\<lambda>_ _ q. q), SetDestination = (\<lambda>_ q. q), SetTransport = (\<lambda>_ q. q),
     RequestHeader = (\<lambda>_ _. None),
     ParseChallenge = (\<lambda>_. Some \<lparr>ChallengeAlgorithm = ''AKAv1-MD5'', ChallengeRealm = [], ChallengeNonce = []\<rparr>),
     AKADigest = (\<lambda>_ _ n. (Inr (\<lparr>aka_CK = replicate 16 1, aka_IK = replicate 16 2, aka_AUTS = []\<rparr>, ''Digest''), n)),
     EAPDirect = (\<lambda>_. Inl EAPDirectRefused), RandomToken = (\<lambda>n. ([], n)), RandomPort = (\<lambda>n. (5064, n)),
     RandomCSeq = (\<lambda>n. (1, n)), Wait = (\<lambda>_ n. (True, n)), Exchange = (\<lambda>_ n. (Inr run_challenge, n)),
     SecureExchange = (\<lambda>_ _ n. (Inr run_ok, n))\<rparr>"

definition run_session :: session where
  "run_session = \<lparr>s_state = \<lparr>rs_spiC = 21, rs_spiS = 22, rs_portC = 5064, rs_portS = 5063, rs_ck = [], rs_ik = [],
       sipInstance = ''urn'', rs_policy = None, rs_transport = None, verifyHeader = []\<rparr>,
     phase = PhaseInitial, initial500Retried = False, callID = ''id'', s_cseq = 10001, s_localPort = 5064,
     transportMode = ''tcp''\<rparr>"

definition run_offer :: "int security_offer" where
  "run_offer = client_offer int_floats 11 12 5062 5063 (alg_pair ''hmac-sha-1-96'' ''aes-cbc'')"

lemma run_mechanisms: "SecurityClientMechanisms run_template = Some [alg_pair ''hmac-sha-1-96'' ''aes-cbc'']"
  "StrictSecurityServerOffer run_template" "ReRegisterOn run_template = []"
  "normalizedSecAgreeMode run_template = ''required''" "initialRejectFallbackEnabled [] run_config = False"
proof -
  have "SecAgreeMode run_template = ''required''" by (simp add: run_template_def)
  moreover have "ToLower (TrimSpace ''required'') = ''required''" by code_simp
  ultimately show "normalizedSecAgreeMode run_template = ''required''" by (simp add: normalizedSecAgreeMode_def)
  have "EnableInitialRejectFallback (Template run_config) = False"
    by (simp add: run_config_def run_template_def template_defs)
  then show "initialRejectFallbackEnabled [] run_config = False"
    by (simp add: initialRejectFallbackEnabled_def TrimSpace_def)
qed (simp_all add: run_template_def template_defs)

lemma run_offers: "ParseSecurityServer int_floats run_header = Inr [run_offer]"
  using parse_client_header [of "[alg_pair ''hmac-sha-1-96'' ''aes-cbc'']" 5062 5063 int_floats 11 12]
  by (simp add: run_header_def BuildSecurityClientHeader_def run_mechanisms run_offer_def plain_client_def
      alg_pair_def plain_token_def ports_ok_def)

lemma run_header_trim: "TrimSpace run_header = run_header" "run_header \<noteq> []"
proof -
  let ?t = "formatSecurityClientMechanism (alg_pair ''hmac-sha-1-96'' ''aes-cbc'') 11 12 5062 5063"
  have h: "run_header = ?t" by (simp add: run_header_def BuildSecurityClientHeader_def run_mechanisms)
  obtain u where "?t = ''ipsec-3gpp'' @ u" using client_text_ends(1) by blast
  then show "run_header \<noteq> []" by (simp add: h)
  show "TrimSpace run_header = run_header" unfolding h by (rule client_text_trim)
qed

lemma run_offer_fields: "OfferAlg run_offer = ''hmac-sha-1-96''" "OfferEAlg run_offer = ''aes-cbc''"
  "SPIC run_offer = 11" "SPIS run_offer = 12" "OfferPortC run_offer = 5062" "OfferPortS run_offer = 5063"
  "Q run_offer = 0" "OfferProt run_offer = []" "OfferMode run_offer = ''trans''"
proof -
  have "TrimSpace ''hmac-sha-1-96'' = ''hmac-sha-1-96''" "canonicalEAlg ''aes-cbc'' = ''aes-cbc''" by code_simp+
  then show "OfferAlg run_offer = ''hmac-sha-1-96''" "OfferEAlg run_offer = ''aes-cbc''"
    by (simp_all add: run_offer_def client_offer_def alg_pair_def)
qed (simp_all add: run_offer_def client_offer_def alg_pair_def int_floats_def TrimSpace_def)

lemma run_matches: "mechanismMatchesClient run_offer (Some [alg_pair ''hmac-sha-1-96'' ''aes-cbc''])"
  by (simp add: mechanismMatchesClient_def mechanism_matches_def Let_def run_offer_fields)
    (simp add: alg_pair_def TrimSpace_def ToLower_def)

lemma run_selected: "SelectSecurityServerOffer int_floats [run_offer] (SecurityClientMechanisms run_template) True = Inr run_offer"
  using run_matches
  by (simp add: SelectSecurityServerOffer_def run_mechanisms better_def offerHasServerParams_def run_offer_fields)
    (simp add: int_floats_def offerHasServerParams_def run_offer_fields)

lemma run_verify: "buildSecurityVerifyFromChallenge int_floats run_config run_challenge = Inr (run_header, run_offer)"
proof -
  have "Template run_config = run_template" by (simp add: run_config_def)
  then show ?thesis
    using run_offers run_selected
    by (simp add: buildSecurityVerifyFromChallenge_def GetHeader_def run_challenge_def run_header_trim run_mechanisms Let_def)
qed

lemma run_remote: "effectiveIPSecRemoteIP run_config = Some (v4InV6Prefix @ [10, 0, 0, 2])"
  by code_simp

lemma run_local: "To4 [10, 0, 0, 1] = Some [10, 0, 0, 1]"
  "To4 (v4InV6Prefix @ [10, 0, 0, 2]) = Some [10, 0, 0, 2]"
  "canonicalAuthAlg (coalesce [[], ''hmac-sha-1-96'']) = ''hmac-sha-1-96''"
  "canonicalEncAlg (coalesce [[], ''aes-cbc'']) = ''aes-cbc''"
  "canonicalAuthAlg ''hmac-sha-1-96'' = ''hmac-sha-1-96''" "canonicalEncAlg ''aes-cbc'' = ''aes-cbc''"
  by code_simp+

lemma run_install:
  assumes "rs_spiC st = 21" "rs_spiS st = 22" "rs_ck st = replicate 16 1" "rs_ik st = replicate 16 2"
  shows "\<exists>st'. installIPSecFromChallenge int_floats run_config run_challenge st = (None, st')"
proof -
  let ?in = "offer_policy_input run_config (st\<lparr>verifyHeader := run_header\<rparr>) (v4InV6Prefix @ [10, 0, 0, 2]) run_offer"
  obtain pol where pol: "NewPolicy ?in = Inr pol"
    "AuthAlg (FlowC pol) = ''hmac-sha-1-96''" "EncAlg (FlowC pol) = ''aes-cbc''"
    "AuthAlg (FlowS pol) = ''hmac-sha-1-96''" "EncAlg (FlowS pol) = ''aes-cbc''"
    "CK (FlowC pol) = replicate 16 1" "IK (FlowC pol) = replicate 16 2"
    "CK (FlowS pol) = replicate 16 1" "IK (FlowS pol) = replicate 16 2"
    "LocalIP pol = [10, 0, 0, 1]" "RemoteIP pol = [10, 0, 0, 2]"
    using assms
    by (simp add: NewPolicy_def offer_policy_input_def offer_mechanism_def normalizeIP_def run_config_def
        run_local run_offer_fields Let_def del: coalesce.simps)
  have "\<exists>t. NewTransport pol = Inr t"
    using pol(2-) by (intro NewTransport_total) (simp_all add: known_algorithms_def run_local)
  then show ?thesis
    using pol(1) by (auto simp: installIPSecFromChallenge_def run_verify run_remote Let_def)
qed

lemma run_decorate: "\<exists>s' . decorateRegisterRequest run_env cfg req s net = ((), s', ()) \<and> s_state s' = s_state s \<and>
    initial500Retried s' = initial500Retried s"
  by (auto simp: decorateRegisterRequest_def Let_def split: prod.splits)

lemma run_challenge_fields: "StatusCode run_challenge = 401" "StatusCode run_ok = 200"
  "has_security_server run_challenge" "challenged run_challenge"
  by (simp_all add: run_challenge_def run_ok_def has_security_server_def GetHeader_def run_header_trim challenged_def)

lemma run_required: "secAgreeRequired run_template" "secAgreeEnabled run_template" "Template run_config = run_template"
  by (simp_all add: secAgreeRequired_def secAgreeEnabled_def run_mechanisms run_config_def)

lemma run_decision: "\<exists>d. decideSecAgreeAfterChallenge run_config (Some run_challenge) = (d, None) \<and> installIPSec d"
  by (simp add: decideSecAgreeAfterChallenge_def run_required run_challenge_fields securityClientMechanismCount_def
      supportedSecurityClientMechanisms_def run_mechanisms sec_decision_def)

lemma run_digest: "\<exists>chal. selectDigestChallenge run_env run_challenge = Inr chal \<and> \<not> ordinary_digest chal"
proof -
  have "\<not> ordinary_digest \<lparr>ChallengeAlgorithm = ''AKAv1-MD5'', ChallengeRealm = [], ChallengeNonce = []\<rparr>" by code_simp
  then show ?thesis
    by (simp add: selectDigestChallenge_def run_challenge_def run_env_def List.map_filter_def)
qed

lemma run_protected_round:
  assumes "rs_spiC (s_state s) = 21" "rs_spiS (s_state s) = 22"
  shows "\<exists>r s'. protected_round run_env int_floats run_config
    \<lparr>aka_CK = replicate 16 1, aka_IK = replicate 16 2, aka_AUTS = []\<rparr> auth () run_challenge s () = (Return (Inr r), s', ())"
proof -
  let ?aka = "\<lparr>aka_CK = replicate 16 1, aka_IK = replicate 16 2, aka_AUTS = []\<rparr>"
  obtain st where st: "installIPSecFromChallenge int_floats run_config run_challenge (s_state (set_keys ?aka s)) = (None, st)"
    using run_install [of "s_state (set_keys ?aka s)"] assms by (auto simp: set_keys_def)
  then obtain t where "rs_transport st = Some t" using install_transport by metis
  then have "\<exists>r. runSecurePreparedRegister run_env run_config st () () = (Inr r, ())"
    by (simp add: runSecurePreparedRegister_def run_env_def run_challenge_fields)
  then obtain r where r: "runSecurePreparedRegister run_env run_config st () () = (Inr r, ())" by blast
  then show ?thesis
    by (auto simp: protected_round_def Let_def st split: prod.splits)
qed

lemma run_phase:
  assumes "rs_spiC (s_state s) = 21" "rs_spiS (s_state s) = 22"
  shows "\<exists>r s'. runAuthRegisterPhase run_env int_floats run_config () run_challenge s () = (Inr r, s', ())"
proof -
  let ?aka = "\<lparr>aka_CK = replicate 16 1, aka_IK = replicate 16 2, aka_AUTS = []\<rparr>"
  obtain d where d: "decideSecAgreeAfterChallenge run_config (Some run_challenge) = (d, None)" "installIPSec d"
    using run_decision by blast
  obtain chal where c: "selectDigestChallenge run_env run_challenge = Inr chal" "\<not> ordinary_digest chal"
    using run_digest by blast
  have a: "computeAKAAuth run_env chal () () = (Inr (?aka, ''Digest''), ())"
    using c(2) by (simp add: computeAKAAuth_def run_env_def)
  obtain r s' where r: "protected_round run_env int_floats run_config ?aka ''Digest'' () run_challenge s () = (Return (Inr r), s', ())"
    using run_protected_round [OF assms] by blast
  have "auth_round run_env int_floats run_config () run_challenge s () = (Return (Inr r), s', ())"
    by (simp add: auth_round_def d c a r)
  then show ?thesis
    by (simp add: runAuthRegisterPhase_def maxChallengeRounds_def numeral_eq_Suc run_challenge_fields)
qed

lemma run_flow: "\<exists>r s'. runInitialRegisterFlow run_env int_floats [] run_config run_session () = (Inr r, s', ())"
proof -
  obtain v where v: "initialRegisterVariants [] run_config = [v]" "initialAuth v = []"
    by (simp add: initialRegisterVariants_def run_mechanisms run_required)
      (simp add: run_template_def template_defs TrimSpace_def)
  have b: "buildRegisterRequest run_env run_config st port True v () = (Inr (), ())" for st port
    using v(2) by (simp add: buildRegisterRequest_def Let_def run_env_def buildInitialRegisterAuthorization_def
        EqualFold_def ToLower_def TrimSpace_def)
  have "\<exists>s'. registerOnce run_env run_config True v run_session () = (Inr (run_challenge, ()), s', ()) \<and>
      s_state s' = s_state run_session"
  proof -
    let ?port = "if AllowPlainIMS (Template run_config) then rs_portS (s_state run_session) else s_localPort run_session"
    obtain s' where "decorateRegisterRequest run_env run_config () run_session () = ((), s', ())"
      "s_state s' = s_state run_session" using run_decorate by blast
    moreover have "Exchange run_env () () = (Inr run_challenge, ())" by (simp add: run_env_def)
    ultimately show ?thesis by (simp add: registerOnce_def b)
  qed
  then obtain s' where s': "registerOnce run_env run_config True v run_session () = (Inr (run_challenge, ()), s', ())"
    "s_state s' = s_state run_session" by blast
  have "registerInitialWithPolicy run_env run_config v run_session () = (Inr (run_challenge, ()), s', ())"
    by (simp add: registerInitialWithPolicy_def s' configuredReRegister500_def run_challenge_fields)
  moreover obtain r s2 where "runAuthRegisterPhase run_env int_floats run_config () run_challenge (s'\<lparr>phase := PhaseAuth\<rparr>) () = (Inr r, s2, ())"
    using run_phase [of "s'\<lparr>phase := PhaseAuth\<rparr>"] s'(2) by (auto simp: run_session_def)
  ultimately show ?thesis
    by (simp add: runInitialRegisterFlow_def v run_challenge_fields)
qed


end
