(* ===== verification/Register_Refresh.thy ===== *)
theory Register_Refresh
  imports Register_Security
begin

text \<open>
  Renewing a registration over its connection (\<^verbatim>\<open>imscore/register_refresh.go\<close>): the requests, the
  exchange, the lifetime of the client's own Contact and the loop with at most three authentication rounds
  and one repetition after a 500.

  The exchange subscribes to the responses of the connection; \<^verbatim>\<open>Replies\<close> gives those that arrive
  before the transaction ends.  What the SIP library parses of a Contact is \<^verbatim>\<open>ParseContact\<close>.
\<close>

section \<open>Environment and state\<close>

record contact_address =
  uri_scheme :: string
  uri_user :: string
  uri_host :: string
  uri_port :: int
  uri_transport :: "string option"

record sip_reply =
  reply :: sip_response
  reply_cseq :: "(u32 \<times> string) option"
  reply_branch :: string

record ('q, 'n) refresh_env =
  base :: "('q, 'n) register_env"
  Replies :: "'q \<Rightarrow> 'n \<Rightarrow> sip_reply list \<times> 'n"
  RequestBranch :: "'q \<Rightarrow> string"
  RequestContact :: "'q \<Rightarrow> contact_address option"
  RequestURI :: "'q \<Rightarrow> string"
  ParseContact :: "string \<Rightarrow> (contact_address \<times> (string \<times> string) list) option"
  ValidateReply :: "sip_response \<Rightarrow> string \<Rightarrow> u32 \<Rightarrow> bool"

datatype refresh_error =
  Unavailable | NoRetainedBinding | InvalidCSeq | InvalidIdentity | NoReply | InvalidReply
| SecurityChanged | BindingRemoved | InvalidLifetime | NoContact | ContactInvalidated
| RefreshRejected int | RoundsExhausted | RefreshFlow flow_error

text \<open>The part of the service a refresh reads and writes.\<close>

record 'q service =
  registerRequest :: "'q option"
  expiresSeconds :: int
  service_registered :: bool

text \<open>The runtime of the connection: its configuration, the local port and whether it is protected.\<close>

record runtime =
  rt_config :: ims_config
  rt_portC :: int
  rt_ipsec :: bool

section \<open>Requests\<close>

definition registerRequestIdentity :: "('q, 'n) register_env \<Rightarrow> 'q \<Rightarrow> (string \<times> u32) option" where
  "registerRequestIdentity env req =
     (case (RequestHeader env req ''Call-ID'', RequestHeader env req ''CSeq'') of
        (Some call, Some cseq) \<Rightarrow>
          (case Fields cseq of
             [n, method] \<Rightarrow>
               if TrimSpace call = [] \<or> \<not> EqualFold method ''REGISTER'' then None
               else (case ParseUint n 10 32 of
                       Some k \<Rightarrow> if k = 0 then None else Some (TrimSpace call, of_nat k)
                     | None \<Rightarrow> None)
           | _ \<Rightarrow> None)
      | _ \<Rightarrow> None)"

definition nextRegistrationRefresh ::
  "('q, 'n) register_env \<Rightarrow> runtime \<Rightarrow> 'q \<Rightarrow> 'n \<Rightarrow> (refresh_error + 'q) \<times> 'n" where
  "nextRegistrationRefresh env rt previous net =
     (case registerRequestIdentity env previous of
        None \<Rightarrow> (Inl InvalidCSeq, net)
      | Some (call, cseq) \<Rightarrow>
          if cseq = - 1 then (Inl InvalidCSeq, net)
          else let (branch, net1) = RandomToken env net;
                   transport = ToUpper (registerTransportName (rt_config rt) []);
                   via = ''SIP/2.0/'' @ transport @ '' '' @
                     formatRegisterViaHost (CfgLocalIP (rt_config rt)) (rt_portC rt) @ '';branch='' @ branch;
                   r1 = SetTransport env transport (PrependHeader env ''Via'' via
                     (RemoveHeader env ''CSeq'' (RemoveHeader env ''Via'' previous)))
               in (Inr (AppendHeader env ''CSeq'' (dec (unat (cseq + 1)) @ '' REGISTER'') r1), net1))"

definition refresh_authorization :: "ims_config \<Rightarrow> string \<Rightarrow> string" where
  "refresh_authorization cfg uri =
     ''Digest '' @ Join [quoted_param ''username'' (quoteSipParam (authorizationUsername cfg)),
       quoted_param ''realm'' (quoteSipParam (Realm cfg)), quoted_param ''uri'' (quoteSipParam uri),
       quoted_param ''nonce'' [], quoted_param ''response'' [], ''integrity-protected=yes''] '',''"

definition buildRegistrationRefresh ::
  "('q, 'n) refresh_env \<Rightarrow> ims_config \<Rightarrow> runtime \<Rightarrow> 'q \<Rightarrow> 'n \<Rightarrow> (refresh_error + 'q) \<times> 'n" where
  "buildRegistrationRefresh renv cfg rt previous net =
     (let env = base renv
      in case nextRegistrationRefresh env rt previous net of
           (Inl e, net1) \<Rightarrow> (Inl e, net1)
         | (Inr req, net1) \<Rightarrow>
             let r1 = AppendHeader env ''Expires'' (Itoa (effectiveRegisterExpiry cfg))
                 (RemoveHeaders env [''Authorization'', ''Proxy-Authorization'', ''Security-Client'', ''Expires''] req)
             in if rt_ipsec rt
                then (Inr (AppendHeader env ''Authorization'' (refresh_authorization cfg (RequestURI renv req)) r1), net1)
                else if EqualFold (TrimSpace (InitialAuthorization (Template cfg))) ''eap_direct'' then
                  (case buildInitialRegisterAuthorization env cfg ''eap_direct'' of
                     Inl e \<Rightarrow> (Inl (RefreshFlow e), net1)
                   | Inr auth \<Rightarrow> (Inr (AppendHeader env ''Authorization'' auth r1), net1))
                else (Inr r1, net1))"

section \<open>Responses\<close>

text \<open>The loop of \<^verbatim>\<open>exchangeRegistrationRefresh\<close>: other transactions and provisional responses are
  skipped.\<close>

fun await_reply ::
  "('q, 'n) refresh_env \<Rightarrow> 'q \<Rightarrow> string \<Rightarrow> u32 \<Rightarrow> sip_reply list \<Rightarrow> refresh_error + sip_response" where
  "await_reply renv req call cseq [] = Inl NoReply"
| "await_reply renv req call cseq (r # rs) =
     (if reply_cseq r \<noteq> Some (cseq, ''REGISTER'') then await_reply renv req call cseq rs
      else if RequestBranch renv req = [] \<or> RequestBranch renv req \<noteq> reply_branch r then await_reply renv req call cseq rs
      else if \<not> ValidateReply renv (reply r) call cseq then Inl InvalidReply
      else if 200 \<le> StatusCode (reply r) then Inr (reply r)
      else await_reply renv req call cseq rs)"

definition exchangeRegistrationRefresh ::
  "('q, 'n) refresh_env \<Rightarrow> 'q \<Rightarrow> 'n \<Rightarrow> (refresh_error + sip_response) \<times> 'n" where
  "exchangeRegistrationRefresh renv req net =
     (case registerRequestIdentity (base renv) req of
        None \<Rightarrow> (Inl InvalidIdentity, net)
      | Some (call, cseq) \<Rightarrow>
          (let (rs, net1) = Replies renv req net in (await_reply renv req call cseq rs, net1)))"

definition responseChangesSecurity :: "sip_response \<Rightarrow> string \<Rightarrow> bool" where
  "responseChangesSecurity res verify =
     list_ex (\<lambda>header. challenged res \<or> TrimSpace header \<noteq> TrimSpace verify) (GetHeaders res ''Security-Server'')"

definition effective_port :: "contact_address \<Rightarrow> int" where
  "effective_port uri =
     (if uri_port uri \<noteq> 0 then uri_port uri else if EqualFold (uri_scheme uri) ''sips'' then 5061 else 5060)"

definition effective_transport :: "contact_address \<Rightarrow> string" where
  "effective_transport uri = ToLower (case uri_transport uri of None \<Rightarrow> ''tcp'' | Some t \<Rightarrow> t)"

definition sameRegistrationContact :: "contact_address \<Rightarrow> contact_address \<Rightarrow> bool" where
  "sameRegistrationContact a b \<longleftrightarrow>
     uri_user a = uri_user b \<and> EqualFold (uri_host a) (uri_host b) \<and> effective_port a = effective_port b \<and>
     effective_transport a = effective_transport b \<and> EqualFold (uri_scheme a) (uri_scheme b)"

text \<open>The parameters of one Contact; \<^term>\<open>None\<close> is the error of an invalid or zero lifetime.\<close>

fun param_expiry :: "int \<Rightarrow> (string \<times> string) list \<Rightarrow> int option" where
  "param_expiry granted [] = Some granted"
| "param_expiry granted ((k, v) # params) =
     (if \<not> EqualFold k ''expires'' then param_expiry granted params
      else case Atoi (TrimSpace v) of
        None \<Rightarrow> None
      | Some seconds \<Rightarrow>
          if seconds \<le> 0 then None
          else param_expiry (if granted = 0 \<or> seconds < granted then seconds else granted) params)"

fun items_expiry :: "('q, 'n) refresh_env \<Rightarrow> contact_address \<Rightarrow> int \<Rightarrow> string list \<Rightarrow> int option" where
  "items_expiry renv contact granted [] = Some granted"
| "items_expiry renv contact granted (item # items) =
     (case ParseContact renv item of
        None \<Rightarrow> items_expiry renv contact granted items
      | Some (address, params) \<Rightarrow>
          if \<not> sameRegistrationContact contact address then items_expiry renv contact granted items
          else case param_expiry granted params of
                 None \<Rightarrow> None
               | Some g \<Rightarrow> items_expiry renv contact g items)"

definition matchingContactExpiry :: "('q, 'n) refresh_env \<Rightarrow> 'q \<Rightarrow> sip_response \<Rightarrow> refresh_error + int" where
  "matchingContactExpiry renv req res =
     (case RequestContact renv req of
        None \<Rightarrow> Inl NoContact
      | Some contact \<Rightarrow>
          (case items_expiry renv contact 0
                  (concat (List.map splitAssociatedHeaderValues (responseHeaderStrings (Some res) ''Contact''))) of
             None \<Rightarrow> Inl ContactInvalidated
           | Some g \<Rightarrow> Inr g))"

section \<open>The refresh\<close>

definition shorten :: "int \<Rightarrow> int \<Rightarrow> int" where
  "shorten expires granted = (if 0 < granted \<and> granted < expires then granted else expires)"

text \<open>The lifetime of an accepted 200.\<close>

definition refreshed_lifetime ::
  "('q, 'n) refresh_env \<Rightarrow> ims_config \<Rightarrow> runtime \<Rightarrow> 'q \<Rightarrow> sip_response \<Rightarrow> refresh_error + int" where
  "refreshed_lifetime renv cfg rt req res =
     (if responseChangesSecurity res (SecurityVerify (rt_config rt)) then Inl SecurityChanged
      else if map_option TrimSpace (GetHeader res ''Expires'') = Some ''0'' then Inl BindingRemoved
      else let header = (case GetHeader res ''Expires'' of
                 None \<Rightarrow> Inr (effectiveRegisterExpiry cfg)
               | Some h \<Rightarrow> (case Atoi (TrimSpace h) of
                   None \<Rightarrow> Inl InvalidLifetime
                 | Some v \<Rightarrow> if v \<le> 0 then Inl InvalidLifetime else Inr v))
      in rbind header (\<lambda>e.
           let e1 = shorten e (contactGrantedExpiry (responseHeaderStrings (Some res) ''Contact''))
           in rbind (matchingContactExpiry renv req res) (\<lambda>matched. Inr (shorten e1 matched))))"

text \<open>The request that answers a challenge.\<close>

definition answer_refresh ::
  "('q, 'n) refresh_env \<Rightarrow> ims_config \<Rightarrow> runtime \<Rightarrow> 'q \<Rightarrow> sip_response \<Rightarrow> 'n \<Rightarrow> (refresh_error + 'q) \<times> 'n" where
  "answer_refresh renv cfg rt req res net =
     (let env = base renv
      in case selectDigestChallenge env res of
           Inl e \<Rightarrow> (Inl (RefreshFlow e), net)
         | Inr chal \<Rightarrow>
             (case computeAKAAuth env chal req net of
                (Inl e, net1) \<Rightarrow> (Inl (RefreshFlow e), net1)
              | (Inr (aka, auth), net1) \<Rightarrow>
                  (case nextRegistrationRefresh env rt req net1 of
                     (Inl e, net2) \<Rightarrow> (Inl e, net2)
                   | (Inr req1, net2) \<Rightarrow>
                       let req2 = RemoveHeaders env [''Authorization'', ''Proxy-Authorization''] req1;
                           value = (if rt_ipsec rt then auth @ '', integrity-protected=yes'' else auth);
                           header = (if StatusCode res = 407 then ''Proxy-Authorization'' else ''Authorization'')
                       in (Inr (AppendHeader env header value req2), net2))))"

text \<open>The request that repeats a refresh after a 500.\<close>

definition repeat_refresh ::
  "('q, 'n) refresh_env \<Rightarrow> ims_config \<Rightarrow> runtime \<Rightarrow> 'q \<Rightarrow> sip_response \<Rightarrow> 'n \<Rightarrow> (refresh_error + 'q) \<times> 'n" where
  "repeat_refresh renv cfg rt req res net =
     (case waitReRegisterRetry (base renv) res net of
        (Some e, net1) \<Rightarrow> (Inl (RefreshFlow e), net1)
      | (None, net1) \<Rightarrow> buildRegistrationRefresh renv cfg rt req net1)"

text \<open>The loop of \<^verbatim>\<open>RefreshRegistration\<close>; \<^term>\<open>rounds\<close> is what is left of the three rounds.  The
  repetition after a 500 does not use up a round.\<close>

function refresh_loop ::
  "('q, 'n) refresh_env \<Rightarrow> ims_config \<Rightarrow> runtime \<Rightarrow> nat \<Rightarrow> bool \<Rightarrow> 'q \<Rightarrow> 'q service \<Rightarrow> 'n \<Rightarrow>
   (refresh_error + int) \<times> 'q service \<times> 'n" where
  "refresh_loop renv cfg rt rounds retried500 req sv net =
     (if rounds = 0 then (Inl RoundsExhausted, sv, net)
      else let sv1 = sv\<lparr>registerRequest := Some req\<rparr>
      in case exchangeRegistrationRefresh renv req net of
           (Inl e, net1) \<Rightarrow> (Inl e, sv1, net1)
         | (Inr res, net1) \<Rightarrow>
             if StatusCode res = 200 then
               (case refreshed_lifetime renv cfg rt req res of
                  Inl e \<Rightarrow> (Inl e, sv1, net1)
                | Inr expires \<Rightarrow> (Inr expires, sv1\<lparr>expiresSeconds := expires, service_registered := True\<rparr>, net1))
             else if \<not> challenged res then
               (if \<not> retried500 \<and> configuredReRegister500 cfg ''REGISTER'' (StatusCode res) \<and>
                   \<not> responseChangesSecurity res (SecurityVerify (rt_config rt))
                then (case repeat_refresh renv cfg rt req res net1 of
                        (Inl e, net2) \<Rightarrow> (Inl e, sv1, net2)
                      | (Inr req1, net2) \<Rightarrow> refresh_loop renv cfg rt rounds True req1 sv1 net2)
                else (Inl (RefreshRejected (StatusCode res)), sv1, net1))
             else if responseChangesSecurity res (SecurityVerify (rt_config rt)) then (Inl SecurityChanged, sv1, net1)
             else (case answer_refresh renv cfg rt req res net1 of
                     (Inl e, net2) \<Rightarrow> (Inl e, sv1, net2)
                   | (Inr req1, net2) \<Rightarrow> refresh_loop renv cfg rt (rounds - 1) retried500 req1 sv1 net2))"
  by pat_completeness auto
termination
  by (relation "measures [\<lambda>(renv, cfg, rt, rounds, retried, _). rounds,
        \<lambda>(renv, cfg, rt, rounds, retried, _). if retried then 0 else 1]") auto

declare refresh_loop.simps [simp del]

definition refreshRounds :: nat where "refreshRounds = 3"

text \<open>\<^verbatim>\<open>RefreshRegistration\<close> of a service whose transport is available and healthy (\<^term>\<open>available\<close>); it
  stays the service's transport during the refresh.\<close>

definition RefreshRegistration ::
  "('q, 'n) refresh_env \<Rightarrow> ims_config \<Rightarrow> runtime \<Rightarrow> bool \<Rightarrow> 'q service \<Rightarrow> 'n \<Rightarrow>
   (refresh_error + int) \<times> 'q service \<times> 'n" where
  "RefreshRegistration renv cfg rt available sv net =
     (if \<not> available then (Inl Unavailable, sv, net)
      else case registerRequest sv of
        None \<Rightarrow> (Inl NoRetainedBinding, sv, net)
      | Some previous \<Rightarrow>
          (case buildRegistrationRefresh renv cfg rt previous net of
             (Inl e, net1) \<Rightarrow> (Inl e, sv, net1)
           | (Inr req, net1) \<Rightarrow> refresh_loop renv cfg rt refreshRounds False req sv net1))"

definition WithdrawRegistration :: "'q service \<Rightarrow> 'q service" where
  "WithdrawRegistration sv = sv\<lparr>service_registered := False\<rparr>"

section \<open>Headers and sequence numbers\<close>

text \<open>What the code relies on of the SIP library: changing one header leaves the others, and a header that
  was removed and appended again has the new value.  \<^term>\<open>ok\<close> are the requests whose headers are unique.\<close>

definition same_identity :: "('q, 'n) register_env \<Rightarrow> ('q \<Rightarrow> bool) \<Rightarrow> 'q \<Rightarrow> 'q \<Rightarrow> bool" where
  "same_identity env ok q q' \<longleftrightarrow> ok q' \<and> RequestHeader env q' ''Call-ID'' = RequestHeader env q ''Call-ID'' \<and>
     RequestHeader env q' ''CSeq'' = RequestHeader env q ''CSeq''"

definition refresh_names :: "string list" where
  "refresh_names = [''Via'', ''Authorization'', ''Proxy-Authorization'', ''Security-Client'', ''Expires'']"

definition header_laws :: "('q, 'n) register_env \<Rightarrow> ('q \<Rightarrow> bool) \<Rightarrow> bool" where
  "header_laws env ok \<longleftrightarrow>
     (\<forall>q n v. ok q \<longrightarrow> n \<in> set refresh_names \<longrightarrow>
        same_identity env ok q (RemoveHeader env n q) \<and> same_identity env ok q (AppendHeader env n v q) \<and>
        same_identity env ok q (PrependHeader env n v q)) \<and>
     (\<forall>q t. ok q \<longrightarrow> same_identity env ok q (SetTransport env t q)) \<and>
     (\<forall>q. ok q \<longrightarrow> ok (RemoveHeader env ''CSeq'' q) \<and> RequestHeader env (RemoveHeader env ''CSeq'' q) ''CSeq'' = None \<and>
        RequestHeader env (RemoveHeader env ''CSeq'' q) ''Call-ID'' = RequestHeader env q ''Call-ID'') \<and>
     (\<forall>q v. ok q \<longrightarrow> RequestHeader env q ''CSeq'' = None \<longrightarrow>
        ok (AppendHeader env ''CSeq'' v q) \<and> RequestHeader env (AppendHeader env ''CSeq'' v q) ''CSeq'' = Some v \<and>
        RequestHeader env (AppendHeader env ''CSeq'' v q) ''Call-ID'' = RequestHeader env q ''Call-ID'')"

lemma same_identity_trans: "same_identity env ok q q' \<Longrightarrow> same_identity env ok q' q'' \<Longrightarrow> same_identity env ok q q''"
  by (simp add: same_identity_def)

lemma header_keeps:
  assumes "header_laws env ok" "ok q" "n \<in> set refresh_names"
  shows "same_identity env ok q (RemoveHeader env n q)" "same_identity env ok q (AppendHeader env n v q)"
    "same_identity env ok q (PrependHeader env n v q)"
  using assms unfolding header_laws_def by blast+

lemma transport_keeps: "header_laws env ok \<Longrightarrow> ok q \<Longrightarrow> same_identity env ok q (SetTransport env t q)"
  unfolding header_laws_def by blast

lemma remove_keeps:
  assumes "header_laws env ok"
  shows "ok q \<Longrightarrow> set ns \<subseteq> set refresh_names \<Longrightarrow> same_identity env ok q (RemoveHeaders env ns q)"
proof (induction ns arbitrary: q)
  case Nil
  then show ?case by (simp add: RemoveHeaders_def same_identity_def)
next
  case (Cons n ns)
  have k: "same_identity env ok q (RemoveHeader env n q)" using header_keeps(1) [OF assms] Cons.prems by simp
  then have "same_identity env ok (RemoveHeader env n q) (RemoveHeaders env ns (RemoveHeader env n q))"
    using Cons by (intro Cons.IH) (simp_all add: same_identity_def)
  then show ?case using same_identity_trans [OF k] by (simp add: RemoveHeaders_def)
qed

lemma same_identity_eq: "same_identity env ok q q' \<Longrightarrow> registerRequestIdentity env q' = registerRequestIdentity env q"
  by (simp add: same_identity_def registerRequestIdentity_def)

lemma Fields_loop_word: "(\<forall>c \<in> set w. \<not> is_space c) \<Longrightarrow> Fields_loop b (w @ r) = Fields_loop (b @ w) r"
  by (induction w arbitrary: b) auto

lemma Fields_cseq: "Fields (dec n @ '' REGISTER'') = [dec n, ''REGISTER'']"
proof -
  have d: "\<forall>c \<in> set (dec n). \<not> is_space c" using dec_digits is_digit_not_space by blast
  have "Fields_loop (dec n) '' REGISTER'' = dec n # Fields_loop [] ''REGISTER''"
    by (simp add: is_space_def)
  moreover have "Fields_loop [] ''REGISTER'' = [''REGISTER'']" by code_simp
  ultimately show ?thesis using Fields_loop_word [OF d, of "[]" "'' REGISTER''"] by (simp add: Fields_def)
qed

lemma unat_next_cseq:
  assumes "(c :: u32) \<noteq> - 1"
  shows "unat (c + 1) = unat c + 1"
proof -
  have "1 + c \<noteq> 0"
  proof
    assume "1 + c = 0"
    then have "c = - 1" by (simp add: add_eq_0_iff)
    then show False using assms by simp
  qed
  from unatSuc [OF this] show ?thesis by (simp add: add.commute)
qed

lemma cseq_removed:
  assumes "header_laws env ok" "ok q"
  shows "ok (RemoveHeader env ''CSeq'' q)" "RequestHeader env (RemoveHeader env ''CSeq'' q) ''CSeq'' = None"
    "RequestHeader env (RemoveHeader env ''CSeq'' q) ''Call-ID'' = RequestHeader env q ''Call-ID''"
  using assms unfolding header_laws_def by (elim conjE, simp)+

lemma cseq_appended:
  assumes "header_laws env ok" "ok q" "RequestHeader env q ''CSeq'' = None"
  shows "ok (AppendHeader env ''CSeq'' v q)" "RequestHeader env (AppendHeader env ''CSeq'' v q) ''CSeq'' = Some v"
    "RequestHeader env (AppendHeader env ''CSeq'' v q) ''Call-ID'' = RequestHeader env q ''Call-ID''"
  using assms unfolding header_laws_def by (elim conjE, simp)+

lemma same_identityD:
  assumes "same_identity env ok q q'"
  shows "ok q'" "RequestHeader env q' ''Call-ID'' = RequestHeader env q ''Call-ID''"
    "RequestHeader env q' ''CSeq'' = RequestHeader env q ''CSeq''"
  using assms by (simp_all add: same_identity_def)

lemma next_refresh:
  assumes l: "header_laws env ok" and q: "ok q" "nextRegistrationRefresh env rt q net = (Inr q', net')"
  shows "\<exists>call c. registerRequestIdentity env q = Some (call, c) \<and>
    registerRequestIdentity env q' = Some (call, c + 1) \<and> unat (c + 1) = unat c + 1 \<and> ok q'"
proof -
  obtain call c where c: "registerRequestIdentity env q = Some (call, c)" "c \<noteq> - 1"
    using q(2) by (auto simp: nextRegistrationRefresh_def split: option.splits if_splits)
  obtain via t where q': "q' = AppendHeader env ''CSeq'' (dec (unat (c + 1)) @ '' REGISTER'')
      (SetTransport env t (PrependHeader env ''Via'' via (RemoveHeader env ''CSeq'' (RemoveHeader env ''Via'' q))))"
    using q(2) c by (auto simp: nextRegistrationRefresh_def Let_def split: prod.splits)
  let ?a = "RemoveHeader env ''Via'' q"
  let ?b = "RemoveHeader env ''CSeq'' ?a"
  let ?d = "SetTransport env t (PrependHeader env ''Via'' via ?b)"
  have a: "same_identity env ok q ?a" using header_keeps(1) [OF l, OF q(1)] by (simp add: refresh_names_def)
  note b = cseq_removed [OF l, OF same_identityD(1) [OF a]]
  have p: "same_identity env ok ?b (PrependHeader env ''Via'' via ?b)"
    using header_keeps(3) [OF l, OF b(1)] by (simp add: refresh_names_def)
  have d: "same_identity env ok ?b ?d"
    by (rule same_identity_trans [OF p, OF transport_keeps [OF l, OF same_identityD(1) [OF p]]])
  have dn: "RequestHeader env ?d ''CSeq'' = None" using same_identityD(3) [OF d] b(2) by simp
  have hc: "RequestHeader env q' ''Call-ID'' = RequestHeader env q ''Call-ID''"
    unfolding q' cseq_appended(3) [OF l, OF same_identityD(1) [OF d], OF dn]
    using same_identityD(2) [OF d] b(3) same_identityD(2) [OF a] by simp
  have hs: "RequestHeader env q' ''CSeq'' = Some (dec (unat (c + 1)) @ '' REGISTER'')" and ok: "ok q'"
    unfolding q' using cseq_appended(1,2) [OF l, OF same_identityD(1) [OF d], OF dn] by simp_all
  obtain v where v: "RequestHeader env q ''Call-ID'' = Some v" "TrimSpace v \<noteq> []" "call = TrimSpace v"
    using c(1) by (auto simp: registerRequestIdentity_def split: option.splits list.splits if_splits)
  have n: "unat (c + 1) = unat c + 1" by (rule unat_next_cseq [OF c(2)])
  have "ParseUint (dec (unat (c + 1))) 10 32 = Some (unat (c + 1))"
    using u32_less [of "c + 1"] by (intro ParseUint_dec) simp
  then have "registerRequestIdentity env q' = Some (call, of_nat (unat (c + 1)))"
    using n v hs hc by (simp add: registerRequestIdentity_def Fields_cseq EqualFold_def)
  then show ?thesis using c(1) n ok by simp
qed

text \<open>A request that follows another: the same registration with the next sequence number.\<close>

definition advances :: "('q, 'n) register_env \<Rightarrow> ('q \<Rightarrow> bool) \<Rightarrow> 'q \<Rightarrow> 'q \<Rightarrow> bool" where
  "advances env ok q q' \<longleftrightarrow> ok q' \<and> (\<exists>call c. registerRequestIdentity env q = Some (call, c) \<and>
     registerRequestIdentity env q' = Some (call, c + 1) \<and> unat (c + 1) = unat c + 1)"

lemma next_advances:
  assumes "header_laws env ok" "ok q" "nextRegistrationRefresh env rt q net = (Inr q', net')"
  shows "advances env ok q q'"
  using next_refresh [OF assms] by (auto simp: advances_def)

lemma advances_keeps: "advances env ok q q' \<Longrightarrow> same_identity env ok q' q'' \<Longrightarrow> advances env ok q q''"
  using same_identity_eq [of env ok q' q''] same_identityD(1) [of env ok q' q''] by (simp add: advances_def)

lemma append_keeps:
  assumes "header_laws env ok" "same_identity env ok p q" "n \<in> set refresh_names"
  shows "same_identity env ok p (AppendHeader env n v q)"
  using same_identity_trans [OF assms(2) header_keeps(2)] assms same_identityD(1) [OF assms(2)] by blast

lemma build_advances:
  assumes l: "header_laws (base renv) ok" and q: "ok q" "buildRegistrationRefresh renv cfg rt q net = (Inr q', net')"
  shows "advances (base renv) ok q q'"
proof -
  obtain r net1 where r: "nextRegistrationRefresh (base renv) rt q net = (Inr r, net1)"
    using q(2) by (cases "nextRegistrationRefresh (base renv) rt q net")
      (auto simp: buildRegistrationRefresh_def Let_def split: sum.splits)
  have a: "advances (base renv) ok q r" by (rule next_advances [OF l q(1) r])
  then have "ok r" by (simp add: advances_def)
  then have "same_identity (base renv) ok r
    (RemoveHeaders (base renv) [''Authorization'', ''Proxy-Authorization'', ''Security-Client'', ''Expires''] r)"
    by (rule remove_keeps [OF l]) (simp add: refresh_names_def)
  then have x: "same_identity (base renv) ok r (AppendHeader (base renv) ''Expires'' (Itoa (effectiveRegisterExpiry cfg))
    (RemoveHeaders (base renv) [''Authorization'', ''Proxy-Authorization'', ''Security-Client'', ''Expires''] r))"
    by (rule append_keeps [OF l]) (simp_all add: refresh_names_def)
  have y: "same_identity (base renv) ok r (AppendHeader (base renv) ''Authorization'' v (AppendHeader (base renv) ''Expires''
    (Itoa (effectiveRegisterExpiry cfg))
    (RemoveHeaders (base renv) [''Authorization'', ''Proxy-Authorization'', ''Security-Client'', ''Expires''] r)))" for v
    by (rule append_keeps [OF l x]) (simp_all add: refresh_names_def)
  have "same_identity (base renv) ok r q'"
    using q(2) x y by (auto simp: buildRegistrationRefresh_def Let_def r split: sum.splits if_splits)
  then show ?thesis by (rule advances_keeps [OF a])
qed

lemma answer_advances:
  assumes l: "header_laws (base renv) ok" and q: "ok q" "answer_refresh renv cfg rt q res net = (Inr q', net')"
  shows "advances (base renv) ok q q'"
proof -
  obtain chal where c: "selectDigestChallenge (base renv) res = Inr chal"
    using q(2) by (cases "selectDigestChallenge (base renv) res") (auto simp: answer_refresh_def Let_def)
  obtain aka auth net1 where k: "computeAKAAuth (base renv) chal q net = (Inr (aka, auth), net1)"
    using q(2) by (cases "computeAKAAuth (base renv) chal q net") (auto simp: answer_refresh_def Let_def c split: sum.splits)
  obtain r net2 where r: "nextRegistrationRefresh (base renv) rt q net1 = (Inr r, net2)"
    using q(2) by (cases "nextRegistrationRefresh (base renv) rt q net1")
      (auto simp: answer_refresh_def Let_def c k split: sum.splits)
  have a: "advances (base renv) ok q r" by (rule next_advances [OF l q(1) r])
  then have "ok r" by (simp add: advances_def)
  then have x: "same_identity (base renv) ok r (RemoveHeaders (base renv) [''Authorization'', ''Proxy-Authorization''] r)"
    by (rule remove_keeps [OF l]) (simp add: refresh_names_def)
  have y: "same_identity (base renv) ok r (AppendHeader (base renv) ''Authorization'' v
      (RemoveHeaders (base renv) [''Authorization'', ''Proxy-Authorization''] r))"
    "same_identity (base renv) ok r (AppendHeader (base renv) ''Proxy-Authorization'' v
      (RemoveHeaders (base renv) [''Authorization'', ''Proxy-Authorization''] r))" for v
    by (rule append_keeps [OF l x]; simp add: refresh_names_def)+
  obtain v where "q' = AppendHeader (base renv) (if StatusCode res = 407 then ''Proxy-Authorization'' else ''Authorization'') v
      (RemoveHeaders (base renv) [''Authorization'', ''Proxy-Authorization''] r)"
    using q(2) by (simp add: answer_refresh_def c k r Let_def) blast
  then have "same_identity (base renv) ok r q'" using y [of v] by (cases "StatusCode res = 407") simp_all
  then show ?thesis by (rule advances_keeps [OF a])
qed

lemma repeat_advances:
  assumes "header_laws (base renv) ok" "ok q" "repeat_refresh renv cfg rt q res net = (Inr q', net')"
  shows "advances (base renv) ok q q'"
  using assms(3) build_advances [OF assms(1,2)] by (auto simp: repeat_refresh_def split: prod.splits option.splits)

lemma shorten_positive: "0 < e \<Longrightarrow> 0 < shorten e g" by (simp add: shorten_def)

lemma effective_expiry_positive: "0 < effectiveRegisterExpiry cfg"
  by (simp add: effectiveRegisterExpiry_def DefaultRegisterExpires_def)

lemma lifetime_accepted:
  assumes "refreshed_lifetime renv cfg rt req res = Inr e"
  shows "0 < e \<and> \<not> responseChangesSecurity res (SecurityVerify (rt_config rt))"
  using assms effective_expiry_positive
  by (auto simp: refreshed_lifetime_def Let_def rbind_def shorten_positive split: if_splits sum.splits option.splits)

section \<open>The outcome of a refresh\<close>

text \<open>Only the saved request changes on an error; on success the last exchange was a 200 that keeps the
  security agreement.\<close>

definition renewed :: "('q, 'n) refresh_env \<Rightarrow> runtime \<Rightarrow> 'q service \<Rightarrow> refresh_error + int \<Rightarrow> 'q \<Rightarrow> 'q service \<Rightarrow> bool" where
  "renewed renv rt sv r q sv' \<longleftrightarrow>
     (case r of
        Inl e \<Rightarrow> sv' = sv\<lparr>registerRequest := Some q\<rparr>
      | Inr expires \<Rightarrow>
          0 < expires \<and> sv' = sv\<lparr>registerRequest := Some q, expiresSeconds := expires, service_registered := True\<rparr> \<and>
          (\<exists>net1 res net2. exchangeRegistrationRefresh renv q net1 = (Inr res, net2) \<and> StatusCode res = 200 \<and>
             \<not> responseChangesSecurity res (SecurityVerify (rt_config rt))))"

text \<open>The saved request has a sequence number of \<^term>\<open>n\<close> to \<^term>\<open>n + k\<close>.\<close>

definition within :: "('q, 'n) refresh_env \<Rightarrow> runtime \<Rightarrow> string \<Rightarrow> nat \<Rightarrow> nat \<Rightarrow> 'q service \<Rightarrow> refresh_error + int \<Rightarrow> 'q service \<Rightarrow> bool" where
  "within renv rt call n k sv r sv' \<longleftrightarrow>
     (\<exists>q c. registerRequestIdentity (base renv) q = Some (call, c) \<and> n \<le> unat c \<and> unat c \<le> n + k \<and>
        renewed renv rt sv r q sv')"

lemma within_here:
  "registerRequestIdentity (base renv) q = Some (call, c) \<Longrightarrow> renewed renv rt sv r q sv' \<Longrightarrow>
   within renv rt call (unat c) k sv r sv'"
  unfolding within_def by (intro exI [of _ q] exI [of _ c]) simp

lemma within_failed:
  "registerRequestIdentity (base renv) q = Some (call, c) \<Longrightarrow>
   within renv rt call (unat c) k sv (Inl e) (sv\<lparr>registerRequest := Some q\<rparr>)"
  by (rule within_here) (simp_all add: renewed_def)

lemma renewed_later:
  "renewed renv rt (sv\<lparr>registerRequest := Some q\<rparr>) r q' sv' \<longleftrightarrow> renewed renv rt sv r q' sv'"
  by (simp add: renewed_def split: sum.splits)

lemma within_later:
  assumes "advances (base renv) ok q q'" "registerRequestIdentity (base renv) q = Some (call, c)"
    "\<And>d. registerRequestIdentity (base renv) q' = Some (call, d) \<Longrightarrow>
      within renv rt call (unat d) k (sv\<lparr>registerRequest := Some q\<rparr>) r sv'"
  shows "within renv rt call (unat c) (Suc k) sv r sv'"
proof -
  have i: "registerRequestIdentity (base renv) q' = Some (call, c + 1)" and n: "unat (c + 1) = unat c + 1"
    using assms(1,2) by (auto simp: advances_def)
  obtain p d where "registerRequestIdentity (base renv) p = Some (call, d)" "unat c + 1 \<le> unat d"
    "unat d \<le> unat c + 1 + k" "renewed renv rt sv r p sv'"
    using assms(3) [OF i] by (auto simp: within_def renewed_later n)
  then show ?thesis unfolding within_def by (intro exI [of _ p] exI [of _ d]) simp
qed

lemma advancesD: "advances env ok q q' \<Longrightarrow> ok q'"
  by (simp add: advances_def)

lemma rounds_within:
  assumes l: "header_laws (base renv) ok"
  shows "0 < rounds \<Longrightarrow> ok req \<Longrightarrow> registerRequestIdentity (base renv) req = Some (call, c) \<Longrightarrow>
    refresh_loop renv cfg rt rounds retried req sv net = (r, sv', net') \<Longrightarrow>
    within renv rt call (unat c) (rounds - 1 + (if retried then 0 else 1)) sv r sv'"
proof (induction "rounds + (if retried then 0 else 1)" arbitrary: rounds retried req sv net c rule: less_induct)
  case less
  let ?sv = "sv\<lparr>registerRequest := Some req\<rparr>"
  let ?k = "rounds - 1 + (if retried then 0 else 1)"
  note run = trans [OF refresh_loop.simps [symmetric] less.prems(4)]
  have failed: "within renv rt call (unat c) ?k sv (Inl e) ?sv" for e by (rule within_failed [OF less.prems(3)])
  obtain x net1 where x: "exchangeRegistrationRefresh renv req net = (x, net1)" by (cases "exchangeRegistrationRefresh renv req net")
  show ?case
  proof (cases x)
    case (Inl e)
    then show ?thesis using run failed less.prems(1) by (auto simp: x)
  next
    case (Inr res)
    consider (ok) "StatusCode res = 200"
      | (other) "StatusCode res \<noteq> 200" "\<not> challenged res"
      | (chal) "StatusCode res \<noteq> 200" "challenged res" by blast
    then show ?thesis
    proof cases
      case ok
      show ?thesis
      proof (cases "refreshed_lifetime renv cfg rt req res")
        case (Inl e)
        have "r = Inl e \<and> sv' = ?sv" using run less.prems(1) ok by (simp add: x \<open>x = Inr res\<close> Inl)
        then show ?thesis using failed by simp
      next
        case (Inr t)
        have "renewed renv rt sv (Inr t) req (?sv\<lparr>expiresSeconds := t, service_registered := True\<rparr>)"
          using lifetime_accepted [OF Inr] x \<open>x = Inr res\<close> ok by (auto simp: renewed_def)
        then show ?thesis using run less.prems(1) ok Inr within_here [OF less.prems(3)] by (auto simp: x \<open>x = Inr res\<close>)
      qed
    next
      case other
      let ?again = "\<not> retried \<and> configuredReRegister500 cfg ''REGISTER'' (StatusCode res) \<and>
        \<not> responseChangesSecurity res (SecurityVerify (rt_config rt))"
      obtain y net2 where y: "repeat_refresh renv cfg rt req res net1 = (y, net2)"
        by (cases "repeat_refresh renv cfg rt req res net1")
      consider "\<not> ?again" | e where "?again" "y = Inl e" | req1 where "?again" "y = Inr req1" by (cases y) auto
      then show ?thesis
      proof cases
        case 3
        have a: "advances (base renv) ok req req1" using repeat_advances [OF l less.prems(2)] y 3 by simp
        have "refresh_loop renv cfg rt rounds True req1 ?sv net2 = (r, sv', net')"
          using run other less.prems(1) 3 y by (simp add: x Inr)
        then have "within renv rt call (unat d) (rounds - 1) ?sv r sv'"
          if "registerRequestIdentity (base renv) req1 = Some (call, d)" for d
          using less.hyps [of rounds True req1 d ?sv net2] 3 less.prems(1) advancesD [OF a] that by simp
        from within_later [OF a less.prems(3) this] show ?thesis using 3 by simp
      qed (use run failed less.prems(1) other y in \<open>auto simp: x Inr\<close>)
    next
      case chal
      obtain y net2 where y: "answer_refresh renv cfg rt req res net1 = (y, net2)"
        by (cases "answer_refresh renv cfg rt req res net1")
      consider "responseChangesSecurity res (SecurityVerify (rt_config rt))"
        | e where "\<not> responseChangesSecurity res (SecurityVerify (rt_config rt))" "y = Inl e"
        | req1 where "\<not> responseChangesSecurity res (SecurityVerify (rt_config rt))" "y = Inr req1" by (cases y) auto
      then show ?thesis
      proof cases
        case 3
        have a: "advances (base renv) ok req req1" using answer_advances [OF l less.prems(2)] y 3 by simp
        have go: "refresh_loop renv cfg rt (rounds - 1) retried req1 ?sv net2 = (r, sv', net')"
          using run chal less.prems(1) 3 y by (simp add: x Inr)
        show ?thesis
        proof (cases "rounds - 1 = 0")
          case True
          then have "r = Inl RoundsExhausted \<and> sv' = ?sv" using go by (simp add: refresh_loop.simps)
          then show ?thesis using failed by simp
        next
          case False
          then have "within renv rt call (unat d) (rounds - 1 - 1 + (if retried then 0 else 1)) ?sv r sv'"
            if "registerRequestIdentity (base renv) req1 = Some (call, d)" for d
            using less.hyps [of "rounds - 1" retried req1 d ?sv net2] go advancesD [OF a] that by simp
          from within_later [OF a less.prems(3) this]
          have "within renv rt call (unat c) (Suc (rounds - 1 - 1 + (if retried then 0 else 1))) sv r sv'" .
          moreover have "Suc (rounds - 1 - 1 + (if retried then 0 else 1)) = ?k" using False by simp
          ultimately show ?thesis by (simp only:)
        qed
      qed (use run failed less.prems(1) chal y in \<open>auto simp: x Inr\<close>)
    qed
  qed
qed


section \<open>A refresh over lists of headers\<close>

definition list_env :: "((string \<times> string) list, unit) register_env" where
  "list_env = \<lparr>NewRegister = (\<lambda>_. Some []), RemoveHeader = (\<lambda>n. filter (\<lambda>h. fst h \<noteq> n)),
     AppendHeader = (\<lambda>n v q. q @ [(n, v)]), PrependHeader = (\<lambda>n v q. (n, v) # q), SetDestination = (\<lambda>_ q. q),
     SetTransport = (\<lambda>_ q. q), RequestHeader = map_of, ParseChallenge = (\<lambda>_. None),
     AKADigest = (\<lambda>_ _ n. (Inl OrdinaryMD5, n)), EAPDirect = (\<lambda>_. Inl EAPDirectRefused),
     RandomToken = (\<lambda>n. (''z9hG4bK'', n)), RandomPort = (\<lambda>n. (5064, n)), RandomCSeq = (\<lambda>n. (1, n)),
     Wait = (\<lambda>_ n. (True, n)), Exchange = (\<lambda>_ n. (Inr run_ok, n)), SecureExchange = (\<lambda>_ _ n. (Inr run_ok, n))\<rparr>"

definition list_refresh :: "((string \<times> string) list, unit) refresh_env" where
  "list_refresh = \<lparr>base = list_env,
     Replies = (\<lambda>_ n. ([\<lparr>reply = run_ok, reply_cseq = Some (8, ''REGISTER''), reply_branch = ''b''\<rparr>], n)),
     RequestBranch = (\<lambda>_. ''b''),
     RequestContact = (\<lambda>_. Some \<lparr>uri_scheme = ''sip'', uri_user = [], uri_host = ''h'', uri_port = 0, uri_transport = None\<rparr>),
     RequestURI = (\<lambda>_. ''sip:h''), ParseContact = (\<lambda>_. None), ValidateReply = (\<lambda>_ _ _. True)\<rparr>"

definition kept_request :: "(string \<times> string) list" where
  "kept_request = [(''Call-ID'', ''a''), (''CSeq'', ''7 REGISTER'')]"

lemma map_of_removed: "map_of (filter (\<lambda>h. fst h \<noteq> n) q) m = (if m = n then None else map_of q m)"
  by (induction q) auto

lemma list_env_laws: "header_laws list_env (\<lambda>_. True)"
  by (auto simp: header_laws_def refresh_names_def same_identity_def list_env_def map_of_removed map_add_def
      split: option.splits)

lemma list_fields: "RequestHeader list_env = map_of" "base list_refresh = list_env"
  "Replies list_refresh q n = ([\<lparr>reply = run_ok, reply_cseq = Some (8, ''REGISTER''), reply_branch = ''b''\<rparr>], n)"
  "RequestBranch list_refresh q = ''b''" "ValidateReply list_refresh res call k" "RandomToken list_env n = (''z9hG4bK'', n)"
  by (simp_all add: list_env_def list_refresh_def)

lemma kept_identity: "registerRequestIdentity list_env kept_request = Some (''a'', 7)"
proof -
  have h: "map_of kept_request ''Call-ID'' = Some ''a''" "map_of kept_request ''CSeq'' = Some ''7 REGISTER''"
    by (simp_all add: kept_request_def)
  have d: "dec 7 = ''7''" by code_simp
  have f: "Fields ''7 REGISTER'' = [''7'', ''REGISTER'']" using Fields_cseq [of 7] d by simp
  have t: "TrimSpace ''a'' = ''a''" by code_simp
  have p: "ParseUint ''7'' 10 32 = Some 7" using ParseUint_dec [of 7 32] d by simp
  show ?thesis by (simp add: registerRequestIdentity_def list_fields h f t p EqualFold_def)
qed

lemma list_exchange:
  assumes "registerRequestIdentity list_env q = Some (''a'', 8)"
  shows "exchangeRegistrationRefresh list_refresh q () = (Inr run_ok, ())"
proof -
  have "StatusCode run_ok = 200" by (simp add: run_ok_def)
  then show ?thesis using assms by (simp add: exchangeRegistrationRefresh_def list_fields)
qed

lemma list_lifetime: "refreshed_lifetime list_refresh cfg rt q run_ok = Inr (effectiveRegisterExpiry cfg)"
proof -
  have h: "GetHeaders run_ok n = []" for n by (simp add: run_ok_def)
  have "RequestContact list_refresh q \<noteq> None" by (simp add: list_refresh_def)
  then show ?thesis
    by (auto simp: refreshed_lifetime_def h responseChangesSecurity_def GetHeader_def responseHeaderStrings_def
        matchingContactExpiry_def contactGrantedExpiry_def shorten_def rbind_def)
qed

lemma list_build:
  assumes "rt_ipsec rt"
  shows "\<exists>q. buildRegistrationRefresh list_refresh cfg rt kept_request () = (Inr q, ()) \<and>
    registerRequestIdentity list_env q = Some (''a'', 8)"
proof -
  obtain q where "nextRegistrationRefresh list_env rt kept_request () = (Inr q, ())"
    by (simp add: nextRegistrationRefresh_def kept_identity list_fields Let_def)
  then obtain q' where q': "buildRegistrationRefresh list_refresh cfg rt kept_request () = (Inr q', ())"
    using assms by (simp add: buildRegistrationRefresh_def list_fields Let_def)
  have "header_laws (base list_refresh) (\<lambda>_. True)" using list_env_laws by (simp add: list_fields)
  from build_advances [OF this _ q'] have "registerRequestIdentity list_env q' = Some (''a'', 8)"
    by (simp add: advances_def list_fields kept_identity)
  then show ?thesis using q' by blast
qed

lemma list_run:
  assumes "registerRequest sv = Some kept_request" "rt_ipsec rt"
  shows "\<exists>sv'. RefreshRegistration list_refresh cfg rt True sv () = (Inr (effectiveRegisterExpiry cfg), sv', ())"
proof -
  obtain q where q: "buildRegistrationRefresh list_refresh cfg rt kept_request () = (Inr q, ())"
    "registerRequestIdentity list_env q = Some (''a'', 8)" using list_build [OF assms(2)] by blast
  have "StatusCode run_ok = 200" by (simp add: run_ok_def)
  then show ?thesis
    by (simp add: RefreshRegistration_def assms q refreshRounds_def refresh_loop.simps list_exchange list_lifetime)
qed

definition kept_service :: "(string \<times> string) list service" where
  "kept_service = \<lparr>registerRequest = Some kept_request, expiresSeconds = 5, service_registered = False\<rparr>"

definition kept_runtime :: runtime where
  "kept_runtime = \<lparr>rt_config = run_config, rt_portC = 5064, rt_ipsec = True\<rparr>"


end
