(* ===== verification/Spec2Isabelle.thy ===== *)
theory Spec2Isabelle
  imports Call_Life SMS_Runtime Proxy_Transport Samples SMS_Transfer Register_Refresh
begin

text \<open>
  The signalling core of the VoWiFi client (\<^verbatim>\<open>src/mobilecore/internal\<close>): how a registration of
  the IMS agrees on security, how the SIP packets it protects travel through the tunnel, how short
  messages are encoded and carried, and how calls are made, answered and ended.

  \<^bold>\<open>The program and its theories.\<close>  A SIM card and a carrier profile configure the client.  It
  builds an IKE tunnel to the carrier's gateway (not part of this development) and registers with the
  IMS through it.  The REGISTER exchange negotiates an ipsec-3gpp security agreement; from then on the
  SIP packets are ESP packets, encrypted by the client itself below its user-space TCP/IP stack.  Short
  messages travel as SIP bodies that hold a relay-layer envelope with a transfer-layer unit.

    \<^item> \<^verbatim>\<open>Go_Prelude\<close>, \<^verbatim>\<open>Go_Strings\<close>, \<^verbatim>\<open>Go_Encoding\<close>, \<^verbatim>\<open>Go_Net\<close>,
      \<^verbatim>\<open>Go_Addr\<close>: the words, results and byte slices of Go and the functions of its standard
      library that the code calls, with their inversion lemmas (numbers, hexadecimal, UTF-8 and UTF-16,
      host and port).  \<^verbatim>\<open>Part_Split\<close> is the contract of the two loops that cut a message into
      parts, interpreted as \<^verbatim>\<open>gsm\<close> and \<^verbatim>\<open>ucs\<close>.
    \<^item> \<^verbatim>\<open>Replay\<close> (\<^verbatim>\<open>ipsec3gpp/replay.go\<close>): the anti-replay window; it refines the ideal one that
      remembers every number.
    \<^item> \<^verbatim>\<open>IP_Packet\<close>, \<^verbatim>\<open>Fragments\<close>, \<^verbatim>\<open>Reassembly\<close> (\<^verbatim>\<open>ipsec3gpp/transport.go\<close>,
      \<^verbatim>\<open>fragments.go\<close>): headers and their checksum, fragmentation, and the reassembler with its bounds
      and its independence of the order of arrival.
    \<^item> \<^verbatim>\<open>Mechanism\<close> (\<^verbatim>\<open>ipsec3gpp/mechanism.go\<close>), \<^verbatim>\<open>Keys_Policy\<close> (\<^verbatim>\<open>keys.go\<close>,
      \<^verbatim>\<open>policy.go\<close>), \<^verbatim>\<open>ESP\<close> (\<^verbatim>\<open>algorithms.go\<close>, \<^verbatim>\<open>sa.go\<close> and the packet functions of
      \<^verbatim>\<open>transport.go\<close>), \<^verbatim>\<open>Transport\<close> (\<^verbatim>\<open>transport.go\<close>): security associations from the
      negotiated offer and the AKA keys, encapsulation, and the transport that filters and transforms.
    \<^item> \<^verbatim>\<open>Channel\<close>: the two ends of the transport together.  \<^verbatim>\<open>Dataplane\<close>
      (\<^verbatim>\<open>transforming_dataplane.go\<close>): the packet boundary and its receive pump as a step relation.
    \<^item> \<^verbatim>\<open>IMS_Policy\<close> (package \<^verbatim>\<open>policy\<close>), \<^verbatim>\<open>Sec_Headers\<close>
      (\<^verbatim>\<open>imsheaders/security.go\<close>), \<^verbatim>\<open>Register_Params\<close> (\<^verbatim>\<open>imscore/register.go\<close>,
      \<^verbatim>\<open>register_builder.go\<close>, \<^verbatim>\<open>subscriber/msisdn.go\<close>), \<^verbatim>\<open>Registrars\<close>
      (\<^verbatim>\<open>registrar.go\<close>, \<^verbatim>\<open>registrar_resolution.go\<close>, \<^verbatim>\<open>routing.go\<close>,
      \<^verbatim>\<open>register_failure.go\<close>): the parameters of a registration.
    \<^item> \<^verbatim>\<open>Register_Flow\<close>, \<^verbatim>\<open>Register_Session\<close>, \<^verbatim>\<open>Register_Security\<close>,
      \<^verbatim>\<open>Register_Refresh\<close> (\<^verbatim>\<open>register_session.go\<close>, \<^verbatim>\<open>sec_agree_decision.go\<close>,
      \<^verbatim>\<open>register_initial_security.go\<close>, \<^verbatim>\<open>register_refresh.go\<close>): the exchange of REGISTER
      requests with its challenges, what it decides about security, and its renewal.
    \<^item> \<^verbatim>\<open>Media_Codec\<close>, \<^verbatim>\<open>RTP_Audio\<close>, \<^verbatim>\<open>Call_SDP\<close>, \<^verbatim>\<open>Call_Requests\<close>,
      \<^verbatim>\<open>Call_State\<close> (\<^verbatim>\<open>imscore/call_runtime.go\<close>): voice payloads, the audio path, session
      descriptions, the requests of a call, and the operations on its state.  \<^verbatim>\<open>Call_Life\<close> is the step
      relation over these operations, with user, network and timers interleaved; an operation that waits
      for sockets or for the transport is two steps.
    \<^item> \<^verbatim>\<open>GSM7\<close>, \<^verbatim>\<open>SMS_Submit\<close>, \<^verbatim>\<open>SMS_Decode\<close>
      (\<^verbatim>\<open>device/sms_pdu.go\<close>), \<^verbatim>\<open>RP_Data\<close> (\<^verbatim>\<open>messaging/rpdata.go\<close>) and
      \<^verbatim>\<open>SMS_Transfer\<close>: alphabets, transfer units, relay envelopes, and what a receiver reads of what
      a sender prepared.
    \<^item> \<^verbatim>\<open>SIP_Runtime\<close> (\<^verbatim>\<open>imscore/transport_runtime.go\<close>): the runtime below calls and
      messages, the health of the protected connection and its heartbeat, subscriptions, inbound connections and where a
      request goes.  \<^verbatim>\<open>SMS_Runtime\<close> (\<^verbatim>\<open>sms_runtime.go\<close>): messages sent and taken in over it.
    \<^item> \<^verbatim>\<open>Socks5\<close> (\<^verbatim>\<open>socks5/socks5.go\<close>), \<^verbatim>\<open>Proxy_Transport\<close>
      (\<^verbatim>\<open>mobilecore/proxy.go\<close>): the tunnel through a SOCKS5 proxy.
    \<^item> \<^verbatim>\<open>Samples\<close>: the concrete values of the witnesses about the transport.

  \<^bold>\<open>State and operations.\<close>  A struct is a record with the fields of the code, a method a function
  from the state to its result and the new state, an error a constructor of the component's error type
  in a sum.  Mutexes make each method one step.  Go maps are association lists, integers have their
  width, \<^verbatim>\<open>int\<close> is an integer with the 64-bit range checked where text is parsed.

  \<^bold>\<open>Parameters.\<close>  The block ciphers and digests (\<^verbatim>\<open>crypto_ok\<close>: decryption inverts encryption
  and the sizes are the standard's), random numbers (\<^verbatim>\<open>rnd_ok\<close>: the number of bytes asked for), the
  clock, the tunnel below the dataplane, the national GSM tables, GB18030 and the Unicode tables, the AMR
  codec, the syntax check of URIs, and the arithmetic of \<^verbatim>\<open>float64\<close> (\<^verbatim>\<open>float_laws\<close>: the order is irreflexive and transitive) are
  arguments.

  \<^bold>\<open>Termination and bounds.\<close>  Every function is total.  Loops that are not structural carry a measure:
  the digits left of a number, the bytes left of a text or of an address, the units left of a message.
  Where the code counts its rounds, six of an authentication and four of a renewal, the model counts
  down.  The replay window has 64 numbers, the reassembler at most 64 sets, the queues of the
  pump their capacities, an SMS at most 255 parts, and sequence numbers end before they wrap.

  \<^bold>\<open>Not modelled.\<close>  Sockets, goroutines, timers and logging; the SIP message types and the transactions
  of the SIP library; the AMR codec and fax; the IKE and EAP exchanges; APDU exchanges with the card; the
  carrier tables; the facade exported to the applications.  Text outside ASCII in SIP headers is not
  case-folded by the model.
\<close>

section \<open>End to end\<close>

lemma sample_channel_step:
  obtains out h' t1' t2' where
    "outbound_whole sample_crypto sample_rnd (sample_header @ sample_payload) sample_sender = (Inr (Some (h' @ out)), t1')"
    "datagram h' out" "inbound_whole sample_crypto (h' @ out) sample_receiver = (Inr (Some (sample_header @ sample_payload)), t2')"
  using channel_step [OF sample_crypto_ok sample_rnd_ok sample_peers(1) sample_protects] sample_peers(2)
  by (metis zero_less_numeral)


definition sample_dataplane :: dataplane where
  "sample_dataplane = \<lparr>dp_transport = Some sample_sender, dp_inbound = [], dp_errors = [], dp_closed = False,
     dp_pump = Waiting, dp_outboundPackets = 0, dp_inboundPackets = 0, dp_inboundDropped = 0,
     dp_fragmentID = 7\<rparr>"

lemma sample_receiver_empty: "inFragments sample_receiver = []"
proof -
  have "inFragments t = []" if "NewTransport pol = Inr t" for pol t
    using that by (auto simp: NewTransport_def rbind_Inr_iff split: sum.splits)
  then show ?thesis using sample_transports(2) by blast
qed


text \<open>C6: In a session between two transports that share their keys, every datagram the sender's
  transform encrypts is handed out by the receiver's transform as it was sent, in order and with no
  error, until the sender's 32-bit sequence numbers are used up.\<close>

theorem session_lossless:
  assumes "crypto_ok cr" "peers t1 t2 i j" "sent t1 i + length turns < 4294967296"
    and "\<forall>(rnd, now1, now2, hp) \<in> set turns. rnd_ok rnd \<and> protects t1 i hp"
  shows "session cr t1 t2 turns = map (\<lambda>(rnd, now1, now2, h, p). Inr (Some (h @ p))) turns"
  by (rule session_delivers_all [OF assms])

theorem session_lossless_witness:
  "session sample_crypto sample_sender sample_receiver
     (replicate 5 (sample_rnd, 0, 1, sample_header, sample_payload)) =
   replicate 5 (Inr (Some (sample_header @ sample_payload)))"
  by (subst session_lossless [OF sample_crypto_ok sample_peers(1)])
    (use sample_protects sample_rnd_ok in \<open>auto simp: sample_peers(2)\<close>)

text \<open>C4: A fresh transport never hands out two packets with the same SPI and sequence number: a
  replayed ESP packet, whole or in fragments, is refused, whatever else the network sends.\<close>

theorem no_replayed_delivery:
  assumes "NewTransport pol = Inr t"
  shows "distinct (ids_run (rx_step cr) t packets)"
  using NewTransport_inv [OF assms] by (rule rx.delivered_distinct)

theorem no_replayed_delivery_witness: "distinct (ids_run (rx_step sample_crypto) sample_sender
    [(0, sample_header @ sample_payload), (1, sample_header @ sample_payload)])"
  by (rule no_replayed_delivery [OF sample_transports(1)])

text \<open>C2: No plaintext leak: a TCP or UDP packet from the local address and a protected local port
  leaves the outbound transform as an ESP packet of a matching flow, or not at all.\<close>

theorem outbound_never_plain:
  assumes "TransformOutbound cr rnd now packet (Some t) = (Inr (Some out), tp)"
    and "fst (process now (outFragments t) packet) = Inr (Some whole)"
    and "parseIPPacket whole = Inr q" "tcp_or_udp (nextHeader q)"
    and "ipEqual (ip_src q) (LocalIP (t_policy t))"
    and "list_ex (\<lambda>f. int (srcPort q) = LocalPort (tf_flow f)) (outbound t)"
  shows "\<exists>q' i. parseIPPacket out = Inr q' \<and> nextHeader q' = ipProtoESP \<and> matchOutbound t q = Some i \<and>
    fst (encapsulateTransport cr rnd (transportPayload q) (Some (tf_sa (outbound t ! i))) (nextHeader q)) =
      Inr (transportPayload q')"
proof -
  obtain fs where fs: "process now (outFragments t) packet = (Inr (Some whole), fs)"
    using assms(2) by (cases "process now (outFragments t) packet") auto
  obtain t' where o: "outbound_whole cr rnd whole (t\<lparr>outFragments := fs\<rparr>) = (Inr (Some out), t')"
    using assms(1) fs by (cases "outbound_whole cr rnd whole (t\<lparr>outFragments := fs\<rparr>)")
      (auto simp: TransformOutbound_def Let_def split: if_splits)
  obtain q' i where "parseIPPacket out = Inr q'" "nextHeader q' = ipProtoESP"
    "matchOutbound (t\<lparr>outFragments := fs\<rparr>) q = Some i"
    "fst (encapsulateTransport cr rnd (transportPayload q) (Some (tf_sa (outbound t ! i))) (nextHeader q)) =
       Inr (transportPayload q')"
  proof (rule outbound_protected [OF o assms(3,4)])
    show "ipEqual (ip_src q) (LocalIP (t_policy (t\<lparr>outFragments := fs\<rparr>)))" using assms(5) by simp
    show "list_ex (\<lambda>f. int (srcPort q) = LocalPort (tf_flow f)) (outbound (t\<lparr>outFragments := fs\<rparr>))"
      using assms(6) by simp
  qed auto
  then show ?thesis using assms(4) by (auto simp: matchOutbound_def)
qed

theorem outbound_never_plain_witness:
  "\<exists>out q'. fst (TransformOutbound sample_crypto sample_rnd 0 (sample_header @ sample_payload) (Some sample_sender)) =
     Inr (Some out) \<and> parseIPPacket out = Inr q' \<and> nextHeader q' = ipProtoESP"
proof -
  obtain out h' t1' where o:
    "outbound_whole sample_crypto sample_rnd (sample_header @ sample_payload) sample_sender = (Inr (Some (h' @ out)), t1')"
    by (rule sample_channel_step) blast
  have tr: "TransformOutbound sample_crypto sample_rnd 0 (sample_header @ sample_payload) (Some sample_sender) =
      (Inr (Some (h' @ out)), Some t1')"
    by (simp add: TransformOutbound_datagram [OF sample_datagram] o)
  obtain a b where t: "t_policy sample_sender = sample_policy" "outbound sample_sender = [a, b]"
    "tf_flow a = FlowC sample_policy" using NewTransport_outbound [OF sample_transports(1)] by blast
  have m: "matchOutbound sample_sender (parsed_of sample_header sample_payload) = Some 0"
    using sample_protects by (simp add: protects_def)
  note ms = matchOutbound_Some [OF m]
  have "\<exists>q' i. parseIPPacket (h' @ out) = Inr q' \<and> nextHeader q' = ipProtoESP \<and>
      matchOutbound sample_sender (parsed_of sample_header sample_payload) = Some i \<and>
      fst (encapsulateTransport sample_crypto sample_rnd (transportPayload (parsed_of sample_header sample_payload))
        (Some (tf_sa (outbound sample_sender ! i))) (nextHeader (parsed_of sample_header sample_payload))) =
      Inr (transportPayload q')"
  proof (rule outbound_never_plain [OF tr _ datagram_parse [OF sample_datagram] ms(1,3)])
    show "list_ex (\<lambda>f. int (srcPort (parsed_of sample_header sample_payload)) = LocalPort (tf_flow f))
        (outbound sample_sender)"
      using ms(5) t(2) by simp
  qed (simp add: datagram_whole [OF sample_datagram])
  then show ?thesis using tr by auto
qed

text \<open>C3: What the inbound transform hands out for a protected local port came in as an ESP packet from
  the peer, under an SPI of this transport and with a valid digest: plaintext sent to a protected port
  is never delivered.\<close>

theorem inbound_only_authenticated:
  assumes "TransformInbound cr now packet (Some t) = (Inr (Some out), tp)"
    and "parseIPPacket out = Inr q" "tcp_or_udp (nextHeader q)" "ipEqual (ip_dst q) (LocalIP (t_policy t))"
    and "list_ex (\<lambda>f. int (dstPort q) = LocalPort (tf_flow f)) (outbound t)"
  shows "\<exists>whole w spi seq i plain. fst (process now (inFragments t) packet) = Inr (Some whole) \<and>
    parseIPPacket whole = Inr w \<and> nextHeader w = ipProtoESP \<and> ipEqual (ip_src w) (RemoteIP (t_policy t)) \<and>
    parseESPSPISeq (transportPayload w) = Inr (spi, seq) \<and> map_of (inbound t) spi = Some i \<and>
    decapsulateTransport cr (transportPayload w) (cloneSAForInbound (Some (tf_sa (outbound t ! i))) spi) = Inr plain"
proof -
  obtain whole fs where fs: "process now (inFragments t) packet = (Inr (Some whole), fs)"
    using assms(1) by (cases "process now (inFragments t) packet")
      (auto simp: TransformInbound_def Let_def split: if_splits sum.splits option.splits)
  obtain t' where o: "inbound_whole cr whole (t\<lparr>inFragments := fs\<rparr>) = (Inr (Some out), t')"
    using assms(1) fs by (cases "inbound_whole cr whole (t\<lparr>inFragments := fs\<rparr>)")
      (auto simp: TransformInbound_def Let_def split: if_splits)
  have p: "ipEqual (ip_dst q) (LocalIP (t_policy (t\<lparr>inFragments := fs\<rparr>)))"
    "list_ex (\<lambda>f. int (dstPort q) = LocalPort (tf_flow f)) (outbound (t\<lparr>inFragments := fs\<rparr>))"
    using assms(4,5) by simp_all
  show ?thesis
    by (rule inbound_protected [OF o assms(2,3) p]) (use fs in auto)
qed

text \<open>The packet the sample sender makes of the sample datagram.\<close>

definition sample_esp :: bytes where
  "sample_esp = (case fst (outbound_whole sample_crypto sample_rnd (sample_header @ sample_payload) sample_sender) of
     Inr (Some out) \<Rightarrow> out | _ \<Rightarrow> [])"

theorem inbound_only_authenticated_witness:
  "\<exists>w. parseIPPacket sample_esp = Inr w \<and> nextHeader w = ipProtoESP"
proof -
  obtain out h' t1' t2' where o:
    "outbound_whole sample_crypto sample_rnd (sample_header @ sample_payload) sample_sender = (Inr (Some (h' @ out)), t1')"
    "datagram h' out"
    "inbound_whole sample_crypto (h' @ out) sample_receiver = (Inr (Some (sample_header @ sample_payload)), t2')"
    by (rule sample_channel_step) blast
  have esp: "sample_esp = h' @ out" by (simp add: sample_esp_def o(1))
  have tr: "TransformInbound sample_crypto 0 (h' @ out) (Some sample_receiver) =
      (Inr (Some (sample_header @ sample_payload)), Some t2')"
    by (simp add: TransformInbound_datagram [OF o(2)] o(3))
  obtain a b where t: "t_policy sample_receiver = mirror_policy sample_policy" "outbound sample_receiver = [a, b]"
    "tf_flow a = mirror_flow (FlowC sample_policy)"
    using NewTransport_outbound [OF sample_transports(2)] by (auto simp: mirror_policy_def)
  obtain c d where u: "t_policy sample_sender = sample_policy" "outbound sample_sender = [c, d]"
    "tf_flow c = FlowC sample_policy" using NewTransport_outbound [OF sample_transports(1)] by blast
  have m: "matchOutbound sample_sender (parsed_of sample_header sample_payload) = Some 0"
    using sample_protects by (simp add: protects_def)
  note ms = matchOutbound_Some [OF m]
  have "\<exists>whole w spi seq i plain. fst (process 0 (inFragments sample_receiver) (h' @ out)) = Inr (Some whole) \<and>
      parseIPPacket whole = Inr w \<and> nextHeader w = ipProtoESP \<and>
      ipEqual (ip_src w) (RemoteIP (t_policy sample_receiver)) \<and>
      parseESPSPISeq (transportPayload w) = Inr (spi, seq) \<and> map_of (inbound sample_receiver) spi = Some i \<and>
      decapsulateTransport sample_crypto (transportPayload w)
        (cloneSAForInbound (Some (tf_sa (outbound sample_receiver ! i))) spi) = Inr plain"
  proof (rule inbound_only_authenticated [OF tr datagram_parse [OF sample_datagram] ms(1)])
    show "ipEqual (ip_dst (parsed_of sample_header sample_payload)) (LocalIP (t_policy sample_receiver))"
      using ms(4) by (simp add: t u mirror_policy_def)
    show "list_ex (\<lambda>f. int (dstPort (parsed_of sample_header sample_payload)) = LocalPort (tf_flow f))
        (outbound sample_receiver)"
      using ms(6) by (simp add: t u mirror_flow_def)
  qed
  then show ?thesis by (auto simp: esp datagram_whole [OF o(2)])
qed

text \<open>Between two associations with the same algorithms and keys, decapsulation gives back the
  payload and the protocol that were encapsulated, under the next sequence number; ESP adds at most 53
  bytes.\<close>

theorem esp_decapsulates:
  assumes "crypto_ok cr" "sa_ok sa" "rnd_ok rnd" "sa_match sa peer" "SequenceNumber sa < 0xFFFFFFFF"
  shows "\<exists>out. encapsulateTransport cr rnd pt (Some sa) nh =
      (Inr out, Some (sa\<lparr>SequenceNumber := SequenceNumber sa + 1\<rparr>)) \<and>
    parseESPSPISeq out = Inr (SPI sa, ucast (SequenceNumber sa + 1)) \<and>
    decapsulateTransport cr out (cloneSAForInbound (Some peer) spi) = Inr (pt, nh) \<and> length out \<le> length pt + 53"
  by (rule esp_roundtrip [OF assms, of pt nh spi]) blast

theorem esp_decapsulates_witness:
  "\<exists>out. fst (encapsulateTransport sample_crypto sample_rnd [1, 2, 3] (Some (tf_sa (outbound sample_sender ! 0))) 17) =
      Inr out \<and>
    decapsulateTransport sample_crypto out
      (cloneSAForInbound (Some (tf_sa (outbound sample_receiver ! 0))) 9) = Inr ([1, 2, 3], 17)"
proof -
  have sa: "sa_ok (tf_sa (outbound sample_sender ! 0))"
    "sa_match (tf_sa (outbound sample_sender ! 0)) (tf_sa (outbound sample_receiver ! 0))"
    using sample_peers(1) by (simp_all add: peers_def)
  have "SequenceNumber (tf_sa (outbound sample_sender ! 0)) < 0xFFFFFFFF"
    using sample_peers(2) by (simp add: sent_def unat_eq_zero)
  from esp_decapsulates [OF sample_crypto_ok sa(1) sample_rnd_ok sa(2) this, of "[1, 2, 3]" 17 9]
  show ?thesis by fastforce
qed


definition sample_long_header :: bytes where
  "sample_long_header = [0x60, 0, 0, 0, 0x0b, 0xb8, 50, 64] @ sample_local @ sample_remote"


section \<open>The receive pump\<close>

text \<open>C8: In every run of the dataplane its queues stay within their capacities, and the packets the
  pump has produced are the packets the consumer has read, those still queued and the one the pump
  holds, in the order of their arrival; only the one packet the pump holds when the dataplane is
  closed can be lost.\<close>

theorem pump_keeps_order:
  assumes "dp_run cr d evs outs d'" "dp_inv d" "dp_pump d = Waiting" "dp_inbound d = []"
    and "\<forall>t. DoInstall t \<in> set evs \<longrightarrow> tr_inv t"
  shows "length (dp_inbound d') \<le> 512 \<and> length (dp_errors d') \<le> 16 \<and> in_order evs outs d'"
  using dp_run_ok [OF assms] by (simp add: dp_inv_def inbound_capacity_def errors_capacity_def)

theorem pump_keeps_order_witness:
  "\<exists>d d'. NewTransformingDataplane True True 0 = Inr d \<and> dp_run sample_crypto d [Receive 0 [7], Enqueue, ReadPacket [7]] [[7]] d' \<and>
     in_order [Receive 0 [7], Enqueue, ReadPacket [7]] [[7]] d'"
proof -
  define d where "d = \<lparr>dp_transport = None, dp_inbound = [], dp_errors = [], dp_closed = False,
    dp_pump = Waiting, dp_outboundPackets = 0, dp_inboundPackets = 0, dp_inboundDropped = 0,
    dp_fragmentID = 0\<rparr>"
  define d1 where "d1 = pump_receive sample_crypto 0 [7] d"
  define d2 where "d2 = d1\<lparr>dp_pump := Waiting, dp_inbound := dp_inbound d1 @ [[7]],
    dp_inboundPackets := dp_inboundPackets d1 + 1\<rparr>"
  define d3 where "d3 = d2\<lparr>dp_inbound := []\<rparr>"
  have d1: "dp_pump d1 = Holding [7]" "dp_inbound d1 = []" by (simp_all add: d1_def d_def pump_receive_def)
  have s1: "dp_step sample_crypto d (Receive 0 [7]) d1"
    unfolding d1_def by (rule dp_step.receive) (simp add: d_def)
  have s2: "dp_step sample_crypto d1 Enqueue d2"
    unfolding d2_def by (rule dp_step.enqueue [OF d1(1)]) (simp add: d1 inbound_capacity_def)
  have s3: "dp_step sample_crypto d2 (ReadPacket [7]) d3"
    unfolding d3_def by (rule dp_step.read_packet) (simp add: d2_def d1)
  have out: "produced (Receive 0 [7]) d1 = [[7]]" "produced Enqueue d2 = []" "produced (ReadPacket [7]) d3 = []"
    by (simp_all add: produced_def held_def d1)
  from dp_run.step [OF dp_run.step [OF dp_run.step [OF dp_run.start s1] s2] s3]
  have run: "dp_run sample_crypto d [Receive 0 [7], Enqueue, ReadPacket [7]] [[7]] d3" by (simp add: out)
  have "in_order [Receive 0 [7], Enqueue, ReadPacket [7]] [[7]] d3"
    using pump_keeps_order [OF run] by (simp add: dp_inv_def d_def)
  moreover have "NewTransformingDataplane True True 0 = Inr d" by (simp add: NewTransformingDataplane_def d_def)
  ultimately show ?thesis using run by blast
qed

text \<open>A closed dataplane stays closed whatever happens, hands nothing to the tunnel, and its pump
  can always stop and never runs again once it has stopped.\<close>

theorem closed_dataplane_is_final:
  assumes "dp_inv d" "dp_closed d"
  shows "(\<forall>ev d'. dp_step cr d ev d' \<longrightarrow> dp_closed d' \<and> (dp_pump d = Stopped \<longrightarrow> dp_pump d' = Stopped)) \<and>
    SendInnerPacket cr rnd now accepts packet (Some d) = (Some NetClosed, [], Some d) \<and>
    (dp_pump d \<noteq> Stopped \<longrightarrow> dp_step cr d PumpSeesClosed (d\<lparr>dp_pump := Stopped\<rparr>))"
  using assms closed_step closed_can_stop by (auto simp: SendInnerPacket_def)

theorem closed_dataplane_is_final_witness:
  "dp_step sample_crypto (sample_dataplane\<lparr>dp_closed := True\<rparr>) PumpSeesClosed
     (sample_dataplane\<lparr>dp_closed := True, dp_pump := Stopped\<rparr>)"
proof -
  have "dp_inv (sample_dataplane\<lparr>dp_closed := True\<rparr>)"
    using NewTransport_inv [OF sample_transports(1)] by (simp add: dp_inv_def sample_dataplane_def)
  from closed_dataplane_is_final [OF this, of sample_crypto] show ?thesis
    by (simp add: sample_dataplane_def)
qed

section \<open>Negotiation\<close>



end
